(* ===== verification/Prelude.thy ===== *)
theory Prelude
  imports Main "HOL-Library.AList" "HOL-Library.Multiset" "HOL-Library.Word"
begin

text \<open>
  Shared vocabulary of the development: Go errors as values, Go maps and the unspecified
  order of a \<^verbatim>\<open>range\<close> over them, the state-and-error computations in which the
  reconcilers are written, and a weakest-precondition calculus for these computations.
\<close>

named_theorems io_simps \<open>equations that evaluate state-and-error computations\<close>
named_theorems wp_rules \<open>weakest-precondition equations\<close>
named_theorems gomap_simps \<open>lookups in Go maps after an update\<close>

section \<open>Errors\<close>

text \<open>
  A Go function that returns \<^verbatim>\<open>(T, error)\<close> is modelled by a value of
  \<open>go_error + T\<close>. \<open>NotFound\<close> is the error that \<^verbatim>\<open>errors.IsNotFound\<close>
  recognises; \<open>Conflict\<close> is the answer to a write that was built on an object which has
  changed since; \<open>ApiError\<close> is any other error of a library the program calls; the others
  are the errors the program (or Go's standard library) builds itself. \<open>GoPanic\<close> is an
  out-of-range index.
\<close>

datatype go_error =
    NotFound
  | Conflict
  | ApiError string
  | RelayPortExhausted
  | InvalidIP string
  | NotIPv4 string
  | NoPodIP
  | ForwarderStillExists
  | AddrError string
  | NumError string
  | GoPanic

type_synonym 'a result = "go_error + 'a"

definition rbind :: "'a result \<Rightarrow> ('a \<Rightarrow> 'b result) \<Rightarrow> 'b result" where
  "rbind r f = (case r of Inl e \<Rightarrow> Inl e | Inr x \<Rightarrow> f x)"

lemma rbind_simps [simp]:
  "rbind (Inl e) f = Inl e"
  "rbind (Inr x) f = f x"
  by (simp_all add: rbind_def)

lemma rbind_Inr_iff: "rbind r f = Inr y \<longleftrightarrow> (\<exists>x. r = Inr x \<and> f x = Inr y)"
  by (cases r) auto

lemma rbind_Inl_iff: "rbind r f = Inl e \<longleftrightarrow> r = Inl e \<or> (\<exists>x. r = Inr x \<and> f x = Inl e)"
  by (cases r) auto

section \<open>Go maps and range\<close>

text \<open>
  A Go map with string keys is an association list with distinct keys. The order in which
  \<^verbatim>\<open>range\<close> visits the keys is not specified by Go and differs from loop to loop, so a
  function that ranges over a map takes that order as an argument: a function from the list
  of keys to the list in which they are visited. Theorems assume only that it is a
  permutation (\<open>range_order\<close>).
\<close>

type_synonym 'v gomap = "(string \<times> 'v) list"
type_synonym key_order = "string list \<Rightarrow> string list"

definition range_order :: "key_order \<Rightarrow> bool" where
  "range_order ord \<longleftrightarrow> (\<forall>ks. mset (ord ks) = mset ks)"

definition gkeys :: "'v gomap \<Rightarrow> string list" where
  "gkeys m = map fst m"

definition gomap_ok :: "'v gomap \<Rightarrow> bool" where
  "gomap_ok m \<longleftrightarrow> distinct (gkeys m)"

definition gset :: "string \<Rightarrow> 'v \<Rightarrow> 'v gomap \<Rightarrow> 'v gomap" where
  "gset k v m = AList.update k v m"

definition gdel :: "string \<Rightarrow> 'v gomap \<Rightarrow> 'v gomap" where
  "gdel k m = AList.delete k m"

definition grange :: "key_order \<Rightarrow> 'v gomap \<Rightarrow> (string \<times> 'v) list" where
  "grange ord m = map (\<lambda>k. (k, the (map_of m k))) (ord (gkeys m))"

lemma map_of_gset [simp, gomap_simps]: "map_of (gset k v m) = (map_of m)(k \<mapsto> v)"
  by (simp add: gset_def update_conv')

lemma map_of_gdel [simp, gomap_simps]: "map_of (gdel k m) = (map_of m)(k := None)"
  by (simp add: gdel_def delete_conv')

lemma gomap_ok_Nil [simp]: "gomap_ok []"
  by (simp add: gomap_ok_def gkeys_def)

lemma gomap_ok_gset [simp]: "gomap_ok m \<Longrightarrow> gomap_ok (gset k v m)"
  by (simp add: gomap_ok_def gkeys_def gset_def distinct_update)

lemma gomap_ok_gdel [simp]: "gomap_ok m \<Longrightarrow> gomap_ok (gdel k m)"
  by (simp add: gomap_ok_def gkeys_def gdel_def distinct_delete)

lemma set_gkeys: "set (gkeys m) = dom (map_of m)"
  by (simp add: gkeys_def dom_map_of_conv_image_fst)

lemma set_gkeys_gset [simp]: "set (gkeys (gset k v m)) = insert k (set (gkeys m))"
  by (simp add: set_gkeys)

lemma range_order_id [simp]: "range_order (\<lambda>ks. ks)"
  by (simp add: range_order_def)

lemma range_order_rev [simp]: "range_order rev"
  by (simp add: range_order_def)

lemma set_range_order: "range_order ord \<Longrightarrow> set (ord ks) = set ks"
  unfolding range_order_def by (metis set_mset_mset)

lemma distinct_range_order: "range_order ord \<Longrightarrow> distinct (ord ks) = distinct ks"
  unfolding range_order_def by (metis mset_eq_imp_distinct_iff)

text \<open>A range visits exactly the entries of the map, each once.\<close>

lemma set_grange: "range_order ord \<Longrightarrow> set (grange ord m) = {(k, v). map_of m k = Some v}"
  by (auto simp: grange_def set_range_order set_gkeys)

lemma fst_grange_set: "range_order ord \<Longrightarrow> fst ` set (grange ord m) = dom (map_of m)"
  by (force simp: set_grange)

lemma distinct_grange:
  "range_order ord \<Longrightarrow> gomap_ok m \<Longrightarrow> distinct (map fst (grange ord m))"
  by (simp add: grange_def gomap_ok_def distinct_range_order comp_def)

lemma map_of_grange:
  assumes "range_order ord" and "gomap_ok m"
  shows "map_of (grange ord m) = map_of m"
proof -
  have "set (grange ord m) = set m"
    using assms by (auto simp: set_grange gomap_ok_def gkeys_def map_of_eq_Some_iff)
  with assms show ?thesis
    by (intro map_of_inject_set [THEN iffD2] distinct_grange)
       (simp_all add: gomap_ok_def gkeys_def)
qed

section \<open>State-and-error computations\<close>

text \<open>
  A function that talks to the outside world is a function of a world state \<open>'w\<close> that
  returns its result or error and the next world. Nothing is assumed about \<open>'w\<close>.
\<close>

type_synonym ('w, 'a) io = "'w \<Rightarrow> 'a result \<times> 'w"

definition ret :: "'a \<Rightarrow> ('w, 'a) io" where
  "ret x = (\<lambda>w. (Inr x, w))"

definition fail :: "go_error \<Rightarrow> ('w, 'a) io" where
  "fail e = (\<lambda>w. (Inl e, w))"

text \<open>\<open>andThen m f\<close> is \<^verbatim>\<open>x, err := m(); if err != nil { return err }; f(x)\<close>.\<close>

definition andThen :: "('w, 'a) io \<Rightarrow> ('a \<Rightarrow> ('w, 'b) io) \<Rightarrow> ('w, 'b) io" where
  "andThen m f = (\<lambda>w. case m w of (Inl e, w') \<Rightarrow> (Inl e, w') | (Inr x, w') \<Rightarrow> f x w')"

text \<open>\<open>attempt m\<close> keeps the error as a value, for code that inspects \<^verbatim>\<open>err\<close> itself.\<close>

definition attempt :: "('w, 'a) io \<Rightarrow> ('w, 'a result) io" where
  "attempt m = (\<lambda>w. case m w of (r, w') \<Rightarrow> (Inr r, w'))"

definition lift_result :: "'a result \<Rightarrow> ('w, 'a) io" where
  "lift_result r = (\<lambda>w. (r, w))"

text \<open>
  A loop over a slice that carries a state and returns at the first error.
\<close>

primrec foldE :: "('a \<Rightarrow> 's \<Rightarrow> ('w, 's) io) \<Rightarrow> 'a list \<Rightarrow> 's \<Rightarrow> ('w, 's) io" where
  "foldE f [] s = ret s"
| "foldE f (x # xs) s = andThen (f x s) (foldE f xs)"

primrec foldR :: "('a \<Rightarrow> 's \<Rightarrow> 's result) \<Rightarrow> 'a list \<Rightarrow> 's \<Rightarrow> 's result" where
  "foldR f [] s = Inr s"
| "foldR f (x # xs) s = rbind (f x s) (foldR f xs)"

lemma io_eval [io_simps]:
  "ret x w = (Inr x, w)"
  "fail e w = (Inl e, w)"
  "lift_result r w = (r, w)"
  "andThen m f w = (case m w of (Inl e, w') \<Rightarrow> (Inl e, w') | (Inr x, w') \<Rightarrow> f x w')"
  "attempt m w = (case m w of (r, w') \<Rightarrow> (Inr r, w'))"
  by (simp_all add: ret_def fail_def lift_result_def andThen_def attempt_def)

lemma andThen_Inr:
  "andThen m f w = (Inr y, w') \<longleftrightarrow> (\<exists>x w1. m w = (Inr x, w1) \<and> f x w1 = (Inr y, w'))"
  by (auto simp: andThen_def split: prod.splits sum.splits)

lemma ret_Inr: "ret x w = (Inr y, w') \<longleftrightarrow> y = x \<and> w' = w"
  by (auto simp: ret_def)

lemma attempt_Inr: "attempt m w = (Inr r, w') \<longleftrightarrow> m w = (r, w')"
  by (auto simp: attempt_def split: prod.splits)

lemma fail_Inr [simp]: "fail e w \<noteq> (Inr y, w')"
  by (simp add: fail_def)

text \<open>How a computation that succeeds ran: \<open>auto simp: run_Inr\<close> splits it into its steps.\<close>

lemmas run_Inr = andThen_Inr ret_Inr attempt_Inr

lemma andThen_assoc: "andThen (andThen m f) g = andThen m (\<lambda>x. andThen (f x) g)"
  by (auto simp: andThen_def fun_eq_iff split: prod.splits sum.splits)

lemma andThen_ret [simp]: "andThen (ret x) f = f x" "andThen m ret = m"
  by (auto simp: andThen_def ret_def fun_eq_iff split: prod.splits sum.splits)

lemma andThen_fail [simp]: "andThen (fail e) f = fail e"
  by (simp add: andThen_def fail_def)

subsection \<open>Weakest preconditions\<close>

text \<open>
  \<open>wp m Q E w\<close>: run from \<open>w\<close>, \<open>m\<close> either returns a value and a world that satisfy
  \<open>Q\<close>, or an error and a world that satisfy \<open>E\<close>.
\<close>

definition wp :: "('w, 'a) io \<Rightarrow> ('a \<Rightarrow> 'w \<Rightarrow> bool) \<Rightarrow> (go_error \<Rightarrow> 'w \<Rightarrow> bool) \<Rightarrow> 'w \<Rightarrow> bool" where
  "wp m Q E w = (case m w of (Inl e, w') \<Rightarrow> E e w' | (Inr x, w') \<Rightarrow> Q x w')"

lemma wp_ret [wp_rules]: "wp (ret x) Q E w \<longleftrightarrow> Q x w"
  by (simp add: wp_def ret_def)

lemma wp_fail [wp_rules]: "wp (fail e) Q E w \<longleftrightarrow> E e w"
  by (simp add: wp_def fail_def)

lemma wp_lift_result [wp_rules]:
  "wp (lift_result r) Q E w \<longleftrightarrow> (case r of Inl e \<Rightarrow> E e w | Inr x \<Rightarrow> Q x w)"
  by (simp add: wp_def lift_result_def split: sum.split)

lemma wp_andThen [wp_rules]:
  "wp (andThen m f) Q E w \<longleftrightarrow> wp m (\<lambda>x. wp (f x) Q E) E w"
  by (simp add: wp_def andThen_def split: prod.split sum.split)

lemma wp_attempt [wp_rules]:
  "wp (attempt m) Q E w \<longleftrightarrow> wp m (\<lambda>x. Q (Inr x)) (\<lambda>e. Q (Inl e)) w"
  by (simp add: wp_def attempt_def split: prod.split sum.split)

lemma wp_mono:
  assumes "wp m Q E w"
    and "\<And>x w'. Q x w' \<Longrightarrow> Q' x w'"
    and "\<And>e w'. E e w' \<Longrightarrow> E' e w'"
  shows "wp m Q' E' w"
  using assms by (auto simp: wp_def split: prod.splits sum.splits)

lemma wp_conj:
  "wp m Q E w \<Longrightarrow> wp m Q' E' w \<Longrightarrow> wp m (\<lambda>x w. Q x w \<and> Q' x w) (\<lambda>e w. E e w \<and> E' e w) w"
  by (auto simp: wp_def split: prod.splits sum.splits)

lemma wp_Inr: "wp m Q E w \<Longrightarrow> m w = (Inr x, w') \<Longrightarrow> Q x w'"
  by (simp add: wp_def)

lemma wp_okI: "(\<And>x w'. m w = (Inr x, w') \<Longrightarrow> Q x w') \<Longrightarrow> wp m Q (\<lambda>_ _. True) w"
  by (auto simp: wp_def split: prod.splits sum.splits)

text \<open>The invariant rule for loops over a slice.\<close>

lemma wp_foldE:
  assumes "I s w"
    and "\<And>x s w. x \<in> set xs \<Longrightarrow> I s w \<Longrightarrow> wp (f x s) I E w"
  shows "wp (foldE f xs s) I E w"
  using assms
proof (induction xs arbitrary: s w)
  case Nil
  then show ?case by (simp add: wp_rules)
next
  case (Cons x xs)
  have "wp (f x s) I E w" using Cons.prems by simp
  then have "wp (f x s) (\<lambda>s'. wp (foldE f xs s') I E) E w"
    by (rule wp_mono) (use Cons in auto)
  then show ?case by (simp add: wp_rules)
qed

text \<open>A loop succeeds when every round does.\<close>

lemma foldE_total:
  assumes "I w"
    and "\<And>x s w. x \<in> set xs \<Longrightarrow> I w \<Longrightarrow> \<exists>s' w'. f x s w = (Inr s', w') \<and> I w'"
  shows "\<exists>s' w'. foldE f xs s w = (Inr s', w') \<and> I w'"
  using assms
proof (induction xs arbitrary: s w)
  case Nil
  then show ?case by (simp add: ret_def)
next
  case (Cons x xs)
  from Cons.prems(2) [of x w s] Cons.prems(1) obtain s1 w1 where "f x s w = (Inr s1, w1)" and "I w1"
    by auto
  moreover from Cons.IH [OF \<open>I w1\<close>] Cons.prems(2) obtain s' w' where
    "foldE f xs s1 w1 = (Inr s', w')" and "I w'" by (metis list.set_intros(2))
  ultimately show ?case by (simp add: andThen_def)
qed

text \<open>The same for a loop without effects.\<close>

lemma foldR_inv:
  assumes "foldR f xs s = Inr t" and "I s"
    and "\<And>x s t. x \<in> set xs \<Longrightarrow> I s \<Longrightarrow> f x s = Inr t \<Longrightarrow> I t"
  shows "I t"
  using assms
proof (induction xs arbitrary: s)
  case Nil
  then show ?case by simp
next
  case (Cons x xs)
  from Cons.prems(1) obtain u where "f x s = Inr u" and "foldR f xs u = Inr t"
    by (auto simp: rbind_Inr_iff)
  moreover from this Cons.prems(2,3) have "I u" by auto
  ultimately show ?case using Cons.prems(3) by (intro Cons.IH [of u]) auto
qed

lemma foldR_error:
  assumes "foldR f xs s = Inl e" and "I s"
    and "\<And>x s t. x \<in> set xs \<Longrightarrow> I s \<Longrightarrow> f x s = Inr t \<Longrightarrow> I t"
  shows "\<exists>x s. x \<in> set xs \<and> I s \<and> f x s = Inl e"
  using assms
proof (induction xs arbitrary: s)
  case Nil
  then show ?case by simp
next
  case (Cons x xs)
  show ?case
  proof (cases "f x s")
    case (Inl e')
    with Cons.prems show ?thesis by auto
  next
    case (Inr u)
    with Cons.prems have "foldR f xs u = Inl e" and "I u" by auto
    then have "\<exists>y s. y \<in> set xs \<and> I s \<and> f y s = Inl e"
      using Cons.prems(3) by (intro Cons.IH [of u]) auto
    then show ?thesis by auto
  qed
qed

section \<open>Lists split at a separator\<close>

lemma takeWhile_sep: "c \<notin> set a \<Longrightarrow> takeWhile (\<lambda>y. y \<noteq> c) (a @ c # b) = a"
  by (induction a) auto

lemma takeWhile_rev_sep:
  "c \<notin> set b \<Longrightarrow> takeWhile (\<lambda>y. y \<noteq> c) (rev (a @ c # b)) = rev b"
  using takeWhile_sep [of c "rev b" "rev a"] by simp

lemma append_Cons_eq_last_sep:
  assumes "x \<notin> set b" and "x \<notin> set b'"
  shows "a @ x # b = a' @ x # b' \<longleftrightarrow> a = a' \<and> b = b'"
proof
  assume eq: "a @ x # b = a' @ x # b'"
  have "rev b = rev b'"
    using takeWhile_rev_sep [OF assms(1), of a] takeWhile_rev_sep [OF assms(2), of a'] eq
    by (simp del: rev_append)
  with eq show "a = a' \<and> b = b'" by simp
qed simp

end
