(* ===== verification/GoStd.thy ===== *)
theory GoStd
  imports Prelude
begin

text \<open>
  The parts of Go's standard library that the program calls: \<^verbatim>\<open>strconv.Itoa\<close>,
  \<^verbatim>\<open>strconv.Atoi\<close>, \<^verbatim>\<open>strings.Split\<close>, \<^verbatim>\<open>net.ParseIP\<close>,
  \<^verbatim>\<open>IP.To4\<close>, \<^verbatim>\<open>net.SplitHostPort\<close>, \<^verbatim>\<open>net.JoinHostPort\<close> and
  the verb \<^verbatim>\<open>%02x\<close> on a byte, for Go 1.13 (the version of go.mod) on a 64-bit
  machine. A Go string is a list of bytes, as an Isabelle \<open>string\<close> is.
\<close>

section \<open>Decimal numbers\<close>

definition dec_digit :: "nat \<Rightarrow> char" where
  "dec_digit n = char_of (48 + n)"

definition dec_value :: "char \<Rightarrow> nat option" where
  "dec_value c = (let n = of_char c in if 48 \<le> n \<and> n \<le> 57 then Some (n - 48) else None)"

fun utoa :: "nat \<Rightarrow> string" where
  "utoa n = (if n < 10 then [dec_digit n] else utoa (n div 10) @ [dec_digit (n mod 10)])"

declare utoa.simps [simp del]

definition Itoa :: "int \<Rightarrow> string" where
  "Itoa i = (if i < 0 then CHR ''-'' # utoa (nat (- i)) else utoa (nat i))"

fun atou :: "nat \<Rightarrow> string \<Rightarrow> nat option" where
  "atou acc [] = Some acc"
| "atou acc (c # cs) = (case dec_value c of None \<Rightarrow> None | Some d \<Rightarrow> atou (acc * 10 + d) cs)"

definition parse_uint :: "string \<Rightarrow> nat option" where
  "parse_uint s = (if s = [] then None else atou 0 s)"

definition Atoi :: "string \<Rightarrow> int result" where
  "Atoi s =
     (let neg = (s \<noteq> [] \<and> hd s = CHR ''-'');
          body = (if s \<noteq> [] \<and> (hd s = CHR ''-'' \<or> hd s = CHR ''+'') then tl s else s)
      in case parse_uint body of
           None \<Rightarrow> Inl (NumError s)
         | Some n \<Rightarrow>
             (let i = (if neg then - int n else int n)
              in if - (2 ^ 63) \<le> i \<and> i < 2 ^ 63 then Inr i else Inl (NumError s)))"

lemma dec_digit_evals:
  "dec_digit 0 = CHR ''0''" "dec_digit 1 = CHR ''1''" "dec_digit 2 = CHR ''2''"
  "dec_digit 3 = CHR ''3''" "dec_digit 4 = CHR ''4''" "dec_digit 5 = CHR ''5''"
  "dec_digit 6 = CHR ''6''" "dec_digit 7 = CHR ''7''" "dec_digit 8 = CHR ''8''"
  "dec_digit 9 = CHR ''9''" "dec_digit (Suc 0) = CHR ''1''"
  by code_simp+

lemma dec_value_digit [simp]: "n < 10 \<Longrightarrow> dec_value (dec_digit n) = Some n"
  by (simp add: dec_value_def dec_digit_def of_char_of)

lemma dec_digit_inj: "m < 10 \<Longrightarrow> n < 10 \<Longrightarrow> dec_digit m = dec_digit n \<longleftrightarrow> m = n"
  by (metis dec_value_digit option.inject)

lemma dec_value_None [simp]:
  "dec_value CHR ''-'' = None" "dec_value CHR ''+'' = None" "dec_value CHR '':'' = None"
  "dec_value CHR ''.'' = None" "dec_value CHR ''['' = None" "dec_value CHR '']'' = None"
  by (simp_all add: dec_value_def Let_def)

lemma utoa_nonempty [simp]: "utoa n \<noteq> []"
  by (subst utoa.simps) simp

lemma utoa_digits: "c \<in> set (utoa n) \<Longrightarrow> dec_value c \<noteq> None"
proof (induction n rule: utoa.induct)
  case (1 n)
  show ?case
  proof (cases "n < 10")
    case True
    with "1.prems" show ?thesis by (subst (asm) utoa.simps) simp
  next
    case False
    with "1.prems" have "c \<in> set (utoa (n div 10)) \<or> c = dec_digit (n mod 10)"
      by (subst (asm) utoa.simps) auto
    with "1.IH" False show ?thesis by auto
  qed
qed

lemma atou_append:
  "atou acc (xs @ ys) = (case atou acc xs of None \<Rightarrow> None | Some n \<Rightarrow> atou n ys)"
  by (induction xs arbitrary: acc) (auto split: option.split)

lemma atou_utoa: "atou 0 (utoa n) = Some n"
proof (induction n rule: utoa.induct)
  case (1 n)
  show ?case
  proof (cases "n < 10")
    case True
    then show ?thesis by (subst utoa.simps) simp
  next
    case False
    with "1.IH" have "atou 0 (utoa (n div 10)) = Some (n div 10)" by simp
    with False show ?thesis by (subst utoa.simps) (simp add: atou_append)
  qed
qed

lemma utoa_inject [simp]: "utoa m = utoa n \<longleftrightarrow> m = n"
  by (metis atou_utoa option.inject)

lemma parse_uint_utoa [simp]: "parse_uint (utoa n) = Some n"
  by (simp add: parse_uint_def atou_utoa)

lemma utoa_hd: "dec_value (hd (utoa n)) \<noteq> None"
  by (rule utoa_digits [of _ n]) simp

lemma utoa_hd_sign [simp]: "hd (utoa n) \<noteq> CHR ''-''" "hd (utoa n) \<noteq> CHR ''+''"
  using utoa_hd [of n] by auto

lemma utoa_no_special [simp]:
  "CHR '':'' \<notin> set (utoa n)" "CHR ''.'' \<notin> set (utoa n)"
  "CHR ''['' \<notin> set (utoa n)" "CHR '']'' \<notin> set (utoa n)"
  using utoa_digits [of _ n] by fastforce+

lemma Itoa_no_colon [simp]: "CHR '':'' \<notin> set (Itoa i)"
  by (simp add: Itoa_def)

lemma Itoa_no_bracket [simp]: "CHR ''['' \<notin> set (Itoa i)" "CHR '']'' \<notin> set (Itoa i)"
  by (simp_all add: Itoa_def)

lemma Itoa_nonempty [simp]: "Itoa i \<noteq> []"
  by (simp add: Itoa_def)

lemma Atoi_Itoa:
  assumes "- (2 ^ 63) \<le> i" and "i < 2 ^ 63"
  shows "Atoi (Itoa i) = Inr i"
  using assms by (auto simp: Atoi_def Itoa_def Let_def)

lemma Itoa_inject [simp]: "Itoa i = Itoa j \<longleftrightarrow> i = j"
proof
  assume eq: "Itoa i = Itoa j"
  have "(hd (Itoa k) = CHR ''-'') = (k < 0)" for k by (simp add: Itoa_def)
  with eq have "(i < 0) = (j < 0)" by metis
  with eq show "i = j" by (auto simp: Itoa_def split: if_splits)
qed simp

lemmas Itoa_eval = Itoa_def utoa.simps dec_digit_evals

section \<open>strings.Split\<close>

fun split_on :: "char \<Rightarrow> string \<Rightarrow> string list" where
  "split_on c [] = [[]]"
| "split_on c (x # xs) =
     (if x = c then [] # split_on c xs
      else (case split_on c xs of [] \<Rightarrow> [[x]] | p # ps \<Rightarrow> (x # p) # ps))"

lemma split_on_nonempty [simp]: "split_on c s \<noteq> []"
  by (induction s) (auto split: list.split)

lemma split_on_free [simp]: "c \<notin> set s \<Longrightarrow> split_on c s = [s]"
  by (induction s) auto

lemma split_on_sep [simp]: "c \<notin> set a \<Longrightarrow> split_on c (a @ c # b) = a # split_on c b"
  by (induction a) auto

lemma length_split_on: "length (split_on c s) = Suc (count_list s c)"
proof (induction s)
  case Nil
  then show ?case by simp
next
  case (Cons x s)
  then show ?case by (cases "split_on c s") auto
qed

section \<open>Bytes in hexadecimal\<close>

type_synonym byte = "8 word"

definition hex_digit :: "nat \<Rightarrow> char" where
  "hex_digit n = (if n < 10 then char_of (48 + n) else char_of (87 + n))"

definition hex_value :: "char \<Rightarrow> nat option" where
  "hex_value c =
     (let n = of_char c
      in if 48 \<le> n \<and> n \<le> 57 then Some (n - 48)
         else if 97 \<le> n \<and> n \<le> 102 then Some (n - 87)
         else if 65 \<le> n \<and> n \<le> 70 then Some (n - 55)
         else None)"

definition hex02 :: "byte \<Rightarrow> string" where
  "hex02 b = [hex_digit (unat b div 16), hex_digit (unat b mod 16)]"

lemma hex_value_digit [simp]: "n < 16 \<Longrightarrow> hex_value (hex_digit n) = Some n"
  by (auto simp: hex_value_def hex_digit_def of_char_of Let_def)

lemma hex_digit_inj: "m < 16 \<Longrightarrow> n < 16 \<Longrightarrow> hex_digit m = hex_digit n \<longleftrightarrow> m = n"
  by (metis hex_value_digit option.inject)

lemma unat_byte_less: "unat (b :: byte) < 256"
  using unsigned_less [of b, where 'a = nat] by simp

lemma hex02_inject [simp]: "hex02 a = hex02 b \<longleftrightarrow> a = b"
proof
  assume "hex02 a = hex02 b"
  moreover have "unat a div 16 < 16" "unat b div 16 < 16"
    using unat_byte_less [of a] unat_byte_less [of b] by auto
  ultimately have "unat a div 16 = unat b div 16" and "unat a mod 16 = unat b mod 16"
    by (auto simp: hex02_def hex_digit_inj)
  then have "unat a = unat b" by (metis div_mult_mod_eq)
  then show "a = b" by (simp add: word_unat_eq_iff)
qed simp

lemma length_hex02 [simp]: "length (hex02 b) = 2"
  by (simp add: hex02_def)

end
