(* ===== verification/Types.thy ===== *)
theory Types
  imports GoStd
begin

text \<open>
  The data of the program: the custom resources of \<^verbatim>\<open>pkg/apis/submariner/v1alpha1\<close>,
  the fields of the Kubernetes objects (Pod, Service, Endpoints) the program reads or writes,
  and the libraries it calls, as records of functions that every definition takes as an
  argument. A field of a Go struct \<^verbatim>\<open>T.F\<close> is \<open>t_F\<close> with a short prefix for the
  struct, because different structs share field names.
\<close>

section \<open>Object metadata\<close>

record nsname =
  nn_Namespace :: string
  nn_Name :: string

record object_meta =
  m_Namespace :: string
  m_Name :: string
  m_Labels :: "string gomap"
  m_Finalizers :: "string list"
  m_DeletionTimestamp :: "int option"
  m_ResourceVersion :: string

definition meta :: "string \<Rightarrow> string \<Rightarrow> object_meta" where
  "meta namespace name =
     \<lparr>m_Namespace = namespace, m_Name = name, m_Labels = [], m_Finalizers = [],
      m_DeletionTimestamp = None, m_ResourceVersion = []\<rparr>"

definition meta_key :: "object_meta \<Rightarrow> nsname" where
  "meta_key m = \<lparr>nn_Namespace = m_Namespace m, nn_Name = m_Name m\<rparr>"

lemma nsname_eta [simp]: "\<lparr>nn_Namespace = nn_Namespace n, nn_Name = nn_Name n\<rparr> = (n :: nsname)"
  by (cases n) simp

lemma meta_simps [simp]:
  "m_Namespace (meta a b) = a" "m_Name (meta a b) = b" "m_Labels (meta a b) = []"
  "m_Finalizers (meta a b) = []" "m_DeletionTimestamp (meta a b) = None"
  "m_ResourceVersion (meta a b) = []"
  "meta_key (meta a b) = \<lparr>nn_Namespace = a, nn_Name = b\<rparr>"
  by (simp_all add: meta_def meta_key_def)

lemma meta_key_updates [simp]:
  "meta_key (m\<lparr>m_ResourceVersion := rv\<rparr>) = meta_key m"
  "meta_key (m\<lparr>m_Finalizers := fs\<rparr>) = meta_key m"
  "meta_key (m\<lparr>m_DeletionTimestamp := t\<rparr>) = meta_key m"
  by (simp_all add: meta_key_def)

section \<open>ExternalService\<close>

record service_ref =
  sref_Namespace :: string
  sref_Name :: string

record source =
  src_Service :: service_ref
  src_SourceIP :: string

datatype int_or_string = IntVal "32 word" | StrVal string

record service_port =
  sp_Name :: string
  sp_Protocol :: string
  sp_Port :: "32 word"
  sp_TargetPort :: int_or_string

record external_service_spec =
  es_TargetIP :: string
  es_Sources :: "source list"
  es_Ports :: "service_port list"

record external_service =
  es_Meta :: object_meta
  es_Spec :: external_service_spec

section \<open>Forwarder\<close>

record gateway_ref =
  gwref_Namespace :: string
  gwref_Name :: string

record forwarder_rule =
  fr_Protocol :: string
  fr_SourceIP :: string
  fr_TargetPort :: string
  fr_DestinationIP :: string
  fr_DestinationPort :: string
  fr_Gateway :: gateway_ref
  fr_GatewayIP :: string
  fr_RelayPort :: string

record forwarder_spec =
  fwd_EgressRules :: "forwarder_rule list"
  fwd_IngressRules :: "forwarder_rule list"
  fwd_ForwarderIP :: string

record 'c forwarder_status =
  fwd_Conditions :: 'c
  fwd_RuleGeneration :: "64 word"
  fwd_SyncGeneration :: "64 word"

record 'c forwarder =
  fwd_Meta :: object_meta
  fwd_Spec :: forwarder_spec
  fwd_Status :: "'c forwarder_status"

section \<open>Gateway\<close>

record forwarder_ref =
  fwdref_Namespace :: string
  fwdref_Name :: string

record gateway_rule =
  gr_Protocol :: string
  gr_SourceIP :: string
  gr_TargetPort :: string
  gr_DestinationPort :: string
  gr_DestinationIP :: string
  gr_Forwarder :: forwarder_ref
  gr_ForwarderIP :: string
  gr_RelayPort :: string

record gateway_spec =
  gw_EgressRules :: "gateway_rule list"
  gw_IngressRules :: "gateway_rule list"
  gw_GatewayIP :: string

record 'c gateway_status =
  gw_Conditions :: 'c
  gw_RuleGeneration :: "64 word"
  gw_SyncGeneration :: "64 word"

record 'c gateway =
  gw_Meta :: object_meta
  gw_Spec :: gateway_spec
  gw_Status :: "'c gateway_status"

section \<open>Kubernetes objects\<close>

record env_var =
  ev_Name :: string
  ev_Value :: string

record volume_mount =
  vm_Name :: string
  vm_MountPath :: string
  vm_ReadOnly :: bool

record secret_volume =
  vol_Name :: string
  vol_SecretName :: string
  vol_DefaultMode :: "32 word"

record container =
  ct_Name :: string
  ct_Image :: string
  ct_Privileged :: bool
  ct_Env :: "env_var list"
  ct_VolumeMounts :: "volume_mount list"

record pod =
  pod_Meta :: object_meta
  pod_ServiceAccountName :: string
  pod_Containers :: "container list"
  pod_Volumes :: "secret_volume list"
  pod_PodIP :: string

record service =
  svc_Meta :: object_meta
  svc_Ports :: "service_port list"
  svc_ClusterIP :: string
  svc_Selector :: "string gomap"

record endpoints =
  ep_Meta :: object_meta
  ep_Subsets :: "string list list"

section \<open>Conditions\<close>

text \<open>
  The type \<^verbatim>\<open>status.Conditions\<close> comes from the operator SDK, which is not part of the
  repository: it is the type parameter \<open>'c\<close>, and its operations are fields of the record
  \<open>libs\<close>, together with \<^verbatim>\<open>IntOrString.String\<close> of the Kubernetes API machinery. The
  program only builds conditions from a type and a status.
\<close>

datatype condition_status = ConditionTrue | ConditionFalse | ConditionUnknown

record condition =
  cond_Type :: string
  cond_Status :: condition_status

definition ConditionRuleUpdating :: string where
  "ConditionRuleUpdating = ''RuleUpdating''"

definition ConditionRuleSyncing :: string where
  "ConditionRuleSyncing = ''RuleSyncing''"

lemma condition_types_distinct [simp]:
  "ConditionRuleUpdating \<noteq> ConditionRuleSyncing" "ConditionRuleSyncing \<noteq> ConditionRuleUpdating"
  by (simp_all add: ConditionRuleUpdating_def ConditionRuleSyncing_def)

record 'c libs =
  nilConditions :: 'c
  isTrueFor :: "'c \<Rightarrow> string \<Rightarrow> bool"
  isFalseFor :: "'c \<Rightarrow> string \<Rightarrow> bool"
  setCondition :: "'c \<Rightarrow> condition \<Rightarrow> 'c \<times> bool"
  intOrString :: "int_or_string \<Rightarrow> string"

text \<open>
  The documented behaviour of the three operations, relative to a lookup function: a
  condition is true (false) when it exists with that status; \<^verbatim>\<open>SetCondition\<close> adds or
  replaces the condition of its type and says whether this is new or a change.
\<close>

definition conditions_laws :: "'c libs \<Rightarrow> ('c \<Rightarrow> string \<rightharpoonup> condition_status) \<Rightarrow> bool" where
  "conditions_laws L look \<longleftrightarrow>
     look (nilConditions L) = Map.empty \<and>
     (\<forall>c t. isTrueFor L c t \<longleftrightarrow> look c t = Some ConditionTrue) \<and>
     (\<forall>c t. isFalseFor L c t \<longleftrightarrow> look c t = Some ConditionFalse) \<and>
     (\<forall>c k. look (fst (setCondition L c k)) = (look c)(cond_Type k \<mapsto> cond_Status k)) \<and>
     (\<forall>c k. snd (setCondition L c k) \<longleftrightarrow> look c (cond_Type k) \<noteq> Some (cond_Status k))"

lemma conditions_lawsD:
  assumes "conditions_laws L look"
  shows "look (nilConditions L) = Map.empty"
    and "isTrueFor L c t \<longleftrightarrow> look c t = Some ConditionTrue"
    and "isFalseFor L c t \<longleftrightarrow> look c t = Some ConditionFalse"
    and "look (fst (setCondition L c k)) = (look c)(cond_Type k \<mapsto> cond_Status k)"
    and "snd (setCondition L c k) \<longleftrightarrow> look c (cond_Type k) \<noteq> Some (cond_Status k)"
  using assms by (simp_all add: conditions_laws_def)

section \<open>The API client\<close>

text \<open>
  A resource is what the API client offers for one kind of object. Every operation takes the
  world and returns the next one. An operation that writes returns the object the server
  answers with, which the client decodes into the caller's struct.
\<close>

record ('w, 'o) resource =
  res_Get :: "nsname \<Rightarrow> ('w, 'o) io"
  res_List :: "('w, 'o list) io"
  res_Create :: "'o \<Rightarrow> ('w, 'o) io"
  res_Update :: "'o \<Rightarrow> ('w, 'o) io"
  res_StatusUpdate :: "'o \<Rightarrow> ('w, 'o) io"
  res_Delete :: "'o \<Rightarrow> ('w, unit) io"

record ('w, 'c) client =
  cl_ExternalServices :: "('w, external_service) resource"
  cl_Pods :: "('w, pod) resource"
  cl_Services :: "('w, service) resource"
  cl_Endpoints :: "('w, endpoints) resource"
  cl_Forwarders :: "('w, 'c forwarder) resource"
  cl_Gateways :: "('w, 'c gateway) resource"

end
