(* ===== verification/ApiLaws.thy ===== *)
theory ApiLaws
  imports Types
begin

text \<open>
  What the operator relies on when it writes to the API server, as a named hypothesis
  (\<open>api_laws\<close>), and an in-memory server that satisfies it, on which the witnesses run.

  The API server is not part of the repository. The laws speak of its contents through two
  views of the world, \<open>fv\<close> for Forwarders and \<open>gv\<close> for Gateways, and state documented
  behaviour of resources with a status subresource: an update stores the submitted metadata
  and spec and keeps the stored status, a status update stores the submitted status and keeps
  the stored metadata and spec, and both answer with the stored object; an operation on one
  object leaves the others alone. They also state that nobody else writes in between. Nothing
  is assumed about what a read returns beyond its name, since the operator reads from a cache,
  which may be stale; where a property needs more, it says so with \<open>answers\<close> (what the reads
  answer, as a view of its own) or \<open>lists_stored\<close> (lists are current).
\<close>

definition fwd_key :: "'c forwarder \<Rightarrow> nsname" where
  "fwd_key fwd = meta_key (fwd_Meta fwd)"

definition gw_key :: "'c gateway \<Rightarrow> nsname" where
  "gw_key gw = meta_key (gw_Meta gw)"

text \<open>\<open>quiet v m\<close>: running \<open>m\<close> does not change the view \<open>v\<close>.\<close>

definition quiet :: "('w \<Rightarrow> 'v) \<Rightarrow> ('w, 'a) io \<Rightarrow> bool" where
  "quiet v m \<longleftrightarrow> (\<forall>w. v (snd (m w)) = v w)"

definition reads_quiet :: "('w \<Rightarrow> 'v) \<Rightarrow> ('w, 'o) resource \<Rightarrow> bool" where
  "reads_quiet v R \<longleftrightarrow> (\<forall>k. quiet v (res_Get R k)) \<and> quiet v (res_List R)"

definition writes_quiet :: "('w \<Rightarrow> 'v) \<Rightarrow> ('w, 'o) resource \<Rightarrow> bool" where
  "writes_quiet v R \<longleftrightarrow>
     (\<forall>x. quiet v (res_Create R x) \<and> quiet v (res_Update R x) \<and>
          quiet v (res_StatusUpdate R x) \<and> quiet v (res_Delete R x))"

text \<open>
  The laws of a resource with a status subresource. \<open>put_status rv x y\<close> is \<open>y\<close> with the status
  of \<open>x\<close> and the resource version \<open>rv\<close>.
\<close>

definition resource_laws ::
  "('w \<Rightarrow> nsname \<rightharpoonup> 'o) \<Rightarrow> ('o \<Rightarrow> nsname) \<Rightarrow> (string \<Rightarrow> 'o \<Rightarrow> 'o \<Rightarrow> 'o) \<Rightarrow> ('w, 'o) resource \<Rightarrow> bool" where
  "resource_laws v key put_status R \<longleftrightarrow>
     reads_quiet v R \<and>
     (\<forall>k w x w'. res_Get R k w = (Inr x, w') \<longrightarrow> key x = k) \<and>
     (\<forall>x w x' w'. res_Create R x w = (Inr x', w') \<longrightarrow>
        key x' = key x \<and> v w' = (v w)(key x \<mapsto> x')) \<and>
     (\<forall>x w x' w'. res_Update R x w = (Inr x', w') \<longrightarrow>
        (\<exists>cur rv. v w (key x) = Some cur \<and> x' = put_status rv cur x) \<and> v w' = (v w)(key x \<mapsto> x')) \<and>
     (\<forall>x w x' w'. res_StatusUpdate R x w = (Inr x', w') \<longrightarrow> key x' = key x \<and>
        (\<exists>cur rv. v w (key x) = Some cur \<and> x' = put_status rv x cur) \<and> v w' = (v w)(key x \<mapsto> x'))"

definition put_fwd_status :: "string \<Rightarrow> 'c forwarder \<Rightarrow> 'c forwarder \<Rightarrow> 'c forwarder" where
  "put_fwd_status rv x y =
     y\<lparr>fwd_Status := fwd_Status x, fwd_Meta := (fwd_Meta y)\<lparr>m_ResourceVersion := rv\<rparr>\<rparr>"

definition put_gw_status :: "string \<Rightarrow> 'c gateway \<Rightarrow> 'c gateway \<Rightarrow> 'c gateway" where
  "put_gw_status rv x y =
     y\<lparr>gw_Status := gw_Status x, gw_Meta := (gw_Meta y)\<lparr>m_ResourceVersion := rv\<rparr>\<rparr>"

text \<open>
  Optimistic concurrency: a status update succeeds only if the submitted object has the
  resource version of the stored one, and the stored object then has another one.
\<close>

definition versioned ::
  "('w \<Rightarrow> nsname \<rightharpoonup> 'o) \<Rightarrow> ('o \<Rightarrow> object_meta) \<Rightarrow> ('w, 'o) resource \<Rightarrow> bool" where
  "versioned v meta_of R \<longleftrightarrow>
     (\<forall>x w x' w'. res_StatusUpdate R x w = (Inr x', w') \<longrightarrow>
        (\<exists>cur. v w (meta_key (meta_of x)) = Some cur \<and>
           m_ResourceVersion (meta_of cur) = m_ResourceVersion (meta_of x)) \<and>
        m_ResourceVersion (meta_of x') \<noteq> m_ResourceVersion (meta_of x))"

lemma versionedD:
  assumes "versioned v meta_of R" and "res_StatusUpdate R x w = (Inr x', w')"
  shows "\<exists>cur. v w (meta_key (meta_of x)) = Some cur \<and>
           m_ResourceVersion (meta_of cur) = m_ResourceVersion (meta_of x)"
    and "m_ResourceVersion (meta_of x') \<noteq> m_ResourceVersion (meta_of x)"
  using assms unfolding versioned_def by blast+

text \<open>
  An API server that answers: a stored object can be read, a status update built on the stored
  version succeeds, and one built on another version is refused and changes nothing.
\<close>

definition available ::
  "('w \<Rightarrow> nsname \<rightharpoonup> 'o) \<Rightarrow> ('o \<Rightarrow> object_meta) \<Rightarrow> ('w, 'o) resource \<Rightarrow> bool" where
  "available v meta_of R \<longleftrightarrow>
     (\<forall>w x. v w (meta_key (meta_of x)) = Some x \<longrightarrow>
        (\<exists>w'. res_Get R (meta_key (meta_of x)) w = (Inr x, w'))) \<and>
     (\<forall>x w cur. v w (meta_key (meta_of x)) = Some cur \<and> meta_key (meta_of cur) = meta_key (meta_of x) \<longrightarrow>
        (if m_ResourceVersion (meta_of cur) = m_ResourceVersion (meta_of x)
         then \<exists>x' w'. res_StatusUpdate R x w = (Inr x', w')
         else \<exists>w'. res_StatusUpdate R x w = (Inl Conflict, w') \<and> v w' = v w))"

lemma availableD:
  assumes "available v meta_of R"
  shows "v w (meta_key (meta_of x)) = Some x \<Longrightarrow> \<exists>w'. res_Get R (meta_key (meta_of x)) w = (Inr x, w')"
    and "v w (meta_key (meta_of x)) = Some cur \<Longrightarrow> meta_key (meta_of cur) = meta_key (meta_of x) \<Longrightarrow>
           m_ResourceVersion (meta_of cur) = m_ResourceVersion (meta_of x) \<Longrightarrow>
           \<exists>x' w'. res_StatusUpdate R x w = (Inr x', w')"
    and "v w (meta_key (meta_of x)) = Some cur \<Longrightarrow> meta_key (meta_of cur) = meta_key (meta_of x) \<Longrightarrow>
           m_ResourceVersion (meta_of cur) \<noteq> m_ResourceVersion (meta_of x) \<Longrightarrow>
           \<exists>w'. res_StatusUpdate R x w = (Inl Conflict, w') \<and> v w' = v w"
  using assms unfolding available_def by metis+

text \<open>
  \<open>answers v R\<close>: \<open>v w k\<close> is what a read of \<open>k\<close> answers in the world \<open>w\<close>, an error or an
  object, and reading does not change what is answered. \<open>lists_stored v key R\<close>: a list call
  answers with the objects that are stored, each once, so no stale cache is between.
\<close>

definition answers :: "('w \<Rightarrow> nsname \<Rightarrow> 'o result) \<Rightarrow> ('w, 'o) resource \<Rightarrow> bool" where
  "answers v R \<longleftrightarrow> (\<forall>k w. \<exists>w'. res_Get R k w = (v w k, w') \<and> v w' = v w)"

definition lists_stored :: "('w \<Rightarrow> nsname \<rightharpoonup> 'o) \<Rightarrow> ('o \<Rightarrow> nsname) \<Rightarrow> ('w, 'o) resource \<Rightarrow> bool" where
  "lists_stored v key R \<longleftrightarrow>
     (\<forall>w xs w'. res_List R w = (Inr xs, w') \<longrightarrow>
        distinct (map key xs) \<and> (\<forall>x. x \<in> set xs \<longleftrightarrow> v w (key x) = Some x))"

text \<open>A delete removes the object or, when it fails, nothing.\<close>

definition deletes :: "('w \<Rightarrow> nsname \<rightharpoonup> 'o) \<Rightarrow> ('o \<Rightarrow> nsname) \<Rightarrow> ('w, 'o) resource \<Rightarrow> bool" where
  "deletes v key R \<longleftrightarrow>
     (\<forall>x w r w'. res_Delete R x w = (r, w') \<longrightarrow> v w' = (v w)(key x := None) \<or> v w' = v w)"

lemma answersD:
  "answers v R \<Longrightarrow> res_Get R k w = (r, w') \<Longrightarrow> r = v w k \<and> v w' = v w"
  unfolding answers_def by (metis prod.inject)

lemma lists_storedD:
  assumes "lists_stored v key R" and "res_List R w = (Inr xs, w')"
  shows "distinct (map key xs)" and "x \<in> set xs \<longleftrightarrow> v w (key x) = Some x"
  using assms unfolding lists_stored_def by blast+

definition other_kinds_quiet :: "('w \<Rightarrow> 'v) \<Rightarrow> ('w, 'c) client \<Rightarrow> bool" where
  "other_kinds_quiet v cl \<longleftrightarrow>
     reads_quiet v (cl_ExternalServices cl) \<and> writes_quiet v (cl_ExternalServices cl) \<and>
     reads_quiet v (cl_Pods cl) \<and> writes_quiet v (cl_Pods cl) \<and>
     reads_quiet v (cl_Services cl) \<and> writes_quiet v (cl_Services cl) \<and>
     reads_quiet v (cl_Endpoints cl)"

definition api_laws ::
  "('w, 'c) client \<Rightarrow> ('w \<Rightarrow> nsname \<rightharpoonup> 'c forwarder) \<Rightarrow> ('w \<Rightarrow> nsname \<rightharpoonup> 'c gateway) \<Rightarrow> bool" where
  "api_laws cl fv gv \<longleftrightarrow>
     resource_laws fv fwd_key put_fwd_status (cl_Forwarders cl) \<and>
     resource_laws gv gw_key put_gw_status (cl_Gateways cl) \<and>
     other_kinds_quiet fv cl \<and> other_kinds_quiet gv cl \<and>
     reads_quiet fv (cl_Gateways cl) \<and> writes_quiet fv (cl_Gateways cl) \<and>
     reads_quiet gv (cl_Forwarders cl) \<and> writes_quiet gv (cl_Forwarders cl)"

section \<open>Using the laws\<close>

lemma quietD: "quiet v m \<Longrightarrow> m w = (r, w') \<Longrightarrow> v w' = v w"
  unfolding quiet_def by (metis snd_conv)

lemma reads_quietD:
  "reads_quiet v R \<Longrightarrow> res_Get R k w = (r, w') \<Longrightarrow> v w' = v w"
  "reads_quiet v R \<Longrightarrow> res_List R w = (rs, w') \<Longrightarrow> v w' = v w"
  by (auto simp: reads_quiet_def dest: quietD)

lemma writes_quietD:
  "writes_quiet v R \<Longrightarrow> res_Create R x w = (r, w') \<Longrightarrow> v w' = v w"
  "writes_quiet v R \<Longrightarrow> res_Update R x w = (r, w') \<Longrightarrow> v w' = v w"
  "writes_quiet v R \<Longrightarrow> res_StatusUpdate R x w = (r, w') \<Longrightarrow> v w' = v w"
  "writes_quiet v R \<Longrightarrow> res_Delete R x w = (u, w') \<Longrightarrow> v w' = v w"
  by (auto simp: writes_quiet_def dest: quietD)

lemma resource_lawsD:
  assumes "resource_laws v key put_status R"
  shows "reads_quiet v R"
    and "res_Get R k w = (Inr x, w') \<Longrightarrow> key x = k"
    and "res_Create R x w = (Inr x', w') \<Longrightarrow> key x' = key x \<and> v w' = (v w)(key x \<mapsto> x')"
    and "res_Update R x w = (Inr x', w') \<Longrightarrow>
          (\<exists>cur rv. v w (key x) = Some cur \<and> x' = put_status rv cur x) \<and> v w' = (v w)(key x \<mapsto> x')"
    and "res_StatusUpdate R x w = (Inr x', w') \<Longrightarrow> key x' = key x \<and>
          (\<exists>cur rv. v w (key x) = Some cur \<and> x' = put_status rv x cur) \<and> v w' = (v w)(key x \<mapsto> x')"
  using assms unfolding resource_laws_def by blast+

lemma api_lawsD:
  assumes "api_laws cl fv gv"
  shows "resource_laws fv fwd_key put_fwd_status (cl_Forwarders cl)"
    and "resource_laws gv gw_key put_gw_status (cl_Gateways cl)"
    and "other_kinds_quiet fv cl" and "other_kinds_quiet gv cl"
    and "reads_quiet fv (cl_Gateways cl)" and "writes_quiet fv (cl_Gateways cl)"
    and "reads_quiet gv (cl_Forwarders cl)" and "writes_quiet gv (cl_Forwarders cl)"
  using assms unfolding api_laws_def by blast+

text \<open>A computation is quiet when its parts are.\<close>

lemma quiet_ret [simp, intro]: "quiet v (ret x)"
  by (simp add: quiet_def ret_def)

lemma quiet_fail [simp, intro]: "quiet v (fail e)"
  by (simp add: quiet_def fail_def)

lemma quiet_lift_result [simp, intro]: "quiet v (lift_result r)"
  by (simp add: quiet_def lift_result_def)

lemma quiet_attempt [intro]: "quiet v m \<Longrightarrow> quiet v (attempt m)"
  by (simp add: quiet_def attempt_def split_def)

lemma quiet_andThen [intro]:
  assumes "quiet v m" and "\<And>x. quiet v (f x)"
  shows "quiet v (andThen m f)"
  unfolding quiet_def
proof
  fix w
  obtain r w' where m: "m w = (r, w')" by (cases "m w")
  with assms(1) have "v w' = v w" by (rule quietD)
  moreover have "v (snd (f x w')) = v w'" for x using assms(2) by (simp add: quiet_def)
  ultimately show "v (snd (andThen m f w)) = v w"
    by (cases r) (simp_all add: andThen_def m)
qed

lemma quiet_foldE:
  assumes "\<And>x s. x \<in> set xs \<Longrightarrow> quiet v (f x s)"
  shows "quiet v (foldE f xs s)"
  using assms by (induction xs arbitrary: s) auto

section \<open>An in-memory server\<close>

text \<open>
  One association list per kind. A create fails with an error when the object exists, the
  other writes fail with \<open>NotFound\<close> when it does not, and an update with \<open>Conflict\<close> when it is
  built on another version of the object. A pod gets an address when it is created.
\<close>

record 'c mem =
  mem_ess :: "(nsname \<times> external_service) list"
  mem_pods :: "(nsname \<times> pod) list"
  mem_svcs :: "(nsname \<times> service) list"
  mem_eps :: "(nsname \<times> endpoints) list"
  mem_fwds :: "(nsname \<times> 'c forwarder) list"
  mem_gws :: "(nsname \<times> 'c gateway) list"

definition next_version :: "object_meta \<Rightarrow> string" where
  "next_version m = CHR ''v'' # m_ResourceVersion m"

definition mem_list :: "('o \<Rightarrow> object_meta) \<Rightarrow> (nsname \<times> 'o) list \<Rightarrow> 'o list" where
  "mem_list meta_of xs = map snd (filter (\<lambda>(k, x). meta_key (meta_of x) = k) (AList.clearjunk xs))"

lemma mem_list_simps [simp]:
  "mem_list meta_of [] = []"
  "mem_list meta_of ((k, x) # xs) =
     (if meta_key (meta_of x) = k then [x] else []) @ mem_list meta_of (AList.delete k xs)"
  by (simp_all add: mem_list_def)

lemma set_mem_list: "x \<in> set (mem_list meta_of xs) \<longleftrightarrow> map_of xs (meta_key (meta_of x)) = Some x"
proof -
  have "(k, x) \<in> set (AList.clearjunk xs) \<longleftrightarrow> map_of xs k = Some x" for k
    using map_of_eq_Some_iff [OF distinct_clearjunk, of xs k x] by (simp add: map_of_clearjunk)
  then show ?thesis by (force simp: mem_list_def)
qed

lemma distinct_mem_list: "distinct (map (\<lambda>x. meta_key (meta_of x)) (mem_list meta_of xs))"
proof -
  have "map (\<lambda>x. meta_key (meta_of x)) (mem_list meta_of xs) =
      map fst (filter (\<lambda>(k, x). meta_key (meta_of x) = k) (AList.clearjunk xs))"
    by (auto simp: mem_list_def intro!: map_cong)
  then show ?thesis using distinct_clearjunk [of xs] by (simp add: distinct_map_filter)
qed

definition mem_resource ::
  "('w \<Rightarrow> (nsname \<times> 'o) list) \<Rightarrow> ((nsname \<times> 'o) list \<Rightarrow> 'w \<Rightarrow> 'w) \<Rightarrow> ('o \<Rightarrow> object_meta)
     \<Rightarrow> (string \<Rightarrow> 'o \<Rightarrow> 'o \<Rightarrow> 'o) \<Rightarrow> ('o \<Rightarrow> 'o) \<Rightarrow> ('w, 'o) resource" where
  "mem_resource get put meta_of put_status created =
     \<lparr>res_Get = (\<lambda>k w. (case map_of (get w) k of None \<Rightarrow> Inl NotFound
           | Some x \<Rightarrow> if meta_key (meta_of x) = k then Inr x else Inl (ApiError ''key''), w)),
      res_List = (\<lambda>w. (Inr (mem_list meta_of (get w)), w)),
      res_Create = (\<lambda>x w. case map_of (get w) (meta_key (meta_of x)) of
          Some _ \<Rightarrow> (Inl (ApiError ''exists''), w)
        | None \<Rightarrow> (Inr (created x), put (AList.update (meta_key (meta_of x)) (created x) (get w)) w)),
      res_Update = (\<lambda>x w. case map_of (get w) (meta_key (meta_of x)) of
          None \<Rightarrow> (Inl NotFound, w)
        | Some cur \<Rightarrow>
            (let x' = put_status (next_version (meta_of cur)) cur x
             in if m_ResourceVersion (meta_of x) \<noteq> m_ResourceVersion (meta_of cur) then (Inl Conflict, w)
                else (Inr x', put (AList.update (meta_key (meta_of x)) x' (get w)) w))),
      res_StatusUpdate = (\<lambda>x w. case map_of (get w) (meta_key (meta_of x)) of
          None \<Rightarrow> (Inl NotFound, w)
        | Some cur \<Rightarrow>
            (let x' = put_status (next_version (meta_of cur)) x cur
             in if m_ResourceVersion (meta_of x) \<noteq> m_ResourceVersion (meta_of cur) then (Inl Conflict, w)
                else if meta_key (meta_of x') \<noteq> meta_key (meta_of x) then (Inl (ApiError ''key''), w)
                else (Inr x', put (AList.update (meta_key (meta_of x)) x' (get w)) w))),
      res_Delete = (\<lambda>x w. case map_of (get w) (meta_key (meta_of x)) of
          None \<Rightarrow> (Inl NotFound, w)
        | Some _ \<Rightarrow> (Inr (), put (AList.delete (meta_key (meta_of x)) (get w)) w))\<rparr>"

definition mem_client :: "string \<Rightarrow> ('c mem, 'c) client" where
  "mem_client podIP =
     \<lparr>cl_ExternalServices = mem_resource mem_ess (\<lambda>x w. w\<lparr>mem_ess := x\<rparr>) es_Meta
        (\<lambda>rv x y. y\<lparr>es_Meta := (es_Meta y)\<lparr>m_ResourceVersion := rv\<rparr>\<rparr>) id,
      cl_Pods = mem_resource mem_pods (\<lambda>x w. w\<lparr>mem_pods := x\<rparr>) pod_Meta
        (\<lambda>rv x y. y\<lparr>pod_Meta := (pod_Meta y)\<lparr>m_ResourceVersion := rv\<rparr>\<rparr>) (\<lambda>x. x\<lparr>pod_PodIP := podIP\<rparr>),
      cl_Services = mem_resource mem_svcs (\<lambda>x w. w\<lparr>mem_svcs := x\<rparr>) svc_Meta
        (\<lambda>rv x y. y\<lparr>svc_Meta := (svc_Meta y)\<lparr>m_ResourceVersion := rv\<rparr>\<rparr>) id,
      cl_Endpoints = mem_resource mem_eps (\<lambda>x w. w\<lparr>mem_eps := x\<rparr>) ep_Meta
        (\<lambda>rv x y. y\<lparr>ep_Meta := (ep_Meta y)\<lparr>m_ResourceVersion := rv\<rparr>\<rparr>) id,
      cl_Forwarders = mem_resource mem_fwds (\<lambda>x w. w\<lparr>mem_fwds := x\<rparr>) fwd_Meta put_fwd_status id,
      cl_Gateways = mem_resource mem_gws (\<lambda>x w. w\<lparr>mem_gws := x\<rparr>) gw_Meta put_gw_status id\<rparr>"

lemma mem_client_sel:
  "cl_ExternalServices (mem_client ip) = mem_resource mem_ess (\<lambda>x w. w\<lparr>mem_ess := x\<rparr>) es_Meta
     (\<lambda>rv x y. y\<lparr>es_Meta := (es_Meta y)\<lparr>m_ResourceVersion := rv\<rparr>\<rparr>) id"
  "cl_Pods (mem_client ip) = mem_resource mem_pods (\<lambda>x w. w\<lparr>mem_pods := x\<rparr>) pod_Meta
     (\<lambda>rv x y. y\<lparr>pod_Meta := (pod_Meta y)\<lparr>m_ResourceVersion := rv\<rparr>\<rparr>) (\<lambda>x. x\<lparr>pod_PodIP := ip\<rparr>)"
  "cl_Services (mem_client ip) = mem_resource mem_svcs (\<lambda>x w. w\<lparr>mem_svcs := x\<rparr>) svc_Meta
     (\<lambda>rv x y. y\<lparr>svc_Meta := (svc_Meta y)\<lparr>m_ResourceVersion := rv\<rparr>\<rparr>) id"
  "cl_Forwarders (mem_client ip) =
     mem_resource mem_fwds (\<lambda>x w. w\<lparr>mem_fwds := x\<rparr>) fwd_Meta put_fwd_status id"
  "cl_Gateways (mem_client ip) =
     mem_resource mem_gws (\<lambda>x w. w\<lparr>mem_gws := x\<rparr>) gw_Meta put_gw_status id"
  by (simp_all add: mem_client_def)

lemma mem_resource_sel:
  "res_Get (mem_resource get put meta_of ps cr) k w =
     (case map_of (get w) k of None \<Rightarrow> Inl NotFound
        | Some x \<Rightarrow> if meta_key (meta_of x) = k then Inr x else Inl (ApiError ''key''), w)"
  "res_List (mem_resource get put meta_of ps cr) w = (Inr (mem_list meta_of (get w)), w)"
  "res_Create (mem_resource get put meta_of ps cr) x w =
     (case map_of (get w) (meta_key (meta_of x)) of
          Some _ \<Rightarrow> (Inl (ApiError ''exists''), w)
        | None \<Rightarrow> (Inr (cr x), put (AList.update (meta_key (meta_of x)) (cr x) (get w)) w))"
  "res_Update (mem_resource get put meta_of ps cr) x w =
     (case map_of (get w) (meta_key (meta_of x)) of
          None \<Rightarrow> (Inl NotFound, w)
        | Some cur \<Rightarrow>
            (let x' = ps (next_version (meta_of cur)) cur x
             in if m_ResourceVersion (meta_of x) \<noteq> m_ResourceVersion (meta_of cur) then (Inl Conflict, w)
                else (Inr x', put (AList.update (meta_key (meta_of x)) x' (get w)) w)))"
  "res_StatusUpdate (mem_resource get put meta_of ps cr) x w =
     (case map_of (get w) (meta_key (meta_of x)) of
          None \<Rightarrow> (Inl NotFound, w)
        | Some cur \<Rightarrow>
            (let x' = ps (next_version (meta_of cur)) x cur
             in if m_ResourceVersion (meta_of x) \<noteq> m_ResourceVersion (meta_of cur) then (Inl Conflict, w)
                else if meta_key (meta_of x') \<noteq> meta_key (meta_of x) then (Inl (ApiError ''key''), w)
                else (Inr x', put (AList.update (meta_key (meta_of x)) x' (get w)) w)))"
  "res_Delete (mem_resource get put meta_of ps cr) x w =
     (case map_of (get w) (meta_key (meta_of x)) of
          None \<Rightarrow> (Inl NotFound, w)
        | Some _ \<Rightarrow> (Inr (), put (AList.delete (meta_key (meta_of x)) (get w)) w))"
  by (simp_all add: mem_resource_def)

lemmas mem_resource_eval = mem_resource_sel [unfolded Let_def]

lemma mem_reads_quiet: "reads_quiet v (mem_resource get put meta_of ps cr)"
  by (auto simp: reads_quiet_def quiet_def mem_resource_def)

lemma mem_writes_quiet:
  assumes "\<And>x w. v (put x w) = v w"
  shows "writes_quiet v (mem_resource get put meta_of ps cr)"
  using assms by (auto simp: writes_quiet_def quiet_def mem_resource_def Let_def split: option.split)

lemma mem_resource_laws:
  assumes "\<And>x w. get (put x w) = x" and "\<And>x. meta_of (cr x) = meta_of x"
    and "\<And>rv x y. meta_key (meta_of (ps rv x y)) = meta_key (meta_of y)"
  shows "resource_laws (\<lambda>w. map_of (get w)) (\<lambda>x. meta_key (meta_of x)) ps
           (mem_resource get put meta_of ps cr)"
  using assms mem_reads_quiet [of "\<lambda>w. map_of (get w)" get put meta_of ps cr]
  unfolding resource_laws_def
  by (auto simp: mem_resource_sel Let_def update_conv' split: option.splits if_splits)

lemma mem_versioned:
  assumes "\<And>rv x y. m_ResourceVersion (meta_of (ps rv x y)) = rv"
  shows "versioned (\<lambda>w. map_of (get w)) meta_of (mem_resource get put meta_of ps cr)"
  using assms by (auto simp: versioned_def mem_resource_sel Let_def next_version_def
      split: option.splits if_splits)

lemma mem_available:
  assumes "\<And>rv x y. meta_key (meta_of (ps rv x y)) = meta_key (meta_of y)"
  shows "available (\<lambda>w. map_of (get w)) meta_of (mem_resource get put meta_of ps cr)"
  using assms by (auto simp: available_def mem_resource_sel Let_def split: option.splits)

lemma mem_lists_stored:
  "lists_stored (\<lambda>w. map_of (get w)) (\<lambda>x. meta_key (meta_of x)) (mem_resource get put meta_of ps cr)"
  by (simp add: lists_stored_def mem_resource_sel set_mem_list distinct_mem_list)

lemma mem_deletes:
  assumes "\<And>x w. get (put x w) = x"
  shows "deletes (\<lambda>w. map_of (get w)) (\<lambda>x. meta_key (meta_of x)) (mem_resource get put meta_of ps cr)"
  using assms by (auto simp: deletes_def mem_resource_sel delete_conv' split: option.splits)

lemma put_status_meta:
  "meta_key (fwd_Meta (put_fwd_status rv x y)) = meta_key (fwd_Meta y)"
  "meta_key (gw_Meta (put_gw_status rv x' y')) = meta_key (gw_Meta y')"
  "m_ResourceVersion (fwd_Meta (put_fwd_status rv x y)) = rv"
  "m_ResourceVersion (gw_Meta (put_gw_status rv x' y')) = rv"
  by (simp_all add: put_fwd_status_def put_gw_status_def meta_key_def)

lemma mem_api_laws:
  "api_laws (mem_client podIP) (\<lambda>w. map_of (mem_fwds w)) (\<lambda>w. map_of (mem_gws w))"
  unfolding api_laws_def other_kinds_quiet_def fwd_key_def [abs_def] gw_key_def [abs_def]
  by (simp add: mem_client_def mem_reads_quiet mem_writes_quiet mem_resource_laws put_status_meta)

lemma mem_client_versioned:
  "versioned (\<lambda>w. map_of (mem_fwds w)) fwd_Meta (cl_Forwarders (mem_client podIP))"
  "versioned (\<lambda>w. map_of (mem_gws w)) gw_Meta (cl_Gateways (mem_client podIP))"
  by (simp_all add: mem_client_sel mem_versioned put_status_meta)

text \<open>Conditions as a map from types to statuses.\<close>

definition map_libs :: "(string \<Rightarrow> condition_status option) libs" where
  "map_libs =
     \<lparr>nilConditions = Map.empty,
      isTrueFor = (\<lambda>c t. c t = Some ConditionTrue),
      isFalseFor = (\<lambda>c t. c t = Some ConditionFalse),
      setCondition = (\<lambda>c k. (c(cond_Type k \<mapsto> cond_Status k), c (cond_Type k) \<noteq> Some (cond_Status k))),
      intOrString = (\<lambda>p. case p of IntVal i \<Rightarrow> Itoa (sint i) | StrVal s \<Rightarrow> s)\<rparr>"

lemma map_libs_laws: "conditions_laws map_libs (\<lambda>c. c)"
  by (simp add: conditions_laws_def map_libs_def)

end
