(* ===== verification/TypedClients.thy ===== *)
theory TypedClients
  imports ApiLaws
begin

text \<open>
  The generated clients of the two custom resources
  (\<^verbatim>\<open>pkg/client/clientset/versioned/typed/submariner/v1alpha1\<close>), through which the
  agents talk to the API server. Each method builds one request.

  The REST client of client-go is a parameter, the record \<open>rest\<close>. It gets a request as the
  code builds it: the verb and the list of builder calls in their order. A method returns a
  value and an error, the value also when there is an error (\<open>goret\<close>).
\<close>

section \<open>The code\<close>

type_synonym ('w, 'a) goret = "'w \<Rightarrow> ('a \<times> go_error option) \<times> 'w"

datatype verb = Get | Post | Put | Delete | Patch string

text \<open>
  \<open>'q\<close> stands for the options of client-go, of which the code only reads and writes two
  fields of \<^verbatim>\<open>ListOptions\<close>. A \<^verbatim>\<open>time.Duration\<close> is a 64 bit number of
  nanoseconds.
\<close>

record 'q list_options =
  lo_TimeoutSeconds :: "64 word option"
  lo_Watch :: bool
  lo_others :: 'q

datatype 'q params = GetOptions 'q | ListOptions "'q list_options"

datatype ('o, 'q) body = ObjectBody 'o | OptionsBody 'q | BytesBody string

datatype ('o, 'q) call =
    Namespace string
  | Resource string
  | Name string
  | SubResource "string list"
  | VersionedParams "'q params"
  | Timeout "64 word"
  | Body "('o, 'q) body"

definition Second :: "64 word" where
  "Second = 1000000000"

text \<open>
  The four ways in which the code ends a request: \<^verbatim>\<open>Do().Into(result)\<close> for an object
  and for a list, \<^verbatim>\<open>Do().Error()\<close>, and \<^verbatim>\<open>Watch()\<close>.
\<close>

record ('w, 'o, 'q, 'i) rest =
  rest_Into :: "verb \<Rightarrow> ('o, 'q) call list \<Rightarrow> 'o \<Rightarrow> ('w, 'o) goret"
  rest_IntoList :: "verb \<Rightarrow> ('o, 'q) call list \<Rightarrow> 'o list \<Rightarrow> ('w, 'o list) goret"
  rest_Error :: "verb \<Rightarrow> ('o, 'q) call list \<Rightarrow> ('w, unit) goret"
  rest_Watch :: "verb \<Rightarrow> ('o, 'q) call list \<Rightarrow> ('w, 'i) goret"

subsection \<open>Forwarders\<close>

record ('w, 'o, 'q, 'i) forwarders =
  fwds_client :: "('w, 'o, 'q, 'i) rest"
  fwds_ns :: string

text \<open>\<^verbatim>\<open>newForwarders\<close>; its argument is the client's REST client.\<close>

definition newForwarders :: "('w, 'o, 'q, 'i) rest \<Rightarrow> string \<Rightarrow> ('w, 'o, 'q, 'i) forwarders" where
  "newForwarders client namespace = \<lparr>fwds_client = client, fwds_ns = namespace\<rparr>"

text \<open>\<^verbatim>\<open>&v1alpha1.Forwarder{}\<close>\<close>

definition zero_forwarder :: "'c libs \<Rightarrow> 'c forwarder" where
  "zero_forwarder L =
     \<lparr>fwd_Meta = meta [] [], fwd_Spec = \<lparr>fwd_EgressRules = [], fwd_IngressRules = [], fwd_ForwarderIP = []\<rparr>,
      fwd_Status = \<lparr>fwd_Conditions = nilConditions L, fwd_RuleGeneration = 0, fwd_SyncGeneration = 0\<rparr>\<rparr>"

definition forwarders_Get ::
  "'c libs \<Rightarrow> ('w, 'c forwarder, 'q, 'i) forwarders \<Rightarrow> string \<Rightarrow> 'q \<Rightarrow> ('w, 'c forwarder) goret" where
  "forwarders_Get L c name options =
     rest_Into (fwds_client c) Get
       [Namespace (fwds_ns c), Resource ''forwarders'', Name name, VersionedParams (GetOptions options)]
       (zero_forwarder L)"

definition forwarders_List ::
  "('w, 'c forwarder, 'q, 'i) forwarders \<Rightarrow> 'q list_options \<Rightarrow> ('w, 'c forwarder list) goret" where
  "forwarders_List c opts =
     (let timeout = (case lo_TimeoutSeconds opts of None \<Rightarrow> 0 | Some s \<Rightarrow> s * Second)
      in rest_IntoList (fwds_client c) Get
           [Namespace (fwds_ns c), Resource ''forwarders'', VersionedParams (ListOptions opts), Timeout timeout]
           [])"

definition forwarders_Watch ::
  "('w, 'c forwarder, 'q, 'i) forwarders \<Rightarrow> 'q list_options \<Rightarrow> ('w, 'i) goret" where
  "forwarders_Watch c opts =
     (let timeout = (case lo_TimeoutSeconds opts of None \<Rightarrow> 0 | Some s \<Rightarrow> s * Second);
          opts = opts\<lparr>lo_Watch := True\<rparr>
      in rest_Watch (fwds_client c) Get
           [Namespace (fwds_ns c), Resource ''forwarders'', VersionedParams (ListOptions opts), Timeout timeout])"

definition forwarders_Create ::
  "'c libs \<Rightarrow> ('w, 'c forwarder, 'q, 'i) forwarders \<Rightarrow> 'c forwarder \<Rightarrow> ('w, 'c forwarder) goret" where
  "forwarders_Create L c x =
     rest_Into (fwds_client c) Post
       [Namespace (fwds_ns c), Resource ''forwarders'', Body (ObjectBody x)] (zero_forwarder L)"

definition forwarders_Update ::
  "'c libs \<Rightarrow> ('w, 'c forwarder, 'q, 'i) forwarders \<Rightarrow> 'c forwarder \<Rightarrow> ('w, 'c forwarder) goret" where
  "forwarders_Update L c x =
     rest_Into (fwds_client c) Put
       [Namespace (fwds_ns c), Resource ''forwarders'', Name (m_Name (fwd_Meta x)), Body (ObjectBody x)]
       (zero_forwarder L)"

definition forwarders_UpdateStatus ::
  "'c libs \<Rightarrow> ('w, 'c forwarder, 'q, 'i) forwarders \<Rightarrow> 'c forwarder \<Rightarrow> ('w, 'c forwarder) goret" where
  "forwarders_UpdateStatus L c x =
     rest_Into (fwds_client c) Put
       [Namespace (fwds_ns c), Resource ''forwarders'', Name (m_Name (fwd_Meta x)), SubResource [''status''],
        Body (ObjectBody x)]
       (zero_forwarder L)"

definition forwarders_Delete ::
  "('w, 'c forwarder, 'q, 'i) forwarders \<Rightarrow> string \<Rightarrow> 'q \<Rightarrow> ('w, unit) goret" where
  "forwarders_Delete c name options =
     rest_Error (fwds_client c) Delete
       [Namespace (fwds_ns c), Resource ''forwarders'', Name name, Body (OptionsBody options)]"

definition forwarders_DeleteCollection ::
  "('w, 'c forwarder, 'q, 'i) forwarders \<Rightarrow> 'q \<Rightarrow> 'q list_options \<Rightarrow> ('w, unit) goret" where
  "forwarders_DeleteCollection c options listOptions =
     (let timeout = (case lo_TimeoutSeconds listOptions of None \<Rightarrow> 0 | Some s \<Rightarrow> s * Second)
      in rest_Error (fwds_client c) Delete
           [Namespace (fwds_ns c), Resource ''forwarders'', VersionedParams (ListOptions listOptions),
            Timeout timeout, Body (OptionsBody options)])"

definition forwarders_Patch ::
  "'c libs \<Rightarrow> ('w, 'c forwarder, 'q, 'i) forwarders \<Rightarrow> string \<Rightarrow> string \<Rightarrow> string \<Rightarrow> string list
     \<Rightarrow> ('w, 'c forwarder) goret" where
  "forwarders_Patch L c name pt data subresources =
     rest_Into (fwds_client c) (Patch pt)
       [Namespace (fwds_ns c), Resource ''forwarders'', SubResource subresources, Name name,
        Body (BytesBody data)] (zero_forwarder L)"

subsection \<open>Gateways\<close>

record ('w, 'o, 'q, 'i) gateways =
  gws_client :: "('w, 'o, 'q, 'i) rest"
  gws_ns :: string

definition newGateways :: "('w, 'o, 'q, 'i) rest \<Rightarrow> string \<Rightarrow> ('w, 'o, 'q, 'i) gateways" where
  "newGateways client namespace = \<lparr>gws_client = client, gws_ns = namespace\<rparr>"

definition zero_gateway :: "'c libs \<Rightarrow> 'c gateway" where
  "zero_gateway L =
     \<lparr>gw_Meta = meta [] [], gw_Spec = \<lparr>gw_EgressRules = [], gw_IngressRules = [], gw_GatewayIP = []\<rparr>,
      gw_Status = \<lparr>gw_Conditions = nilConditions L, gw_RuleGeneration = 0, gw_SyncGeneration = 0\<rparr>\<rparr>"

definition gateways_Get ::
  "'c libs \<Rightarrow> ('w, 'c gateway, 'q, 'i) gateways \<Rightarrow> string \<Rightarrow> 'q \<Rightarrow> ('w, 'c gateway) goret" where
  "gateways_Get L c name options =
     rest_Into (gws_client c) Get
       [Namespace (gws_ns c), Resource ''gateways'', Name name, VersionedParams (GetOptions options)]
       (zero_gateway L)"

definition gateways_List ::
  "('w, 'c gateway, 'q, 'i) gateways \<Rightarrow> 'q list_options \<Rightarrow> ('w, 'c gateway list) goret" where
  "gateways_List c opts =
     (let timeout = (case lo_TimeoutSeconds opts of None \<Rightarrow> 0 | Some s \<Rightarrow> s * Second)
      in rest_IntoList (gws_client c) Get
           [Namespace (gws_ns c), Resource ''gateways'', VersionedParams (ListOptions opts), Timeout timeout]
           [])"

definition gateways_Watch ::
  "('w, 'c gateway, 'q, 'i) gateways \<Rightarrow> 'q list_options \<Rightarrow> ('w, 'i) goret" where
  "gateways_Watch c opts =
     (let timeout = (case lo_TimeoutSeconds opts of None \<Rightarrow> 0 | Some s \<Rightarrow> s * Second);
          opts = opts\<lparr>lo_Watch := True\<rparr>
      in rest_Watch (gws_client c) Get
           [Namespace (gws_ns c), Resource ''gateways'', VersionedParams (ListOptions opts), Timeout timeout])"

definition gateways_Create ::
  "'c libs \<Rightarrow> ('w, 'c gateway, 'q, 'i) gateways \<Rightarrow> 'c gateway \<Rightarrow> ('w, 'c gateway) goret" where
  "gateways_Create L c x =
     rest_Into (gws_client c) Post
       [Namespace (gws_ns c), Resource ''gateways'', Body (ObjectBody x)] (zero_gateway L)"

definition gateways_Update ::
  "'c libs \<Rightarrow> ('w, 'c gateway, 'q, 'i) gateways \<Rightarrow> 'c gateway \<Rightarrow> ('w, 'c gateway) goret" where
  "gateways_Update L c x =
     rest_Into (gws_client c) Put
       [Namespace (gws_ns c), Resource ''gateways'', Name (m_Name (gw_Meta x)), Body (ObjectBody x)]
       (zero_gateway L)"

definition gateways_UpdateStatus ::
  "'c libs \<Rightarrow> ('w, 'c gateway, 'q, 'i) gateways \<Rightarrow> 'c gateway \<Rightarrow> ('w, 'c gateway) goret" where
  "gateways_UpdateStatus L c x =
     rest_Into (gws_client c) Put
       [Namespace (gws_ns c), Resource ''gateways'', Name (m_Name (gw_Meta x)), SubResource [''status''],
        Body (ObjectBody x)]
       (zero_gateway L)"

definition gateways_Delete ::
  "('w, 'c gateway, 'q, 'i) gateways \<Rightarrow> string \<Rightarrow> 'q \<Rightarrow> ('w, unit) goret" where
  "gateways_Delete c name options =
     rest_Error (gws_client c) Delete
       [Namespace (gws_ns c), Resource ''gateways'', Name name, Body (OptionsBody options)]"

definition gateways_DeleteCollection ::
  "('w, 'c gateway, 'q, 'i) gateways \<Rightarrow> 'q \<Rightarrow> 'q list_options \<Rightarrow> ('w, unit) goret" where
  "gateways_DeleteCollection c options listOptions =
     (let timeout = (case lo_TimeoutSeconds listOptions of None \<Rightarrow> 0 | Some s \<Rightarrow> s * Second)
      in rest_Error (gws_client c) Delete
           [Namespace (gws_ns c), Resource ''gateways'', VersionedParams (ListOptions listOptions),
            Timeout timeout, Body (OptionsBody options)])"

definition gateways_Patch ::
  "'c libs \<Rightarrow> ('w, 'c gateway, 'q, 'i) gateways \<Rightarrow> string \<Rightarrow> string \<Rightarrow> string \<Rightarrow> string list
     \<Rightarrow> ('w, 'c gateway) goret" where
  "gateways_Patch L c name pt data subresources =
     rest_Into (gws_client c) (Patch pt)
       [Namespace (gws_ns c), Resource ''gateways'', SubResource subresources, Name name,
        Body (BytesBody data)] (zero_gateway L)"

section \<open>What a request asks for\<close>

text \<open>
  A request is for a namespace, a kind of resource, a name and a subresource, whatever the
  order in which they were set.
\<close>

fun req_ns :: "('o, 'q) call list \<Rightarrow> string option" where
  "req_ns [] = None"
| "req_ns (Namespace n # cs) = (case req_ns cs of None \<Rightarrow> Some n | r \<Rightarrow> r)"
| "req_ns (_ # cs) = req_ns cs"

fun req_kind :: "('o, 'q) call list \<Rightarrow> string option" where
  "req_kind [] = None"
| "req_kind (Resource n # cs) = (case req_kind cs of None \<Rightarrow> Some n | r \<Rightarrow> r)"
| "req_kind (_ # cs) = req_kind cs"

fun req_name :: "('o, 'q) call list \<Rightarrow> string option" where
  "req_name [] = None"
| "req_name (Name n # cs) = (case req_name cs of None \<Rightarrow> Some n | r \<Rightarrow> r)"
| "req_name (_ # cs) = req_name cs"

fun req_sub :: "('o, 'q) call list \<Rightarrow> string list" where
  "req_sub [] = []"
| "req_sub (SubResource n # cs) = (case req_sub cs of [] \<Rightarrow> n | r \<Rightarrow> r)"
| "req_sub (_ # cs) = req_sub cs"

fun req_body :: "('o, 'q) call list \<Rightarrow> ('o, 'q) body option" where
  "req_body [] = None"
| "req_body (Body b # cs) = (case req_body cs of None \<Rightarrow> Some b | r \<Rightarrow> r)"
| "req_body (_ # cs) = req_body cs"

text \<open>\<open>checked m\<close>: what a caller gets that looks at the error first, as all callers do.\<close>

definition checked :: "('w, 'a) goret \<Rightarrow> ('w, 'a) io" where
  "checked m w = (case m w of ((x, None), w') \<Rightarrow> (Inr x, w') | ((_, Some e), w') \<Rightarrow> (Inl e, w'))"

text \<open>
  The documented REST interface of a resource: \<open>rest_serves rest kind key R\<close> says that requests
  for objects of the kind \<open>kind\<close> do what the operations of \<open>R\<close> do. The namespace and the name
  of an object that is sent have to be those of the request.
\<close>

definition rest_serves ::
  "('w, 'o, 'q, 'i) rest \<Rightarrow> string \<Rightarrow> ('o \<Rightarrow> nsname) \<Rightarrow> ('w, 'o) resource \<Rightarrow> bool" where
  "rest_serves rest kind key R \<longleftrightarrow>
     (\<forall>cs z. req_kind cs = Some kind \<longrightarrow>
       (\<forall>ns n. req_ns cs = Some ns \<and> req_name cs = Some n \<longrightarrow>
          (req_sub cs = [] \<longrightarrow> checked (rest_Into rest Get cs z) = res_Get R \<lparr>nn_Namespace = ns, nn_Name = n\<rparr>) \<and>
          (\<forall>x. req_body cs = Some (ObjectBody x) \<and> key x = \<lparr>nn_Namespace = ns, nn_Name = n\<rparr> \<longrightarrow>
             (req_sub cs = [] \<longrightarrow> checked (rest_Into rest Put cs z) = res_Update R x) \<and>
             (req_sub cs = [''status''] \<longrightarrow> checked (rest_Into rest Put cs z) = res_StatusUpdate R x)) \<and>
          (\<forall>x. req_sub cs = [] \<and> key x = \<lparr>nn_Namespace = ns, nn_Name = n\<rparr> \<longrightarrow>
             checked (rest_Error rest Delete cs) = res_Delete R x)) \<and>
       (\<forall>ns. req_ns cs = Some ns \<and> req_name cs = None \<and> req_sub cs = [] \<longrightarrow>
          (\<forall>x. req_body cs = Some (ObjectBody x) \<and> nn_Namespace (key x) = ns \<longrightarrow>
             checked (rest_Into rest Post cs z) = res_Create R x)) \<and>
       (req_ns cs = Some [] \<and> req_name cs = None \<and> req_sub cs = [] \<longrightarrow>
          checked (rest_IntoList rest Get cs []) = res_List R))"

lemma rest_servesD:
  assumes "rest_serves rest kind key R" and "req_kind cs = Some kind"
  shows "\<lbrakk>req_ns cs = Some ns; req_name cs = Some n; req_sub cs = []\<rbrakk> \<Longrightarrow>
      checked (rest_Into rest Get cs z) = res_Get R \<lparr>nn_Namespace = ns, nn_Name = n\<rparr>"
    and "\<lbrakk>req_ns cs = Some (nn_Namespace (key x)); req_name cs = Some (nn_Name (key x)); req_sub cs = [];
          req_body cs = Some (ObjectBody x)\<rbrakk> \<Longrightarrow> checked (rest_Into rest Put cs z) = res_Update R x"
    and "\<lbrakk>req_ns cs = Some (nn_Namespace (key x)); req_name cs = Some (nn_Name (key x));
          req_sub cs = [''status'']; req_body cs = Some (ObjectBody x)\<rbrakk> \<Longrightarrow>
      checked (rest_Into rest Put cs z) = res_StatusUpdate R x"
    and "\<lbrakk>req_ns cs = Some (nn_Namespace (key x)); req_name cs = Some (nn_Name (key x)); req_sub cs = []\<rbrakk> \<Longrightarrow>
      checked (rest_Error rest Delete cs) = res_Delete R x"
    and "\<lbrakk>req_ns cs = Some (nn_Namespace (key x)); req_name cs = None; req_sub cs = [];
          req_body cs = Some (ObjectBody x)\<rbrakk> \<Longrightarrow> checked (rest_Into rest Post cs z) = res_Create R x"
    and "\<lbrakk>req_ns cs = Some []; req_name cs = None; req_sub cs = []\<rbrakk> \<Longrightarrow>
      checked (rest_IntoList rest Get cs []) = res_List R"
  using assms unfolding rest_serves_def by simp_all

text \<open>
  A generated client as the agents see it: a client of the object's namespace is made for each
  call. \<open>q\<close> are the options of the calls.
\<close>

definition fwd_rest_resource ::
  "'c libs \<Rightarrow> ('w, 'c forwarder, 'q, 'i) rest \<Rightarrow> 'q \<Rightarrow> ('w, 'c forwarder) resource" where
  "fwd_rest_resource L rest q =
     (let at = (\<lambda>x. newForwarders rest (m_Namespace (fwd_Meta x))) in
     \<lparr>res_Get = (\<lambda>n. checked (forwarders_Get L (newForwarders rest (nn_Namespace n)) (nn_Name n) q)),
      res_List = checked (forwarders_List (newForwarders rest [])
        \<lparr>lo_TimeoutSeconds = None, lo_Watch = False, lo_others = q\<rparr>),
      res_Create = (\<lambda>x. checked (forwarders_Create L (at x) x)),
      res_Update = (\<lambda>x. checked (forwarders_Update L (at x) x)),
      res_StatusUpdate = (\<lambda>x. checked (forwarders_UpdateStatus L (at x) x)),
      res_Delete = (\<lambda>x. checked (forwarders_Delete (at x) (m_Name (fwd_Meta x)) q))\<rparr>)"

definition gw_rest_resource ::
  "'c libs \<Rightarrow> ('w, 'c gateway, 'q, 'i) rest \<Rightarrow> 'q \<Rightarrow> ('w, 'c gateway) resource" where
  "gw_rest_resource L rest q =
     (let at = (\<lambda>x. newGateways rest (m_Namespace (gw_Meta x))) in
     \<lparr>res_Get = (\<lambda>n. checked (gateways_Get L (newGateways rest (nn_Namespace n)) (nn_Name n) q)),
      res_List = checked (gateways_List (newGateways rest [])
        \<lparr>lo_TimeoutSeconds = None, lo_Watch = False, lo_others = q\<rparr>),
      res_Create = (\<lambda>x. checked (gateways_Create L (at x) x)),
      res_Update = (\<lambda>x. checked (gateways_Update L (at x) x)),
      res_StatusUpdate = (\<lambda>x. checked (gateways_UpdateStatus L (at x) x)),
      res_Delete = (\<lambda>x. checked (gateways_Delete (at x) (m_Name (gw_Meta x)) q))\<rparr>)"

section \<open>The contract\<close>

text \<open>The requests that each method of a client has to make.\<close>

locale typed_client =
  fixes kind :: string and meta_of :: "'o \<Rightarrow> object_meta"
    and client :: "('w, 'o, 'q, 'i) rest \<Rightarrow> 'q \<Rightarrow> ('w, 'o) resource"
  assumes get: "\<exists>cs z. res_Get (client rest q) n = checked (rest_Into rest Get cs z) \<and> req_kind cs = Some kind \<and>
      req_ns cs = Some (nn_Namespace n) \<and> req_name cs = Some (nn_Name n) \<and> req_sub cs = []"
    and list: "\<exists>cs. res_List (client rest q) = checked (rest_IntoList rest Get cs []) \<and>
      req_kind cs = Some kind \<and> req_ns cs = Some [] \<and> req_name cs = None \<and> req_sub cs = []"
    and create: "\<exists>cs z. res_Create (client rest q) x = checked (rest_Into rest Post cs z) \<and>
      req_kind cs = Some kind \<and> req_ns cs = Some (m_Namespace (meta_of x)) \<and> req_name cs = None \<and>
      req_sub cs = [] \<and> req_body cs = Some (ObjectBody x)"
    and update: "\<exists>cs z. res_Update (client rest q) x = checked (rest_Into rest Put cs z) \<and>
      req_kind cs = Some kind \<and> req_ns cs = Some (m_Namespace (meta_of x)) \<and>
      req_name cs = Some (m_Name (meta_of x)) \<and> req_sub cs = [] \<and> req_body cs = Some (ObjectBody x)"
    and status: "\<exists>cs z. res_StatusUpdate (client rest q) x = checked (rest_Into rest Put cs z) \<and>
      req_kind cs = Some kind \<and> req_ns cs = Some (m_Namespace (meta_of x)) \<and>
      req_name cs = Some (m_Name (meta_of x)) \<and> req_sub cs = [''status''] \<and> req_body cs = Some (ObjectBody x)"
    and delete: "\<exists>cs. res_Delete (client rest q) x = checked (rest_Error rest Delete cs) \<and>
      req_kind cs = Some kind \<and> req_ns cs = Some (m_Namespace (meta_of x)) \<and>
      req_name cs = Some (m_Name (meta_of x)) \<and> req_sub cs = []"
begin

lemma serves:
  assumes "rest_serves rest kind (\<lambda>x. meta_key (meta_of x)) R"
  shows "client rest q = R"
proof -
  note S = rest_servesD [OF assms]
  have key: "nn_Namespace (meta_key (meta_of x)) = m_Namespace (meta_of x)"
    "nn_Name (meta_key (meta_of x)) = m_Name (meta_of x)" for x
    by (simp_all add: meta_key_def)
  have "res_Get (client rest q) n = res_Get R n" for n
    using get [of rest q n] S(1) by fastforce
  moreover have "res_List (client rest q) = res_List R"
    using list [of rest q] S(6) by fastforce
  moreover have "res_Create (client rest q) x = res_Create R x" for x
    using create [of rest q x] S(5) [of _ x] key by auto
  moreover have "res_Update (client rest q) x = res_Update R x" for x
    using update [of rest q x] S(2) [of _ x] key by auto
  moreover have "res_StatusUpdate (client rest q) x = res_StatusUpdate R x" for x
    using status [of rest q x] S(3) [of _ x] key by auto
  moreover have "res_Delete (client rest q) x = res_Delete R x" for x
    using delete [of rest q x] S(4) [of _ x] key by auto
  ultimately show ?thesis by (intro resource.equality) (simp_all add: fun_eq_iff)
qed

end

section \<open>Both clients follow it\<close>

lemma fwd_requests:
  "res_Get (fwd_rest_resource L rest q) n = checked (rest_Into rest Get
     [Namespace (nn_Namespace n), Resource ''forwarders'', Name (nn_Name n), VersionedParams (GetOptions q)] (zero_forwarder L))"
  "res_List (fwd_rest_resource L rest q) = checked (rest_IntoList rest Get
     [Namespace [], Resource ''forwarders'', VersionedParams (ListOptions
        \<lparr>lo_TimeoutSeconds = None, lo_Watch = False, lo_others = q\<rparr>), Timeout 0] [])"
  "res_Create (fwd_rest_resource L rest q) x = checked (rest_Into rest Post
     [Namespace (m_Namespace (fwd_Meta x)), Resource ''forwarders'', Body (ObjectBody x)] (zero_forwarder L))"
  "res_Update (fwd_rest_resource L rest q) x = checked (rest_Into rest Put
     [Namespace (m_Namespace (fwd_Meta x)), Resource ''forwarders'', Name (m_Name (fwd_Meta x)), Body (ObjectBody x)]
     (zero_forwarder L))"
  "res_StatusUpdate (fwd_rest_resource L rest q) x = checked (rest_Into rest Put
     [Namespace (m_Namespace (fwd_Meta x)), Resource ''forwarders'', Name (m_Name (fwd_Meta x)),
      SubResource [''status''], Body (ObjectBody x)] (zero_forwarder L))"
  "res_Delete (fwd_rest_resource L rest q) x = checked (rest_Error rest Delete
     [Namespace (m_Namespace (fwd_Meta x)), Resource ''forwarders'', Name (m_Name (fwd_Meta x)), Body (OptionsBody q)])"
  by (simp_all add: fwd_rest_resource_def newForwarders_def forwarders_Get_def forwarders_List_def forwarders_Create_def
      forwarders_Update_def forwarders_UpdateStatus_def forwarders_Delete_def Let_def)

interpretation fwd_client: typed_client "''forwarders''" fwd_Meta "fwd_rest_resource L" for L
  by (unfold_locales; unfold fwd_requests; intro exI conjI, rule refl, simp_all)

lemma gw_requests:
  "res_Get (gw_rest_resource L rest q) n = checked (rest_Into rest Get
     [Namespace (nn_Namespace n), Resource ''gateways'', Name (nn_Name n), VersionedParams (GetOptions q)] (zero_gateway L))"
  "res_List (gw_rest_resource L rest q) = checked (rest_IntoList rest Get
     [Namespace [], Resource ''gateways'', VersionedParams (ListOptions
        \<lparr>lo_TimeoutSeconds = None, lo_Watch = False, lo_others = q\<rparr>), Timeout 0] [])"
  "res_Create (gw_rest_resource L rest q) x = checked (rest_Into rest Post
     [Namespace (m_Namespace (gw_Meta x)), Resource ''gateways'', Body (ObjectBody x)] (zero_gateway L))"
  "res_Update (gw_rest_resource L rest q) x = checked (rest_Into rest Put
     [Namespace (m_Namespace (gw_Meta x)), Resource ''gateways'', Name (m_Name (gw_Meta x)), Body (ObjectBody x)]
     (zero_gateway L))"
  "res_StatusUpdate (gw_rest_resource L rest q) x = checked (rest_Into rest Put
     [Namespace (m_Namespace (gw_Meta x)), Resource ''gateways'', Name (m_Name (gw_Meta x)),
      SubResource [''status''], Body (ObjectBody x)] (zero_gateway L))"
  "res_Delete (gw_rest_resource L rest q) x = checked (rest_Error rest Delete
     [Namespace (m_Namespace (gw_Meta x)), Resource ''gateways'', Name (m_Name (gw_Meta x)), Body (OptionsBody q)])"
  by (simp_all add: gw_rest_resource_def newGateways_def gateways_Get_def gateways_List_def gateways_Create_def
      gateways_Update_def gateways_UpdateStatus_def gateways_Delete_def Let_def)

interpretation gw_client: typed_client "''gateways''" gw_Meta "gw_rest_resource L" for L
  by (unfold_locales; unfold gw_requests; intro exI conjI, rule refl, simp_all)

text \<open>
  C35: The generated clients are clients of the right resource. On a REST server whose requests
  for Forwarders (Gateways) have the documented effect, the methods of the Forwarder (Gateway)
  client that the agents use are exactly the operations of that resource, the update of the
  status included, so that whatever is proved for a resource holds for the client.
\<close>

theorem typed_clients_serve:
  assumes "rest_serves frest ''forwarders'' fwd_key F" and "rest_serves grest ''gateways'' gw_key G"
  shows "fwd_rest_resource L frest q = F \<and> gw_rest_resource L grest q = G"
  using fwd_client.serves [of frest F L q] gw_client.serves [of grest G L q] assms
  by (simp add: fwd_key_def [abs_def] gw_key_def [abs_def])

end
