(* ===== verification/GoNet.thy ===== *)
theory GoNet
  imports GoStd
begin

text \<open>
  The parts of Go's package \<^verbatim>\<open>net\<close> that the program calls, with the behaviour of Go
  1.13. An address that \<^verbatim>\<open>net.ParseIP\<close> returns is a list of 16 bytes; \<open>None\<close> is
  Go's nil.
\<close>

type_synonym ip = "byte list"

section \<open>Parsing IP addresses\<close>

definition big :: nat where
  "big = 0xFFFFFF"

fun dtoi_loop :: "nat \<Rightarrow> string \<Rightarrow> (nat \<times> string) option" where
  "dtoi_loop n [] = Some (n, [])"
| "dtoi_loop n (c # s) =
     (case dec_value c of
        None \<Rightarrow> Some (n, c # s)
      | Some d \<Rightarrow> if big \<le> n * 10 + d then None else dtoi_loop (n * 10 + d) s)"

definition dtoi :: "string \<Rightarrow> (nat \<times> string) option" where
  "dtoi s = (if s = [] \<or> dec_value (hd s) = None then None else dtoi_loop 0 s)"

fun xtoi_loop :: "nat \<Rightarrow> string \<Rightarrow> (nat \<times> string) option" where
  "xtoi_loop n [] = Some (n, [])"
| "xtoi_loop n (c # s) =
     (case hex_value c of
        None \<Rightarrow> Some (n, c # s)
      | Some d \<Rightarrow> if big \<le> n * 16 + d then None else xtoi_loop (n * 16 + d) s)"

definition xtoi :: "string \<Rightarrow> (nat \<times> string) option" where
  "xtoi s = (if s = [] \<or> hex_value (hd s) = None then None else xtoi_loop 0 s)"

definition v4InV6Prefix :: ip where
  "v4InV6Prefix = [0, 0, 0, 0, 0, 0, 0, 0, 0, 0, 0xFF, 0xFF]"

text \<open>\<open>octets k first s\<close>: the \<open>k\<close> octets still to read; a dot stands before all but the first.\<close>

fun octets :: "nat \<Rightarrow> bool \<Rightarrow> string \<Rightarrow> (byte list \<times> string) option" where
  "octets 0 first s = Some ([], s)"
| "octets (Suc k) first s =
     (if s = [] \<or> \<not> first \<and> hd s \<noteq> CHR ''.'' then None
      else (case dtoi (if first then s else tl s) of
              None \<Rightarrow> None
            | Some (n, r) \<Rightarrow>
                (if 0xFF < n then None
                 else (case octets k False r of
                         None \<Rightarrow> None
                       | Some (bs, r') \<Rightarrow> Some (word_of_nat n # bs, r')))))"

definition parseIPv4 :: "string \<Rightarrow> ip option" where
  "parseIPv4 s =
     (case octets 4 True s of
        Some (bs, []) \<Rightarrow> Some (v4InV6Prefix @ bs)
      | _ \<Rightarrow> None)"

text \<open>
  The loop of \<^verbatim>\<open>parseIPv6\<close>: the bytes read so far, the position of the ellipsis
  \<^verbatim>\<open>::\<close> and the rest of the string.
\<close>

function ipv6_loop ::
  "byte list \<Rightarrow> nat option \<Rightarrow> string \<Rightarrow> (byte list \<times> nat option \<times> string) option" where
  "ipv6_loop acc ell s =
     (if 16 \<le> length acc then Some (acc, ell, s)
      else (case xtoi s of
        None \<Rightarrow> None
      | Some (n, r) \<Rightarrow>
          (if 0xFFFF < n then None
           else if r \<noteq> [] \<and> hd r = CHR ''.'' then
             (if ell = None \<and> length acc \<noteq> 12 \<or> 16 < length acc + 4 then None
              else (case parseIPv4 s of
                      None \<Rightarrow> None
                    | Some ip4 \<Rightarrow> Some (acc @ drop 12 ip4, ell, [])))
           else (let acc' = acc @ [word_of_nat (n div 256), word_of_nat n]
                 in if r = [] then Some (acc', ell, [])
                    else if hd r \<noteq> CHR '':'' \<or> tl r = [] then None
                    else if hd (tl r) = CHR '':'' then
                      (if ell \<noteq> None then None
                       else if tl (tl r) = [] then Some (acc', Some (length acc'), [])
                       else ipv6_loop acc' (Some (length acc')) (tl (tl r)))
                    else ipv6_loop acc' ell (tl r)))))"
  by pat_completeness auto
termination
  by (relation "measure (\<lambda>(acc, ell, s). 16 - length acc)") auto

declare ipv6_loop.simps [simp del]

definition parseIPv6 :: "string \<Rightarrow> ip option" where
  "parseIPv6 s =
     (let lead = (2 \<le> length s \<and> take 2 s = ''::'');
          ell0 = (if lead then Some 0 else None);
          s0 = (if lead then drop 2 s else s)
      in if lead \<and> s0 = [] then Some (replicate 16 0)
         else (case ipv6_loop [] ell0 s0 of
           None \<Rightarrow> None
         | Some (acc, ell, rest) \<Rightarrow>
             (if rest \<noteq> [] then None
              else if length acc < 16 then
                (case ell of
                   None \<Rightarrow> None
                 | Some e \<Rightarrow> Some (take e acc @ replicate (16 - length acc) 0 @ drop e acc))
              else if ell \<noteq> None then None
              else Some acc)))"

definition ParseIP :: "string \<Rightarrow> ip option" where
  "ParseIP s =
     (case find (\<lambda>c. c = CHR ''.'' \<or> c = CHR '':'') s of
        None \<Rightarrow> None
      | Some c \<Rightarrow> if c = CHR ''.'' then parseIPv4 s else parseIPv6 s)"

definition To4 :: "ip \<Rightarrow> byte list option" where
  "To4 a =
     (if length a = 4 then Some a
      else if length a = 16 \<and> take 12 a = v4InV6Prefix then Some (drop 12 a)
      else None)"

section \<open>Host and port\<close>

definition find_index :: "char \<Rightarrow> string \<Rightarrow> nat option" where
  "find_index c s = (if c \<in> set s then Some (length (takeWhile (\<lambda>x. x \<noteq> c) s)) else None)"

definition last_index :: "char \<Rightarrow> string \<Rightarrow> nat option" where
  "last_index c s =
     (if c \<in> set s then Some (length s - 1 - length (takeWhile (\<lambda>x. x \<noteq> c) (rev s))) else None)"

text \<open>
  \<open>SplitHostPort\<close> splits at the last colon. The two offsets \<open>j\<close> and \<open>k\<close> of the source
  say from where no further bracket may occur.
\<close>

definition SplitHostPort :: "string \<Rightarrow> (string \<times> string) result" where
  "SplitHostPort hp =
     (case last_index (CHR '':'') hp of
        None \<Rightarrow> Inl (AddrError hp)
      | Some i \<Rightarrow>
          (let brackets = (\<lambda>host j k.
                 if CHR ''['' \<in> set (drop j hp) then Inl (AddrError hp)
                 else if CHR '']'' \<in> set (drop k hp) then Inl (AddrError hp)
                 else Inr (host, drop (i + 1) hp))
           in if hd hp = CHR ''['' then
                (case find_index (CHR '']'') hp of
                   None \<Rightarrow> Inl (AddrError hp)
                 | Some e \<Rightarrow>
                     if e + 1 = length hp then Inl (AddrError hp)
                     else if e + 1 = i then brackets (take (e - 1) (drop 1 hp)) 1 (e + 1)
                     else Inl (AddrError hp))
              else
                (let host = take i hp
                 in if CHR '':'' \<in> set host then Inl (AddrError hp)
                    else brackets host 0 0)))"

definition JoinHostPort :: "string \<Rightarrow> string \<Rightarrow> string" where
  "JoinHostPort host port =
     (if CHR '':'' \<in> set host then ''['' @ host @ '']:'' @ port else host @ '':'' @ port)"

section \<open>Dotted quads\<close>

definition dotted :: "byte \<Rightarrow> byte \<Rightarrow> byte \<Rightarrow> byte \<Rightarrow> string" where
  "dotted a b c d =
     utoa (unat a) @ ''.'' @ utoa (unat b) @ ''.'' @ utoa (unat c) @ ''.'' @ utoa (unat d)"

lemma atou_mono: "atou acc xs = Some n \<Longrightarrow> acc \<le> n"
proof (induction xs arbitrary: acc)
  case Nil
  then show ?case by simp
next
  case (Cons x xs)
  then obtain d where "atou (acc * 10 + d) xs = Some n" by (auto split: option.splits)
  with Cons.IH show ?case by fastforce
qed

lemma dtoi_loop_digits:
  assumes "atou acc xs = Some n" and "n < big"
    and "r = [] \<or> dec_value (hd r) = None"
  shows "dtoi_loop acc (xs @ r) = Some (n, r)"
  using assms(1)
proof (induction xs arbitrary: acc)
  case Nil
  then show ?case using assms(3) by (cases r) auto
next
  case (Cons x xs)
  then obtain d where d: "dec_value x = Some d" and a: "atou (acc * 10 + d) xs = Some n"
    by (auto split: option.splits)
  from atou_mono [OF a] assms(2) have "\<not> big \<le> acc * 10 + d" by simp
  with d Cons.IH [OF a] show ?case by simp
qed

lemma dtoi_utoa:
  assumes "n < big" and "r = [] \<or> dec_value (hd r) = None"
  shows "dtoi (utoa n @ r) = Some (n, r)"
  using dtoi_loop_digits [OF atou_utoa assms] utoa_hd [of n]
  by (simp add: dtoi_def)

lemma dtoi_utoa_byte [simp]:
  "dtoi (utoa (unat (b :: byte)) @ CHR ''.'' # r) = Some (unat b, CHR ''.'' # r)"
  "dtoi (utoa (unat (b :: byte))) = Some (unat b, [])"
  using dtoi_utoa [of "unat b" "CHR ''.'' # r"] dtoi_utoa [of "unat b" "[]"] unat_byte_less [of b]
  by (simp_all add: big_def)

lemma octets_dotted: "octets 4 True (dotted a b c d) = Some ([a, b, c, d], [])"
  using unat_byte_less [of a] unat_byte_less [of b] unat_byte_less [of c] unat_byte_less [of d]
  by (simp add: dotted_def numeral_eq_Suc)

lemma find_dotted: "find (\<lambda>x. x = CHR ''.'' \<or> x = CHR '':'') (dotted a b c d) = Some (CHR ''.'')"
proof -
  have "find (\<lambda>x. x = CHR ''.'' \<or> x = CHR '':'') (xs @ CHR ''.'' # r) = Some (CHR ''.'')"
    if "CHR '':'' \<notin> set xs" for xs r
    using that by (induction xs) auto
  then show ?thesis by (simp add: dotted_def)
qed

lemma ParseIP_dotted: "ParseIP (dotted a b c d) = Some (v4InV6Prefix @ [a, b, c, d])"
  by (simp add: ParseIP_def find_dotted parseIPv4_def octets_dotted)

lemma To4_v4 [simp]: "To4 (v4InV6Prefix @ [a, b, c, d]) = Some [a, b, c, d]"
  by (simp add: To4_def v4InV6Prefix_def)

lemma length_To4: "To4 a = Some b \<Longrightarrow> length b = 4"
  by (auto simp: To4_def split: if_splits)

lemma dotted_no_colon: "CHR '':'' \<notin> set (dotted a b c d)"
  by (simp add: dotted_def)

lemma dotted_inject: "dotted a b c d = dotted a' b' c' d' \<longleftrightarrow> [a, b, c, d] = [a', b', c', d']"
proof
  assume "dotted a b c d = dotted a' b' c' d'"
  then have "ParseIP (dotted a b c d) = ParseIP (dotted a' b' c' d')"
    by (rule arg_cong)
  then show "[a, b, c, d] = [a', b', c', d']" by (simp only: ParseIP_dotted) simp
qed simp

section \<open>Joining and splitting\<close>

lemma last_index_sep:
  "c \<notin> set b \<Longrightarrow> last_index c (a @ c # b) = Some (length a)"
  by (simp add: last_index_def takeWhile_rev_sep del: rev_append)

lemma find_index_sep:
  "c \<notin> set a \<Longrightarrow> find_index c (a @ c # b) = Some (length a)"
  by (simp add: find_index_def takeWhile_sep)

text \<open>\<open>SplitHostPort\<close> undoes \<open>JoinHostPort\<close> for hosts and ports without brackets.\<close>

lemma SplitHostPort_JoinHostPort:
  assumes "CHR ''['' \<notin> set host" "CHR '']'' \<notin> set host"
    and "CHR ''['' \<notin> set port" "CHR '']'' \<notin> set port" "CHR '':'' \<notin> set port"
  shows "SplitHostPort (JoinHostPort host port) = Inr (host, port)"
proof (cases "CHR '':'' \<in> set host")
  case True
  let ?hp = "CHR ''['' # host @ CHR '']'' # CHR '':'' # port"
  have li: "last_index (CHR '':'') ?hp = Some (length host + 2)"
    using last_index_sep [of "CHR '':''" port "CHR ''['' # host @ '']''"] assms by simp
  have fi: "find_index (CHR '']'') ?hp = Some (length host + 1)"
    using find_index_sep [of "CHR '']''" "CHR ''['' # host"] assms by simp
  show ?thesis
    using True assms by (simp add: JoinHostPort_def SplitHostPort_def li fi)
next
  case False
  have li: "last_index (CHR '':'') (host @ CHR '':'' # port) = Some (length host)"
    using last_index_sep assms by simp
  have "hd (host @ CHR '':'' # port) \<noteq> CHR ''[''"
    using assms by (cases host) auto
  with False assms show ?thesis
    by (simp add: JoinHostPort_def SplitHostPort_def li)
qed

end
