(* ===== verification/Tunnels.thy ===== *)
theory Tunnels
  imports GoNet
begin

text \<open>
  \<^verbatim>\<open>pkg/util/ssh.go\<close>: ssh tunnels, the accept loops of
  \<^verbatim>\<open>Forward\<close> and \<^verbatim>\<open>RemoteForward\<close>, and the server side of a
  forwarded connection (\<^verbatim>\<open>DirectTCPIPHandler\<close>).

  The network and the ssh library are not part of the repository: what the functions use of
  them are the fields of the records \<open>tunnel_net\<close> and \<open>channel\<close>. A \<^verbatim>\<open>context\<close> is a
  number; \<open>net_done\<close> tells whether it is cancelled.
\<close>

definition SSHPort :: string where
  "SSHPort = ''2022''"

record tunnel =
  tun_local :: string
  tun_server :: string
  tun_remote :: string
  tun_context :: nat

definition NewTunnel :: "nat \<Rightarrow> string \<Rightarrow> string \<Rightarrow> string \<Rightarrow> tunnel" where
  "NewTunnel ctx local server remote =
     \<lparr>tun_local = local, tun_server = server, tun_remote = remote, tun_context = ctx\<rparr>"

definition tunnelString :: "tunnel \<Rightarrow> string" where
  "tunnelString t =
     ''local: '' @ tun_local t @ '', server: '' @ tun_server t @ '', remote: '' @ tun_remote t"

section \<open>Endpoints\<close>

text \<open>An IP address that does not parse is Go's nil; it is not an error.\<close>

record tcp_addr =
  addr_IP :: "ip option"
  addr_Port :: int

definition toTCPAddr :: "string \<Rightarrow> bool \<Rightarrow> tcp_addr result" where
  "toTCPAddr endpoint portAny =
     rbind (SplitHostPort endpoint) (\<lambda>(ip, port).
       if portAny then Inr \<lparr>addr_IP = ParseIP ip, addr_Port = 0\<rparr>
       else rbind (Atoi port) (\<lambda>intPort. Inr \<lparr>addr_IP = ParseIP ip, addr_Port = intPort\<rparr>))"

section \<open>Forwarding\<close>

text \<open>
  The operations of the network. \<open>net_tick\<close> is the passing of time while a goroutine evaluates
  its \<^verbatim>\<open>select\<close>; \<open>net_serve\<close> starts the goroutine that copies between two connections
  and closes both at the end.
\<close>

record ('w, 'conn) tunnel_net =
  net_DialServer :: "string \<Rightarrow> ('w, unit) io"
  net_CloseServer :: "'w \<Rightarrow> 'w"
  net_Listen :: "string \<Rightarrow> ('w, unit) io"
  net_ListenRemote :: "string \<Rightarrow> ('w, unit) io"
  net_CloseListener :: "'w \<Rightarrow> 'w"
  net_Accept :: "('w, 'conn) io"
  net_DialTCP :: "tcp_addr \<Rightarrow> tcp_addr \<Rightarrow> ('w, 'conn) io"
  net_Dial :: "string \<Rightarrow> ('w, 'conn) io"
  net_CloseConn :: "'conn \<Rightarrow> 'w \<Rightarrow> 'w"
  net_serve :: "'conn \<Rightarrow> 'conn \<Rightarrow> 'w \<Rightarrow> 'w"
  net_done :: "nat \<Rightarrow> 'w \<Rightarrow> bool"
  net_tick :: "'w \<Rightarrow> 'w"

text \<open>
  One round of the loop of both functions,
  \<^verbatim>\<open>for { select { case <-ctx.Done(): break; default: ... } }\<close>: the next world, or
  the error with which the function returns. The \<^verbatim>\<open>break\<close> leaves the
  \<^verbatim>\<open>select\<close> only, so the loop goes on.
\<close>

definition acceptRound ::
  "(nat \<Rightarrow> 'w \<Rightarrow> bool) \<Rightarrow> ('w \<Rightarrow> 'w) \<Rightarrow> ('w, 'conn) io \<Rightarrow> ('w, 'conn) io \<Rightarrow> ('conn \<Rightarrow> 'w \<Rightarrow> 'w)
     \<Rightarrow> ('conn \<Rightarrow> 'conn \<Rightarrow> 'w \<Rightarrow> 'w) \<Rightarrow> nat \<Rightarrow> 'w \<Rightarrow> 'w + go_error \<times> 'w" where
  "acceptRound isDone tick accept dial close serve ctx w =
     (if isDone ctx w then Inl (tick w)
      else (case accept (tick w) of
          (Inl err, w1) \<Rightarrow> Inr (err, w1)
        | (Inr aCon, w1) \<Rightarrow>
            (case dial w1 of
               (Inl err, w2) \<Rightarrow> Inr (err, close aCon w2)
             | (Inr dCon, w2) \<Rightarrow> Inl (serve aCon dCon w2))))"

text \<open>\<^verbatim>\<open>for { ... }\<close>: not returning is \<open>None\<close>.\<close>

partial_function (option) forever :: "('w \<Rightarrow> 'w + 'r) \<Rightarrow> 'w \<Rightarrow> 'r option" where
  "forever round w = (case round w of Inl w' \<Rightarrow> forever round w' | Inr r \<Rightarrow> Some r)"

definition acceptLoop ::
  "(nat \<Rightarrow> 'w \<Rightarrow> bool) \<Rightarrow> ('w \<Rightarrow> 'w) \<Rightarrow> ('w, 'conn) io \<Rightarrow> ('w, 'conn) io \<Rightarrow> ('conn \<Rightarrow> 'w \<Rightarrow> 'w)
     \<Rightarrow> ('conn \<Rightarrow> 'conn \<Rightarrow> 'w \<Rightarrow> 'w) \<Rightarrow> nat \<Rightarrow> 'w \<Rightarrow> (go_error \<times> 'w) option" where
  "acceptLoop isDone tick accept dial close serve ctx =
     forever (acceptRound isDone tick accept dial close serve ctx)"

text \<open>\<open>Forward\<close> and \<open>RemoteForward\<close> return \<open>None\<close> when they do not return.\<close>

definition Forward :: "('w, 'conn) tunnel_net \<Rightarrow> tunnel \<Rightarrow> 'w \<Rightarrow> (go_error \<times> 'w) option" where
  "Forward net t w =
     (case net_DialServer net (tun_server t) w of
        (Inl err, w1) \<Rightarrow> Some (err, w1)
      | (Inr _, w1) \<Rightarrow>
          map_option (\<lambda>(err, w'). (err, net_CloseServer net w'))
            (case net_Listen net (tun_local t) w1 of
               (Inl err, w2) \<Rightarrow> Some (err, w2)
             | (Inr _, w2) \<Rightarrow>
                 map_option (\<lambda>(err, w'). (err, net_CloseListener net w'))
                   (case toTCPAddr (tun_server t) True of
                      Inl err \<Rightarrow> Some (err, w2)
                    | Inr laddr \<Rightarrow>
                        (case toTCPAddr (tun_remote t) False of
                           Inl err \<Rightarrow> Some (err, w2)
                         | Inr raddr \<Rightarrow>
                             acceptLoop (net_done net) (net_tick net) (net_Accept net)
                               (net_DialTCP net laddr raddr) (net_CloseConn net) (net_serve net)
                               (tun_context t) w2))))"

definition RemoteForward :: "('w, 'conn) tunnel_net \<Rightarrow> tunnel \<Rightarrow> 'w \<Rightarrow> (go_error \<times> 'w) option" where
  "RemoteForward net t w =
     (case net_DialServer net (tun_server t) w of
        (Inl err, w1) \<Rightarrow> Some (err, w1)
      | (Inr _, w1) \<Rightarrow>
          map_option (\<lambda>(err, w'). (err, net_CloseServer net w'))
            (case net_ListenRemote net (tun_remote t) w1 of
               (Inl err, w2) \<Rightarrow> Some (err, w2)
             | (Inr _, w2) \<Rightarrow>
                 map_option (\<lambda>(err, w'). (err, net_CloseListener net w'))
                   (acceptLoop (net_done net) (net_tick net) (net_Accept net)
                      (net_Dial net (tun_local t)) (net_CloseConn net) (net_serve net)
                      (tun_context t) w2)))"

section \<open>The server side\<close>

record channel_data =
  DestAddr :: string
  DestPort :: "32 word"
  OriginAddr :: string
  OriginPort :: "32 word"

datatype reject_reason = ConnectionFailed string | Prohibited string

record ('w, 'conn) channel =
  ch_Reject :: "reject_reason \<Rightarrow> 'w \<Rightarrow> 'w"
  ch_Accept :: "('w, unit) io"
  ch_DialContext :: "tcp_addr \<Rightarrow> string \<Rightarrow> ('w, 'conn) io"
  ch_CloseConn :: "'conn \<Rightarrow> 'w \<Rightarrow> 'w"
  ch_copy :: "'conn \<Rightarrow> 'w \<Rightarrow> 'w"

definition error_text :: "go_error \<Rightarrow> string" where
  "error_text e = (case e of ApiError s \<Rightarrow> s | _ \<Rightarrow> [])"

text \<open>
  \<open>payload\<close> is what \<^verbatim>\<open>ssh.Unmarshal\<close> makes of the channel's extra data, \<open>callback\<close>
  the server's \<^verbatim>\<open>LocalPortForwardingCallback\<close>. \<open>ch_copy\<close> starts the two goroutines
  that copy in both directions.
\<close>

definition DirectTCPIPHandler ::
  "('w, 'conn) channel \<Rightarrow> channel_data result \<Rightarrow> (string \<Rightarrow> 32 word \<Rightarrow> bool) option \<Rightarrow> 'w \<Rightarrow> 'w" where
  "DirectTCPIPHandler ch payload callback w =
     (case payload of
        Inl err \<Rightarrow> ch_Reject ch (ConnectionFailed (''error parsing forward data: '' @ error_text err)) w
      | Inr d \<Rightarrow>
          if callback = None \<or> \<not> the callback (DestAddr d) (DestPort d)
          then ch_Reject ch (Prohibited ''port forwarding is disabled'') w
          else
            (let dest = JoinHostPort (DestAddr d) (Itoa (uint (DestPort d)));
                 origin = JoinHostPort (OriginAddr d) (Itoa (uint (OriginPort d)))
             in case toTCPAddr origin False of
                  Inl err \<Rightarrow> ch_Reject ch (Prohibited ''specified origin ip or port is invalid'') w
                | Inr laddr \<Rightarrow>
                    (case ch_DialContext ch laddr dest w of
                       (Inl err, w1) \<Rightarrow> ch_Reject ch (ConnectionFailed (error_text err)) w1
                     | (Inr dconn, w1) \<Rightarrow>
                         (case ch_Accept ch w1 of
                            (Inl err, w2) \<Rightarrow> ch_CloseConn ch dconn w2
                          | (Inr _, w2) \<Rightarrow> ch_copy ch dconn w2))))"

text \<open>The server of a gateway forwards every port.\<close>

record ssh_server =
  srv_Addr :: string
  srv_LocalPortForwarding :: "(string \<Rightarrow> 32 word \<Rightarrow> bool) option"
  srv_ReversePortForwarding :: "(string \<Rightarrow> 32 word \<Rightarrow> bool) option"

definition NewSSHServer :: "string \<Rightarrow> ssh_server" where
  "NewSSHServer addr =
     \<lparr>srv_Addr = addr,
      srv_LocalPortForwarding = Some (\<lambda>dhost dport. True),
      srv_ReversePortForwarding = Some (\<lambda>host port. True)\<rparr>"

text \<open>\<open>dial\<close> is \<^verbatim>\<open>net.DialTimeout\<close>; the nil connection without an error is \<open>Inr None\<close>.\<close>

definition IsPortOpen :: "(string \<Rightarrow> ('w, 'conn option) io) \<Rightarrow> ('conn \<Rightarrow> 'w \<Rightarrow> 'w) \<Rightarrow> string \<Rightarrow> string
     \<Rightarrow> 'w \<Rightarrow> bool \<times> 'w" where
  "IsPortOpen dial close ip port w =
     (case dial (JoinHostPort ip port) w of
        (Inl _, w1) \<Rightarrow> (False, w1)
      | (Inr (Some conn), w1) \<Rightarrow> (True, close conn w1)
      | (Inr None, w1) \<Rightarrow> (False, w1))"

section \<open>Endpoints: lemmas\<close>

lemma Itoa_nat_no_sign: "0 \<le> i \<Longrightarrow> Itoa i = utoa (nat i)"
  by (simp add: Itoa_def)

lemma dotted_no_bracket [simp]: "CHR ''['' \<notin> set (dotted a b c d)" "CHR '']'' \<notin> set (dotted a b c d)"
  "CHR '':'' \<notin> set (dotted a b c d)"
  by (simp_all add: dotted_def)

lemma split_dotted:
  assumes "CHR ''['' \<notin> set port" "CHR '']'' \<notin> set port" "CHR '':'' \<notin> set port"
  shows "SplitHostPort (dotted a b c d @ '':'' @ port) = Inr (dotted a b c d, port)"
  using SplitHostPort_JoinHostPort [of "dotted a b c d" port] assms
  by (simp add: JoinHostPort_def)

lemma toTCPAddr_dotted_any:
  assumes "CHR ''['' \<notin> set port" "CHR '']'' \<notin> set port" "CHR '':'' \<notin> set port"
  shows "toTCPAddr (dotted a b c d @ '':'' @ port) True =
    Inr \<lparr>addr_IP = Some (v4InV6Prefix @ [a, b, c, d]), addr_Port = 0\<rparr>"
  using split_dotted [OF assms] by (simp add: toTCPAddr_def ParseIP_dotted)

lemma toTCPAddr_dotted:
  assumes "- (2 ^ 63) \<le> p" "p < 2 ^ 63"
  shows "toTCPAddr (dotted a b c d @ '':'' @ Itoa p) False =
    Inr \<lparr>addr_IP = Some (v4InV6Prefix @ [a, b, c, d]), addr_Port = p\<rparr>"
  using split_dotted [of "Itoa p" a b c d] Atoi_Itoa [OF assms]
  by (simp add: toTCPAddr_def ParseIP_dotted)

text \<open>Addresses: an IPv4 endpoint is read back exactly; with \<open>portAny\<close> the port is dropped.\<close>

text \<open>
  C29: Endpoints. Writing a dotted IPv4 address and a 32-bit port as an endpoint and reading it
  with \<^verbatim>\<open>toTCPAddr\<close> gives the address and the port back, or port 0 with
  \<^verbatim>\<open>portAny\<close>; no range check is made, so a port above 65535 is accepted.
\<close>

theorem toTCPAddr_roundtrip:
  "toTCPAddr (dotted a b c d @ '':'' @ Itoa (uint (p :: 32 word))) portAny =
     Inr \<lparr>addr_IP = Some (v4InV6Prefix @ [a, b, c, d]), addr_Port = (if portAny then 0 else uint p)\<rparr>"
proof -
  have "uint p < 4294967296" using uint_lt2p [of p] by simp
  moreover have "0 \<le> uint p" by simp
  ultimately have "- (2 ^ 63) \<le> uint p" "uint p < 2 ^ 63" by (simp, linarith, simp)
  from toTCPAddr_dotted [OF this] toTCPAddr_dotted_any [of "Itoa (uint p)"] show ?thesis by simp
qed

section \<open>The accept loop\<close>

text \<open>The worlds a loop reaches at the start of its rounds.\<close>

inductive rounds :: "('w \<Rightarrow> 'w + 'r) \<Rightarrow> 'w \<Rightarrow> 'w \<Rightarrow> bool" for round where
  refl: "rounds round w w"
| more: "rounds round w w' \<Longrightarrow> round w' = Inl w'' \<Longrightarrow> rounds round w w''"

lemma rounds_first: "round w = Inl v \<Longrightarrow> rounds round v w' \<Longrightarrow> rounds round w w'"
  by (rotate_tac 1, induction rule: rounds.induct) (auto intro: rounds.intros)

lemma forever_rounds: "rounds round w w' \<Longrightarrow> forever round w = forever round w'"
proof (induction rule: rounds.induct)
  case (more w w' w'')
  moreover have "forever round w' = forever round w''"
    by (subst forever.simps) (simp add: more.hyps)
  ultimately show ?case by simp
qed simp

lemma forever_Some_rounds:
  assumes "forever round w = Some r"
  shows "\<exists>w'. rounds round w w' \<and> round w' = Inr r"
  using assms
proof (rule forever.raw_induct [where P = "\<lambda>round w r. \<exists>w'. rounds round w w' \<and> round w' = Inr r", rotated])
  fix loop round w r
  assume IH: "\<And>round w r. loop round w = Some r \<Longrightarrow> \<exists>w'. rounds round w w' \<and> round w' = Inr r"
    and run: "(case round w of Inl w' \<Rightarrow> loop round w' | Inr r \<Rightarrow> Some r) = Some r"
  show "\<exists>w'. rounds round w w' \<and> round w' = Inr r"
  proof (cases "round w")
    case (Inl v)
    with run have "loop round v = Some r" by simp
    from IH [OF this] show ?thesis using rounds_first Inl by metis
  next
    case (Inr x)
    with run show ?thesis by (auto intro: rounds.refl)
  qed
qed

lemma forever_Some_iff: "forever round w = Some r \<longleftrightarrow> (\<exists>w'. rounds round w w' \<and> round w' = Inr r)"
proof
  assume "\<exists>w'. rounds round w w' \<and> round w' = Inr r"
  then obtain w' where "rounds round w w'" "round w' = Inr r" by blast
  moreover from this(2) have "forever round w' = Some r" by (subst forever.simps) simp
  ultimately show "forever round w = Some r" using forever_rounds by metis
qed (rule forever_Some_rounds)

lemma acceptRound_Inr:
  "acceptRound isDone tick accept dial close serve ctx w = Inr r \<Longrightarrow> \<not> isDone ctx w"
  by (auto simp: acceptRound_def)

text \<open>
  C26: When the accept loop returns. The loop of \<^verbatim>\<open>Forward\<close> and
  \<^verbatim>\<open>RemoteForward\<close> returns exactly when, after some rounds, a round that finds the
  context not cancelled fails to accept or to dial; it returns that error, and a connection
  accepted in that round is closed.
\<close>

theorem acceptLoop_returns_iff:
  "acceptLoop isDone tick accept dial close serve ctx w = Some (err, w') \<longleftrightarrow>
     (\<exists>v. rounds (acceptRound isDone tick accept dial close serve ctx) w v \<and> \<not> isDone ctx v \<and>
        (accept (tick v) = (Inl err, w') \<or>
         (\<exists>aCon w1 w2. accept (tick v) = (Inr aCon, w1) \<and> dial w1 = (Inl err, w2) \<and>
            w' = close aCon w2)))"
proof -
  have "acceptRound isDone tick accept dial close serve ctx v = Inr (err, w') \<longleftrightarrow> \<not> isDone ctx v \<and>
        (accept (tick v) = (Inl err, w') \<or>
         (\<exists>aCon w1 w2. accept (tick v) = (Inr aCon, w1) \<and> dial w1 = (Inl err, w2) \<and>
            w' = close aCon w2))" for v
    by (auto simp: acceptRound_def split: prod.splits sum.splits)
  then show ?thesis by (simp add: acceptLoop_def forever_Some_iff)
qed

lemma acceptLoop_cancelled:
  assumes "\<And>w. isDone ctx w \<Longrightarrow> isDone ctx (tick w)" and "isDone ctx w"
  shows "acceptLoop isDone tick accept dial close serve ctx w = None"
proof -
  have "isDone ctx w'" if "rounds (acceptRound isDone tick accept dial close serve ctx) w w'" for w'
    using that assms
    by (induction rule: rounds.induct) (auto simp: acceptRound_def)
  then show ?thesis
    using acceptRound_Inr forever_Some_iff [of "acceptRound isDone tick accept dial close serve ctx" w]
    unfolding acceptLoop_def by (metis not_None_eq)
qed

text \<open>
  A cancelled tunnel does not stop. If a cancelled context stays cancelled while time
  passes, then a call of \<^verbatim>\<open>Forward\<close> or \<^verbatim>\<open>RemoteForward\<close> that reaches
  its loop with the context cancelled never returns, so its listener is never closed.
\<close>

theorem cancelled_tunnel_never_returns:
  assumes "\<And>w. net_done net (tun_context t) w \<Longrightarrow> net_done net (tun_context t) (net_tick net w)"
    and "net_done net (tun_context t) w2"
    and "net_DialServer net (tun_server t) w = (Inr (), w1)"
  shows "(net_Listen net (tun_local t) w1 = (Inr (), w2) \<and>
            toTCPAddr (tun_server t) True = Inr laddr \<and> toTCPAddr (tun_remote t) False = Inr raddr \<longrightarrow>
            Forward net t w = None) \<and>
    (net_ListenRemote net (tun_remote t) w1 = (Inr (), w2) \<longrightarrow> RemoteForward net t w = None)"
  by (simp add: Forward_def RemoteForward_def assms(3)
      acceptLoop_cancelled [where isDone = "net_done net" and tick = "net_tick net", OF assms(1,2)])

text \<open>A network on which everything succeeds and every context is cancelled.\<close>

definition idle_net :: "(unit, unit) tunnel_net" where
  "idle_net =
     \<lparr>net_DialServer = (\<lambda>_. ret ()), net_CloseServer = id, net_Listen = (\<lambda>_. ret ()),
      net_ListenRemote = (\<lambda>_. ret ()), net_CloseListener = id, net_Accept = ret (),
      net_DialTCP = (\<lambda>_ _. ret ()), net_Dial = (\<lambda>_. ret ()), net_CloseConn = (\<lambda>_. id),
      net_serve = (\<lambda>_ _. id), net_done = (\<lambda>_ _. True), net_tick = id\<rparr>"

definition test_tunnel :: tunnel where
  "test_tunnel = NewTunnel 0 (dotted 10 0 0 3 @ '':2049'') (dotted 192 168 122 200 @ '':2022'')
     (dotted 192 168 122 139 @ '':80'')"

lemma Itoa_ports: "Itoa 80 = ''80''" "Itoa 2022 = ''2022''" "Itoa 2049 = ''2049''"
  by (simp_all add: Itoa_eval)

theorem cancelled_tunnel_never_returns_witness:
  "Forward idle_net test_tunnel () = None \<and> RemoteForward idle_net test_tunnel () = None"
proof -
  have addrs: "toTCPAddr (tun_server test_tunnel) True =
      Inr \<lparr>addr_IP = Some (v4InV6Prefix @ [192, 168, 122, 200]), addr_Port = 0\<rparr>"
    "toTCPAddr (tun_remote test_tunnel) False =
      Inr \<lparr>addr_IP = Some (v4InV6Prefix @ [192, 168, 122, 139]), addr_Port = 80\<rparr>"
    using toTCPAddr_dotted_any [of "''2022''" 192 168 122 200] toTCPAddr_dotted [of 80 192 168 122 139]
    by (simp_all add: test_tunnel_def NewTunnel_def Itoa_ports)
  have "net_done idle_net (tun_context test_tunnel) ()"
    "net_DialServer idle_net (tun_server test_tunnel) () = (Inr (), ())"
    "net_Listen idle_net (tun_local test_tunnel) () = (Inr (), ())"
    "net_ListenRemote idle_net (tun_remote test_tunnel) () = (Inr (), ())"
    by (simp_all add: idle_net_def ret_def)
  with addrs cancelled_tunnel_never_returns [of idle_net test_tunnel "()" "()" "()"]
  show ?thesis by simp
qed

section \<open>The server side: properties\<close>

lemma toTCPAddr_origin:
  assumes "CHR '':'' \<notin> set host" "CHR ''['' \<notin> set host" "CHR '']'' \<notin> set host"
  shows "toTCPAddr (JoinHostPort host (Itoa (uint (p :: 32 word)))) False =
    Inr \<lparr>addr_IP = ParseIP host, addr_Port = uint p\<rparr>"
proof -
  have "uint p < 4294967296" using uint_lt2p [of p] by simp
  moreover have "0 \<le> uint p" by simp
  ultimately have "- (2 ^ 63) \<le> uint p" "uint p < 2 ^ 63" by (simp, linarith, simp)
  from Atoi_Itoa [OF this] SplitHostPort_JoinHostPort [of host "Itoa (uint p)"] assms
  show ?thesis by (simp add: toTCPAddr_def)
qed

text \<open>
  The origin address is not validated. A request whose origin is not an IP address at all
  is not rejected as invalid: the handler dials without a local address, so the source of the
  connection is whatever the system chooses.
\<close>

theorem DirectTCPIPHandler_origin_unchecked:
  assumes "ParseIP host = None"
    and "CHR '':'' \<notin> set host" "CHR ''['' \<notin> set host" "CHR '']'' \<notin> set host"
    and "ch_DialContext ch \<lparr>addr_IP = None, addr_Port = uint oport\<rparr>
           (JoinHostPort dst (Itoa (uint dport))) w = (Inr dconn, w1)"
    and "ch_Accept ch w1 = (Inr (), w2)"
  shows "DirectTCPIPHandler ch
     (Inr \<lparr>DestAddr = dst, DestPort = dport, OriginAddr = host, OriginPort = oport\<rparr>)
     (srv_LocalPortForwarding (NewSSHServer addr)) w = ch_copy ch dconn w2"
  by (simp add: DirectTCPIPHandler_def NewSSHServer_def toTCPAddr_origin assms)

text \<open>A channel that records what was dialled.\<close>

definition log_channel :: "(tcp_addr list, unit) channel" where
  "log_channel =
     \<lparr>ch_Reject = (\<lambda>_ w. w), ch_Accept = ret (), ch_DialContext = (\<lambda>laddr _ w. (Inr (), laddr # w)),
      ch_CloseConn = (\<lambda>_ w. w), ch_copy = (\<lambda>_ w. w)\<rparr>"

theorem DirectTCPIPHandler_origin_unchecked_witness:
  "DirectTCPIPHandler log_channel
     (Inr \<lparr>DestAddr = dotted 192 168 122 139, DestPort = 80, OriginAddr = ''nowhere'', OriginPort = 0\<rparr>)
     (srv_LocalPortForwarding (NewSSHServer [])) [] = [\<lparr>addr_IP = None, addr_Port = 0\<rparr>]"
proof -
  have parse: "ParseIP ''nowhere'' = None" by (simp add: ParseIP_def)
  have "ch_DialContext log_channel \<lparr>addr_IP = None, addr_Port = uint (0 :: 32 word)\<rparr>
      (JoinHostPort (dotted 192 168 122 139) (Itoa (uint (80 :: 32 word)))) [] =
      (Inr (), [\<lparr>addr_IP = None, addr_Port = 0\<rparr>])"
    "ch_Accept log_channel [\<lparr>addr_IP = None, addr_Port = 0\<rparr>] = (Inr (), [\<lparr>addr_IP = None, addr_Port = 0\<rparr>])"
    by (simp_all add: log_channel_def ret_def)
  from DirectTCPIPHandler_origin_unchecked [OF parse _ _ _ this] show ?thesis
    by (simp add: log_channel_def)
qed

end
