(* ===== verification/Controller.thy ===== *)
theory Controller
  imports Tunnels
begin

text \<open>
  \<^verbatim>\<open>pkg/util/controller.go\<close>: the controller in which both agents run. Informer events
  put keys into a work queue; a loop takes them out, calls the reconciler and puts a key back
  when that fails.

  The work queue and the key functions are client-go's: they are the fields of the records
  \<open>workqueue\<close> and \<open>controller\<close>, with their documented behaviour as \<open>wq_laws\<close> and
  \<open>key_laws\<close>. Logging (\<^verbatim>\<open>HandleError\<close>) is not modelled.
\<close>

section \<open>The code\<close>

text \<open>The queue holds values of any type; only strings are keys.\<close>

datatype item = KeyItem string | OtherItem

record 'q workqueue =
  wq_Add :: "string \<Rightarrow> 'q \<Rightarrow> 'q"
  wq_Get :: "'q \<Rightarrow> item \<times> bool \<times> 'q"
  wq_Done :: "item \<Rightarrow> 'q \<Rightarrow> 'q"
  wq_Forget :: "item \<Rightarrow> 'q \<Rightarrow> 'q"
  wq_AddRateLimited :: "string \<Rightarrow> 'q \<Rightarrow> 'q"
  wq_ShutDown :: "'q \<Rightarrow> 'q"

record ('obj, 'q, 's) controller =
  c_workqueue :: "'q workqueue"
  c_reconciler :: "string \<Rightarrow> string \<Rightarrow> ('s, unit) io"
  c_MetaNamespaceKeyFunc :: "'obj \<Rightarrow> string result"
  c_SplitMetaNamespaceKey :: "string \<Rightarrow> (string \<times> string) result"
  c_WaitForCacheSync :: "'s \<Rightarrow> bool \<times> 's"

text \<open>What a running controller changes: its queue, and the world of its reconciler.\<close>

record ('q, 's) ctl =
  ctl_queue :: 'q
  ctl_world :: 's

definition enqueue :: "('obj, 'q, 's) controller \<Rightarrow> 'obj \<Rightarrow> ('q, 's) ctl \<Rightarrow> ('q, 's) ctl" where
  "enqueue c obj st =
     (case c_MetaNamespaceKeyFunc c obj of
        Inl err \<Rightarrow> st
      | Inr key \<Rightarrow> st\<lparr>ctl_queue := wq_Add (c_workqueue c) key (ctl_queue st)\<rparr>)"

definition getKey :: "('obj, 'q, 's) controller \<Rightarrow> 'obj \<Rightarrow> string" where
  "getKey c obj = (case c_MetaNamespaceKeyFunc c obj of Inl err \<Rightarrow> [] | Inr key \<Rightarrow> key)"

text \<open>The handlers that \<^verbatim>\<open>NewController\<close> registers with the informer.\<close>

datatype 'obj event = AddEvent 'obj | UpdateEvent 'obj 'obj | DeleteEvent 'obj

definition handleEvent ::
  "('obj, 'q, 's) controller \<Rightarrow> 'obj event \<Rightarrow> ('q, 's) ctl \<Rightarrow> ('q, 's) ctl" where
  "handleEvent c ev =
     (case ev of
        AddEvent object \<Rightarrow> enqueue c object
      | UpdateEvent oldObject newObject \<Rightarrow> enqueue c newObject
      | DeleteEvent object \<Rightarrow> enqueue c object)"

text \<open>The function literal of \<^verbatim>\<open>processNext\<close>, without its deferred \<^verbatim>\<open>Done\<close>.\<close>

definition processItem ::
  "('obj, 'q, 's) controller \<Rightarrow> item \<Rightarrow> ('q, 's) ctl \<Rightarrow> unit result \<times> ('q, 's) ctl" where
  "processItem c obj st =
     (case obj of
        OtherItem \<Rightarrow> (Inr (), st\<lparr>ctl_queue := wq_Forget (c_workqueue c) obj (ctl_queue st)\<rparr>)
      | KeyItem key \<Rightarrow>
          (case c_SplitMetaNamespaceKey c key of
             Inl err \<Rightarrow> (Inl err, st)
           | Inr (namespace, name) \<Rightarrow>
               (case c_reconciler c namespace name (ctl_world st) of
                  (Inl err, w) \<Rightarrow>
                    (Inl err, st\<lparr>ctl_world := w,
                                 ctl_queue := wq_AddRateLimited (c_workqueue c) key (ctl_queue st)\<rparr>)
                | (Inr _, w) \<Rightarrow>
                    (Inr (), st\<lparr>ctl_world := w,
                                ctl_queue := wq_Forget (c_workqueue c) obj (ctl_queue st)\<rparr>))))"

definition processNext :: "('obj, 'q, 's) controller \<Rightarrow> ('q, 's) ctl \<Rightarrow> bool \<times> ('q, 's) ctl" where
  "processNext c st =
     (let (obj, shutdown, q) = wq_Get (c_workqueue c) (ctl_queue st);
          st = st\<lparr>ctl_queue := q\<rparr>
      in if shutdown then (False, st)
         else (let (err, st) = processItem c obj st
               in (True, st\<lparr>ctl_queue := wq_Done (c_workqueue c) obj (ctl_queue st)\<rparr>)))"

text \<open>The loop; \<open>None\<close> when it does not return.\<close>

definition reconcileRound :: "('obj, 'q, 's) controller \<Rightarrow> ('q, 's) ctl \<Rightarrow> ('q, 's) ctl + ('q, 's) ctl" where
  "reconcileRound c st = (let (more, st) = processNext c st in if more then Inl st else Inr st)"

definition reconcileLoop :: "('obj, 'q, 's) controller \<Rightarrow> ('q, 's) ctl \<Rightarrow> ('q, 's) ctl option" where
  "reconcileLoop c = forever (reconcileRound c)"

text \<open>\<open>Inl\<close>: the process exits (\<^verbatim>\<open>glog.Fatalf\<close>); \<open>Inr\<close>: \<^verbatim>\<open>Run\<close> returns.\<close>

definition Run :: "('obj, 'q, 's) controller \<Rightarrow> ('q, 's) ctl \<Rightarrow> (('q, 's) ctl + ('q, 's) ctl) option" where
  "Run c st =
     (let (synced, w) = c_WaitForCacheSync c (ctl_world st);
          st = st\<lparr>ctl_world := w\<rparr>
      in if \<not> synced then Some (Inl st)
         else map_option (\<lambda>st. Inr (st\<lparr>ctl_queue := wq_ShutDown (c_workqueue c) (ctl_queue st)\<rparr>))
                (reconcileLoop c st))"

section \<open>The laws of the queue\<close>

text \<open>
  \<open>todo q\<close> is the set of keys that the queue will hand out: keys that were added and not yet
  handed out since, and rate-limited keys that wait for their time. A key that is added while
  it is being processed is handed out again after \<^verbatim>\<open>Done\<close>. \<open>closed q\<close>: the queue was
  shut down; a queue that was not never says so, and loses no key.
\<close>

definition wq_laws :: "'q workqueue \<Rightarrow> ('q \<Rightarrow> string set) \<Rightarrow> ('q \<Rightarrow> bool) \<Rightarrow> bool" where
  "wq_laws wq todo closed \<longleftrightarrow>
     (\<forall>k q. \<not> closed q \<longrightarrow> todo (wq_Add wq k q) = insert k (todo q) \<and> \<not> closed (wq_Add wq k q)) \<and>
     (\<forall>k q. \<not> closed q \<longrightarrow>
        todo (wq_AddRateLimited wq k q) = insert k (todo q) \<and> \<not> closed (wq_AddRateLimited wq k q)) \<and>
     (\<forall>i q. todo (wq_Forget wq i q) = todo q \<and> closed (wq_Forget wq i q) = closed q) \<and>
     (\<forall>i q. todo (wq_Done wq i q) = todo q \<and> closed (wq_Done wq i q) = closed q) \<and>
     (\<forall>q i sd q'. wq_Get wq q = (i, sd, q') \<longrightarrow> closed q' = closed q \<and> (sd \<longrightarrow> closed q) \<and>
        (\<not> sd \<longrightarrow> (\<forall>k. i = KeyItem k \<longrightarrow> k \<in> todo q) \<and>
           todo q - {k. i = KeyItem k} \<subseteq> todo q' \<and> todo q' \<subseteq> todo q))"

lemma wq_lawsD:
  assumes "wq_laws wq todo closed"
  shows wq_Add_todo: "\<not> closed q \<Longrightarrow> todo (wq_Add wq k q) = insert k (todo q)"
    and wq_Add_closed: "\<not> closed q \<Longrightarrow> \<not> closed (wq_Add wq k q)"
    and wq_Later_todo: "\<not> closed q \<Longrightarrow> todo (wq_AddRateLimited wq k q) = insert k (todo q)"
    and wq_Later_closed: "\<not> closed q \<Longrightarrow> \<not> closed (wq_AddRateLimited wq k q)"
    and wq_Forget_todo: "todo (wq_Forget wq i q) = todo q"
    and wq_Forget_closed: "closed (wq_Forget wq i q) = closed q"
    and wq_Done_todo: "todo (wq_Done wq i q) = todo q"
    and wq_Done_closed: "closed (wq_Done wq i q) = closed q"
  using assms by (simp_all add: wq_laws_def)

lemma wq_GetD:
  assumes "wq_laws wq todo closed" and "wq_Get wq q = (i, sd, q')"
  shows wq_Get_closed: "closed q' = closed q" and wq_Get_shutdown: "sd \<Longrightarrow> closed q"
    and wq_Get_item: "\<lbrakk>\<not> sd; i = KeyItem k\<rbrakk> \<Longrightarrow> k \<in> todo q"
    and wq_Get_rest: "\<not> sd \<Longrightarrow> todo q - {k. i = KeyItem k} \<subseteq> todo q'"
    and wq_Get_less: "\<not> sd \<Longrightarrow> todo q' \<subseteq> todo q"
proof -
  from assms(1) have "\<forall>q i sd q'. wq_Get wq q = (i, sd, q') \<longrightarrow> closed q' = closed q \<and> (sd \<longrightarrow> closed q) \<and>
        (\<not> sd \<longrightarrow> (\<forall>k. i = KeyItem k \<longrightarrow> k \<in> todo q) \<and>
           todo q - {k. i = KeyItem k} \<subseteq> todo q' \<and> todo q' \<subseteq> todo q)"
    unfolding wq_laws_def by (elim conjE)
  from this [rule_format, OF assms(2)]
  show "closed q' = closed q" "sd \<Longrightarrow> closed q" "\<lbrakk>\<not> sd; i = KeyItem k\<rbrakk> \<Longrightarrow> k \<in> todo q"
    "\<not> sd \<Longrightarrow> todo q - {k. i = KeyItem k} \<subseteq> todo q'" "\<not> sd \<Longrightarrow> todo q' \<subseteq> todo q"
    by simp_all
qed

text \<open>The key of an object is read back as its namespace and name.\<close>

definition key_laws :: "('obj, 'q, 's) controller \<Rightarrow> ('obj \<Rightarrow> string \<times> string) \<Rightarrow> bool" where
  "key_laws c name_of \<longleftrightarrow>
     (\<forall>obj key. c_MetaNamespaceKeyFunc c obj = Inr key \<longrightarrow> c_SplitMetaNamespaceKey c key = Inr (name_of obj))"

section \<open>Interleaved events\<close>

text \<open>
  The controller's loop and the informer run in parallel: an event may arrive at any moment,
  also while an item is being processed. A state is the phase of the loop, the keys that are
  \<^emph>\<open>due\<close>, and the controller's state. A key is due when an event for it, or a failed attempt, is
  more recent than the start of the last attempt at it.
\<close>

datatype phase = Idle | Busy item

type_synonym ('q, 's) ctl_state = "phase \<times> string set \<times> ('q, 's) ctl"

inductive ctl_step :: "('obj, 'q, 's) controller \<Rightarrow> ('q, 's) ctl_state \<Rightarrow> ('q, 's) ctl_state \<Rightarrow> bool"
  for c where
  event: "ctl_step c (ph, due, st)
     (ph, due \<union> {k. \<exists>obj. (ev = AddEvent obj \<or> (\<exists>old. ev = UpdateEvent old obj) \<or> ev = DeleteEvent obj) \<and>
                     c_MetaNamespaceKeyFunc c obj = Inr k}, handleEvent c ev st)"
| get: "wq_Get (c_workqueue c) (ctl_queue st) = (i, False, q) \<Longrightarrow>
     ctl_step c (Idle, due, st) (Busy i, due - {k. i = KeyItem k}, st\<lparr>ctl_queue := q\<rparr>)"
| work: "processItem c i st = (r, st') \<Longrightarrow>
     ctl_step c (Busy i, due, st)
       (Idle, due \<union> {k. i = KeyItem k \<and> r \<noteq> Inr () \<and> (\<exists>n. c_SplitMetaNamespaceKey c k = Inr n)},
        st'\<lparr>ctl_queue := wq_Done (c_workqueue c) i (ctl_queue st')\<rparr>)"

inductive_cases ctl_stepE: "ctl_step c s t"

text \<open>Every call of \<^verbatim>\<open>processNext\<close> that goes on is a \<open>get\<close> followed by a \<open>work\<close>.\<close>

lemma processNext_steps:
  assumes "processNext c st = (True, st')"
  shows "\<exists>due'. (ctl_step c)\<^sup>*\<^sup>* (Idle, due, st) (Idle, due', st')"
proof -
  obtain i sd q where get: "wq_Get (c_workqueue c) (ctl_queue st) = (i, sd, q)"
    by (cases "wq_Get (c_workqueue c) (ctl_queue st)")
  obtain r st1 where work: "processItem c i (st\<lparr>ctl_queue := q\<rparr>) = (r, st1)"
    by (cases "processItem c i (st\<lparr>ctl_queue := q\<rparr>)")
  from assms get work have "\<not> sd" and st': "st' = st1\<lparr>ctl_queue := wq_Done (c_workqueue c) i (ctl_queue st1)\<rparr>"
    by (auto simp: processNext_def Let_def split: if_splits)
  with get have "ctl_step c (Idle, due, st) (Busy i, due - {k. i = KeyItem k}, st\<lparr>ctl_queue := q\<rparr>)"
    by (intro ctl_step.get) simp
  with ctl_step.work [OF work, of "due - {k. i = KeyItem k}"] show ?thesis
    unfolding st' by (meson converse_rtranclp_into_rtranclp rtranclp.rtrancl_refl)
qed

text \<open>What an item's processing does to the queue.\<close>

lemma processItem_queue:
  assumes laws: "wq_laws (c_workqueue c) todo closed" and alive: "\<not> closed (ctl_queue st)"
    and run: "processItem c i st = (r, st')"
  shows "\<not> closed (ctl_queue st') \<and> todo (ctl_queue st) \<subseteq> todo (ctl_queue st') \<and>
    (\<forall>k n. i = KeyItem k \<and> c_SplitMetaNamespaceKey c k = Inr n \<and> r \<noteq> Inr () \<longrightarrow> k \<in> todo (ctl_queue st'))"
  using run alive
  by (auto simp: processItem_def wq_lawsD [OF laws] split: item.splits sum.splits prod.splits)

lemma handleEvent_queue:
  assumes laws: "wq_laws (c_workqueue c) todo closed" and alive: "\<not> closed (ctl_queue st)"
    and obj: "ev = AddEvent obj \<or> (\<exists>old. ev = UpdateEvent old obj) \<or> ev = DeleteEvent obj"
  shows "\<not> closed (ctl_queue (handleEvent c ev st)) \<and>
    todo (ctl_queue (handleEvent c ev st)) =
      todo (ctl_queue st) \<union> {k. c_MetaNamespaceKeyFunc c obj = Inr k}"
  using obj alive
  by (auto simp: handleEvent_def enqueue_def wq_lawsD [OF laws] split: sum.splits)

lemma ctl_step_inv:
  assumes laws: "wq_laws (c_workqueue c) todo closed"
    and step: "ctl_step c (ph, due, st) (ph', due', st')"
    and inv: "due \<subseteq> todo (ctl_queue st)" "\<not> closed (ctl_queue st)"
  shows "due' \<subseteq> todo (ctl_queue st') \<and> \<not> closed (ctl_queue st')"
  using step
proof cases
  case (event ev)
  obtain obj where obj: "ev = AddEvent obj \<or> (\<exists>old. ev = UpdateEvent old obj) \<or> ev = DeleteEvent obj"
    by (cases ev) auto
  with handleEvent_queue [OF laws inv(2) obj] inv(1) event show ?thesis by (cases ev) auto
next
  case (get i q)
  with wq_Get_closed [OF laws this(5)] wq_Get_rest [OF laws this(5)] inv show ?thesis by auto
next
  case (work i r st1)
  with processItem_queue [OF laws inv(2) work(5)] inv(1) show ?thesis
    by (auto simp: wq_lawsD [OF laws])
qed

lemma ctl_steps_inv:
  assumes "wq_laws (c_workqueue c) todo closed" and "(ctl_step c)\<^sup>*\<^sup>* (ph, due, st) (ph', due', st')"
    and "due \<subseteq> todo (ctl_queue st)" and "\<not> closed (ctl_queue st)"
  shows "due' \<subseteq> todo (ctl_queue st') \<and> \<not> closed (ctl_queue st')"
  using assms(2)
proof (induction "(ph', due', st')" arbitrary: ph' due' st' rule: rtranclp_induct)
  case (step y)
  then obtain ph1 due1 st1 where y: "y = (ph1, due1, st1)" by (cases y)
  with step show ?case using ctl_step_inv [OF assms(1)] by metis
qed (use assms(3,4) in simp)

text \<open>A round of the loop on an open queue goes on, and leaves the queue open.\<close>

lemma processNext_open:
  assumes laws: "wq_laws (c_workqueue c) todo closed" and alive: "\<not> closed (ctl_queue st)"
  shows "\<exists>st'. processNext c st = (True, st') \<and> \<not> closed (ctl_queue st')"
proof -
  obtain i sd q where get: "wq_Get (c_workqueue c) (ctl_queue st) = (i, sd, q)"
    by (cases "wq_Get (c_workqueue c) (ctl_queue st)")
  from wq_GetD(1,2) [OF laws get] alive have "\<not> sd" "\<not> closed q" by auto
  obtain r st1 where work: "processItem c i (st\<lparr>ctl_queue := q\<rparr>) = (r, st1)"
    by (cases "processItem c i (st\<lparr>ctl_queue := q\<rparr>)")
  with processItem_queue [OF laws _ work] \<open>\<not> closed q\<close> have "\<not> closed (ctl_queue st1)" by simp
  with get work \<open>\<not> sd\<close> show ?thesis by (simp add: processNext_def wq_lawsD [OF laws])
qed

lemma rounds_open:
  assumes laws: "wq_laws (c_workqueue c) todo closed"
  shows "rounds (reconcileRound c) st st' \<Longrightarrow> \<not> closed (ctl_queue st) \<Longrightarrow> \<not> closed (ctl_queue st')"
proof (induction rule: rounds.induct)
  case (more w w' w'')
  from processNext_open [OF laws more.IH [OF more.prems]] obtain st' where
    "processNext c w' = (True, st')" "\<not> closed (ctl_queue st')" by blast
  with more.hyps(2) show ?case by (simp add: reconcileRound_def)
qed

text \<open>What one round does with a key, after a reconcile that succeeds and after one that fails.\<close>

lemma processNext_key:
  assumes "wq_Get (c_workqueue c) (ctl_queue st) = (KeyItem k, False, q)"
    and "c_SplitMetaNamespaceKey c k = Inr (namespace, name)"
  shows "c_reconciler c namespace name (ctl_world st) = (Inr u, w) \<Longrightarrow>
      processNext c st = (True, st\<lparr>ctl_world := w,
        ctl_queue := wq_Done (c_workqueue c) (KeyItem k) (wq_Forget (c_workqueue c) (KeyItem k) q)\<rparr>)"
    and "c_reconciler c namespace name (ctl_world st) = (Inl err, w) \<Longrightarrow>
      processNext c st = (True, st\<lparr>ctl_world := w,
        ctl_queue := wq_Done (c_workqueue c) (KeyItem k) (wq_AddRateLimited (c_workqueue c) k q)\<rparr>)"
  using assms by (simp_all add: processNext_def processItem_def)

section \<open>The contract of a reconciler\<close>

text \<open>
  What the controller can rely on in both agents: a request for somebody else's resource
  (\<open>\<not> mine\<close>) succeeds and changes nothing; when the resource of a request cannot be read, the
  request fails with that error, and reading is all it did.
\<close>

locale reconciler_contract =
  fixes reconcile :: "string \<Rightarrow> string \<Rightarrow> ('s, unit) io"
    and mine :: "'s \<Rightarrow> string \<Rightarrow> string \<Rightarrow> bool"
    and fetch :: "string \<Rightarrow> string \<Rightarrow> ('s, 'x) io"
  assumes foreign: "\<not> mine s namespace name \<Longrightarrow> reconcile namespace name s = (Inr (), s)"
    and unreadable: "\<lbrakk>mine s namespace name; fetch namespace name s = (Inl err, s')\<rbrakk> \<Longrightarrow>
      reconcile namespace name s = (Inl err, s')"
begin

lemma foreign_forgotten:
  assumes "c_reconciler c = reconcile" and "c_SplitMetaNamespaceKey c k = Inr (namespace, name)"
    and "wq_Get (c_workqueue c) (ctl_queue st) = (KeyItem k, False, q)"
    and "\<not> mine (ctl_world st) namespace name"
  shows "processNext c st = (True, st\<lparr>ctl_queue :=
    wq_Done (c_workqueue c) (KeyItem k) (wq_Forget (c_workqueue c) (KeyItem k) q)\<rparr>)"
  using processNext_key(1) [OF assms(3,2)] foreign [OF assms(4)] assms(1) by simp

lemma unreadable_retried:
  assumes laws: "wq_laws (c_workqueue c) todo closed" and alive: "\<not> closed (ctl_queue st)"
    and c: "c_reconciler c = reconcile" "c_SplitMetaNamespaceKey c k = Inr (namespace, name)"
    and get: "wq_Get (c_workqueue c) (ctl_queue st) = (KeyItem k, False, q)"
    and mine: "mine (ctl_world st) namespace name" and gone: "fetch namespace name (ctl_world st) = (Inl err, w)"
  shows "\<exists>st'. processNext c st = (True, st') \<and> k \<in> todo (ctl_queue st') \<and> ctl_world st' = w"
proof -
  have "\<not> closed q" using wq_Get_closed [OF laws get] alive by simp
  then show ?thesis
    using processNext_key(2) [OF get c(2)] unreadable [OF mine gone] c(1)
    by (simp add: wq_lawsD [OF laws])
qed

end

text \<open>
  A reconcile that fails at first and then succeeds, as that of both agents after every change
  of the rules, takes two rounds on a queue with nothing else to do.
\<close>

definition hands_out :: "'q workqueue \<Rightarrow> ('q \<Rightarrow> string set) \<Rightarrow> ('q \<Rightarrow> bool) \<Rightarrow> bool" where
  "hands_out wq todo closed \<longleftrightarrow>
     (\<forall>q k. \<not> closed q \<and> todo q = {k} \<longrightarrow> (\<exists>q'. wq_Get wq q = (KeyItem k, False, q')))"

lemma two_rounds:
  assumes laws: "wq_laws (c_workqueue c) todo closed" "hands_out (c_workqueue c) todo closed"
    and st: "\<not> closed (ctl_queue st)" "todo (ctl_queue st) = {k}"
    and k: "c_SplitMetaNamespaceKey c k = Inr (namespace, name)"
    and runs: "c_reconciler c namespace name (ctl_world st) = (Inl err, w)"
      "c_reconciler c namespace name w = (Inr u, w')"
  shows "\<exists>st1 st2. processNext c st = (True, st1) \<and> processNext c st1 = (True, st2) \<and>
    ctl_world st1 = w \<and> ctl_world st2 = w' \<and> todo (ctl_queue st1) = {k} \<and> todo (ctl_queue st2) \<subseteq> {k} \<and>
    \<not> closed (ctl_queue st2)"
proof -
  from laws(2) st obtain q where get: "wq_Get (c_workqueue c) (ctl_queue st) = (KeyItem k, False, q)"
    unfolding hands_out_def by blast
  note q = wq_Get_closed [OF laws(1) get] wq_Get_less [OF laws(1) get, simplified]
  note one = processNext_key(2) [OF get k runs(1)]
  let ?q1 = "wq_Done (c_workqueue c) (KeyItem k) (wq_AddRateLimited (c_workqueue c) k q)"
  have q1: "\<not> closed ?q1" "todo ?q1 = {k}" using q st by (auto simp: wq_lawsD [OF laws(1)])
  with laws(2) obtain q2 where get2: "wq_Get (c_workqueue c) ?q1 = (KeyItem k, False, q2)"
    unfolding hands_out_def by blast
  note q2 = wq_Get_closed [OF laws(1) get2] wq_Get_less [OF laws(1) get2, simplified]
  have "wq_Get (c_workqueue c) (ctl_queue (st\<lparr>ctl_world := w, ctl_queue := ?q1\<rparr>)) = (KeyItem k, False, q2)"
    using get2 by simp
  from processNext_key(1) [OF this k, of u w'] runs(2) one show ?thesis
    using q1 q2 by (simp add: wq_lawsD [OF laws(1)])
qed

text \<open>
  A key whose reconcile always fails is never dropped. \<open>I\<close> is an invariant of the reconciler's
  world.
\<close>

lemma processItem_inv:
  assumes "\<And>n m s r s'. \<lbrakk>I s; c_reconciler c n m s = (r, s')\<rbrakk> \<Longrightarrow> I s'"
    and "I (ctl_world st)" and "processItem c i st = (r, st')"
  shows "I (ctl_world st')"
  using assms
  by (auto simp: processItem_def split: item.splits sum.splits prod.splits)

lemma failing_key_step:
  assumes laws: "wq_laws (c_workqueue c) todo closed"
    and k: "c_SplitMetaNamespaceKey c k = Inr (namespace, name)"
    and I: "\<And>n m s r s'. \<lbrakk>I s; c_reconciler c n m s = (r, s')\<rbrakk> \<Longrightarrow> I s'"
    and fails: "\<And>s. I s \<Longrightarrow> \<exists>err s'. c_reconciler c namespace name s = (Inl err, s')"
    and step: "ctl_step c (ph, due, st) (ph', due', st')"
    and inv: "\<not> closed (ctl_queue st)" "I (ctl_world st)" "k \<in> todo (ctl_queue st) \<or> ph = Busy (KeyItem k)"
  shows "\<not> closed (ctl_queue st') \<and> I (ctl_world st') \<and>
    (k \<in> todo (ctl_queue st') \<or> ph' = Busy (KeyItem k))"
  using step
proof cases
  case (event ev)
  obtain obj where obj: "ev = AddEvent obj \<or> (\<exists>old. ev = UpdateEvent old obj) \<or> ev = DeleteEvent obj"
    by (cases ev) auto
  have "ctl_world (handleEvent c ev st) = ctl_world st"
    by (auto simp: handleEvent_def enqueue_def split: event.splits sum.splits)
  with handleEvent_queue [OF laws inv(1) obj] inv event show ?thesis by auto
next
  case (get i q)
  with wq_Get_closed [OF laws this(5)] wq_Get_rest [OF laws this(5)] inv show ?thesis by auto
next
  case (work i r st1)
  note w = work(5)
  have "r \<noteq> Inr ()" if "i = KeyItem k"
    using fails [OF inv(2)] w k that by (auto simp: processItem_def)
  note q = processItem_queue [OF laws inv(1) w]
  have "I (ctl_world st1)" using I inv(2) w by (rule processItem_inv)
  moreover have "k \<in> todo (ctl_queue st1)"
  proof (cases "i = KeyItem k")
    case True
    with q k \<open>i = KeyItem k \<Longrightarrow> r \<noteq> Inr ()\<close> show ?thesis by blast
  next
    case False
    with q inv(3) work(1) show ?thesis by auto
  qed
  moreover have "st' = st1\<lparr>ctl_queue := wq_Done (c_workqueue c) i (ctl_queue st1)\<rparr>" using work by simp
  ultimately show ?thesis using q by (simp add: wq_lawsD [OF laws])
qed

lemma failing_key_inv:
  assumes laws: "wq_laws (c_workqueue c) todo closed"
    and k: "c_SplitMetaNamespaceKey c k = Inr (namespace, name)"
    and I: "\<And>n m s r s'. \<lbrakk>I s; c_reconciler c n m s = (r, s')\<rbrakk> \<Longrightarrow> I s'"
    and fails: "\<And>s. I s \<Longrightarrow> \<exists>err s'. c_reconciler c namespace name s = (Inl err, s')"
    and steps: "(ctl_step c)\<^sup>*\<^sup>* (Idle, due, st) (ph', due', st')"
    and inv: "\<not> closed (ctl_queue st)" "I (ctl_world st)" "k \<in> todo (ctl_queue st)"
  shows "\<not> closed (ctl_queue st') \<and> I (ctl_world st') \<and>
    (k \<in> todo (ctl_queue st') \<or> ph' = Busy (KeyItem k))"
  using steps
proof (induction "(ph', due', st')" arbitrary: ph' due' st' rule: rtranclp_induct)
  case (step y)
  then obtain ph1 due1 st1 where y: "y = (ph1, due1, st1)" by (cases y)
  with step.hyps(2) have s: "ctl_step c (ph1, due1, st1) (ph', due', st')" by simp
  from step.hyps(3) [OF y] have
    now: "\<not> closed (ctl_queue st1)" "I (ctl_world st1)" "k \<in> todo (ctl_queue st1) \<or> ph1 = Busy (KeyItem k)"
    by simp_all
  show ?case using laws k I fails s now by (rule failing_key_step)
qed (use inv in simp)

section \<open>Properties\<close>

text \<open>
  C16: No change is lost. However events and the controller's loop interleave, a key for which
  an event arrived after the start of the last attempt at it, or whose last attempt failed, is
  in the queue and will be handed out.
\<close>

theorem no_key_lost:
  assumes "wq_laws (c_workqueue c) todo closed" and "\<not> closed (ctl_queue st)"
    and "(ctl_step c)\<^sup>*\<^sup>* (Idle, {}, st) (ph, due, st')"
  shows "due \<subseteq> todo (ctl_queue st')"
  using ctl_steps_inv [OF assms(1,3) _ assms(2)] by simp

text \<open>
  C34: A controller never stops. As long as nobody else shuts the queue down, \<^verbatim>\<open>Run\<close>
  does not return: it ends the process if the caches cannot be filled, and loops for ever
  otherwise, whatever its reconciler answers.
\<close>

theorem Run_never_returns:
  assumes "wq_laws (c_workqueue c) todo closed" and "\<not> closed (ctl_queue st)"
  shows "Run c st = (case c_WaitForCacheSync c (ctl_world st) of
    (synced, w) \<Rightarrow> if synced then None else Some (Inl (st\<lparr>ctl_world := w\<rparr>)))"
proof -
  have "reconcileLoop c (st\<lparr>ctl_world := w\<rparr>) = None" for w
  proof (rule ccontr)
    assume "reconcileLoop c (st\<lparr>ctl_world := w\<rparr>) \<noteq> None"
    then obtain s r where "rounds (reconcileRound c) (st\<lparr>ctl_world := w\<rparr>) s" and r: "reconcileRound c s = Inr r"
      unfolding reconcileLoop_def by (auto simp: forever_Some_iff)
    with rounds_open [OF assms(1)] assms(2) have "\<not> closed (ctl_queue s)" by simp
    with processNext_open [OF assms(1)] obtain s' where "processNext c s = (True, s')" by blast
    with r show False by (simp add: reconcileRound_def)
  qed
  then show ?thesis by (simp add: Run_def split: prod.split)
qed

text \<open>
  From an event to its reconcile. An event for an object that has a key puts that key into
  the queue; when the queue hands the key out, \<^verbatim>\<open>processNext\<close> calls the reconciler
  with the namespace and the name of the object, and the key stays in the queue if that fails.
\<close>

theorem event_is_reconciled:
  assumes "wq_laws (c_workqueue c) todo closed" and "key_laws c name_of"
    and "\<not> closed (ctl_queue st)"
    and "ev = AddEvent obj \<or> (\<exists>old. ev = UpdateEvent old obj) \<or> ev = DeleteEvent obj"
    and "c_MetaNamespaceKeyFunc c obj = Inr key"
  shows "key \<in> todo (ctl_queue (handleEvent c ev st)) \<and> getKey c obj = key \<and>
    (\<forall>st' q r w. \<not> closed (ctl_queue st') \<and> wq_Get (c_workqueue c) (ctl_queue st') = (KeyItem key, False, q) \<and>
       c_reconciler c (fst (name_of obj)) (snd (name_of obj)) (ctl_world st') = (r, w) \<longrightarrow>
       (\<exists>st''. processNext c st' = (True, st'') \<and> ctl_world st'' = w \<and>
          (r \<noteq> Inr () \<longrightarrow> key \<in> todo (ctl_queue st''))))"
proof -
  from assms(2,5) have split: "c_SplitMetaNamespaceKey c key = Inr (fst (name_of obj), snd (name_of obj))"
    by (simp add: key_laws_def)
  have "\<exists>st''. processNext c st' = (True, st'') \<and> ctl_world st'' = w \<and> (r \<noteq> Inr () \<longrightarrow> key \<in> todo (ctl_queue st''))"
    if alive: "\<not> closed (ctl_queue st')" and get: "wq_Get (c_workqueue c) (ctl_queue st') = (KeyItem key, False, q)"
      and run: "c_reconciler c (fst (name_of obj)) (snd (name_of obj)) (ctl_world st') = (r, w)" for st' q r w
  proof (cases r)
    case (Inl err)
    have "\<not> closed q" using wq_Get_closed [OF assms(1) get] alive by simp
    with processNext_key(2) [OF get split run [unfolded Inl]] show ?thesis by (simp add: wq_lawsD [OF assms(1)])
  next
    case (Inr u)
    with processNext_key(1) [OF get split run [unfolded Inr]] show ?thesis by simp
  qed
  moreover have "key \<in> todo (ctl_queue (handleEvent c ev st))"
    using handleEvent_queue [OF assms(1,3,4)] assms(5) by simp
  ultimately show ?thesis by (simp add: getKey_def assms(5))
qed

end
