(* ===== verification/TunnelTable.thy ===== *)
theory TunnelTable
  imports Tunnels
begin

text \<open>
  The tables of tunnels of \<^verbatim>\<open>pkg/forwarder/reconciler.go\<close>: keys, the tunnel a key
  stands for, and bringing a table in line with the expected keys. The code is written twice,
  for \<^verbatim>\<open>tunnels\<close> and \<^verbatim>\<open>remoteTunnels\<close>; the shared loops are
  \<open>deleteUnused\<close> and \<open>ensureTunnels\<close>, and their contract is the locale \<open>tunnel_table\<close>.
\<close>

section \<open>The code\<close>

text \<open>
  The state of the process that creating and cancelling tunnels changes: the next context, the
  contexts that were cancelled, and the tunnels for which \<^verbatim>\<open>ForwardNB\<close> or
  \<^verbatim>\<open>RemoteForwardNB\<close> started a goroutine.
\<close>

record goroutines =
  go_nextContext :: nat
  go_cancelled :: "nat list"
  go_forwards :: "tunnel list"
  go_remoteForwards :: "tunnel list"

record reconciler =
  f_namespace :: string
  f_name :: string
  f_tunnels :: "tunnel gomap"
  f_remoteTunnels :: "tunnel gomap"

definition NewReconciler :: "string \<Rightarrow> string \<Rightarrow> reconciler" where
  "NewReconciler namespace name =
     \<lparr>f_namespace = namespace, f_name = name, f_tunnels = [], f_remoteTunnels = []\<rparr>"

definition CancelTunnel :: "tunnel \<Rightarrow> goroutines \<Rightarrow> goroutines" where
  "CancelTunnel t g = g\<lparr>go_cancelled := tun_context t # go_cancelled g\<rparr>"

definition ForwardNB :: "tunnel \<Rightarrow> goroutines \<Rightarrow> goroutines" where
  "ForwardNB t g = g\<lparr>go_forwards := go_forwards g @ [t]\<rparr>"

definition RemoteForwardNB :: "tunnel \<Rightarrow> goroutines \<Rightarrow> goroutines" where
  "RemoteForwardNB t g = g\<lparr>go_remoteForwards := go_remoteForwards g @ [t]\<rparr>"

text \<open>\<open>toTunnel ctx tun\<close>: the new tunnel gets the context \<open>ctx\<close>. Fewer than six pieces panic.\<close>

definition toTunnel :: "nat \<Rightarrow> string \<Rightarrow> tunnel result" where
  "toTunnel ctx tun =
     (let s = split_on (CHR '':'') tun
      in if length s < 6 then Inl GoPanic
         else Inr (NewTunnel ctx (s ! 0 @ '':'' @ s ! 1) (s ! 2 @ '':'' @ s ! 3) (s ! 4 @ '':'' @ s ! 5)))"

definition deleteUnused ::
  "key_order \<Rightarrow> bool gomap \<Rightarrow> tunnel gomap \<times> goroutines \<Rightarrow> tunnel gomap \<times> goroutines" where
  "deleteUnused ord expected = (\<lambda>(tbl, g).
     let (deleted, g) = fold (\<lambda>(k, tunnel) (deleted, g).
           if map_of expected k = None then (deleted @ [k], CancelTunnel tunnel g) else (deleted, g))
         (grange ord tbl) ([], g)
     in (fold gdel deleted tbl, g))"

definition ensureStep ::
  "(tunnel \<Rightarrow> goroutines \<Rightarrow> goroutines) \<Rightarrow> tunnel gomap \<Rightarrow> string \<Rightarrow> tunnel gomap \<times> goroutines
     \<Rightarrow> (tunnel gomap \<times> goroutines) result" where
  "ensureStep start tbl k = (\<lambda>(created, g).
     if map_of tbl k \<noteq> None then Inr (created, g)
     else rbind (toTunnel (go_nextContext g) k) (\<lambda>tunnel.
       Inr (gset k tunnel created, start tunnel (g\<lparr>go_nextContext := go_nextContext g + 1\<rparr>))))"

definition ensureTunnels ::
  "key_order \<Rightarrow> key_order \<Rightarrow> (tunnel \<Rightarrow> goroutines \<Rightarrow> goroutines) \<Rightarrow> bool gomap
     \<Rightarrow> tunnel gomap \<times> goroutines \<Rightarrow> (tunnel gomap \<times> goroutines) result" where
  "ensureTunnels ord1 ord2 start expected = (\<lambda>(tbl, g).
     rbind (foldR (ensureStep start tbl) (map fst (grange ord1 expected)) ([], g)) (\<lambda>(created, g).
       Inr (fold (\<lambda>(k, v). gset k v) (grange ord2 created) tbl, g)))"

text \<open>The four functions and the two updates; \<open>o1\<close>, \<open>o2\<close>, \<open>o3\<close> are the orders of the loops.\<close>

definition deleteUnusedSSHTunnel ::
  "key_order \<Rightarrow> bool gomap \<Rightarrow> reconciler \<times> goroutines \<Rightarrow> reconciler \<times> goroutines" where
  "deleteUnusedSSHTunnel o1 expected = (\<lambda>(f, g).
     let (tbl, g) = deleteUnused o1 expected (f_tunnels f, g) in (f\<lparr>f_tunnels := tbl\<rparr>, g))"

definition ensureSSHTunnel ::
  "key_order \<Rightarrow> key_order \<Rightarrow> bool gomap \<Rightarrow> reconciler \<times> goroutines
     \<Rightarrow> (reconciler \<times> goroutines) result" where
  "ensureSSHTunnel o2 o3 expected = (\<lambda>(f, g).
     rbind (ensureTunnels o2 o3 ForwardNB expected (f_tunnels f, g)) (\<lambda>(tbl, g).
       Inr (f\<lparr>f_tunnels := tbl\<rparr>, g)))"

definition deleteUnusedRemoteSSHTunnel ::
  "key_order \<Rightarrow> bool gomap \<Rightarrow> reconciler \<times> goroutines \<Rightarrow> reconciler \<times> goroutines" where
  "deleteUnusedRemoteSSHTunnel o1 expected = (\<lambda>(f, g).
     let (tbl, g) = deleteUnused o1 expected (f_remoteTunnels f, g)
     in (f\<lparr>f_remoteTunnels := tbl\<rparr>, g))"

definition ensureRemoteSSHTunnel ::
  "key_order \<Rightarrow> key_order \<Rightarrow> bool gomap \<Rightarrow> reconciler \<times> goroutines
     \<Rightarrow> (reconciler \<times> goroutines) result" where
  "ensureRemoteSSHTunnel o2 o3 expected = (\<lambda>(f, g).
     rbind (ensureTunnels o2 o3 RemoteForwardNB expected (f_remoteTunnels f, g)) (\<lambda>(tbl, g).
       Inr (f\<lparr>f_remoteTunnels := tbl\<rparr>, g)))"

definition updateSSHTunnel ::
  "key_order \<Rightarrow> key_order \<Rightarrow> key_order \<Rightarrow> bool gomap \<Rightarrow> reconciler \<times> goroutines
     \<Rightarrow> (reconciler \<times> goroutines) result" where
  "updateSSHTunnel o1 o2 o3 expected s = ensureSSHTunnel o2 o3 expected (deleteUnusedSSHTunnel o1 expected s)"

definition updateRemoteSSHTunnel ::
  "key_order \<Rightarrow> key_order \<Rightarrow> key_order \<Rightarrow> bool gomap \<Rightarrow> reconciler \<times> goroutines
     \<Rightarrow> (reconciler \<times> goroutines) result" where
  "updateRemoteSSHTunnel o1 o2 o3 expected s =
     ensureRemoteSSHTunnel o2 o3 expected (deleteUnusedRemoteSSHTunnel o1 expected s)"

section \<open>Keys\<close>

definition tunnelKey :: "string \<Rightarrow> string \<Rightarrow> string \<Rightarrow> string \<Rightarrow> string \<Rightarrow> string \<Rightarrow> string" where
  "tunnelKey a b c d e f = a @ '':'' @ b @ '':'' @ c @ '':'' @ d @ '':'' @ e @ '':'' @ f"

lemma tunnelKey_pieces: "6 \<le> length (split_on (CHR '':'') (tunnelKey a b c d e f))"
  by (simp add: tunnelKey_def length_split_on)

lemma toTunnel_key:
  assumes "\<forall>x \<in> {a, b, c, d, e, f}. CHR '':'' \<notin> set x"
  shows "toTunnel ctx (tunnelKey a b c d e f) =
    Inr (NewTunnel ctx (a @ '':'' @ b) (c @ '':'' @ d) (e @ '':'' @ f))"
proof -
  have "split_on (CHR '':'') (tunnelKey a b c d e f) = [a, b, c, d, e, f]"
    using assms by (simp add: tunnelKey_def)
  then show ?thesis by (simp add: toTunnel_def numeral_eq_Suc)
qed

lemma toTunnel_total: "6 \<le> length (split_on (CHR '':'') k) \<Longrightarrow> \<exists>t. toTunnel ctx k = Inr t"
  by (simp add: toTunnel_def Let_def)

lemma toTunnel_context: "toTunnel ctx k = Inr t \<Longrightarrow> tun_context t = ctx"
  by (auto simp: toTunnel_def NewTunnel_def Let_def split: if_splits)

section \<open>The two loops\<close>

lemma delete_fold:
  "fold (\<lambda>(k, tunnel) (deleted, g).
       if map_of expected k = None then (deleted @ [k], CancelTunnel tunnel g) else (deleted, g)) xs (d, g) =
   (d @ map fst (filter (\<lambda>x. map_of expected (fst x) = None) xs),
    g\<lparr>go_cancelled := rev (map (\<lambda>x. tun_context (snd x))
        (filter (\<lambda>x. map_of expected (fst x) = None) xs)) @ go_cancelled g\<rparr>)"
  by (induction xs arbitrary: d g) (auto simp: CancelTunnel_def)

lemma fold_gdel:
  "map_of (fold gdel ks m) = (\<lambda>k. if k \<in> set ks then None else map_of m k)"
  "gomap_ok m \<Longrightarrow> gomap_ok (fold gdel ks m)"
  by (induction ks arbitrary: m) (auto simp: fun_eq_iff)

lemma deleteUnused_spec:
  assumes "range_order ord" and "gomap_ok tbl" and "deleteUnused ord expected (tbl, g) = (tbl', g')"
  shows "gomap_ok tbl' \<and> map_of tbl' = map_of tbl |` dom (map_of expected) \<and>
    (\<exists>c. g' = g\<lparr>go_cancelled := c\<rparr> \<and> set c = set (go_cancelled g) \<union>
       {tun_context t |k t. map_of tbl k = Some t \<and> map_of expected k = None})"
proof -
  let ?xs = "filter (\<lambda>x. map_of expected (fst x) = None) (grange ord tbl)"
  from assms(3) have tbl': "tbl' = fold gdel (map fst ?xs) tbl"
    and g': "g' = g\<lparr>go_cancelled := rev (map (\<lambda>x. tun_context (snd x)) ?xs) @ go_cancelled g\<rparr>"
    by (simp_all add: deleteUnused_def delete_fold)
  have "set ?xs = {(k, t). map_of tbl k = Some t \<and> map_of expected k = None}"
    by (auto simp: set_grange [OF assms(1)])
  then show ?thesis
    using assms(2)
    by (fastforce simp: tbl' g' fold_gdel restrict_map_def fun_eq_iff image_iff)
qed

text \<open>
  \<open>starts sel start\<close>: \<open>start\<close> adds a tunnel to the list \<open>sel\<close> and changes neither contexts nor
  cancellations.
\<close>

definition starts :: "(goroutines \<Rightarrow> tunnel list) \<Rightarrow> (tunnel \<Rightarrow> goroutines \<Rightarrow> goroutines) \<Rightarrow> bool" where
  "starts sel start \<longleftrightarrow>
     (\<forall>t g. go_nextContext (start t g) = go_nextContext g \<and> go_cancelled (start t g) = go_cancelled g \<and>
        sel (start t g) = sel g @ [t]) \<and>
     (\<forall>g n. sel (g\<lparr>go_nextContext := n\<rparr>) = sel g)"

text \<open>What the tunnels created between two states are: \<open>new\<close> maps keys to tunnels.\<close>

definition created_ok ::
  "(goroutines \<Rightarrow> tunnel list) \<Rightarrow> goroutines \<Rightarrow> goroutines \<Rightarrow> (string \<rightharpoonup> tunnel) \<Rightarrow> bool" where
  "created_ok sel g g' new \<longleftrightarrow>
     go_nextContext g \<le> go_nextContext g' \<and> go_cancelled g' = go_cancelled g \<and>
     set (sel g') = set (sel g) \<union> ran new \<and>
     (\<forall>k t. new k = Some t \<longrightarrow> toTunnel (tun_context t) k = Inr t \<and>
        go_nextContext g \<le> tun_context t \<and> tun_context t < go_nextContext g') \<and>
     (\<forall>k k' t t'. new k = Some t \<and> new k' = Some t' \<and> tun_context t = tun_context t' \<longrightarrow> k = k')"

lemma created_okD:
  assumes "created_ok sel g g' new"
  shows "go_nextContext g \<le> go_nextContext g'" and "go_cancelled g' = go_cancelled g"
    and "set (sel g') = set (sel g) \<union> ran new"
    and "new k = Some t \<Longrightarrow> toTunnel (tun_context t) k = Inr t"
    and "new k = Some t \<Longrightarrow> go_nextContext g \<le> tun_context t"
    and "new k = Some t \<Longrightarrow> tun_context t < go_nextContext g'"
    and "new k = Some t \<Longrightarrow> new k' = Some t' \<Longrightarrow> tun_context t = tun_context t' \<Longrightarrow> k = k'"
  using assms unfolding created_ok_def by blast+

lemma created_ok_upd:
  assumes c: "created_ok sel g1 g' new" and g1: "go_nextContext g1 = go_nextContext g + 1"
    "go_cancelled g1 = go_cancelled g" "sel g1 = sel g @ [t]"
    and t: "toTunnel (go_nextContext g) k = Inr t" and k: "new k = None"
  shows "created_ok sel g g' (new(k \<mapsto> t))"
proof -
  note d = created_okD [OF c, unfolded g1]
  have ctx: "tun_context t = go_nextContext g" using t by (rule toTunnel_context)
  have other: "tun_context t' \<noteq> go_nextContext g" if "new k' = Some t'" for k' t'
    using d(5) [OF that] by simp
  have "toTunnel (tun_context t') k' = Inr t' \<and> go_nextContext g \<le> tun_context t' \<and>
      tun_context t' < go_nextContext g'" if "(new(k \<mapsto> t)) k' = Some t'" for k' t'
  proof (cases "k' = k")
    case True
    with that t ctx d(1) show ?thesis by simp
  next
    case False
    with that have "new k' = Some t'" by simp
    from d(4-6) [OF this] show ?thesis by simp
  qed
  moreover have "k1 = k2" if "(new(k \<mapsto> t)) k1 = Some t1" "(new(k \<mapsto> t)) k2 = Some t2"
      "tun_context t1 = tun_context t2" for k1 k2 t1 t2
  proof (cases "k1 = k \<or> k2 = k")
    case True
    then show ?thesis
    proof
      assume "k1 = k"
      with that ctx other [of k2 t2] show ?thesis by (cases "k2 = k") auto
    next
      assume "k2 = k"
      with that ctx other [of k1 t1] show ?thesis by (cases "k1 = k") auto
    qed
  next
    case False
    with that d(7) [of k1 t1 k2 t2] show ?thesis by simp
  qed
  moreover have "set (sel g') = set (sel g) \<union> ran (new(k \<mapsto> t))"
    using d(3) k by (simp add: ran_map_upd)
  moreover have "go_nextContext g \<le> go_nextContext g'" using d(1) by simp
  ultimately show ?thesis
    unfolding created_ok_def using d(2) by blast
qed

lemma ensureStep_app:
  "ensureStep start tbl k (created, g) =
     (if map_of tbl k \<noteq> None then Inr (created, g)
      else rbind (toTunnel (go_nextContext g) k) (\<lambda>tunnel.
        Inr (gset k tunnel created, start tunnel (g\<lparr>go_nextContext := go_nextContext g + 1\<rparr>))))"
  by (simp add: ensureStep_def)

lemma ensure_loop:
  assumes start: "starts sel start"
    and run: "foldR (ensureStep start tbl) ks (created, g) = Inr (created', g')"
    and "distinct ks" and "set ks \<inter> dom (map_of created) = {}" and "gomap_ok created"
  shows "gomap_ok created' \<and>
    (\<exists>new. dom new = set ks - dom (map_of tbl) \<and> map_of created' = map_of created ++ new \<and>
       created_ok sel g g' new)"
  using assms(2-)
proof (induction ks arbitrary: created g)
  case Nil
  then show ?case by (intro conjI exI [of _ Map.empty]) (auto simp: created_ok_def)
next
  case (Cons k ks)
  show ?case
  proof (cases "map_of tbl k")
    case (Some t)
    then have "ensureStep start tbl k (created, g) = Inr (created, g)" by (simp add: ensureStep_def)
    with Cons.prems Cons.IH [of created g] have "gomap_ok created' \<and>
      (\<exists>new. dom new = set ks - dom (map_of tbl) \<and> map_of created' = map_of created ++ new \<and>
         created_ok sel g g' new)" by simp
    with Some show ?thesis by (auto simp: insert_Diff_if)
  next
    case None
    let ?g0 = "g\<lparr>go_nextContext := go_nextContext g + 1\<rparr>"
    from Cons.prems(1) None obtain t where t: "toTunnel (go_nextContext g) k = Inr t"
      and rest: "foldR (ensureStep start tbl) ks (gset k t created, start t ?g0) = Inr (created', g')"
      by (auto simp: ensureStep_app rbind_Inr_iff)
    have "distinct ks" "set ks \<inter> dom (map_of (gset k t created)) = {}" "gomap_ok (gset k t created)"
      using Cons.prems by auto
    from Cons.IH [OF rest this] obtain new where ok: "gomap_ok created'"
      and new: "dom new = set ks - dom (map_of tbl)" "map_of created' = (map_of created)(k \<mapsto> t) ++ new"
      and c: "created_ok sel (start t ?g0) g' new" unfolding map_of_gset by blast
    from new(1) Cons.prems(2) have k: "new k = None" by auto
    have s: "go_nextContext (start t ?g0) = go_nextContext g + 1"
      "go_cancelled (start t ?g0) = go_cancelled g" "sel (start t ?g0) = sel g @ [t]"
      using start by (simp_all add: starts_def)
    have "created_ok sel g g' (new(k \<mapsto> t))" using c s t k by (rule created_ok_upd)
    moreover have "dom (new(k \<mapsto> t)) = set (k # ks) - dom (map_of tbl)"
      using new(1) None by auto
    moreover have "map_of created' = map_of created ++ new(k \<mapsto> t)"
      using new(2) k by (auto simp: map_add_def fun_eq_iff split: option.split)
    ultimately show ?thesis using ok by blast
  qed
qed

lemma fold_gset_pairs:
  assumes "distinct (map fst xs)"
  shows "map_of (fold (\<lambda>(k, v). gset k v) xs m) = map_of m ++ map_of xs"
  using assms
proof (induction xs arbitrary: m)
  case (Cons x xs)
  obtain k v where x: "x = (k, v)" by (cases x)
  with Cons.prems have "map_of xs k = None" by (simp add: map_of_eq_None_iff)
  with Cons x show ?case by (auto simp: map_add_def fun_eq_iff split: option.split)
qed simp

lemma fold_gset_ok: "gomap_ok m \<Longrightarrow> gomap_ok (fold (\<lambda>(k, v). gset k v) xs m)"
  by (induction xs arbitrary: m) auto

lemma ensureTunnels_spec:
  assumes ord: "range_order ord1" "range_order ord2" and start: "starts sel start"
    and ok: "gomap_ok expected" "gomap_ok tbl"
    and run: "ensureTunnels ord1 ord2 start expected (tbl, g) = Inr (tbl', g')"
  shows "gomap_ok tbl' \<and>
    (\<exists>new. dom new = dom (map_of expected) - dom (map_of tbl) \<and> map_of tbl' = map_of tbl ++ new \<and>
       created_ok sel g g' new)"
proof -
  from run obtain created where
    loop: "foldR (ensureStep start tbl) (map fst (grange ord1 expected)) ([], g) = Inr (created, g')"
    and tbl': "tbl' = fold (\<lambda>(k, v). gset k v) (grange ord2 created) tbl"
    by (auto simp: ensureTunnels_def rbind_Inr_iff)
  from ensure_loop [OF start loop distinct_grange [OF ord(1) ok(1)]]
  obtain new where c: "gomap_ok created" and new: "dom new = dom (map_of expected) - dom (map_of tbl)"
    "map_of created = new" "created_ok sel g g' new"
    by (auto simp: fst_grange_set [OF ord(1)])
  have "map_of tbl' = map_of tbl ++ new"
    by (simp add: tbl' fold_gset_pairs distinct_grange [OF ord(2) c] map_of_grange [OF ord(2) c] new(2))
  then show ?thesis using new ok(2) fold_gset_ok tbl' by blast
qed

lemma ensureTunnels_total:
  assumes "range_order ord1"
    and "\<forall>k \<in> dom (map_of expected). 6 \<le> length (split_on (CHR '':'') k)"
  shows "\<exists>s. ensureTunnels ord1 ord2 start expected (tbl, g) = Inr s"
proof -
  have step: "\<exists>s'. ensureStep start tbl k s = Inr s'" if len: "6 \<le> length (split_on (CHR '':'') k)" for k s
  proof -
    obtain created g where s: "s = (created, g)" by (cases s)
    obtain t where "toTunnel (go_nextContext g) k = Inr t" using toTunnel_total [OF len] by blast
    then show ?thesis by (simp add: s ensureStep_app)
  qed
  have loop: "\<exists>s'. foldR (ensureStep start tbl) ks s = Inr s'"
    if "\<forall>k \<in> set ks. 6 \<le> length (split_on (CHR '':'') k)" for ks s
    using that
  proof (induction ks arbitrary: s)
    case (Cons k ks)
    then have "6 \<le> length (split_on (CHR '':'') k)" by simp
    from step [OF this, of s] obtain s' where "ensureStep start tbl k s = Inr s'" by (rule exE)
    with Cons show ?case by simp
  qed simp
  have "\<exists>s'. foldR (ensureStep start tbl) (map fst (grange ord1 expected)) ([], g) = Inr s'"
    using assms(2) by (intro loop) (simp add: fst_grange_set [OF assms(1)])
  then obtain s' where
    "foldR (ensureStep start tbl) (map fst (grange ord1 expected)) ([], g) = Inr s'" by blast
  then show ?thesis by (cases s') (simp add: ensureTunnels_def)
qed

section \<open>The invariant\<close>

text \<open>
  Every tunnel of a table has the endpoints its key says and a live context of its own.
\<close>

definition tbl_ok :: "tunnel gomap \<Rightarrow> goroutines \<Rightarrow> bool" where
  "tbl_ok tbl g \<longleftrightarrow> gomap_ok tbl \<and>
     (\<forall>k t. map_of tbl k = Some t \<longrightarrow> toTunnel (tun_context t) k = Inr t \<and>
        tun_context t < go_nextContext g \<and> tun_context t \<notin> set (go_cancelled g)) \<and>
     (\<forall>k k' t t'. map_of tbl k = Some t \<and> map_of tbl k' = Some t' \<and> tun_context t = tun_context t' \<longrightarrow> k = k')"

definition contexts :: "tunnel gomap \<Rightarrow> nat set" where
  "contexts tbl = tun_context ` ran (map_of tbl)"

definition tables_ok :: "tunnel gomap \<Rightarrow> tunnel gomap \<Rightarrow> goroutines \<Rightarrow> bool" where
  "tables_ok t1 t2 g \<longleftrightarrow> tbl_ok t1 g \<and> tbl_ok t2 g \<and> contexts t1 \<inter> contexts t2 = {} \<and>
     (\<forall>c \<in> set (go_cancelled g). c < go_nextContext g)"

definition tunnels_ok :: "reconciler \<Rightarrow> goroutines \<Rightarrow> bool" where
  "tunnels_ok f g \<longleftrightarrow> tables_ok (f_tunnels f) (f_remoteTunnels f) g"

lemma tables_ok_commute: "tables_ok t1 t2 g \<Longrightarrow> tables_ok t2 t1 g"
  by (auto simp: tables_ok_def)

lemma tbl_okD:
  assumes "tbl_ok tbl g"
  shows "gomap_ok tbl"
    and "map_of tbl k = Some t \<Longrightarrow> toTunnel (tun_context t) k = Inr t"
    and "map_of tbl k = Some t \<Longrightarrow> tun_context t < go_nextContext g"
    and "map_of tbl k = Some t \<Longrightarrow> tun_context t \<notin> set (go_cancelled g)"
    and "map_of tbl k = Some t \<Longrightarrow> map_of tbl k' = Some t' \<Longrightarrow> tun_context t = tun_context t' \<Longrightarrow> k = k'"
  using assms unfolding tbl_ok_def by blast+

lemma context_of: "map_of tbl k = Some t \<Longrightarrow> tun_context t \<in> contexts tbl"
  by (auto simp: contexts_def ran_def)

section \<open>The contract of a table\<close>

text \<open>
  \<open>change tbl g expected tbl' g'\<close>: what an update does to one table. Tunnels whose key is no
  longer expected are cancelled and forgotten, the other old tunnels stay as they are, and
  for each missing key a new tunnel is started.
\<close>

definition change ::
  "(goroutines \<Rightarrow> tunnel list) \<Rightarrow> tunnel gomap \<Rightarrow> goroutines \<Rightarrow> bool gomap \<Rightarrow> tunnel gomap
     \<Rightarrow> goroutines \<Rightarrow> bool" where
  "change sel tbl g expected tbl' g' \<longleftrightarrow> gomap_ok tbl' \<and>
     (\<exists>new c. dom new = dom (map_of expected) - dom (map_of tbl) \<and>
        map_of tbl' = (map_of tbl |` dom (map_of expected)) ++ new \<and>
        set c = set (go_cancelled g) \<union>
          {tun_context t |k t. map_of tbl k = Some t \<and> map_of expected k = None} \<and>
        created_ok sel (g\<lparr>go_cancelled := c\<rparr>) g' new)"

locale tunnel_table =
  fixes table :: "reconciler \<Rightarrow> tunnel gomap" and other :: "reconciler \<Rightarrow> tunnel gomap"
    and started :: "goroutines \<Rightarrow> tunnel list" and other_started :: "goroutines \<Rightarrow> tunnel list"
    and update :: "key_order \<Rightarrow> key_order \<Rightarrow> key_order \<Rightarrow> bool gomap \<Rightarrow> reconciler \<times> goroutines
      \<Rightarrow> (reconciler \<times> goroutines) result"
  assumes update_change:
      "\<lbrakk>range_order o1; range_order o2; range_order o3; gomap_ok expected; gomap_ok (table f);
        update o1 o2 o3 expected (f, g) = Inr (f', g')\<rbrakk> \<Longrightarrow>
       change started (table f) g expected (table f') g' \<and> other f' = other f \<and>
       f_namespace f' = f_namespace f \<and> f_name f' = f_name f"
    and update_total:
      "\<lbrakk>range_order o1; range_order o2; range_order o3; gomap_ok expected; gomap_ok (table f);
        \<forall>k \<in> dom (map_of expected). 6 \<le> length (split_on (CHR '':'') k)\<rbrakk> \<Longrightarrow>
       \<exists>s. update o1 o2 o3 expected (f, g) = Inr s"
    and update_other_started:
      "update o1 o2 o3 expected (f, g) = Inr (f', g') \<Longrightarrow> other_started g' = other_started g"
    and started_cancel: "started (g\<lparr>go_cancelled := c\<rparr>) = started g"
begin

text \<open>Every tunnel of the table has its goroutine.\<close>

lemma update_started:
  assumes "range_order o1" "range_order o2" "range_order o3" "gomap_ok expected" "gomap_ok (table f)"
    and "update o1 o2 o3 expected (f, g) = Inr (f', g')"
    and "ran (map_of (table f)) \<subseteq> set (started g)"
  shows "ran (map_of (table f')) \<subseteq> set (started g')"
proof -
  from update_change [OF assms(1-6)] obtain new c where
    tbl': "map_of (table f') = (map_of (table f) |` dom (map_of expected)) ++ new"
    and made: "created_ok started (g\<lparr>go_cancelled := c\<rparr>) g' new"
    unfolding change_def by blast
  from created_okD(3) [OF made] have "set (started g') = set (started g) \<union> ran new"
    by (simp add: started_cancel)
  moreover have "ran (map_of (table f')) \<subseteq> ran (map_of (table f)) \<union> ran new"
    by (auto simp: tbl' ran_def map_add_def restrict_map_def split: option.splits if_splits)
  ultimately show ?thesis using assms(7) by blast
qed

lemma update_keys:
  assumes "range_order o1" "range_order o2" "range_order o3" "gomap_ok expected" "gomap_ok (table f)"
    and "update o1 o2 o3 expected (f, g) = Inr (f', g')"
  shows "dom (map_of (table f')) = dom (map_of expected)"
    and "k \<in> dom (map_of expected) \<Longrightarrow> map_of (table f) k = Some t \<Longrightarrow> map_of (table f') k = Some t"
    and "k \<notin> dom (map_of expected) \<Longrightarrow> map_of (table f) k = Some t \<Longrightarrow> tun_context t \<in> set (go_cancelled g')"
    and "k \<notin> dom (map_of (table f)) \<Longrightarrow> map_of (table f') k = Some t \<Longrightarrow>
           t \<in> set (started g') \<and> go_nextContext g \<le> tun_context t"
proof -
  from update_change [OF assms] obtain new c where
    new: "dom new = dom (map_of expected) - dom (map_of (table f))"
    and tbl': "map_of (table f') = (map_of (table f) |` dom (map_of expected)) ++ new"
    and c: "set c = set (go_cancelled g) \<union>
          {tun_context t |k t. map_of (table f) k = Some t \<and> map_of expected k = None}"
    and made: "created_ok started (g\<lparr>go_cancelled := c\<rparr>) g' new"
    unfolding change_def by blast
  note d = created_okD [OF made, simplified]
  show "dom (map_of (table f')) = dom (map_of expected)"
    unfolding tbl' dom_map_add new by (auto simp: restrict_map_def split: if_splits)
  show "map_of (table f') k = Some t" if "k \<in> dom (map_of expected)" "map_of (table f) k = Some t"
  proof -
    from that(2) new have "new k = None" by auto
    with that show ?thesis by (simp add: tbl' map_add_def)
  qed
  show "tun_context t \<in> set (go_cancelled g')"
    if "k \<notin> dom (map_of expected)" "map_of (table f) k = Some t"
  proof -
    have "tun_context t \<in> {tun_context t |k t. map_of (table f) k = Some t \<and> map_of expected k = None}"
      using that by (intro CollectI exI [of _ k] exI [of _ t]) auto
    then show ?thesis unfolding d(2) c by (rule UnI2)
  qed
  show "t \<in> set (started g') \<and> go_nextContext g \<le> tun_context t"
    if "k \<notin> dom (map_of (table f))" "map_of (table f') k = Some t"
  proof -
    from that(1) have "(map_of (table f) |` dom (map_of expected)) k = None"
      by (auto simp: restrict_map_def)
    with that(2) have "new k = Some t" by (simp add: tbl' map_add_def split: option.splits)
    with d(3,5) show ?thesis by (auto simp: ran_def)
  qed
qed

lemma update_ok:
  assumes ord: "range_order o1" "range_order o2" "range_order o3" "gomap_ok expected"
    and ok: "tables_ok (table f) (other f) g"
    and run: "update o1 o2 o3 expected (f, g) = Inr (f', g')"
  shows "tables_ok (table f') (other f') g'"
proof -
  from ok have t: "tbl_ok (table f) g" and u: "tbl_ok (other f) g"
    and disj: "contexts (table f) \<inter> contexts (other f) = {}"
    and bound: "\<forall>c \<in> set (go_cancelled g). c < go_nextContext g" by (simp_all add: tables_ok_def)
  from update_change [OF ord tbl_okD(1) [OF t] run] obtain new c where
    ok': "gomap_ok (table f')" and other: "other f' = other f"
    and new: "dom new = dom (map_of expected) - dom (map_of (table f))"
    and tbl': "map_of (table f') = (map_of (table f) |` dom (map_of expected)) ++ new"
    and c: "set c = set (go_cancelled g) \<union>
          {tun_context t |k t. map_of (table f) k = Some t \<and> map_of expected k = None}"
    and made: "created_ok started (g\<lparr>go_cancelled := c\<rparr>) g' new"
    unfolding change_def by blast
  note d = created_okD [OF made, simplified]
  have old_or_new: "map_of (table f) k = Some t \<and> k \<in> dom (map_of expected) \<or> new k = Some t"
    if "map_of (table f') k = Some t" for k t
    using that by (auto simp: tbl' map_add_def restrict_map_def split: option.splits if_splits)
  have old_ctx: "ctx < go_nextContext g" if "ctx \<in> set (go_cancelled g')" for ctx
    using that bound tbl_okD(3) [OF t] unfolding d(2) c by auto
  have kept: "tun_context x \<notin> set (go_cancelled g')"
    if "map_of (table f) k = Some x" "k \<in> dom (map_of expected)" for k x
  proof
    assume "tun_context x \<in> set (go_cancelled g')"
    with tbl_okD(4) [OF t that(1)] obtain k' x' where "map_of (table f) k' = Some x'"
      and none: "map_of expected k' = None" and "tun_context x = tun_context x'"
      unfolding d(2) c by blast
    with tbl_okD(5) [OF t that(1)] have "k = k'" by blast
    with that(2) none show False by auto
  qed
  have fresh: "tun_context x \<notin> set (go_cancelled g')" if "new k = Some x" for k x
    using old_ctx d(5) [OF that] by (metis leD)
  have entries: "toTunnel (tun_context x) k = Inr x \<and> tun_context x < go_nextContext g' \<and>
      tun_context x \<notin> set (go_cancelled g')" if "map_of (table f') k = Some x" for k x
    using old_or_new [OF that]
  proof
    assume old: "map_of (table f) k = Some x \<and> k \<in> dom (map_of expected)"
    then have "map_of (table f) k = Some x" by simp
    from tbl_okD(2,3) [OF t this] kept [OF this] old d(1) show ?thesis by auto
  next
    assume new: "new k = Some x"
    from d(4,6) [OF new] fresh [OF new] show ?thesis by simp
  qed
  have apart: "tun_context x \<noteq> tun_context x'" if "map_of (table f) k = Some x" "new k' = Some x'"
    for k x k' x'
    using tbl_okD(3) [OF t that(1)] d(5) [OF that(2)] by simp
  have inj: "k = k'" if x: "map_of (table f') k = Some x" and x': "map_of (table f') k' = Some x'"
    and same: "tun_context x = tun_context x'" for k k' x x'
  proof -
    from old_or_new [OF x] old_or_new [OF x'] consider
        "map_of (table f) k = Some x" "map_of (table f) k' = Some x'"
      | "map_of (table f) k = Some x" "new k' = Some x'"
      | "new k = Some x" "map_of (table f) k' = Some x'" | "new k = Some x" "new k' = Some x'" by blast
    then show ?thesis
    proof cases
      case 1 then show ?thesis using same by (rule tbl_okD(5) [OF t])
    next
      case 2 with apart same show ?thesis by blast
    next
      case 3 with apart [OF 3(2,1)] same show ?thesis by simp
    next
      case 4 then show ?thesis using same by (rule d(7))
    qed
  qed
  have "tbl_ok (table f') g'"
    unfolding tbl_ok_def using ok' entries inj by blast
  moreover have "tbl_ok (other f') g'"
    unfolding other tbl_ok_def
  proof (intro conjI allI impI tbl_okD(1) [OF u])
    fix k x assume k: "map_of (other f) k = Some x"
    show "toTunnel (tun_context x) k = Inr x" using u k by (rule tbl_okD(2))
    show "tun_context x < go_nextContext g'" using tbl_okD(3) [OF u k] d(1) by simp
    show "tun_context x \<notin> set (go_cancelled g')"
      using tbl_okD(4) [OF u k] context_of [OF k] context_of disj unfolding d(2) c by fastforce
  next
    fix k k' x x'
    assume "map_of (other f) k = Some x \<and> map_of (other f) k' = Some x' \<and> tun_context x = tun_context x'"
    then show "k = k'" using tbl_okD(5) [OF u] by metis
  qed
  moreover have "contexts (table f') \<inter> contexts (other f') = {}"
  proof (rule ccontr)
    assume "\<not> ?thesis"
    then obtain k x k' x' where a: "map_of (table f') k = Some x" and b: "map_of (other f) k' = Some x'"
      and same: "tun_context x = tun_context x'"
      by (auto simp: contexts_def ran_def other)
    from old_or_new [OF a] show False
    proof
      assume "map_of (table f) k = Some x \<and> k \<in> dom (map_of expected)"
      with context_of [of "table f" k x] context_of [OF b] same disj show False by auto
    next
      assume "new k = Some x"
      with d(5) [of k x] tbl_okD(3) [OF u b] same show False by simp
    qed
  qed
  moreover have "\<forall>c \<in> set (go_cancelled g'). c < go_nextContext g'"
    using old_ctx d(1) by (meson less_le_trans)
  ultimately show ?thesis by (simp add: tables_ok_def)
qed

end

section \<open>Both tables follow it\<close>

lemma update_table_change:
  assumes ord: "range_order o1" "range_order o2" "range_order o3" and ok: "gomap_ok expected" "gomap_ok tbl"
    and start: "starts sel start" and sel: "\<And>g c. sel (g\<lparr>go_cancelled := c\<rparr>) = sel g"
    and del: "deleteUnused o1 expected (tbl, g) = (tbl1, g1)"
    and ens: "ensureTunnels o2 o3 start expected (tbl1, g1) = Inr (tbl', g')"
  shows "change sel tbl g expected tbl' g'"
proof -
  from deleteUnused_spec [OF ord(1) ok(2) del] obtain c where ok1: "gomap_ok tbl1"
    and tbl1: "map_of tbl1 = map_of tbl |` dom (map_of expected)" and g1: "g1 = g\<lparr>go_cancelled := c\<rparr>"
    and c: "set c = set (go_cancelled g) \<union>
       {tun_context t |k t. map_of tbl k = Some t \<and> map_of expected k = None}" by blast
  from ensureTunnels_spec [OF ord(2,3) start ok(1) ok1 ens] obtain new where
    ok': "gomap_ok tbl'" and new: "dom new = dom (map_of expected) - dom (map_of tbl1)"
    and tbl': "map_of tbl' = map_of tbl1 ++ new" and made: "created_ok sel g1 g' new" by blast
  have "dom (map_of expected) - dom (map_of tbl1) = dom (map_of expected) - dom (map_of tbl)"
    by (auto simp: tbl1 restrict_map_def split: if_splits)
  with new have "dom new = dom (map_of expected) - dom (map_of tbl)" by simp
  then show ?thesis
    unfolding change_def
    using ok' tbl' [unfolded tbl1] c made [unfolded g1] by (intro conjI exI [of _ new] exI [of _ c])
qed

lemma deleteUnused_keeps:
  "(\<And>g c. u (g\<lparr>go_cancelled := c\<rparr>) = u g) \<Longrightarrow> deleteUnused ord expected (tbl, g) = (tbl', g') \<Longrightarrow> u g' = u g"
  by (auto simp: deleteUnused_def delete_fold)

lemma ensureTunnels_keeps:
  assumes "\<And>t g. u (start t g) = u g" and "\<And>g n. u (g\<lparr>go_nextContext := n\<rparr>) = u g"
    and "ensureTunnels ord1 ord2 start expected (tbl, g) = Inr (tbl', g')"
  shows "u g' = u g"
proof -
  from assms(3) obtain created where
    loop: "foldR (ensureStep start tbl) (map fst (grange ord1 expected)) ([], g) = Inr (created, g')"
    by (auto simp: ensureTunnels_def rbind_Inr_iff)
  have "(\<lambda>(c, g'). u g' = u g) (created, g')"
    using loop
    by (rule foldR_inv) (auto simp: ensureStep_def rbind_Inr_iff assms(1,2) split: if_splits)
  then show ?thesis by simp
qed

interpretation tunnels:
  tunnel_table f_tunnels f_remoteTunnels go_forwards go_remoteForwards updateSSHTunnel
proof (unfold_locales, goal_cases)
  case (1 o1 o2 o3 expected f g f' g')
  obtain tbl1 g1 where del: "deleteUnused o1 expected (f_tunnels f, g) = (tbl1, g1)" by force
  with 1(6) obtain tbl' where ens: "ensureTunnels o2 o3 ForwardNB expected (tbl1, g1) = Inr (tbl', g')"
    and f': "f' = f\<lparr>f_tunnels := tbl'\<rparr>"
    by (auto simp: updateSSHTunnel_def ensureSSHTunnel_def deleteUnusedSSHTunnel_def rbind_Inr_iff)
  have "starts go_forwards ForwardNB" by (simp add: starts_def ForwardNB_def)
  from update_table_change [OF 1(1-5) this _ del ens] show ?case by (simp add: f')
next
  case (2 o1 o2 o3 expected f g)
  from ensureTunnels_total [OF 2(2,6)] obtain s where
    "ensureTunnels o2 o3 ForwardNB expected (deleteUnused o1 expected (f_tunnels f, g)) = Inr s"
    by (cases "deleteUnused o1 expected (f_tunnels f, g)") metis
  then show ?case
    by (cases s) (simp add: updateSSHTunnel_def ensureSSHTunnel_def deleteUnusedSSHTunnel_def split_def Let_def)
next
  case (3 o1 o2 o3 expected f g f' g')
  obtain tbl1 g1 where del: "deleteUnused o1 expected (f_tunnels f, g) = (tbl1, g1)" by force
  with 3 obtain tbl' where ens: "ensureTunnels o2 o3 ForwardNB expected (tbl1, g1) = Inr (tbl', g')"
    by (auto simp: updateSSHTunnel_def ensureSSHTunnel_def deleteUnusedSSHTunnel_def rbind_Inr_iff)
  have "go_remoteForwards g' = go_remoteForwards g1"
    using ens by (rule ensureTunnels_keeps [rotated 2]) (simp_all add: ForwardNB_def)
  also have "\<dots> = go_remoteForwards g" using del by (rule deleteUnused_keeps [rotated]) simp
  finally show ?case .
qed simp

interpretation remote_tunnels:
  tunnel_table f_remoteTunnels f_tunnels go_remoteForwards go_forwards updateRemoteSSHTunnel
proof (unfold_locales, goal_cases)
  case (1 o1 o2 o3 expected f g f' g')
  obtain tbl1 g1 where del: "deleteUnused o1 expected (f_remoteTunnels f, g) = (tbl1, g1)" by force
  with 1(6) obtain tbl' where ens: "ensureTunnels o2 o3 RemoteForwardNB expected (tbl1, g1) = Inr (tbl', g')"
    and f': "f' = f\<lparr>f_remoteTunnels := tbl'\<rparr>"
    by (auto simp: updateRemoteSSHTunnel_def ensureRemoteSSHTunnel_def deleteUnusedRemoteSSHTunnel_def
        rbind_Inr_iff)
  have "starts go_remoteForwards RemoteForwardNB" by (simp add: starts_def RemoteForwardNB_def)
  from update_table_change [OF 1(1-5) this _ del ens] show ?case by (simp add: f')
next
  case (2 o1 o2 o3 expected f g)
  from ensureTunnels_total [OF 2(2,6)] obtain s where
    "ensureTunnels o2 o3 RemoteForwardNB expected (deleteUnused o1 expected (f_remoteTunnels f, g)) = Inr s"
    by (cases "deleteUnused o1 expected (f_remoteTunnels f, g)") metis
  then show ?case
    by (cases s) (simp add: updateRemoteSSHTunnel_def ensureRemoteSSHTunnel_def
        deleteUnusedRemoteSSHTunnel_def split_def Let_def)
next
  case (3 o1 o2 o3 expected f g f' g')
  obtain tbl1 g1 where del: "deleteUnused o1 expected (f_remoteTunnels f, g) = (tbl1, g1)" by force
  with 3 obtain tbl' where ens: "ensureTunnels o2 o3 RemoteForwardNB expected (tbl1, g1) = Inr (tbl', g')"
    by (auto simp: updateRemoteSSHTunnel_def ensureRemoteSSHTunnel_def deleteUnusedRemoteSSHTunnel_def
        rbind_Inr_iff)
  have "go_forwards g' = go_forwards g1"
    using ens by (rule ensureTunnels_keeps [rotated 2]) (simp_all add: RemoteForwardNB_def)
  also have "\<dots> = go_forwards g" using del by (rule deleteUnused_keeps [rotated]) simp
  finally show ?case .
qed simp

section \<open>The invariant of the reconciler\<close>

text \<open>Both tables are in order, and every tunnel in them was handed to its goroutine.\<close>

definition started_ok :: "reconciler \<Rightarrow> goroutines \<Rightarrow> bool" where
  "started_ok f g \<longleftrightarrow> ran (map_of (f_tunnels f)) \<subseteq> set (go_forwards g) \<and>
     ran (map_of (f_remoteTunnels f)) \<subseteq> set (go_remoteForwards g)"

definition newGoroutines :: goroutines where
  "newGoroutines = \<lparr>go_nextContext = 0, go_cancelled = [], go_forwards = [], go_remoteForwards = []\<rparr>"

definition reconciler_ok :: "string \<Rightarrow> string \<Rightarrow> reconciler \<times> goroutines \<Rightarrow> bool" where
  "reconciler_ok namespace name = (\<lambda>(f, g). tunnels_ok f g \<and> started_ok f g \<and>
     f_namespace f = namespace \<and> f_name f = name)"

lemma reconciler_ok_new: "reconciler_ok namespace name (NewReconciler namespace name, newGoroutines)"
  by (simp add: reconciler_ok_def tunnels_ok_def tables_ok_def tbl_ok_def contexts_def started_ok_def
      NewReconciler_def newGoroutines_def)

lemma updateSSHTunnel_ok:
  assumes "range_order o1" "range_order o2" "range_order o3" "gomap_ok expected"
    and ok: "reconciler_ok namespace name a" and run: "updateSSHTunnel o1 o2 o3 expected a = Inr a'"
  shows "reconciler_ok namespace name a'"
proof -
  obtain f g f' g' where a: "a = (f, g)" "a' = (f', g')" by (cases a; cases a')
  from ok have t: "tables_ok (f_tunnels f) (f_remoteTunnels f) g" by (simp add: reconciler_ok_def tunnels_ok_def a)
  then have m: "gomap_ok (f_tunnels f)" by (auto simp: tables_ok_def dest: tbl_okD(1))
  note run' = run [unfolded a]
  from ok show ?thesis
    using tunnels.update_ok [OF assms(1-4) t run'] tunnels.update_change [OF assms(1-4) m run']
      tunnels.update_started [OF assms(1-4) m run'] tunnels.update_other_started [OF run']
    by (auto simp: reconciler_ok_def tunnels_ok_def started_ok_def a)
qed

lemma updateRemoteSSHTunnel_ok:
  assumes "range_order o1" "range_order o2" "range_order o3" "gomap_ok expected"
    and ok: "reconciler_ok namespace name a" and run: "updateRemoteSSHTunnel o1 o2 o3 expected a = Inr a'"
  shows "reconciler_ok namespace name a'"
proof -
  obtain f g f' g' where a: "a = (f, g)" "a' = (f', g')" by (cases a; cases a')
  from ok have "tables_ok (f_tunnels f) (f_remoteTunnels f) g" by (simp add: reconciler_ok_def tunnels_ok_def a)
  then have t: "tables_ok (f_remoteTunnels f) (f_tunnels f) g" by (rule tables_ok_commute)
  then have m: "gomap_ok (f_remoteTunnels f)" by (auto simp: tables_ok_def dest: tbl_okD(1))
  note run' = run [unfolded a]
  from ok show ?thesis
    using tables_ok_commute [OF remote_tunnels.update_ok [OF assms(1-4) t run']]
      remote_tunnels.update_change [OF assms(1-4) m run']
      remote_tunnels.update_started [OF assms(1-4) m run'] remote_tunnels.update_other_started [OF run']
    by (auto simp: reconciler_ok_def tunnels_ok_def started_ok_def a)
qed

end
