(* ===== verification/Util.thy ===== *)
theory Util
  imports GoNet Types
begin

text \<open>
  \<^verbatim>\<open>pkg/util/util.go\<close>: the two conditions, the range of relay ports and the name of the
  Gateway resource that serves a source IP address.
\<close>

definition gatewayRulePrefix :: string where
  "gatewayRulePrefix = ''gwrule''"

definition MinPort :: int where
  "MinPort = 2049"

definition MaxPort :: int where
  "MaxPort = 65536"

definition RuleUpdatingCondition :: "condition_status \<Rightarrow> condition" where
  "RuleUpdatingCondition stat = \<lparr>cond_Type = ConditionRuleUpdating, cond_Status = stat\<rparr>"

definition RuleSyncingCondition :: "condition_status \<Rightarrow> condition" where
  "RuleSyncingCondition stat = \<lparr>cond_Type = ConditionRuleSyncing, cond_Status = stat\<rparr>"

lemma condition_simps [simp]:
  "cond_Type (RuleUpdatingCondition s) = ConditionRuleUpdating"
  "cond_Status (RuleUpdatingCondition s) = s"
  "cond_Type (RuleSyncingCondition s) = ConditionRuleSyncing"
  "cond_Status (RuleSyncingCondition s) = s"
  by (simp_all add: RuleUpdatingCondition_def RuleSyncingCondition_def)

definition GetHexIP :: "string \<Rightarrow> string result" where
  "GetHexIP ip =
     (case ParseIP ip of
        None \<Rightarrow> Inl (InvalidIP ip)
      | Some parsedIP \<Rightarrow>
          (case To4 parsedIP of
             None \<Rightarrow> Inl (NotIPv4 ip)
           | Some v4 \<Rightarrow> Inr (hex02 (v4 ! 0) @ hex02 (v4 ! 1) @ hex02 (v4 ! 2) @ hex02 (v4 ! 3))))"

definition GetRuleName :: "string \<Rightarrow> string result" where
  "GetRuleName ip = rbind (GetHexIP ip) (\<lambda>hexIP. Inr (gatewayRulePrefix @ hexIP))"

section \<open>Addresses and gateway names\<close>

text \<open>The IPv4 address a string denotes, if it denotes one.\<close>

definition ipv4_of :: "string \<Rightarrow> byte list option" where
  "ipv4_of ip = Option.bind (ParseIP ip) To4"

lemma ipv4_of_dotted [simp]: "ipv4_of (dotted a b c d) = Some [a, b, c, d]"
  by (simp add: ipv4_of_def ParseIP_dotted)

lemma ipv4_of_length: "ipv4_of ip = Some v \<Longrightarrow> length v = 4"
  by (auto simp: ipv4_of_def bind_eq_Some_conv length_To4)

lemma GetHexIP_ipv4:
  "GetHexIP ip = Inr h \<longleftrightarrow> (\<exists>v. ipv4_of ip = Some v \<and> h = concat (map hex02 v))"
proof -
  have "hex02 (v ! 0) @ hex02 (v ! 1) @ hex02 (v ! 2) @ hex02 (v ! 3) = concat (map hex02 v)"
    if "length v = 4" for v
    using that by (auto simp: numeral_eq_Suc length_Suc_conv)
  then show ?thesis
    using length_To4 by (force simp: GetHexIP_def ipv4_of_def split: option.splits)
qed

lemma GetHexIP_error: "(\<exists>e. GetHexIP ip = Inl e) \<longleftrightarrow> ipv4_of ip = None"
  by (auto simp: GetHexIP_def ipv4_of_def split: option.splits)

lemma concat_hex02_inject:
  "length v = length w \<Longrightarrow> concat (map hex02 v) = concat (map hex02 w) \<longleftrightarrow> v = w"
  by (induction v w rule: list_induct2) auto

lemma length_concat_hex02: "length (concat (map hex02 v)) = 2 * length v"
  by (induction v) auto

lemma GetRuleName_Inr:
  "GetRuleName ip = Inr n \<longleftrightarrow>
     (\<exists>v. ipv4_of ip = Some v \<and> n = gatewayRulePrefix @ concat (map hex02 v))"
  by (auto simp: GetRuleName_def rbind_Inr_iff GetHexIP_ipv4)

lemma GetRuleName_inject_lemma:
  assumes "GetRuleName ip = Inr n" and "GetRuleName ip' = Inr n'"
  shows "n = n' \<longleftrightarrow> ipv4_of ip = ipv4_of ip'"
  using assms by (auto simp: GetRuleName_Inr concat_hex02_inject ipv4_of_length)

text \<open>
  C28: Gateway names. Two source addresses that both have a rule name get the same name
  exactly when they denote the same IPv4 address, so no two gateway addresses share a
  Gateway resource; a name is 14 characters long.
\<close>

theorem GetRuleName_injective:
  assumes "GetRuleName ip = Inr n" and "GetRuleName ip' = Inr n'"
  shows "(n = n' \<longleftrightarrow> ipv4_of ip = ipv4_of ip') \<and> length n = 14"
proof
  show "n = n' \<longleftrightarrow> ipv4_of ip = ipv4_of ip'"
    using assms by (rule GetRuleName_inject_lemma)
  show "length n = 14"
    using assms(1)
    by (auto simp: GetRuleName_Inr gatewayRulePrefix_def length_concat_hex02 ipv4_of_length)
qed

theorem GetRuleName_injective_witness:
  "GetRuleName (dotted 192 168 122 200) = Inr ''gwrulec0a87ac8'' \<and>
   GetRuleName (dotted 192 168 122 201) = Inr ''gwrulec0a87ac9'' \<and>
   ipv4_of (dotted 192 168 122 200) \<noteq> ipv4_of (dotted 192 168 122 201) \<and>
   length ''gwrulec0a87ac8'' = 14"
proof -
  have h: "gatewayRulePrefix @ concat (map hex02 [192, 168, 122, 200]) = ''gwrulec0a87ac8''"
       "gatewayRulePrefix @ concat (map hex02 [192, 168, 122, 201]) = ''gwrulec0a87ac9''"
    by code_simp+
  then have n: "GetRuleName (dotted 192 168 122 200) = Inr ''gwrulec0a87ac8''"
       "GetRuleName (dotted 192 168 122 201) = Inr ''gwrulec0a87ac9''"
    unfolding GetRuleName_Inr by auto
  show ?thesis using n GetRuleName_injective [OF n] by simp
qed

text \<open>
  Errors of \<^verbatim>\<open>GetHexIP\<close>. It fails exactly on the strings that do not denote an
  IPv4 address; for every address written as a dotted quad it returns the eight hexadecimal
  digits of its four bytes.
\<close>

theorem GetHexIP_total_on_ipv4:
  "((\<exists>e. GetHexIP ip = Inl e) \<longleftrightarrow> ipv4_of ip = None) \<and>
   GetHexIP (dotted a b c d) = Inr (hex02 a @ hex02 b @ hex02 c @ hex02 d)"
  by (simp only: GetHexIP_error GetHexIP_ipv4 ipv4_of_dotted) simp

end
