(* ===== verification/RelayPorts.thy ===== *)
theory RelayPorts
  imports Util
begin

text \<open>
  The relay ports of \<^verbatim>\<open>pkg/controller/externalservice/reconciler.go\<close>: the tables of
  used ports (\<^verbatim>\<open>genUsedPortsForEgress\<close>, \<^verbatim>\<open>genUsedPortsForIngress\<close>) and the
  two allocators (\<^verbatim>\<open>genRelayPortForEgress\<close>, \<^verbatim>\<open>genRelayPortForIngress\<close>),
  which share a contract: the locale \<open>relay_allocator\<close>.
\<close>

section \<open>The code\<close>

definition genUsedPortsForEgress :: "'c forwarder \<Rightarrow> string gomap" where
  "genUsedPortsForEgress fwd =
     fold (\<lambda>erule usedPorts. gset (fr_RelayPort erule) (fr_TargetPort erule) usedPorts)
       (fwd_EgressRules (fwd_Spec fwd)) []"

text \<open>The loop \<^verbatim>\<open>for port := util.MinPort; port < util.MaxPort+1; port++\<close>.\<close>

function free_port :: "int \<Rightarrow> string gomap \<Rightarrow> string option" where
  "free_port port ports =
     (if port < MaxPort + 1
      then (if map_of ports (Itoa port) = None then Some (Itoa port) else free_port (port + 1) ports)
      else None)"
  by pat_completeness auto
termination
  by (relation "measure (\<lambda>(port, ports). nat (MaxPort + 1 - port))") auto

declare free_port.simps [simp del]

definition genRelayPortForEgress ::
  "key_order \<Rightarrow> string \<Rightarrow> string \<Rightarrow> string gomap \<Rightarrow> (string \<times> string gomap) result" where
  "genRelayPortForEgress ord srcIP tPort ePorts =
     (case find (\<lambda>(k, v). v = srcIP @ '':'' @ tPort) (grange ord ePorts) of
        Some (k, v) \<Rightarrow> Inr (k, ePorts)
      | None \<Rightarrow>
          (case free_port MinPort ePorts of
             Some strPort \<Rightarrow> Inr (strPort, gset strPort (srcIP @ '':'' @ tPort) ePorts)
           | None \<Rightarrow> Inl RelayPortExhausted))"

definition genUsedPortsForIngress :: "'c gateway list \<Rightarrow> string gomap gomap" where
  "genUsedPortsForIngress gws =
     fold (\<lambda>gw usedPorts.
         (let name = m_Name (gw_Meta gw);
              usedPorts = (if map_of usedPorts name = None then gset name [] usedPorts else usedPorts)
          in fold (\<lambda>irule up. gset name
                 (gset (gr_RelayPort irule) (gr_SourceIP irule @ '':'' @ gr_TargetPort irule)
                    (the (map_of up name))) up)
               (gw_IngressRules (gw_Spec gw)) usedPorts))
       gws []"

definition genRelayPortForIngress ::
  "key_order \<Rightarrow> string \<Rightarrow> string \<Rightarrow> string \<Rightarrow> string gomap gomap
     \<Rightarrow> (string \<times> string gomap gomap) result" where
  "genRelayPortForIngress ord srcIP tPort gwName iPorts =
     (let iPorts = (if map_of iPorts gwName = None then gset gwName [] iPorts else iPorts);
          ports = the (map_of iPorts gwName)
      in case find (\<lambda>(k, v). v = srcIP @ '':'' @ tPort) (grange ord ports) of
           Some (k, v) \<Rightarrow> Inr (k, iPorts)
         | None \<Rightarrow>
             (case free_port MinPort ports of
                Some strPort \<Rightarrow>
                  Inr (strPort, gset gwName (gset strPort (srcIP @ '':'' @ tPort) ports) iPorts)
              | None \<Rightarrow> Inl RelayPortExhausted))"

section \<open>Keys and ports\<close>

definition portKey :: "string \<Rightarrow> string \<Rightarrow> string" where
  "portKey srcIP tPort = srcIP @ '':'' @ tPort"

lemma portKey_inject:
  "CHR '':'' \<notin> set t \<Longrightarrow> CHR '':'' \<notin> set t' \<Longrightarrow> portKey a t = portKey a' t' \<longleftrightarrow> a = a' \<and> t = t'"
  by (simp add: portKey_def append_Cons_eq_last_sep)

lemma colon_in_portKey [simp]: "CHR '':'' \<in> set (portKey a t)"
  by (simp add: portKey_def)

lemma Itoa_in_range: "\<lbrakk>MinPort \<le> q; q \<le> MaxPort\<rbrakk> \<Longrightarrow> Itoa q \<in> Itoa ` {MinPort..MaxPort}"
  by simp

lemma free_port_Some:
  "free_port p m = Some s \<Longrightarrow>
     \<exists>q. p \<le> q \<and> q \<le> MaxPort \<and> s = Itoa q \<and> map_of m s = None \<and>
       (\<forall>r. p \<le> r \<and> r < q \<longrightarrow> map_of m (Itoa r) \<noteq> None)"
proof (induction p m rule: free_port.induct)
  case (1 p m)
  show ?case
  proof (cases "p < MaxPort + 1 \<and> map_of m (Itoa p) \<noteq> None")
    case True
    with "1.prems" have "free_port (p + 1) m = Some s"
      by (subst (asm) free_port.simps) auto
    with "1.IH" True obtain q where "p + 1 \<le> q" "q \<le> MaxPort" "s = Itoa q" "map_of m s = None"
      "\<forall>r. p + 1 \<le> r \<and> r < q \<longrightarrow> map_of m (Itoa r) \<noteq> None" by blast
    moreover from this True have "map_of m (Itoa r) \<noteq> None" if "p \<le> r \<and> r < q" for r
      using that by (cases "r = p") auto
    ultimately show ?thesis by (intro exI [of _ q]) auto
  next
    case False
    with "1.prems" show ?thesis
      by (subst (asm) free_port.simps) (auto split: if_splits)
  qed
qed

lemma free_port_None:
  "free_port p m = None \<longleftrightarrow> (\<forall>q. p \<le> q \<and> q \<le> MaxPort \<longrightarrow> map_of m (Itoa q) \<noteq> None)"
proof (induction p m rule: free_port.induct)
  case (1 p m)
  have split_range: "(\<forall>q. p \<le> q \<and> q \<le> MaxPort \<longrightarrow> P q) \<longleftrightarrow>
      (p \<le> MaxPort \<longrightarrow> P p \<and> (\<forall>q. p + 1 \<le> q \<and> q \<le> MaxPort \<longrightarrow> P q))" for P
    by (metis add1_zle_eq order.order_iff_strict order.trans)
  show ?case
    by (subst free_port.simps, subst split_range) (use "1.IH" in auto)
qed

lemma free_port_unused:
  assumes "map_of m (Itoa q) = None" and "p \<le> q" and "q \<le> MaxPort"
    and "\<And>r. p \<le> r \<Longrightarrow> r < q \<Longrightarrow> map_of m (Itoa r) \<noteq> None"
  shows "free_port p m = Some (Itoa q)"
proof -
  from assms(1-3) obtain s where s: "free_port p m = Some s"
    by (metis free_port_None not_None_eq)
  from free_port_Some [OF s] obtain q' where "p \<le> q'" "s = Itoa q'" "map_of m (Itoa q') = None"
    "\<forall>r. p \<le> r \<and> r < q' \<longrightarrow> map_of m (Itoa r) \<noteq> None" by blast
  with assms have "q' = q" by (metis linorder_neqE)
  with s \<open>s = Itoa q'\<close> show ?thesis by simp
qed

lemma find_grange_Some:
  "range_order ord \<Longrightarrow> find (\<lambda>(k, v). v = x) (grange ord m) = Some (k, v) \<Longrightarrow>
     map_of m k = Some x \<and> v = x"
  by (auto simp: find_Some_iff set_grange dest!: nth_mem)

lemma find_grange_None:
  "range_order ord \<Longrightarrow> find (\<lambda>(k, v). v = x) (grange ord m) = None \<longleftrightarrow> x \<notin> ran (map_of m)"
  by (auto simp: find_None_iff set_grange ran_def)

section \<open>The contract of an allocator\<close>

text \<open>
  An allocator serves requests \<open>(srcIP, tPort)\<close> from a table of ports. \<open>look\<close> reads the
  table, \<open>ok\<close> is the table's invariant. A request whose key the table holds gets a port that
  holds the key, and the table does not change; any other request gets a port that was free,
  and only that port changes; the only failure is that every port is taken.
\<close>

locale relay_allocator =
  fixes alloc :: "string \<Rightarrow> string \<Rightarrow> 's \<Rightarrow> (string \<times> 's) result"
    and look :: "'s \<Rightarrow> string \<rightharpoonup> string"
    and ok :: "'s \<Rightarrow> bool"
  assumes alloc_ok: "ok s \<Longrightarrow> alloc a t s = Inr (p, s') \<Longrightarrow> ok s'"
    and alloc_found:
      "ok s \<Longrightarrow> alloc a t s = Inr (p, s') \<Longrightarrow> portKey a t \<in> ran (look s) \<Longrightarrow>
         look s p = Some (portKey a t) \<and> look s' = look s"
    and alloc_fresh:
      "ok s \<Longrightarrow> alloc a t s = Inr (p, s') \<Longrightarrow> portKey a t \<notin> ran (look s) \<Longrightarrow>
         look s p = None \<and> look s' = (look s)(p \<mapsto> portKey a t) \<and>
         p \<in> Itoa ` {MinPort..MaxPort}"
    and alloc_error:
      "ok s \<Longrightarrow> alloc a t s = Inl e \<longleftrightarrow>
         e = RelayPortExhausted \<and> portKey a t \<notin> ran (look s) \<and>
         (\<forall>q. MinPort \<le> q \<and> q \<le> MaxPort \<longrightarrow> look s (Itoa q) \<noteq> None)"

text \<open>
  \<open>served look s0 rs s\<close>: from the table \<open>s0\<close> the requests with answers \<open>rs\<close> were served
  and the table is now \<open>s\<close>.
\<close>

definition served ::
  "('s \<Rightarrow> string \<rightharpoonup> string) \<Rightarrow> 's \<Rightarrow> (string \<times> string \<times> string) set \<Rightarrow> 's \<Rightarrow> bool" where
  "served look s0 rs s \<longleftrightarrow>
     (\<forall>p k. look s0 p = Some k \<longrightarrow> look s p = Some k) \<and>
     (\<forall>a t p. (a, t, p) \<in> rs \<longrightarrow> look s p = Some (portKey a t)) \<and>
     (\<forall>p k. look s p = Some k \<longrightarrow> look s0 p = Some k \<or>
        p \<in> Itoa ` {MinPort..MaxPort} \<and> (\<exists>a t. k = portKey a t \<and> (a, t, p) \<in> rs)) \<and>
     (\<forall>p q k. look s p = Some k \<and> look s q = Some k \<longrightarrow> p = q \<or> k \<in> ran (look s0))"

lemma servedI:
  assumes "\<And>p k. look s0 p = Some k \<Longrightarrow> look s p = Some k"
    and "\<And>a t p. (a, t, p) \<in> rs \<Longrightarrow> look s p = Some (portKey a t)"
    and "\<And>p k. look s p = Some k \<Longrightarrow> look s0 p = Some k \<or>
           p \<in> Itoa ` {MinPort..MaxPort} \<and> (\<exists>a t. k = portKey a t \<and> (a, t, p) \<in> rs)"
    and "\<And>p q k. look s p = Some k \<Longrightarrow> look s q = Some k \<Longrightarrow> p = q \<or> k \<in> ran (look s0)"
  shows "served look s0 rs s"
  using assms by (simp add: served_def)

lemma servedD:
  assumes "served look s0 rs s"
  shows "look s0 p = Some k \<Longrightarrow> look s p = Some k"
    and "(a, t, p) \<in> rs \<Longrightarrow> look s p = Some (portKey a t)"
    and "look s p = Some k \<Longrightarrow> look s0 p = Some k \<or>
           p \<in> Itoa ` {MinPort..MaxPort} \<and> (\<exists>a t. k = portKey a t \<and> (a, t, p) \<in> rs)"
    and "look s p = Some k \<Longrightarrow> look s q = Some k \<Longrightarrow> p = q \<or> k \<in> ran (look s0)"
  using assms by (simp_all add: served_def)

lemma served_same_port:
  "served look s0 rs s \<Longrightarrow> (a, t, p) \<in> rs \<Longrightarrow> (a', t', p) \<in> rs \<Longrightarrow> portKey a t = portKey a' t'"
  by (metis servedD(2) option.inject)

lemma served_same_key:
  "served look s0 rs s \<Longrightarrow> (a, t, p) \<in> rs \<Longrightarrow> (a', t', q) \<in> rs \<Longrightarrow>
     portKey a t = portKey a' t' \<Longrightarrow> portKey a t \<notin> ran (look s0) \<Longrightarrow> p = q"
  by (metis servedD(2,4))

lemma served_old_port:
  "served look s0 rs s \<Longrightarrow> (a, t, p) \<in> rs \<Longrightarrow> look s0 p = None \<or> look s0 p = Some (portKey a t)"
  by (metis servedD(1,2) not_None_eq)

lemma served_port_range:
  "served look s0 rs s \<Longrightarrow> (a, t, p) \<in> rs \<Longrightarrow>
     look s0 p = Some (portKey a t) \<or> p \<in> Itoa ` {MinPort..MaxPort}"
  by (metis servedD(2,3))

lemma served_init: "served look s0 {} s0"
  by (rule servedI) (auto simp: ran_def)

context relay_allocator
begin

lemma served_step:
  assumes "ok s" and "served look s0 rs s" and "alloc a t s = Inr (p, s')"
  shows "served look s0 (insert (a, t, p) rs) s'"
proof (cases "portKey a t \<in> ran (look s)")
  case True
  from alloc_found [OF assms(1,3) True]
  have p: "look s p = Some (portKey a t)" and s': "look s' = look s" by simp_all
  show ?thesis
    by (rule servedI; unfold s') (use p servedD [OF assms(2)] in blast)+
next
  case False
  from alloc_fresh [OF assms(1,3) False]
  have p: "look s p = None" and s': "look s' = (look s)(p \<mapsto> portKey a t)"
    and range: "p \<in> Itoa ` {MinPort..MaxPort}" by simp_all
  have new: "look s q \<noteq> Some (portKey a t)" for q using False by (auto simp: ran_def)
  show ?thesis
  proof (rule servedI)
    show "look s' q = Some k" if "look s0 q = Some k" for q k
      using servedD(1) [OF assms(2) that] p by (auto simp: s')
    show "look s' q = Some (portKey b u)" if "(b, u, q) \<in> insert (a, t, p) rs" for b u q
      using that servedD(2) [OF assms(2), of b u q] p by (auto simp: s')
    show "look s0 q = Some k \<or> q \<in> Itoa ` {MinPort..MaxPort} \<and>
        (\<exists>b u. k = portKey b u \<and> (b, u, q) \<in> insert (a, t, p) rs)"
      if "look s' q = Some k" for q k
    proof (cases "q = p")
      case True
      with that range show ?thesis by (auto simp: s')
    next
      case False
      with that servedD(3) [OF assms(2), of q k] show ?thesis by (auto simp: s')
    qed
    show "q = r \<or> k \<in> ran (look s0)" if "look s' q = Some k" "look s' r = Some k" for q r k
      using that servedD(4) [OF assms(2), of q k r] new by (auto simp: s' split: if_splits)
  qed
qed

text \<open>A served request gets a port of the range or one that already held its key.\<close>

lemma alloc_port_range:
  assumes "ok s" and "alloc a t s = Inr (p, s')" and "dom (look s) \<subseteq> Itoa ` {MinPort..MaxPort}"
  shows "p \<in> Itoa ` {MinPort..MaxPort}"
  using alloc_found [OF assms(1,2)] alloc_fresh [OF assms(1,2)] assms(3) by (cases "portKey a t \<in> ran (look s)") auto

text \<open>Serving a request again gives the same answer and changes nothing, if keys are unique.\<close>

lemma alloc_again:
  assumes "ok s" and "served look s0 rs s" and "alloc a t s = Inr (p, s')"
    and "alloc a t s' = Inr (p', s'')" and "portKey a t \<notin> ran (look s0)"
  shows "p' = p \<and> look s'' = look s'"
proof -
  let ?rs = "insert (a, t, p) rs"
  have s': "served look s0 ?rs s'" using assms(1-3) by (rule served_step)
  have ok': "ok s'" using assms(1,3) by (rule alloc_ok)
  from s' have "look s' p = Some (portKey a t)" by (simp add: served_def)
  then have "portKey a t \<in> ran (look s')" by (auto simp: ran_def)
  from alloc_found [OF ok' assms(4) this] have "look s'' = look s'" by simp
  moreover have "served look s0 (insert (a, t, p') ?rs) s''"
    using ok' s' assms(4) by (rule served_step)
  then have "p' = p"
    by (rule served_same_key) (use assms(5) in auto)
  ultimately show ?thesis by simp
qed

end

section \<open>Both allocators keep the contract\<close>

definition gw_ports :: "string \<Rightarrow> string gomap gomap \<Rightarrow> string \<rightharpoonup> string" where
  "gw_ports gwName iPorts = (case map_of iPorts gwName of None \<Rightarrow> Map.empty | Some m \<Rightarrow> map_of m)"

lemmas egress_unfold = genRelayPortForEgress_def [folded portKey_def]

lemma egress_cases:
  assumes "range_order ord"
  shows "genRelayPortForEgress ord a t m =
    (if portKey a t \<in> ran (map_of m)
     then Inr (fst (the (find (\<lambda>(k, v). v = portKey a t) (grange ord m))), m)
     else case free_port MinPort m of
            Some p \<Rightarrow> Inr (p, gset p (portKey a t) m)
          | None \<Rightarrow> Inl RelayPortExhausted)"
proof (cases "find (\<lambda>(k, v). v = portKey a t) (grange ord m)")
  case None
  with find_grange_None [OF assms, of "portKey a t" m] have "portKey a t \<notin> ran (map_of m)" by blast
  then show ?thesis by (simp only: egress_unfold None option.simps if_False)
next
  case (Some kv)
  then have "find (\<lambda>(k, v). v = portKey a t) (grange ord m) \<noteq> None" by (rule option.discI)
  with find_grange_None [OF assms, of "portKey a t" m] have "portKey a t \<in> ran (map_of m)" by blast
  with Some show ?thesis
    by (simp only: egress_unfold Some option.simps if_True option.sel) (simp add: split_def)
qed

lemma find_key:
  assumes "range_order ord" and "x \<in> ran (map_of m)"
  shows "map_of m (fst (the (find (\<lambda>(k, v). v = x) (grange ord m)))) = Some x"
proof (cases "find (\<lambda>(k, v). v = x) (grange ord m)")
  case None
  with find_grange_None [OF assms(1), of x m] assms(2) show ?thesis by simp
next
  case (Some kv)
  then have "find (\<lambda>(k, v). v = x) (grange ord m) = Some (fst kv, snd kv)" by simp
  from find_grange_Some [OF assms(1) this] Some show ?thesis by simp
qed

lemma free_port_range: "free_port MinPort m = Some p \<Longrightarrow> map_of m p = None \<and> p \<in> Itoa ` {MinPort..MaxPort}"
  using free_port_Some [of MinPort m p] by auto

lemma free_port_exhausted:
  "free_port MinPort m = None \<longleftrightarrow> (\<forall>q. MinPort \<le> q \<and> q \<le> MaxPort \<longrightarrow> map_of m (Itoa q) \<noteq> None)"
  by (rule free_port_None)

text \<open>
  The ingress allocator is the egress allocator on the table of its gateway, with that table
  created first when it is missing.
\<close>

definition gw_table :: "string \<Rightarrow> string gomap gomap \<Rightarrow> string gomap" where
  "gw_table gwName s = (case map_of s gwName of None \<Rightarrow> [] | Some m \<Rightarrow> m)"

lemma map_of_gw_table: "map_of (gw_table gwName s) = gw_ports gwName s"
  by (simp add: gw_table_def gw_ports_def split: option.split)

lemma gset_same: "map_of s k = Some v \<Longrightarrow> gset k v s = s"
  by (simp add: gset_def update_triv)

lemma gset_gset_same: "gset k v (gset k w s) = gset k v s"
  by (simp add: gset_def)

lemma ingress_as_egress:
  "genRelayPortForIngress ord a t gwName s =
     rbind (genRelayPortForEgress ord a t (gw_table gwName s)) (\<lambda>(p, m). Inr (p, gset gwName m s))"
proof (cases "map_of s gwName")
  case None
  then show ?thesis
    by (simp add: genRelayPortForIngress_def genRelayPortForEgress_def gw_table_def Let_def
        gset_gset_same split: option.split)
next
  case (Some m)
  then show ?thesis
    by (simp add: genRelayPortForIngress_def genRelayPortForEgress_def gw_table_def Let_def
        gset_same split: option.split)
qed

lemma gw_ports_gset [simp]:
  "gw_ports g (gset h m s) = (if g = h then map_of m else gw_ports g s)"
  by (simp add: gw_ports_def)

interpretation egress: relay_allocator "genRelayPortForEgress ord" map_of "\<lambda>_. range_order ord"
  for ord
proof
  fix s :: "string gomap" and a t p s' e
  assume ord: "range_order ord"
  note cases = egress_cases [OF ord, of a t s]
  show "range_order ord" by (rule ord)
  show "map_of s p = Some (portKey a t) \<and> map_of s' = map_of s"
    if "genRelayPortForEgress ord a t s = Inr (p, s')" "portKey a t \<in> ran (map_of s)"
    using that find_key [OF ord] by (auto simp: cases)
  show "map_of s p = None \<and> map_of s' = (map_of s)(p \<mapsto> portKey a t) \<and> p \<in> Itoa ` {MinPort..MaxPort}"
    if "genRelayPortForEgress ord a t s = Inr (p, s')" "portKey a t \<notin> ran (map_of s)"
    using that free_port_range [of s] by (auto simp: cases split: option.splits)
  show "genRelayPortForEgress ord a t s = Inl e \<longleftrightarrow>
      e = RelayPortExhausted \<and> portKey a t \<notin> ran (map_of s) \<and>
      (\<forall>q. MinPort \<le> q \<and> q \<le> MaxPort \<longrightarrow> map_of s (Itoa q) \<noteq> None)"
    using free_port_exhausted [of s] by (auto simp: cases split: option.splits)
qed

interpretation ingress: relay_allocator
  "\<lambda>a t. genRelayPortForIngress ord a t gwName" "gw_ports gwName" "\<lambda>_. range_order ord"
  for ord gwName
proof
  fix s :: "string gomap gomap" and a t p s' e
  assume ord: "range_order ord"
  let ?m = "gw_table gwName s"
  show "range_order ord" by (rule ord)
  show "gw_ports gwName s p = Some (portKey a t) \<and> gw_ports gwName s' = gw_ports gwName s"
    if alloc: "genRelayPortForIngress ord a t gwName s = Inr (p, s')"
      and "portKey a t \<in> ran (gw_ports gwName s)"
  proof -
    from alloc obtain m where "genRelayPortForEgress ord a t ?m = Inr (p, m)" "s' = gset gwName m s"
      by (auto simp: ingress_as_egress rbind_Inr_iff)
    with egress.alloc_found [OF ord this(1)] that(2) show ?thesis
      by (simp add: map_of_gw_table)
  qed
  show "gw_ports gwName s p = None \<and> gw_ports gwName s' = (gw_ports gwName s)(p \<mapsto> portKey a t) \<and>
      p \<in> Itoa ` {MinPort..MaxPort}"
    if alloc: "genRelayPortForIngress ord a t gwName s = Inr (p, s')"
      and "portKey a t \<notin> ran (gw_ports gwName s)"
  proof -
    from alloc obtain m where "genRelayPortForEgress ord a t ?m = Inr (p, m)" "s' = gset gwName m s"
      by (auto simp: ingress_as_egress rbind_Inr_iff)
    with egress.alloc_fresh [OF ord this(1)] that(2) show ?thesis
      by (simp add: map_of_gw_table)
  qed
  show "genRelayPortForIngress ord a t gwName s = Inl e \<longleftrightarrow>
      e = RelayPortExhausted \<and> portKey a t \<notin> ran (gw_ports gwName s) \<and>
      (\<forall>q. MinPort \<le> q \<and> q \<le> MaxPort \<longrightarrow> gw_ports gwName s (Itoa q) \<noteq> None)"
    using egress.alloc_error [OF ord, of a t ?m e]
    by (simp add: ingress_as_egress rbind_Inl_iff map_of_gw_table split_def)
qed

text \<open>An ingress allocation touches the table of its own gateway only.\<close>

lemma ingress_other_gateway:
  assumes "range_order ord" and "genRelayPortForIngress ord a t gwName s = Inr (p, s')"
    and "g \<noteq> gwName"
  shows "gw_ports g s' = gw_ports g s"
  using assms(2,3) by (auto simp: ingress_as_egress rbind_Inr_iff)

section \<open>The tables of used ports\<close>

lemma map_of_fold_gset:
  "map_of (fold (\<lambda>r m. gset (f r) (g r) m) rs m) = fold (\<lambda>r m. m(f r \<mapsto> g r)) rs (map_of m)"
  by (induction rs arbitrary: m) auto

lemma fold_upd_dom: "dom (fold (\<lambda>r m. m(f r \<mapsto> g r)) rs m) = f ` set rs \<union> dom m"
  by (induction rs arbitrary: m) auto

lemma fold_upd_Some:
  "fold (\<lambda>r m. m(f r \<mapsto> g r)) rs m k = Some v \<Longrightarrow>
     m k = Some v \<or> (\<exists>r \<in> set rs. f r = k \<and> g r = v)"
proof (induction rs arbitrary: m)
  case Nil
  then show ?case by simp
next
  case (Cons r rs)
  then have "(m(f r \<mapsto> g r)) k = Some v \<or> (\<exists>r \<in> set rs. f r = k \<and> g r = v)"
    by (intro Cons.IH) (simp only: fold_simps)
  then show ?case by (auto split: if_splits)
qed

lemma used_egress:
  "map_of (genUsedPortsForEgress fwd) =
     fold (\<lambda>r m. m(fr_RelayPort r \<mapsto> fr_TargetPort r)) (fwd_EgressRules (fwd_Spec fwd)) Map.empty"
  by (simp add: genUsedPortsForEgress_def map_of_fold_gset)

lemma used_egress_dom:
  "dom (map_of (genUsedPortsForEgress fwd)) = fr_RelayPort ` set (fwd_EgressRules (fwd_Spec fwd))"
  by (simp add: used_egress fold_upd_dom)

lemma used_egress_ran:
  "ran (map_of (genUsedPortsForEgress fwd)) \<subseteq> fr_TargetPort ` set (fwd_EgressRules (fwd_Spec fwd))"
  by (auto simp: used_egress ran_def dest: fold_upd_Some)

text \<open>The ingress rules of all gateways of a name, and the key a rule stands for.\<close>

definition ingress_rules_of :: "string \<Rightarrow> 'c gateway list \<Rightarrow> gateway_rule list" where
  "ingress_rules_of name gws =
     concat (map (\<lambda>gw. gw_IngressRules (gw_Spec gw)) (filter (\<lambda>gw. m_Name (gw_Meta gw) = name) gws))"

definition gr_key :: "gateway_rule \<Rightarrow> string" where
  "gr_key r = portKey (gr_SourceIP r) (gr_TargetPort r)"

lemma gw_ports_fold:
  assumes "map_of s g \<noteq> None"
  shows "gw_ports g (fold (\<lambda>r up. gset g (gset (f r) (h r) (the (map_of up g))) up) rs s) =
           fold (\<lambda>r m. m(f r \<mapsto> h r)) rs (gw_ports g s) \<and>
         map_of (fold (\<lambda>r up. gset g (gset (f r) (h r) (the (map_of up g))) up) rs s) g \<noteq> None"
  using assms
proof (induction rs arbitrary: s)
  case Nil
  then show ?case by simp
next
  case (Cons r rs)
  have "gw_ports g (gset g (gset (f r) (h r) (the (map_of s g))) s) = (gw_ports g s)(f r \<mapsto> h r)"
    using Cons.prems by (auto simp: gw_ports_def)
  with Cons.IH [of "gset g (gset (f r) (h r) (the (map_of s g))) s"] show ?case
    by (simp del: fun_upd_apply add: fun_upd_same)
qed

lemma gw_ports_fold_other:
  "g \<noteq> g' \<Longrightarrow>
     gw_ports g (fold (\<lambda>r up. gset g' (gset (f r) (h r) (the (map_of up g'))) up) rs s) = gw_ports g s"
  by (induction rs arbitrary: s) auto

lemma used_ingress:
  "gw_ports name (genUsedPortsForIngress gws) =
     fold (\<lambda>r m. m(gr_RelayPort r \<mapsto> gr_key r)) (ingress_rules_of name gws) Map.empty"
proof -
  let ?step = "\<lambda>gw usedPorts.
     (let n = m_Name (gw_Meta gw);
          usedPorts = (if map_of usedPorts n = None then gset n [] usedPorts else usedPorts)
      in fold (\<lambda>irule up. gset n
             (gset (gr_RelayPort irule) (gr_SourceIP irule @ '':'' @ gr_TargetPort irule)
                (the (map_of up n))) up)
           (gw_IngressRules (gw_Spec gw)) usedPorts)"
  have one: "gw_ports name (?step gw s) =
      fold (\<lambda>r m. m(gr_RelayPort r \<mapsto> gr_key r)) (ingress_rules_of name [gw]) (gw_ports name s)"
    for gw :: "'c gateway" and s
  proof (cases "m_Name (gw_Meta gw) = name")
    case True
    have init: "gw_ports name (if map_of s name = None then gset name [] s else s) = gw_ports name s"
      by (simp add: gw_ports_def)
    show ?thesis
      using gw_ports_fold [of "if map_of s name = None then gset name [] s else s" name
          gr_RelayPort gr_key "gw_IngressRules (gw_Spec gw)"] True
      by (simp add: Let_def init ingress_rules_of_def gr_key_def portKey_def)
  next
    case False
    then show ?thesis
      by (simp add: Let_def gw_ports_fold_other ingress_rules_of_def)
  qed
  have "gw_ports name (fold ?step gws s) =
      fold (\<lambda>r m. m(gr_RelayPort r \<mapsto> gr_key r)) (ingress_rules_of name gws) (gw_ports name s)" for s
  proof (induction gws arbitrary: s)
    case Nil
    then show ?case by (simp add: ingress_rules_of_def)
  next
    case (Cons gw gws)
    have "ingress_rules_of name (gw # gws) = ingress_rules_of name [gw] @ ingress_rules_of name gws"
      by (simp add: ingress_rules_of_def)
    then show ?case by (simp only: fold_simps comp_apply Cons.IH one fold_append)
  qed
  from this [of "[]"] show ?thesis
    by (simp add: genUsedPortsForIngress_def gw_ports_def)
qed

lemma used_ingress_Some:
  "gw_ports name (genUsedPortsForIngress gws) p = Some k \<Longrightarrow>
     \<exists>r \<in> set (ingress_rules_of name gws). gr_RelayPort r = p \<and> gr_key r = k"
  by (auto simp: used_ingress dest: fold_upd_Some)

lemma used_ingress_dom:
  "dom (gw_ports name (genUsedPortsForIngress gws)) = gr_RelayPort ` set (ingress_rules_of name gws)"
  by (simp add: used_ingress fold_upd_dom)

section \<open>Properties\<close>

text \<open>
  The egress allocator. In whatever order the table is visited: it fails only when no
  port holds the request's key and every port from \<open>MinPort\<close> to \<open>MaxPort\<close> is taken; a
  request whose key is in the table gets a port that holds it and leaves the table alone; any
  other request gets the lowest free port and adds just that entry.
\<close>

theorem egress_alloc_spec:
  assumes "range_order ord"
  shows "case genRelayPortForEgress ord a t m of
      Inl e \<Rightarrow> e = RelayPortExhausted \<and> portKey a t \<notin> ran (map_of m) \<and>
        (\<forall>q. MinPort \<le> q \<and> q \<le> MaxPort \<longrightarrow> map_of m (Itoa q) \<noteq> None)
    | Inr (p, m') \<Rightarrow>
        if portKey a t \<in> ran (map_of m) then map_of m p = Some (portKey a t) \<and> m' = m
        else map_of m' = (map_of m)(p \<mapsto> portKey a t) \<and>
          (\<exists>q. MinPort \<le> q \<and> q \<le> MaxPort \<and> p = Itoa q \<and> map_of m p = None \<and>
             (\<forall>r. MinPort \<le> r \<and> r < q \<longrightarrow> map_of m (Itoa r) \<noteq> None))"
proof (cases "portKey a t \<in> ran (map_of m)")
  case True
  then show ?thesis using find_key [OF assms True] by (simp add: egress_cases [OF assms])
next
  case False
  then show ?thesis
    using free_port_Some [of MinPort m] free_port_exhausted [of m]
    by (auto simp: egress_cases [OF assms] split: option.split)
qed

theorem egress_alloc_spec_witness:
  "genRelayPortForEgress rev ''10.0.0.4'' ''8080'' [] =
     Inr (''2049'', [(''2049'', ''10.0.0.4:8080'')]) \<and>
   (case genRelayPortForEgress rev ''10.0.0.4'' ''8080'' [] of Inl e \<Rightarrow> False
    | Inr (p, m') \<Rightarrow> map_of m' p = Some ''10.0.0.4:8080'')"
proof
  have eval: "free_port MinPort [] = Some ''2049''" by code_simp
  show r: "genRelayPortForEgress rev ''10.0.0.4'' ''8080'' [] =
      Inr (''2049'', [(''2049'', ''10.0.0.4:8080'')])"
    by (simp add: genRelayPortForEgress_def grange_def gkeys_def eval gset_def)
  show "case genRelayPortForEgress rev ''10.0.0.4'' ''8080'' [] of Inl e \<Rightarrow> False
    | Inr (p, m') \<Rightarrow> map_of m' p = Some ''10.0.0.4:8080''"
    using egress_alloc_spec [OF range_order_rev, of "''10.0.0.4''" "''8080''" "[]"]
    by (simp add: r portKey_def)
qed

text \<open>
  C30: The top of the port range. The loop runs up to and including \<open>MaxPort\<close> = 65536, so
  once 2049 to 65535 are taken, the next relay port is 65536, which is not a TCP port (it
  does not fit in 16 bits).
\<close>

theorem relay_port_beyond_tcp:
  assumes "range_order ord" and "portKey a t \<notin> ran (map_of m)"
    and "\<And>q. 2049 \<le> q \<Longrightarrow> q < 65536 \<Longrightarrow> map_of m (Itoa q) \<noteq> None"
    and "map_of m (Itoa 65536) = None"
  shows "genRelayPortForEgress ord a t m = Inr (Itoa 65536, gset (Itoa 65536) (portKey a t) m) \<and>
    Atoi (Itoa 65536) = Inr (2 ^ 16)"
proof -
  have "free_port MinPort m = Some (Itoa 65536)"
    using assms(3,4) by (intro free_port_unused) (simp_all add: MinPort_def MaxPort_def)
  with assms(1,2) show ?thesis by (simp add: egress_cases Atoi_Itoa)
qed

lemma map_of_Itoa_table:
  "map_of (map (\<lambda>q. (Itoa q, v)) qs) (Itoa p) = (if p \<in> set qs then Some v else None)"
  by (induction qs) auto

lemma ran_Itoa_table: "ran (map_of (map (\<lambda>q. (Itoa q, v)) qs)) \<subseteq> {v}"
  by (induction qs) (auto simp: ran_def split: if_splits)

theorem relay_port_beyond_tcp_witness:
  "genRelayPortForEgress rev ''10.0.0.4'' ''80'' (map (\<lambda>q. (Itoa q, ''busy'')) [2049..65535]) =
     Inr (Itoa 65536, gset (Itoa 65536) (portKey ''10.0.0.4'' ''80'')
       (map (\<lambda>q. (Itoa q, ''busy'')) [2049..65535]))"
proof -
  let ?m = "map (\<lambda>q. (Itoa q, ''busy'')) [2049..65535]"
  have busy: "portKey ''10.0.0.4'' ''80'' \<noteq> ''busy''" by (simp add: portKey_def)
  have "portKey ''10.0.0.4'' ''80'' \<notin> ran (map_of ?m)"
    using ran_Itoa_table [of "''busy''" "[2049..65535]"] busy by blast
  moreover have "map_of ?m (Itoa q) \<noteq> None" if "2049 \<le> q" "q < 65536" for q
    using that by (simp only: map_of_Itoa_table set_upto atLeastAtMost_iff) simp
  moreover have "map_of ?m (Itoa 65536) = None"
    by (simp only: map_of_Itoa_table set_upto atLeastAtMost_iff) simp
  ultimately show ?thesis using relay_port_beyond_tcp [OF range_order_rev] by blast
qed

text \<open>
  C31: Egress relay ports are not kept. The table built from a Forwarder's egress rules holds
  target ports, not \<^verbatim>\<open>sourceIP:targetPort\<close> keys, so a request never finds the port of
  the rule that already serves it: every port handed out is one no existing rule uses.
\<close>

theorem egress_ports_not_reused:
  assumes "range_order ord"
    and "\<And>r. r \<in> set (fwd_EgressRules (fwd_Spec fwd)) \<Longrightarrow> CHR '':'' \<notin> set (fr_TargetPort r)"
    and "genRelayPortForEgress ord a t (genUsedPortsForEgress fwd) = Inr (p, m')"
  shows "p \<notin> fr_RelayPort ` set (fwd_EgressRules (fwd_Spec fwd))"
proof -
  have "portKey a t \<notin> ran (map_of (genUsedPortsForEgress fwd))"
    using used_egress_ran [of fwd] assms(2) colon_in_portKey [of a t]
    by (metis image_iff subsetD)
  from egress.alloc_fresh [OF assms(1,3) this]
  show ?thesis using used_egress_dom [of fwd] by (metis domIff)
qed

definition sample_egress_rule :: forwarder_rule where
  "sample_egress_rule =
     \<lparr>fr_Protocol = ''TCP'', fr_SourceIP = ''10.0.0.4'', fr_TargetPort = ''8080'',
      fr_DestinationIP = ''192.168.122.139'', fr_DestinationPort = ''80'',
      fr_Gateway = \<lparr>gwref_Namespace = ''external-services'', gwref_Name = ''gwrulec0a87ac8''\<rparr>,
      fr_GatewayIP = ''192.168.122.200'', fr_RelayPort = ''2049''\<rparr>"

definition sample_forwarder :: "unit forwarder" where
  "sample_forwarder =
     \<lparr>fwd_Meta = meta ''external-services'' ''es1'',
      fwd_Spec = \<lparr>fwd_EgressRules = [sample_egress_rule], fwd_IngressRules = [],
        fwd_ForwarderIP = ''10.0.0.3''\<rparr>,
      fwd_Status = \<lparr>fwd_Conditions = (), fwd_RuleGeneration = 0, fwd_SyncGeneration = 0\<rparr>\<rparr>"

theorem egress_ports_not_reused_witness:
  "genRelayPortForEgress rev ''10.0.0.4'' ''8080'' (genUsedPortsForEgress sample_forwarder) =
     Inr (''2050'', [(''2049'', ''8080''), (''2050'', ''10.0.0.4:8080'')]) \<and>
   ''2050'' \<notin> fr_RelayPort ` set (fwd_EgressRules (fwd_Spec sample_forwarder))"
proof -
  have used: "genUsedPortsForEgress sample_forwarder = [(''2049'', ''8080'')]"
    by (simp add: genUsedPortsForEgress_def sample_forwarder_def sample_egress_rule_def gset_def)
  have "free_port MinPort [(''2049'', ''8080'')] = Some ''2050''" by code_simp
  then have r: "genRelayPortForEgress rev ''10.0.0.4'' ''8080'' (genUsedPortsForEgress sample_forwarder) =
     Inr (''2050'', [(''2049'', ''8080''), (''2050'', ''10.0.0.4:8080'')])"
    by (simp add: used genRelayPortForEgress_def grange_def gkeys_def gset_def)
  have "CHR '':'' \<notin> set (fr_TargetPort r)"
    if "r \<in> set (fwd_EgressRules (fwd_Spec sample_forwarder))" for r
    using that by (simp add: sample_forwarder_def sample_egress_rule_def)
  from egress_ports_not_reused [OF range_order_rev this r] r show ?thesis by simp
qed

text \<open>
  C32: Ingress relay ports are kept. If a rule's port and key are used by no other ingress rule
  of gateways of that name, the allocator answers the rule's request with the rule's own port
  and leaves the gateway's table as it was.
\<close>

theorem ingress_port_kept:
  assumes "range_order ord" and "r \<in> set (ingress_rules_of name gws)"
    and "\<And>r'. r' \<in> set (ingress_rules_of name gws) \<Longrightarrow>
           gr_key r' = gr_key r \<longleftrightarrow> gr_RelayPort r' = gr_RelayPort r"
  shows "\<exists>s'. genRelayPortForIngress ord (gr_SourceIP r) (gr_TargetPort r) name
             (genUsedPortsForIngress gws) = Inr (gr_RelayPort r, s') \<and>
           gw_ports name s' = gw_ports name (genUsedPortsForIngress gws)"
proof -
  let ?s = "genUsedPortsForIngress gws"
  have "gr_RelayPort r \<in> dom (gw_ports name ?s)" using assms(2) by (simp add: used_ingress_dom)
  with used_ingress_Some [of name gws] assms(3)
  have "gw_ports name ?s (gr_RelayPort r) = Some (gr_key r)" by fastforce
  then have key: "portKey (gr_SourceIP r) (gr_TargetPort r) \<in> ran (gw_ports name ?s)"
    by (auto simp: ran_def gr_key_def)
  then obtain p s' where alloc: "genRelayPortForIngress ord (gr_SourceIP r) (gr_TargetPort r) name ?s = Inr (p, s')"
    using ingress.alloc_error [OF assms(1)] by (metis obj_sumE surj_pair)
  from ingress.alloc_found [OF assms(1) alloc key] used_ingress_Some [of name gws p] assms(3)
  have "p = gr_RelayPort r" and "gw_ports name s' = gw_ports name ?s"
    by (auto simp: gr_key_def)
  with alloc show ?thesis by blast
qed

definition sample_ingress_rule :: gateway_rule where
  "sample_ingress_rule =
     \<lparr>gr_Protocol = ''TCP'', gr_SourceIP = ''192.168.122.139'', gr_TargetPort = ''8443'',
      gr_DestinationPort = ''8443'', gr_DestinationIP = ''10.20.0.8'',
      gr_Forwarder = \<lparr>fwdref_Namespace = ''external-services'', fwdref_Name = ''es1''\<rparr>,
      gr_ForwarderIP = ''10.0.0.3'', gr_RelayPort = ''2049''\<rparr>"

definition sample_gateway :: "unit gateway" where
  "sample_gateway =
     \<lparr>gw_Meta = meta ''external-services'' ''gwrulec0a87ac8'',
      gw_Spec = \<lparr>gw_EgressRules = [], gw_IngressRules = [sample_ingress_rule],
        gw_GatewayIP = ''192.168.122.200''\<rparr>,
      gw_Status = \<lparr>gw_Conditions = (), gw_RuleGeneration = 0, gw_SyncGeneration = 0\<rparr>\<rparr>"

theorem ingress_port_kept_witness:
  "\<exists>s'. genRelayPortForIngress rev ''192.168.122.139'' ''8443'' ''gwrulec0a87ac8''
     (genUsedPortsForIngress [sample_gateway]) = Inr (''2049'', s')"
proof -
  have rules: "ingress_rules_of ''gwrulec0a87ac8'' [sample_gateway] = [sample_ingress_rule]"
    by (simp add: ingress_rules_of_def sample_gateway_def)
  have "\<exists>s'. genRelayPortForIngress rev (gr_SourceIP sample_ingress_rule)
       (gr_TargetPort sample_ingress_rule) ''gwrulec0a87ac8'' (genUsedPortsForIngress [sample_gateway]) =
       Inr (gr_RelayPort sample_ingress_rule, s') \<and>
     gw_ports ''gwrulec0a87ac8'' s' = gw_ports ''gwrulec0a87ac8'' (genUsedPortsForIngress [sample_gateway])"
    by (rule ingress_port_kept) (simp_all add: rules)
  then show ?thesis by (auto simp: sample_ingress_rule_def)
qed

end
