(* ===== verification/Samples.thy ===== *)
theory Samples
  imports ApiLaws Util
begin

text \<open>
  Concrete objects for the witnesses: those of the repository's own unit test
  \<^verbatim>\<open>pkg/controller/externalservice/reconciler_test.go\<close>, one ExternalService with one
  source whose service has one endpoint and one port.
\<close>

definition test_es :: external_service where
  "test_es =
     \<lparr>es_Meta = meta ''ns1'' ''es1'',
      es_Spec =
        \<lparr>es_TargetIP = dotted 192 168 122 139,
         es_Sources = [\<lparr>src_Service = \<lparr>sref_Namespace = ''ns1'', sref_Name = ''svc1''\<rparr>,
                        src_SourceIP = dotted 192 168 122 200\<rparr>],
         es_Ports = [\<lparr>sp_Name = [], sp_Protocol = ''TCP'', sp_Port = 80, sp_TargetPort = IntVal 8080\<rparr>]\<rparr>\<rparr>"

definition test_pod :: pod where
  "test_pod =
     \<lparr>pod_Meta = meta ''external-services'' ''es1'', pod_ServiceAccountName = [],
      pod_Containers = [], pod_Volumes = [], pod_PodIP = ''10.0.0.3''\<rparr>"

definition test_svc :: service where
  "test_svc =
     \<lparr>svc_Meta = meta ''ns1'' ''svc1'',
      svc_Ports = [\<lparr>sp_Name = [], sp_Protocol = ''TCP'', sp_Port = 8443, sp_TargetPort = IntVal 0\<rparr>],
      svc_ClusterIP = ''10.20.0.8'', svc_Selector = []\<rparr>"

definition test_ep :: endpoints where
  "test_ep = \<lparr>ep_Meta = meta ''ns1'' ''svc1'', ep_Subsets = [[''10.0.0.4'']]\<rparr>"

definition test_world :: "(string \<Rightarrow> condition_status option) mem" where
  "test_world =
     \<lparr>mem_ess = [(meta_key (es_Meta test_es), test_es)],
      mem_pods = [(meta_key (pod_Meta test_pod), test_pod)],
      mem_svcs = [(meta_key (svc_Meta test_svc), test_svc)],
      mem_eps = [(meta_key (ep_Meta test_ep), test_ep)],
      mem_fwds = [], mem_gws = []\<rparr>"

lemmas test_defs = test_es_def test_pod_def test_svc_def test_ep_def test_world_def

lemma test_rule_name: "GetRuleName (dotted 192 168 122 200) = Inr ''gwrulec0a87ac8''"
proof -
  have "gatewayRulePrefix @ concat (map hex02 [192, 168, 122, 200]) = ''gwrulec0a87ac8''"
    by code_simp
  then show ?thesis unfolding GetRuleName_Inr by auto
qed

lemma Itoa_evals:
  "Itoa 80 = ''80''" "Itoa 8080 = ''8080''" "Itoa 8443 = ''8443''" "Itoa 2049 = ''2049''"
  "Itoa (sint (80 :: 32 word)) = ''80''" "Itoa (sint (8080 :: 32 word)) = ''8080''"
  "Itoa (sint (8443 :: 32 word)) = ''8443''"
  by (simp_all add: Itoa_eval)

lemma mem_client_Get:
  "res_Get (cl_Endpoints (mem_client ip)) k w =
     (case map_of (mem_eps w) k of None \<Rightarrow> Inl NotFound
      | Some x \<Rightarrow> if meta_key (ep_Meta x) = k then Inr x else Inl (ApiError ''key''), w)"
  "res_Get (cl_Services (mem_client ip)) k w =
     (case map_of (mem_svcs w) k of None \<Rightarrow> Inl NotFound
      | Some x \<Rightarrow> if meta_key (svc_Meta x) = k then Inr x else Inl (ApiError ''key''), w)"
  "res_Get (cl_Pods (mem_client ip)) k w =
     (case map_of (mem_pods w) k of None \<Rightarrow> Inl NotFound
      | Some x \<Rightarrow> if meta_key (pod_Meta x) = k then Inr x else Inl (ApiError ''key''), w)"
  by (simp_all add: mem_client_def mem_resource_def)

end
