(* ===== verification/OperatorRules.thy ===== *)
theory OperatorRules
  imports RelayPorts Samples
begin

text \<open>
  How the operator computes the rules of a Forwarder
  (\<^verbatim>\<open>pkg/controller/externalservice/reconciler.go\<close>): its egress and ingress
  rules from an ExternalService and the cluster's Endpoints and Services.
\<close>

definition ConnectorNamespace :: string where
  "ConnectorNamespace = ''external-services''"

section \<open>Rules of a forwarder\<close>

text \<open>
  \<^verbatim>\<open>getEndpointAddrs\<close>: missing Endpoints are no addresses, any other error is returned.
\<close>

definition getEndpointAddrs :: "('w, 'c) client \<Rightarrow> string \<Rightarrow> string \<Rightarrow> ('w, string list) io" where
  "getEndpointAddrs cl ns name =
     andThen (attempt (res_Get (cl_Endpoints cl) \<lparr>nn_Namespace = ns, nn_Name = name\<rparr>))
       (\<lambda>r. case r of
           Inl e \<Rightarrow> if e \<noteq> NotFound then fail e else ret []
         | Inr ep \<Rightarrow> ret (concat (ep_Subsets ep)))"

definition egressRule ::
  "'c libs \<Rightarrow> external_service \<Rightarrow> gateway_ref \<Rightarrow> source \<Rightarrow> service_port \<Rightarrow> string \<Rightarrow> string
     \<Rightarrow> forwarder_rule" where
  "egressRule L cr gw src port srcIP rPort =
     \<lparr>fr_Protocol = sp_Protocol port,
      fr_SourceIP = srcIP,
      fr_TargetPort = intOrString L (sp_TargetPort port),
      fr_DestinationIP = es_TargetIP (es_Spec cr),
      fr_DestinationPort = Itoa (sint (sp_Port port)),
      fr_Gateway = gw,
      fr_GatewayIP = src_SourceIP src,
      fr_RelayPort = rPort\<rparr>"

text \<open>
  The two inner loops of \<^verbatim>\<open>genForwarderEgressRules\<close>, over the ports and the endpoint
  addresses of one source. The n-th call of the allocator visits the table in the order
  \<open>ords n\<close>.
\<close>

definition egressRulesOfSource ::
  "'c libs \<Rightarrow> (nat \<Rightarrow> key_order) \<Rightarrow> external_service \<Rightarrow> source \<Rightarrow> gateway_ref \<Rightarrow> string list
     \<Rightarrow> forwarder_rule list \<times> string gomap \<Rightarrow> (forwarder_rule list \<times> string gomap) result" where
  "egressRulesOfSource L ords cr src gw addrs =
     foldR (\<lambda>port. foldR (\<lambda>srcIP (eRules, ePorts).
         rbind (genRelayPortForEgress (ords (length eRules)) srcIP
                  (intOrString L (sp_TargetPort port)) ePorts)
           (\<lambda>(rPort, ePorts). Inr (eRules @ [egressRule L cr gw src port srcIP rPort], ePorts)))
       addrs)
       (es_Ports (es_Spec cr))"

definition genForwarderEgressRules ::
  "'c libs \<Rightarrow> (nat \<Rightarrow> key_order) \<Rightarrow> ('w, 'c) client \<Rightarrow> external_service \<Rightarrow> string gomap
     \<Rightarrow> ('w, forwarder_rule list \<times> string gomap) io" where
  "genForwarderEgressRules L ords cl cr ePorts =
     foldE (\<lambda>src s.
         andThen (lift_result (GetRuleName (src_SourceIP src))) (\<lambda>gwName.
         andThen (getEndpointAddrs cl (sref_Namespace (src_Service src)) (sref_Name (src_Service src)))
           (\<lambda>addrs. lift_result (egressRulesOfSource L ords cr src
               \<lparr>gwref_Namespace = ConnectorNamespace, gwref_Name = gwName\<rparr> addrs s))))
       (es_Sources (es_Spec cr)) ([], ePorts)"

definition ingressRule ::
  "external_service \<Rightarrow> gateway_ref \<Rightarrow> source \<Rightarrow> string \<Rightarrow> service_port \<Rightarrow> string \<Rightarrow> forwarder_rule" where
  "ingressRule cr gw src clusterIP svcPort rPort =
     \<lparr>fr_Protocol = sp_Protocol svcPort,
      fr_SourceIP = es_TargetIP (es_Spec cr),
      fr_TargetPort = Itoa (sint (sp_Port svcPort)),
      fr_DestinationIP = clusterIP,
      fr_DestinationPort = Itoa (sint (sp_Port svcPort)),
      fr_Gateway = gw,
      fr_GatewayIP = src_SourceIP src,
      fr_RelayPort = rPort\<rparr>"

definition ingressRulesOfService ::
  "(nat \<Rightarrow> key_order) \<Rightarrow> external_service \<Rightarrow> source \<Rightarrow> gateway_ref \<Rightarrow> service_port list \<Rightarrow> string
     \<Rightarrow> forwarder_rule list \<times> string gomap gomap
     \<Rightarrow> (forwarder_rule list \<times> string gomap gomap) result" where
  "ingressRulesOfService ords cr src gw ports clusterIP =
     foldR (\<lambda>svcPort (iRules, iPorts).
         rbind (genRelayPortForIngress (ords (length iRules)) (es_TargetIP (es_Spec cr))
                  (Itoa (sint (sp_Port svcPort))) (gwref_Name gw) iPorts)
           (\<lambda>(rPort, iPorts). Inr (iRules @ [ingressRule cr gw src clusterIP svcPort rPort], iPorts)))
       ports"

text \<open>A service that does not exist has no ports: \<^verbatim>\<open>svc\<close> is then the zero Service.\<close>

definition genForwarderIngressRules ::
  "(nat \<Rightarrow> key_order) \<Rightarrow> ('w, 'c) client \<Rightarrow> external_service \<Rightarrow> string gomap gomap
     \<Rightarrow> ('w, forwarder_rule list \<times> string gomap gomap) io" where
  "genForwarderIngressRules ords cl cr iPorts =
     foldE (\<lambda>src s.
         andThen (lift_result (GetRuleName (src_SourceIP src))) (\<lambda>gwName.
         andThen (attempt (res_Get (cl_Services cl)
             \<lparr>nn_Namespace = sref_Namespace (src_Service src), nn_Name = sref_Name (src_Service src)\<rparr>))
           (\<lambda>r. let rules = (\<lambda>ports clusterIP. lift_result (ingressRulesOfService ords cr src
                     \<lparr>gwref_Namespace = ConnectorNamespace, gwref_Name = gwName\<rparr> ports clusterIP s))
                in case r of
                     Inl e \<Rightarrow> if e \<noteq> NotFound then fail e else rules [] []
                   | Inr svc \<Rightarrow> rules (svc_Ports svc) (svc_ClusterIP svc))))
       (es_Sources (es_Spec cr)) ([], iPorts)"

section \<open>Egress rules: invariants of the loops\<close>

definition fr_request :: "forwarder_rule \<Rightarrow> string \<times> string \<times> string" where
  "fr_request r = (fr_SourceIP r, fr_TargetPort r, fr_RelayPort r)"

text \<open>What the loops build from an external service: rules of this form only.\<close>

definition egress_rule_of :: "'c libs \<Rightarrow> external_service \<Rightarrow> forwarder_rule \<Rightarrow> bool" where
  "egress_rule_of L cr r \<longleftrightarrow>
     (\<exists>src \<in> set (es_Sources (es_Spec cr)). \<exists>port \<in> set (es_Ports (es_Spec cr)). \<exists>gwName.
        GetRuleName (src_SourceIP src) = Inr gwName \<and>
        r = egressRule L cr \<lparr>gwref_Namespace = ConnectorNamespace, gwref_Name = gwName\<rparr> src port
              (fr_SourceIP r) (fr_RelayPort r))"

definition ingress_rule_of :: "external_service \<Rightarrow> forwarder_rule \<Rightarrow> bool" where
  "ingress_rule_of cr r \<longleftrightarrow>
     (\<exists>src \<in> set (es_Sources (es_Spec cr)). \<exists>port. \<exists>gwName.
        GetRuleName (src_SourceIP src) = Inr gwName \<and>
        r = ingressRule cr \<lparr>gwref_Namespace = ConnectorNamespace, gwref_Name = gwName\<rparr> src
              (fr_DestinationIP r) port (fr_RelayPort r))"

lemma egress_rule_ofI:
  assumes "src \<in> set (es_Sources (es_Spec cr))" and "port \<in> set (es_Ports (es_Spec cr))"
    and "GetRuleName (src_SourceIP src) = Inr gwName"
  shows "egress_rule_of L cr (egressRule L cr
           \<lparr>gwref_Namespace = ConnectorNamespace, gwref_Name = gwName\<rparr> src port srcIP p)"
  unfolding egress_rule_of_def
  by (rule bexI [OF _ assms(1)], rule bexI [OF _ assms(2)], rule exI [of _ gwName])
     (simp add: assms(3) egressRule_def)

lemma ingress_rule_ofI:
  assumes "src \<in> set (es_Sources (es_Spec cr))" and "GetRuleName (src_SourceIP src) = Inr gwName"
  shows "ingress_rule_of cr (ingressRule cr
           \<lparr>gwref_Namespace = ConnectorNamespace, gwref_Name = gwName\<rparr> src ip port p)"
  unfolding ingress_rule_of_def
  by (rule bexI [OF _ assms(1)], rule exI [of _ port], rule exI [of _ gwName])
     (simp add: assms(2) ingressRule_def)

definition egress_inv ::
  "'c libs \<Rightarrow> external_service \<Rightarrow> string gomap \<Rightarrow> forwarder_rule list \<times> string gomap \<Rightarrow> bool" where
  "egress_inv L cr m0 s \<longleftrightarrow>
     served map_of m0 (fr_request ` set (fst s)) (snd s) \<and> (\<forall>r \<in> set (fst s). egress_rule_of L cr r)"

lemma egressRulesOfSource_inv:
  assumes ords: "\<And>n. range_order (ords n)"
    and src: "src \<in> set (es_Sources (es_Spec cr))" and gw: "GetRuleName (src_SourceIP src) = Inr gwName"
    and run: "egressRulesOfSource L ords cr src
               \<lparr>gwref_Namespace = ConnectorNamespace, gwref_Name = gwName\<rparr> addrs s = Inr s'"
    and inv: "egress_inv L cr m0 s"
  shows "egress_inv L cr m0 s'"
  using run [unfolded egressRulesOfSource_def] inv
proof (rule foldR_inv)
  fix port s t
  assume port: "port \<in> set (es_Ports (es_Spec cr))" and s: "egress_inv L cr m0 s"
    and t: "foldR (\<lambda>srcIP (eRules, ePorts).
         rbind (genRelayPortForEgress (ords (length eRules)) srcIP
                  (intOrString L (sp_TargetPort port)) ePorts)
           (\<lambda>(rPort, ePorts). Inr (eRules @ [egressRule L cr
              \<lparr>gwref_Namespace = ConnectorNamespace, gwref_Name = gwName\<rparr> src port srcIP rPort], ePorts)))
       addrs s = Inr t"
  from t s show "egress_inv L cr m0 t"
  proof (rule foldR_inv)
    fix srcIP s t
    assume s: "egress_inv L cr m0 s"
      and t: "(case s of (eRules, ePorts) \<Rightarrow>
         rbind (genRelayPortForEgress (ords (length eRules)) srcIP
                  (intOrString L (sp_TargetPort port)) ePorts)
           (\<lambda>(rPort, ePorts). Inr (eRules @ [egressRule L cr
              \<lparr>gwref_Namespace = ConnectorNamespace, gwref_Name = gwName\<rparr> src port srcIP rPort], ePorts))) = Inr t"
    obtain rs m where sm: "s = (rs, m)" by (cases s)
    from t sm obtain p m' where alloc: "genRelayPortForEgress (ords (length rs)) srcIP
          (intOrString L (sp_TargetPort port)) m = Inr (p, m')"
      and t': "t = (rs @ [egressRule L cr \<lparr>gwref_Namespace = ConnectorNamespace, gwref_Name = gwName\<rparr>
                 src port srcIP p], m')"
      by (auto simp: rbind_Inr_iff)
    from s sm have "served map_of m0 (fr_request ` set rs) m" by (simp add: egress_inv_def)
    from egress.served_step [OF ords this alloc] s egress_rule_ofI [OF src port gw, of L srcIP p]
    show "egress_inv L cr m0 t"
      by (auto simp: egress_inv_def sm t' fr_request_def egressRule_def)
  qed
qed

lemma genForwarderEgressRules_inv:
  assumes "\<And>n. range_order (ords n)"
    and "genForwarderEgressRules L ords cl cr m0 w = (Inr s, w')"
  shows "egress_inv L cr m0 s"
proof -
  have "wp (genForwarderEgressRules L ords cl cr m0) (\<lambda>s _. egress_inv L cr m0 s) (\<lambda>_ _. True) w"
    unfolding genForwarderEgressRules_def
  proof (rule wp_foldE)
    show "egress_inv L cr m0 ([], m0)" by (simp add: egress_inv_def served_init)
    fix src s w
    assume "src \<in> set (es_Sources (es_Spec cr))" and "egress_inv L cr m0 s"
    then have step: "egress_inv L cr m0 s'"
      if "GetRuleName (src_SourceIP src) = Inr g" and "egressRulesOfSource L ords cr src
            \<lparr>gwref_Namespace = ConnectorNamespace, gwref_Name = g\<rparr> addrs s = Inr s'" for g addrs s'
      using egressRulesOfSource_inv [where ords = ords, OF assms(1)] that by blast
    show "wp (andThen (lift_result (GetRuleName (src_SourceIP src))) (\<lambda>gwName.
         andThen (getEndpointAddrs cl (sref_Namespace (src_Service src)) (sref_Name (src_Service src)))
           (\<lambda>addrs. lift_result (egressRulesOfSource L ords cr src
               \<lparr>gwref_Namespace = ConnectorNamespace, gwref_Name = gwName\<rparr> addrs s))))
       (\<lambda>s _. egress_inv L cr m0 s) (\<lambda>_ _. True) w"
      unfolding wp_rules by (auto intro!: wp_okI step split: sum.split)
  qed
  then show ?thesis using assms(2) by (rule wp_Inr)
qed

section \<open>Ingress rules: invariants of the loops\<close>

definition ingress_inv ::
  "external_service \<Rightarrow> string gomap gomap \<Rightarrow> forwarder_rule list \<times> string gomap gomap \<Rightarrow> bool" where
  "ingress_inv cr s0 s \<longleftrightarrow>
     (\<forall>g. served (gw_ports g) s0
        (fr_request ` {r \<in> set (fst s). gwref_Name (fr_Gateway r) = g}) (snd s)) \<and>
     (\<forall>r \<in> set (fst s). ingress_rule_of cr r)"

lemma served_other:
  "served look s0 rs s \<Longrightarrow> look s' = look s \<Longrightarrow> served look s0 rs s'"
  by (simp add: served_def)

lemma ingressRulesOfService_inv:
  assumes ords: "\<And>n. range_order (ords n)"
    and src: "src \<in> set (es_Sources (es_Spec cr))" and gw: "GetRuleName (src_SourceIP src) = Inr gwName"
    and run: "ingressRulesOfService ords cr src
               \<lparr>gwref_Namespace = ConnectorNamespace, gwref_Name = gwName\<rparr> ports ip s = Inr s'"
    and inv: "ingress_inv cr s0 s"
  shows "ingress_inv cr s0 s'"
  using run [unfolded ingressRulesOfService_def] inv
proof (rule foldR_inv)
  fix port s t
  assume s: "ingress_inv cr s0 s"
    and t: "(case s of (iRules, iPorts) \<Rightarrow>
         rbind (genRelayPortForIngress (ords (length iRules)) (es_TargetIP (es_Spec cr))
                  (Itoa (sint (sp_Port port)))
                  (gwref_Name \<lparr>gwref_Namespace = ConnectorNamespace, gwref_Name = gwName\<rparr>) iPorts)
           (\<lambda>(rPort, iPorts). Inr (iRules @ [ingressRule cr
              \<lparr>gwref_Namespace = ConnectorNamespace, gwref_Name = gwName\<rparr> src ip port rPort], iPorts))) = Inr t"
  obtain rs m where sm: "s = (rs, m)" by (cases s)
  from t sm obtain p m' where alloc: "genRelayPortForIngress (ords (length rs))
        (es_TargetIP (es_Spec cr)) (Itoa (sint (sp_Port port))) gwName m = Inr (p, m')"
    and t': "t = (rs @ [ingressRule cr \<lparr>gwref_Namespace = ConnectorNamespace, gwref_Name = gwName\<rparr>
               src ip port p], m')"
    by (auto simp: rbind_Inr_iff)
  let ?rs = "\<lambda>g rs. fr_request ` {r \<in> set rs. gwref_Name (fr_Gateway r) = g}"
  have "served (gw_ports g) s0 (?rs g (fst t)) m'" for g
  proof (cases "g = gwName")
    case True
    let ?new = "ingressRule cr \<lparr>gwref_Namespace = ConnectorNamespace, gwref_Name = gwName\<rparr> src ip port p"
    have "{r \<in> set (fst t). gwref_Name (fr_Gateway r) = g} =
        insert ?new {r \<in> set rs. gwref_Name (fr_Gateway r) = g}"
      by (auto simp: t' True ingressRule_def)
    then have "?rs g (fst t) = insert (es_TargetIP (es_Spec cr), Itoa (sint (sp_Port port)), p) (?rs g rs)"
      by (simp add: fr_request_def ingressRule_def)
    moreover have "served (gw_ports g) s0 (?rs g rs) m" using s sm by (simp add: ingress_inv_def)
    ultimately show ?thesis
      using ingress.served_step [OF ords _ alloc] True by simp
  next
    case False
    have "?rs g (fst t) = ?rs g rs" using False by (auto simp: t' ingressRule_def)
    moreover have "served (gw_ports g) s0 (?rs g rs) m" using s sm by (simp add: ingress_inv_def)
    ultimately show ?thesis
      using ingress_other_gateway [OF ords alloc False] by (simp add: served_other)
  qed
  moreover have "ingress_rule_of cr r" if "r \<in> set (fst t)" for r
    using that s ingress_rule_ofI [OF src gw, of ip port p] by (auto simp: t' sm ingress_inv_def)
  ultimately show "ingress_inv cr s0 t" by (simp add: ingress_inv_def t')
qed

lemma genForwarderIngressRules_inv:
  assumes "\<And>n. range_order (ords n)"
    and "genForwarderIngressRules ords cl cr s0 w = (Inr s, w')"
  shows "ingress_inv cr s0 s"
proof -
  have "wp (genForwarderIngressRules ords cl cr s0) (\<lambda>s _. ingress_inv cr s0 s) (\<lambda>_ _. True) w"
    unfolding genForwarderIngressRules_def
  proof (rule wp_foldE)
    show "ingress_inv cr s0 ([], s0)" by (simp add: ingress_inv_def served_init)
  next
    fix src s w
    assume "src \<in> set (es_Sources (es_Spec cr))" and "ingress_inv cr s0 s"
    then have step: "ingress_inv cr s0 s'"
      if "GetRuleName (src_SourceIP src) = Inr g" and "ingressRulesOfService ords cr src
            \<lparr>gwref_Namespace = ConnectorNamespace, gwref_Name = g\<rparr> ports ip s = Inr s'" for g ports ip s'
      using ingressRulesOfService_inv [where ords = ords, OF assms(1)] that by blast
    show "wp (andThen (lift_result (GetRuleName (src_SourceIP src))) (\<lambda>gwName.
         andThen (attempt (res_Get (cl_Services cl)
             \<lparr>nn_Namespace = sref_Namespace (src_Service src), nn_Name = sref_Name (src_Service src)\<rparr>))
           (\<lambda>r. let rules = (\<lambda>ports clusterIP. lift_result (ingressRulesOfService ords cr src
                     \<lparr>gwref_Namespace = ConnectorNamespace, gwref_Name = gwName\<rparr> ports clusterIP s))
                in case r of
                     Inl e \<Rightarrow> if e \<noteq> NotFound then fail e else rules [] []
                   | Inr svc \<Rightarrow> rules (svc_Ports svc) (svc_ClusterIP svc))))
       (\<lambda>s _. ingress_inv cr s0 s) (\<lambda>_ _. True) w"
      unfolding wp_rules Let_def
      by (auto simp: wp_def lift_result_def fail_def intro!: step split: sum.split prod.split)
  qed
  then show ?thesis using assms(2) by (rule wp_Inr)
qed

section \<open>Properties\<close>

definition no_colon :: "string \<Rightarrow> bool" where
  "no_colon s \<longleftrightarrow> CHR '':'' \<notin> set s"

lemma used_egress_no_key:
  "\<forall>r \<in> set (fwd_EgressRules (fwd_Spec fwd)). no_colon (fr_TargetPort r) \<Longrightarrow>
     portKey a t \<notin> ran (map_of (genUsedPortsForEgress fwd))"
  using used_egress_ran [of fwd] colon_in_portKey [of a t]
  unfolding no_colon_def by (metis image_iff subsetD)

lemma egress_rule_target:
  "egress_rule_of L cr r \<Longrightarrow> \<exists>port \<in> set (es_Ports (es_Spec cr)). fr_TargetPort r = intOrString L (sp_TargetPort port)"
  unfolding egress_rule_of_def egressRule_def by (metis forwarder_rule.select_convs(3))

lemma ingress_rule_no_colon: "ingress_rule_of cr r \<Longrightarrow> CHR '':'' \<notin> set (fr_TargetPort r)"
proof -
  assume "ingress_rule_of cr r"
  then obtain gw src ip port p where "r = ingressRule cr gw src ip port p"
    unfolding ingress_rule_of_def by blast
  then have "fr_TargetPort r = Itoa (sint (sp_Port port))"
    by (simp only: ingressRule_def forwarder_rule.select_convs)
  then show ?thesis by simp
qed

text \<open>
  C4: Relay ports of egress rules. When the operator computes the egress rules of a Forwarder,
  two of the new rules share a relay port exactly when they are for the same source address
  and target port, so the traffic of different sources or ports is never mixed on the
  forwarder; every port is in the configured range; and none is a port of an old rule.
\<close>

theorem egress_relay_ports:
  assumes "\<And>n. range_order (ords n)"
    and "genForwarderEgressRules L ords cl cr (genUsedPortsForEgress fwd) w = (Inr (rules, m), w')"
    and "\<forall>r \<in> set (fwd_EgressRules (fwd_Spec fwd)). no_colon (fr_TargetPort r)"
    and "\<forall>port \<in> set (es_Ports (es_Spec cr)). no_colon (intOrString L (sp_TargetPort port))"
    and "r \<in> set rules" and "r' \<in> set rules"
  shows "(fr_RelayPort r = fr_RelayPort r' \<longleftrightarrow>
            fr_SourceIP r = fr_SourceIP r' \<and> fr_TargetPort r = fr_TargetPort r') \<and>
         fr_RelayPort r \<in> Itoa ` {MinPort..MaxPort} \<and>
         fr_RelayPort r \<notin> fr_RelayPort ` set (fwd_EgressRules (fwd_Spec fwd))"
proof -
  let ?m0 = "genUsedPortsForEgress fwd"
  from genForwarderEgressRules_inv [where ords = ords, OF assms(1,2)]
  have served: "served map_of ?m0 (fr_request ` set rules) m"
    and form: "\<forall>r \<in> set rules. egress_rule_of L cr r" by (simp_all add: egress_inv_def)
  have req: "(fr_SourceIP r, fr_TargetPort r, fr_RelayPort r) \<in> fr_request ` set rules"
    if "r \<in> set rules" for r using that by (force simp: fr_request_def)
  have colon: "CHR '':'' \<notin> set (fr_TargetPort r)" if "r \<in> set rules" for r
    using form assms(4) egress_rule_target [of L cr r] that by (auto simp: no_colon_def)
  have fresh: "portKey a t \<notin> ran (map_of ?m0)" for a t using assms(3) by (rule used_egress_no_key)
  then have no_old: "map_of ?m0 p \<noteq> Some (portKey a t)" for p a t by (auto simp: ran_def)
  from served_same_port [OF served] req assms(5,6)
  have "portKey (fr_SourceIP r) (fr_TargetPort r) = portKey (fr_SourceIP r') (fr_TargetPort r')"
    if "fr_RelayPort r = fr_RelayPort r'" using that by metis
  moreover have "fr_RelayPort r = fr_RelayPort r'"
    if "fr_SourceIP r = fr_SourceIP r'" "fr_TargetPort r = fr_TargetPort r'"
    using served_same_key [OF served req [OF assms(5)] req [OF assms(6)]] fresh that by simp
  moreover have "fr_RelayPort r \<notin> fr_RelayPort ` set (fwd_EgressRules (fwd_Spec fwd))"
    using served_old_port [OF served req [OF assms(5)]] no_old used_egress_dom [of fwd] by (metis domIff)
  ultimately show ?thesis
    using served_port_range [OF served req [OF assms(5)]] no_old colon assms(5,6)
    by (auto simp: portKey_inject)
qed

text \<open>
  C3: Relay ports of ingress rules. When the operator computes the ingress rules of a Forwarder
  from the Gateways it has listed, two new rules of the same gateway that share a relay port have
  the same source address and target port. A port that listed ingress rules of the gateway use
  is given to a new rule only if one of them already serves the same request on it. A request
  that no listed rule of the gateway serves gets a port of the configured range that none of
  them uses, the same port for all new rules with that request. Nothing is assumed about the
  listed rules.
\<close>

theorem ingress_relay_ports:
  assumes "\<And>n. range_order (ords n)"
    and "genForwarderIngressRules ords cl cr (genUsedPortsForIngress gws) w = (Inr (rules, m), w')"
    and "r \<in> set rules"
  shows "(\<forall>r' \<in> set rules. gwref_Name (fr_Gateway r') = gwref_Name (fr_Gateway r) \<and>
       fr_RelayPort r' = fr_RelayPort r \<longrightarrow>
       fr_SourceIP r' = fr_SourceIP r \<and> fr_TargetPort r' = fr_TargetPort r) \<and>
    ((\<exists>old \<in> set (ingress_rules_of (gwref_Name (fr_Gateway r)) gws). gr_RelayPort old = fr_RelayPort r) \<longrightarrow>
     (\<exists>old \<in> set (ingress_rules_of (gwref_Name (fr_Gateway r)) gws). gr_RelayPort old = fr_RelayPort r \<and>
        gr_SourceIP old @ '':'' @ gr_TargetPort old = fr_SourceIP r @ '':'' @ fr_TargetPort r)) \<and>
    ((\<forall>old \<in> set (ingress_rules_of (gwref_Name (fr_Gateway r)) gws).
        gr_SourceIP old @ '':'' @ gr_TargetPort old \<noteq> fr_SourceIP r @ '':'' @ fr_TargetPort r) \<longrightarrow>
     fr_RelayPort r \<in> Itoa ` {MinPort..MaxPort} \<and>
     fr_RelayPort r \<notin> gr_RelayPort ` set (ingress_rules_of (gwref_Name (fr_Gateway r)) gws) \<and>
     (\<forall>r' \<in> set rules. gwref_Name (fr_Gateway r') = gwref_Name (fr_Gateway r) \<and>
        fr_SourceIP r' = fr_SourceIP r \<and> fr_TargetPort r' = fr_TargetPort r \<longrightarrow>
        fr_RelayPort r' = fr_RelayPort r))"
proof -
  let ?g = "gwref_Name (fr_Gateway r)"
  let ?s0 = "genUsedPortsForIngress gws"
  let ?olds = "set (ingress_rules_of ?g gws)"
  let ?rs = "fr_request ` {r \<in> set rules. gwref_Name (fr_Gateway r) = ?g}"
  from genForwarderIngressRules_inv [where ords = ords, OF assms(1,2)]
  have served: "served (gw_ports ?g) ?s0 ?rs m"
    and form: "\<forall>r \<in> set rules. ingress_rule_of cr r" by (simp_all add: ingress_inv_def)
  have req: "(fr_SourceIP r', fr_TargetPort r', fr_RelayPort r') \<in> ?rs"
    if "r' \<in> set rules" "gwref_Name (fr_Gateway r') = ?g" for r'
    using that by (force simp: fr_request_def)
  note mine = req [OF assms(3) refl]
  have colon: "CHR '':'' \<notin> set (fr_TargetPort r')" if "r' \<in> set rules" for r'
    using ingress_rule_no_colon [of cr r'] form that by blast
  have "fr_SourceIP r' = fr_SourceIP r \<and> fr_TargetPort r' = fr_TargetPort r"
    if "r' \<in> set rules" "gwref_Name (fr_Gateway r') = ?g" "fr_RelayPort r' = fr_RelayPort r" for r'
    using served_same_port [OF served mine, of "fr_SourceIP r'" "fr_TargetPort r'"] req [of r'] colon assms(3) that
    by (simp add: portKey_inject)
  moreover have "\<exists>x \<in> ?olds. gr_RelayPort x = fr_RelayPort r \<and> gr_key x = portKey (fr_SourceIP r) (fr_TargetPort r)"
    if "old \<in> ?olds" "gr_RelayPort old = fr_RelayPort r" for old
  proof -
    have "fr_RelayPort r \<in> dom (gw_ports ?g ?s0)" unfolding used_ingress_dom using that by (metis image_eqI)
    then have "gw_ports ?g ?s0 (fr_RelayPort r) = Some (portKey (fr_SourceIP r) (fr_TargetPort r))"
      using served_old_port [OF served mine] by auto
    from used_ingress_Some [OF this] show ?thesis by blast
  qed
  moreover have "fr_RelayPort r \<in> Itoa ` {MinPort..MaxPort} \<and> fr_RelayPort r \<notin> gr_RelayPort ` ?olds \<and>
      (\<forall>r' \<in> set rules. gwref_Name (fr_Gateway r') = ?g \<and> fr_SourceIP r' = fr_SourceIP r \<and>
         fr_TargetPort r' = fr_TargetPort r \<longrightarrow> fr_RelayPort r' = fr_RelayPort r)"
    if new: "\<forall>old \<in> ?olds. gr_key old \<noteq> portKey (fr_SourceIP r) (fr_TargetPort r)"
  proof -
    have no: "gw_ports ?g ?s0 p \<noteq> Some (portKey (fr_SourceIP r) (fr_TargetPort r))" for p
      using new used_ingress_Some by metis
    then have "gw_ports ?g ?s0 (fr_RelayPort r) = None" using served_old_port [OF served mine] by blast
    then have "fr_RelayPort r \<notin> gr_RelayPort ` ?olds" unfolding used_ingress_dom [symmetric] by (simp add: domIff)
    moreover have "fr_RelayPort r \<in> Itoa ` {MinPort..MaxPort}"
      using served_port_range [OF served mine] no by simp
    moreover from no have "portKey (fr_SourceIP r) (fr_TargetPort r) \<notin> ran (gw_ports ?g ?s0)" by (simp add: ran_def)
    then have "fr_RelayPort r' = fr_RelayPort r"
      if "r' \<in> set rules" "gwref_Name (fr_Gateway r') = ?g" "fr_SourceIP r' = fr_SourceIP r"
        "fr_TargetPort r' = fr_TargetPort r" for r'
      using served_same_key [OF served mine req [OF that(1,2)]] that(3,4) by simp
    ultimately show ?thesis by simp
  qed
  ultimately show ?thesis unfolding gr_key_def portKey_def by blast
qed

section \<open>Completeness of the rules\<close>

text \<open>
  What the rules have to be, without their relay ports: every field is written out here and
  nothing of the code above is used. \<open>gateway_named\<close> is the Gateway of an IPv4 address.
\<close>

definition gateway_named :: "string \<Rightarrow> gateway_ref" where
  "gateway_named ip = \<lparr>gwref_Namespace = ''external-services'',
     gwref_Name = ''gwrule'' @ concat (map hex02 (the (ipv4_of ip)))\<rparr>"

definition source_key :: "source \<Rightarrow> nsname" where
  "source_key src =
     \<lparr>nn_Namespace = sref_Namespace (src_Service src), nn_Name = sref_Name (src_Service src)\<rparr>"

text \<open>One egress rule for each source, port of the ExternalService and endpoint address.\<close>

definition egress_spec ::
  "'c libs \<Rightarrow> external_service \<Rightarrow> (nsname \<Rightarrow> endpoints result) \<Rightarrow> forwarder_rule list" where
  "egress_spec L cr eps =
     [\<lparr>fr_Protocol = sp_Protocol port, fr_SourceIP = addr, fr_TargetPort = intOrString L (sp_TargetPort port),
       fr_DestinationIP = es_TargetIP (es_Spec cr), fr_DestinationPort = Itoa (sint (sp_Port port)),
       fr_Gateway = gateway_named (src_SourceIP src), fr_GatewayIP = src_SourceIP src, fr_RelayPort = []\<rparr>.
      src \<leftarrow> es_Sources (es_Spec cr), port \<leftarrow> es_Ports (es_Spec cr),
      addr \<leftarrow> (case eps (source_key src) of Inl e \<Rightarrow> [] | Inr ep \<Rightarrow> concat (ep_Subsets ep))]"

text \<open>One ingress rule for each source and port of the source's service, if it exists.\<close>

definition ingress_spec :: "external_service \<Rightarrow> (nsname \<Rightarrow> service result) \<Rightarrow> forwarder_rule list" where
  "ingress_spec cr svcs =
     [\<lparr>fr_Protocol = sp_Protocol port, fr_SourceIP = es_TargetIP (es_Spec cr),
       fr_TargetPort = Itoa (sint (sp_Port port)),
       fr_DestinationIP = svc_ClusterIP svc, fr_DestinationPort = Itoa (sint (sp_Port port)),
       fr_Gateway = gateway_named (src_SourceIP src), fr_GatewayIP = src_SourceIP src, fr_RelayPort = []\<rparr>.
      src \<leftarrow> es_Sources (es_Spec cr),
      svc \<leftarrow> (case svcs (source_key src) of Inl e \<Rightarrow> [] | Inr svc \<Rightarrow> [svc]), port \<leftarrow> svc_Ports svc]"

text \<open>A rule without its relay port.\<close>

definition strip :: "forwarder_rule \<Rightarrow> forwarder_rule" where
  "strip r = r\<lparr>fr_RelayPort := []\<rparr>"

lemma gateway_named:
  "GetRuleName ip = Inr n \<Longrightarrow> gateway_named ip = \<lparr>gwref_Namespace = ConnectorNamespace, gwref_Name = n\<rparr>"
  by (auto simp: gateway_named_def GetRuleName_Inr ConnectorNamespace_def gatewayRulePrefix_def)

definition rules_of_source ::
  "'c libs \<Rightarrow> external_service \<Rightarrow> gateway_ref \<Rightarrow> source \<Rightarrow> string list \<Rightarrow> forwarder_rule list" where
  "rules_of_source L cr gw src addrs =
     concat (map (\<lambda>port. map (\<lambda>ip. egressRule L cr gw src port ip []) addrs) (es_Ports (es_Spec cr)))"

lemma strip_rules [simp]:
  "strip (egressRule L cr gw src port ip p) = egressRule L cr gw src port ip []"
  "strip (ingressRule cr gw src ip port p) = ingressRule cr gw src ip port []"
  by (simp_all add: strip_def egressRule_def ingressRule_def)

lemma foldR_map:
  assumes "foldR f xs s = Inr t"
    and "\<And>x s t. f x s = Inr t \<Longrightarrow> h t = h s @ g x"
  shows "h t = h s @ concat (map g xs)"
  using assms(1)
proof (induction xs arbitrary: s)
  case Nil
  then show ?case by simp
next
  case (Cons x xs)
  then obtain u where "f x s = Inr u" and "foldR f xs u = Inr t" by (auto simp: rbind_Inr_iff)
  with Cons.IH assms(2) show ?case by simp
qed

lemma egressRulesOfSource_map:
  assumes "egressRulesOfSource L ords cr src gw addrs s = Inr t"
  shows "map strip (fst t) = map strip (fst s) @ rules_of_source L cr gw src addrs"
  unfolding rules_of_source_def
  using assms unfolding egressRulesOfSource_def
proof (rule foldR_map)
  fix port s t
  assume "foldR (\<lambda>srcIP (eRules, ePorts).
         rbind (genRelayPortForEgress (ords (length eRules)) srcIP
                  (intOrString L (sp_TargetPort port)) ePorts)
           (\<lambda>(rPort, ePorts). Inr (eRules @ [egressRule L cr gw src port srcIP rPort], ePorts)))
       addrs s = Inr t"
  then have "map strip (fst t) = map strip (fst s) @
      concat (map (\<lambda>ip. [egressRule L cr gw src port ip []]) addrs)"
    by (rule foldR_map) (auto simp: rbind_Inr_iff split: prod.splits)
  then show "map strip (fst t) =
      map strip (fst s) @ map (\<lambda>ip. egressRule L cr gw src port ip []) addrs"
    by (simp add: concat_map_singleton)
qed

lemma ingressRulesOfService_map:
  assumes "ingressRulesOfService ords cr src gw ports ip s = Inr t"
  shows "map strip (fst t) = map strip (fst s) @ map (\<lambda>port. ingressRule cr gw src ip port []) ports"
proof -
  have "map strip (fst t) = map strip (fst s) @ concat (map (\<lambda>port. [ingressRule cr gw src ip port []]) ports)"
    using assms unfolding ingressRulesOfService_def
    by (rule foldR_map) (auto simp: rbind_Inr_iff split: prod.splits)
  then show ?thesis by (simp add: concat_map_singleton)
qed

text \<open>A loop that keeps a view of the world and appends to the rules what this view says.\<close>

lemma foldE_appends:
  assumes "foldE f xs s w = (Inr t, w')"
    and "\<And>x s w t w'. x \<in> set xs \<Longrightarrow> f x s w = (Inr t, w') \<Longrightarrow> v w' = v w \<and> h t = h s @ g (v w) x"
  shows "v w' = v w \<and> h t = h s @ concat (map (g (v w)) xs)"
  using assms
proof (induction xs arbitrary: s w)
  case Nil
  then show ?case by (simp add: ret_Inr)
next
  case (Cons x xs)
  from Cons.prems(1) obtain u w1 where u: "f x s w = (Inr u, w1)" and rest: "foldE f xs u w1 = (Inr t, w')"
    by (auto simp: andThen_Inr)
  from Cons.prems(2) [OF _ u] have "v w1 = v w" "h u = h s @ g (v w) x" by simp_all
  with Cons.IH [OF rest Cons.prems(2)] show ?case by auto
qed

lemma genForwarderEgressRules_spec:
  assumes "answers ev (cl_Endpoints cl)"
    and "genForwarderEgressRules L ords cl cr m0 w = (Inr s, w')"
  shows "ev w' = ev w \<and> map strip (fst s) = egress_spec L cr (ev w)"
proof -
  let ?addrs = "\<lambda>eps src. case eps (source_key src) of Inl e \<Rightarrow> [] | Inr ep \<Rightarrow> concat (ep_Subsets ep)"
  have "ev w' = ev w \<and> map strip (fst s) = map strip (fst (([], m0) :: forwarder_rule list \<times> string gomap)) @
      concat (map (\<lambda>src. rules_of_source L cr (gateway_named (src_SourceIP src)) src (?addrs (ev w) src))
        (es_Sources (es_Spec cr)))"
    using assms(2) unfolding genForwarderEgressRules_def
  proof (rule foldE_appends)
    fix src w w' and s t :: "forwarder_rule list \<times> string gomap"
    assume run: "andThen (lift_result (GetRuleName (src_SourceIP src))) (\<lambda>gwName.
         andThen (getEndpointAddrs cl (sref_Namespace (src_Service src)) (sref_Name (src_Service src)))
           (\<lambda>addrs. lift_result (egressRulesOfSource L ords cr src
               \<lparr>gwref_Namespace = ConnectorNamespace, gwref_Name = gwName\<rparr> addrs s))) w = (Inr t, w')"
    then obtain n where n: "GetRuleName (src_SourceIP src) = Inr n" by (auto simp: io_eval split: sum.splits)
    obtain r v where get: "res_Get (cl_Endpoints cl) (source_key src) w = (r, v)" by fastforce
    from answersD [OF assms(1) get] have "r = ev w (source_key src)" "ev v = ev w" by simp_all
    with run get have "ev w' = ev w \<and> egressRulesOfSource L ords cr src
        \<lparr>gwref_Namespace = ConnectorNamespace, gwref_Name = n\<rparr> (?addrs (ev w) src) s = Inr t"
      by (auto simp: io_eval n getEndpointAddrs_def source_key_def split: sum.splits if_splits)
    with egressRulesOfSource_map [of L ords cr src "\<lparr>gwref_Namespace = ConnectorNamespace, gwref_Name = n\<rparr>"
        "?addrs (ev w) src" s t]
    show "ev w' = ev w \<and> map strip (fst t) = map strip (fst s) @
        rules_of_source L cr (gateway_named (src_SourceIP src)) src (?addrs (ev w) src)"
      by (simp add: gateway_named [OF n])
  qed
  then show ?thesis by (simp add: egress_spec_def rules_of_source_def egressRule_def)
qed

lemma genForwarderIngressRules_spec:
  assumes "answers sv (cl_Services cl)"
    and "genForwarderIngressRules ords cl cr m0 w = (Inr s, w')"
  shows "sv w' = sv w \<and> map strip (fst s) = ingress_spec cr (sv w)"
proof -
  let ?rules = "\<lambda>svcs src. concat (map (\<lambda>svc. map (\<lambda>port. ingressRule cr (gateway_named (src_SourceIP src)) src
      (svc_ClusterIP svc) port []) (svc_Ports svc)) (case svcs (source_key src) of Inl e \<Rightarrow> [] | Inr svc \<Rightarrow> [svc]))"
  have "sv w' = sv w \<and> map strip (fst s) = map strip (fst (([], m0) :: forwarder_rule list \<times> string gomap gomap)) @
      concat (map (?rules (sv w)) (es_Sources (es_Spec cr)))"
    using assms(2) unfolding genForwarderIngressRules_def
  proof (rule foldE_appends)
    fix src w w' and s t :: "forwarder_rule list \<times> string gomap gomap"
    assume run: "andThen (lift_result (GetRuleName (src_SourceIP src))) (\<lambda>gwName.
         andThen (attempt (res_Get (cl_Services cl)
             \<lparr>nn_Namespace = sref_Namespace (src_Service src), nn_Name = sref_Name (src_Service src)\<rparr>))
           (\<lambda>r. let rules = (\<lambda>ports clusterIP. lift_result (ingressRulesOfService ords cr src
                     \<lparr>gwref_Namespace = ConnectorNamespace, gwref_Name = gwName\<rparr> ports clusterIP s))
                in case r of
                     Inl e \<Rightarrow> if e \<noteq> NotFound then fail e else rules [] []
                   | Inr svc \<Rightarrow> rules (svc_Ports svc) (svc_ClusterIP svc))) w = (Inr t, w')"
    then obtain n where n: "GetRuleName (src_SourceIP src) = Inr n" by (auto simp: io_eval split: sum.splits)
    obtain r v where get: "res_Get (cl_Services cl) (source_key src) w = (r, v)" by fastforce
    from answersD [OF assms(1) get] have r: "r = sv w (source_key src)" "sv v = sv w" by simp_all
    let ?gw = "\<lparr>gwref_Namespace = ConnectorNamespace, gwref_Name = n\<rparr>"
    show "sv w' = sv w \<and> map strip (fst t) = map strip (fst s) @ ?rules (sv w) src"
    proof (cases r)
      case (Inl e)
      with r(1) have "sv w (source_key src) = Inl e" by simp
      moreover from run get Inl have "w' = v" "ingressRulesOfService ords cr src ?gw [] [] s = Inr t"
        by (auto simp: io_eval n source_key_def Let_def split: if_splits)
      ultimately show ?thesis using r(2) by (simp add: ingressRulesOfService_def)
    next
      case (Inr svc)
      with r(1) have "sv w (source_key src) = Inr svc" by simp
      moreover from run get Inr have "w' = v"
        and rules: "ingressRulesOfService ords cr src ?gw (svc_Ports svc) (svc_ClusterIP svc) s = Inr t"
        by (auto simp: io_eval n source_key_def Let_def)
      ultimately show ?thesis using r(2) ingressRulesOfService_map [OF rules] by (simp add: gateway_named [OF n])
    qed
  qed
  then show ?thesis by (simp add: ingress_spec_def ingressRule_def)
qed

text \<open>
  C14: The egress rules are complete. If reading Endpoints leaves the Endpoints as they are, a
  successful \<^verbatim>\<open>genForwarderEgressRules\<close> returns one rule for each source, each port of
  the external service and each endpoint address of the source's service, in that order: from
  the endpoint's address and the target port to the address and the port of the ExternalService,
  through the Gateway named after the source's address. \<open>egress_spec\<close> writes every field of
  these rules out but the relay port, which C4 is about.
\<close>

theorem egress_rules_complete:
  assumes "answers ev (cl_Endpoints cl)"
    and "genForwarderEgressRules L ords cl cr m0 w = (Inr (rules, m), w')"
  shows "ev w' = ev w \<and> map strip rules = egress_spec L cr (ev w)"
  using genForwarderEgressRules_spec [OF assms] by simp

section \<open>The unit test's run\<close>

definition test_egress_rule :: "string \<Rightarrow> forwarder_rule" where
  "test_egress_rule port =
     \<lparr>fr_Protocol = ''TCP'', fr_SourceIP = ''10.0.0.4'', fr_TargetPort = ''8080'',
      fr_DestinationIP = dotted 192 168 122 139, fr_DestinationPort = ''80'',
      fr_Gateway = \<lparr>gwref_Namespace = ''external-services'', gwref_Name = ''gwrulec0a87ac8''\<rparr>,
      fr_GatewayIP = dotted 192 168 122 200, fr_RelayPort = port\<rparr>"

definition test_ingress_rule :: "string \<Rightarrow> forwarder_rule" where
  "test_ingress_rule port =
     \<lparr>fr_Protocol = ''TCP'', fr_SourceIP = dotted 192 168 122 139, fr_TargetPort = ''8443'',
      fr_DestinationIP = ''10.20.0.8'', fr_DestinationPort = ''8443'',
      fr_Gateway = \<lparr>gwref_Namespace = ''external-services'', gwref_Name = ''gwrulec0a87ac8''\<rparr>,
      fr_GatewayIP = dotted 192 168 122 200, fr_RelayPort = port\<rparr>"

lemma test_endpoints:
  "mem_eps w = mem_eps test_world \<Longrightarrow>
     res_Get (cl_Endpoints (mem_client ip)) \<lparr>nn_Namespace = ''ns1'', nn_Name = ''svc1''\<rparr> w =
     (Inr test_ep, w)"
  by (simp add: mem_client_Get test_world_def test_ep_def)

lemma test_service:
  "mem_svcs w = mem_svcs test_world \<Longrightarrow>
     res_Get (cl_Services (mem_client ip)) \<lparr>nn_Namespace = ''ns1'', nn_Name = ''svc1''\<rparr> w =
     (Inr test_svc, w)"
  by (simp add: mem_client_Get test_world_def test_svc_def)

lemma free_port_empty: "free_port MinPort [] = Some ''2049''"
  by (subst free_port.simps) (simp add: MinPort_def MaxPort_def Itoa_evals)

lemma free_port_next: "free_port MinPort [(''2049'', v)] = Some ''2050''"
proof -
  have "free_port 2049 [(''2049'', v)] = free_port 2050 [(''2049'', v)]"
    by (subst free_port.simps) (simp add: MaxPort_def Itoa_eval)
  moreover have "free_port 2050 [(''2049'', v)] = Some ''2050''"
    by (subst free_port.simps) (simp add: MaxPort_def Itoa_eval)
  ultimately show ?thesis by (simp add: MinPort_def)
qed

lemma test_alloc_egress:
  "genRelayPortForEgress ord a t [] = Inr (''2049'', [(''2049'', portKey a t)])"
  if "range_order ord"
  by (simp add: egress_cases [OF that] free_port_empty gset_def)

lemma test_egress_run:
  "mem_eps w = mem_eps test_world \<Longrightarrow>
     genForwarderEgressRules map_libs (\<lambda>_. rev) (mem_client ip) test_es [] w =
     (Inr ([test_egress_rule ''2049''], [(''2049'', ''10.0.0.4:8080'')]), w)"
  by (simp add: genForwarderEgressRules_def getEndpointAddrs_def io_eval test_es_def test_rule_name
      test_endpoints test_ep_def egressRulesOfSource_def egressRule_def test_egress_rule_def
      test_alloc_egress portKey_def map_libs_def Itoa_evals ConnectorNamespace_def)

lemma test_ingress_run:
  "mem_svcs w = mem_svcs test_world \<Longrightarrow>
     genForwarderIngressRules (\<lambda>_. rev) (mem_client ip) test_es [] w =
     (Inr ([test_ingress_rule ''2049''],
       [(''gwrulec0a87ac8'', [(''2049'', portKey (dotted 192 168 122 139) ''8443'')])]), w)"
  by (simp add: genForwarderIngressRules_def io_eval test_es_def test_rule_name
      test_service test_svc_def ingressRulesOfService_def ingressRule_def test_ingress_rule_def
      ingress_as_egress gw_table_def test_alloc_egress gset_def Itoa_evals ConnectorNamespace_def)

text \<open>What the in-memory server answers.\<close>

definition mem_eps_view :: "'c mem \<Rightarrow> nsname \<Rightarrow> endpoints result" where
  "mem_eps_view w k = fst (res_Get (cl_Endpoints (mem_client [])) k w)"

definition mem_svcs_view :: "'c mem \<Rightarrow> nsname \<Rightarrow> service result" where
  "mem_svcs_view w k = fst (res_Get (cl_Services (mem_client [])) k w)"

lemma mem_answers:
  "answers mem_eps_view (cl_Endpoints (mem_client ip))" "answers mem_svcs_view (cl_Services (mem_client ip))"
  by (simp_all add: answers_def mem_eps_view_def mem_svcs_view_def mem_client_Get)

theorem egress_rules_complete_witness:
  "map strip [test_egress_rule ''2049''] = egress_spec map_libs test_es (mem_eps_view test_world) \<and>
   fr_DestinationIP (hd (egress_spec map_libs test_es (mem_eps_view test_world))) = dotted 192 168 122 139"
proof -
  have "map strip [test_egress_rule ''2049''] = egress_spec map_libs test_es (mem_eps_view test_world)"
    using egress_rules_complete [OF mem_answers(1) test_egress_run [OF refl, of "[]"]] by simp
  moreover have "fr_DestinationIP (hd (map strip [test_egress_rule ''2049''])) = dotted 192 168 122 139"
    by (simp add: strip_def test_egress_rule_def)
  ultimately show ?thesis by metis
qed

theorem egress_relay_ports_witness:
  "fr_RelayPort (test_egress_rule ''2050'') \<in> Itoa ` {MinPort..MaxPort} \<and>
   fr_RelayPort (test_egress_rule ''2050'') \<notin>
     fr_RelayPort ` set (fwd_EgressRules (fwd_Spec sample_forwarder))"
proof -
  have used: "genUsedPortsForEgress sample_forwarder = [(''2049'', ''8080'')]"
    by (simp add: genUsedPortsForEgress_def sample_forwarder_def sample_egress_rule_def gset_def)
  have alloc: "genRelayPortForEgress rev a t [(''2049'', ''8080'')] =
      Inr (''2050'', [(''2049'', ''8080''), (''2050'', portKey a t)])" for a t
  proof -
    have "CHR '':'' \<notin> set ''8080''" by simp
    then have "portKey a t \<noteq> ''8080''" using colon_in_portKey [of a t] by metis
    then show ?thesis by (simp add: egress_cases free_port_next gset_def ran_def)
  qed
  have run: "genForwarderEgressRules map_libs (\<lambda>_. rev) (mem_client []) test_es
      (genUsedPortsForEgress sample_forwarder) test_world =
     (Inr ([test_egress_rule ''2050''], [(''2049'', ''8080''), (''2050'', ''10.0.0.4:8080'')]), test_world)"
    by (simp add: genForwarderEgressRules_def getEndpointAddrs_def io_eval test_es_def test_rule_name
        test_endpoints test_ep_def egressRulesOfSource_def egressRule_def test_egress_rule_def
        used alloc portKey_def map_libs_def Itoa_evals ConnectorNamespace_def)
  have "\<forall>r \<in> set (fwd_EgressRules (fwd_Spec sample_forwarder)). no_colon (fr_TargetPort r)"
    by (simp add: sample_forwarder_def sample_egress_rule_def no_colon_def)
  moreover have "\<forall>port \<in> set (es_Ports (es_Spec test_es)). no_colon (intOrString map_libs (sp_TargetPort port))"
    by (simp add: test_es_def map_libs_def Itoa_evals no_colon_def)
  moreover have "test_egress_rule ''2050'' \<in> set [test_egress_rule ''2050'']" by simp
  ultimately show ?thesis using egress_relay_ports [OF range_order_rev run] by blast
qed

theorem ingress_relay_ports_witness:
  "\<exists>m. genForwarderIngressRules (\<lambda>_. rev) (mem_client []) test_es
       (genUsedPortsForIngress [sample_gateway\<lparr>gw_Spec := (gw_Spec sample_gateway)\<lparr>gw_IngressRules :=
          [sample_ingress_rule\<lparr>gr_TargetPort := ''22''\<rparr>]\<rparr>\<rparr>]) test_world =
       (Inr ([test_ingress_rule ''2050''], m), test_world) \<and>
     fr_RelayPort (test_ingress_rule ''2050'') \<noteq> gr_RelayPort sample_ingress_rule"
proof -
  let ?old = "sample_ingress_rule\<lparr>gr_TargetPort := ''22''\<rparr>"
  let ?gw = "sample_gateway\<lparr>gw_Spec := (gw_Spec sample_gateway)\<lparr>gw_IngressRules := [?old]\<rparr>\<rparr>"
  let ?r = "test_ingress_rule ''2050''"
  have addr: "dotted 192 168 122 139 = ''192.168.122.139''" by code_simp
  have old: "gr_RelayPort ?old = ''2049''" "gr_SourceIP ?old = ''192.168.122.139''" "gr_TargetPort ?old = ''22''"
    by (simp_all add: sample_ingress_rule_def)
  have used: "genUsedPortsForIngress [?gw] = [(''gwrulec0a87ac8'', [(''2049'', ''192.168.122.139:22'')])]"
    by (simp add: genUsedPortsForIngress_def sample_gateway_def old gset_def)
  have alloc: "genRelayPortForIngress rev (dotted 192 168 122 139) ''8443'' ''gwrulec0a87ac8''
      [(''gwrulec0a87ac8'', [(''2049'', ''192.168.122.139:22'')])] =
      Inr (''2050'', [(''gwrulec0a87ac8'', [(''2049'', ''192.168.122.139:22''), (''2050'', ''192.168.122.139:8443'')])])"
    by (simp add: genRelayPortForIngress_def grange_def gkeys_def addr free_port_next gset_def)
  have run: "genForwarderIngressRules (\<lambda>_. rev) (mem_client []) test_es (genUsedPortsForIngress [?gw]) test_world =
      (Inr ([?r], [(''gwrulec0a87ac8'', [(''2049'', ''192.168.122.139:22''), (''2050'', ''192.168.122.139:8443'')])]), test_world)"
    by (simp add: genForwarderIngressRules_def io_eval test_es_def test_rule_name test_service test_svc_def
        ingressRulesOfService_def ingressRule_def test_ingress_rule_def used alloc Itoa_evals
        ConnectorNamespace_def)
  have olds: "ingress_rules_of (gwref_Name (fr_Gateway ?r)) [?gw] = [?old]"
    by (simp add: ingress_rules_of_def sample_gateway_def test_ingress_rule_def)
  have "fr_RelayPort ?r \<notin> gr_RelayPort ` set (ingress_rules_of (gwref_Name (fr_Gateway ?r)) [?gw])"
    using ingress_relay_ports [OF range_order_rev run, of ?r] unfolding olds
    by (simp add: old) (simp add: test_ingress_rule_def addr)
  then have "fr_RelayPort ?r \<noteq> gr_RelayPort sample_ingress_rule" unfolding olds by simp
  with run show ?thesis by blast
qed

end
