(* ===== verification/GatewayRules.thy ===== *)
theory GatewayRules
  imports OperatorRules
begin

text \<open>
  How the operator computes the rules of a Gateway
  (\<^verbatim>\<open>pkg/controller/externalservice/reconciler.go\<close>): the rules of all Forwarders
  that name it, and the gateways that a list of forwarder rules refers to.
\<close>

section \<open>The code\<close>

definition forGateway :: "'c gateway \<Rightarrow> forwarder_rule \<Rightarrow> bool" where
  "forGateway gw rule \<longleftrightarrow>
     \<not> (gwref_Namespace (fr_Gateway rule) \<noteq> m_Namespace (gw_Meta gw) \<or>
        gwref_Name (fr_Gateway rule) \<noteq> m_Name (gw_Meta gw))"

definition gatewayRule :: "'c forwarder \<Rightarrow> forwarder_rule \<Rightarrow> gateway_rule" where
  "gatewayRule fwd rule =
     \<lparr>gr_Protocol = fr_Protocol rule,
      gr_SourceIP = fr_SourceIP rule,
      gr_TargetPort = fr_TargetPort rule,
      gr_DestinationPort = fr_DestinationPort rule,
      gr_DestinationIP = fr_DestinationIP rule,
      gr_Forwarder = \<lparr>fwdref_Namespace = m_Namespace (fwd_Meta fwd), fwdref_Name = m_Name (fwd_Meta fwd)\<rparr>,
      gr_ForwarderIP = fwd_ForwarderIP (fwd_Spec fwd),
      gr_RelayPort = fr_RelayPort rule\<rparr>"

definition genGatewayEgressRules :: "'c forwarder list \<Rightarrow> 'c gateway \<Rightarrow> gateway_rule list" where
  "genGatewayEgressRules fwds gw =
     concat (map (\<lambda>fwd. map (gatewayRule fwd)
       (filter (forGateway gw) (fwd_EgressRules (fwd_Spec fwd)))) fwds)"

definition genGatewayIngressRules :: "'c forwarder list \<Rightarrow> 'c gateway \<Rightarrow> gateway_rule list" where
  "genGatewayIngressRules fwds gw =
     concat (map (\<lambda>fwd. map (gatewayRule fwd)
       (filter (forGateway gw) (fwd_IngressRules (fwd_Spec fwd)))) fwds)"

definition getUniqueGatwey :: "forwarder_rule list \<Rightarrow> nsname gomap" where
  "getUniqueGatwey rules =
     fold (\<lambda>rule nMap.
         (let val = fr_GatewayIP rule
          in if map_of nMap val \<noteq> None then nMap
             else gset val \<lparr>nn_Namespace = gwref_Namespace (fr_Gateway rule),
                            nn_Name = gwref_Name (fr_Gateway rule)\<rparr> nMap))
       rules []"

section \<open>Gateway rules\<close>

definition rule_gateway :: "forwarder_rule \<Rightarrow> nsname" where
  "rule_gateway r =
     \<lparr>nn_Namespace = gwref_Namespace (fr_Gateway r), nn_Name = gwref_Name (fr_Gateway r)\<rparr>"

lemma forGateway_iff: "forGateway gw r \<longleftrightarrow> rule_gateway r = gw_key gw"
  by (auto simp: forGateway_def rule_gateway_def gw_key_def meta_key_def)

lemma gateway_rules_cong:
  "gw_key gw = gw_key gw' \<Longrightarrow> genGatewayEgressRules fwds gw = genGatewayEgressRules fwds gw'"
  "gw_key gw = gw_key gw' \<Longrightarrow> genGatewayIngressRules fwds gw = genGatewayIngressRules fwds gw'"
  by (simp_all add: genGatewayEgressRules_def genGatewayIngressRules_def forGateway_iff [abs_def])


text \<open>Grouping a list by distinct keys keeps the elements whose key is listed, each once.\<close>

lemma mset_group:
  assumes "distinct ks"
  shows "mset (concat (map (\<lambda>k. filter (\<lambda>x. f x = k) xs) ks)) = mset (filter (\<lambda>x. f x \<in> set ks) xs)"
  using assms
proof (induction ks)
  case Nil
  then show ?case by simp
next
  case (Cons k ks)
  have "mset (filter (\<lambda>x. f x = k) xs) + mset (filter (\<lambda>x. f x \<in> set ks) xs) =
      mset (filter (\<lambda>x. f x \<in> set (k # ks)) xs)"
    using Cons.prems by (induction xs) auto
  with Cons show ?case by simp
qed

definition all_rules :: "('c forwarder \<Rightarrow> forwarder_rule list) \<Rightarrow> 'c forwarder list
    \<Rightarrow> ('c forwarder \<times> forwarder_rule) list" where
  "all_rules sel fwds = concat (map (\<lambda>fwd. map (Pair fwd) (sel fwd)) fwds)"

lemma gen_as_filter:
  "concat (map (\<lambda>fwd. map (gatewayRule fwd) (filter (forGateway gw) (sel fwd))) fwds) =
     map (case_prod gatewayRule) (filter (\<lambda>x. rule_gateway (snd x) = gw_key gw) (all_rules sel fwds))"
  unfolding all_rules_def
  by (induction fwds) (simp_all add: forGateway_iff [abs_def] filter_map comp_def)

lemma mset_gen_partition:
  assumes "distinct (map gw_key gws)"
  shows "mset (concat (map (\<lambda>gw. concat (map (\<lambda>fwd. map (gatewayRule fwd)
           (filter (forGateway gw) (sel fwd))) fwds)) gws)) =
         image_mset (case_prod gatewayRule)
           (filter_mset (\<lambda>x. rule_gateway (snd x) \<in> gw_key ` set gws) (mset (all_rules sel fwds)))"
proof -
  let ?pick = "\<lambda>k. filter (\<lambda>x. rule_gateway (snd x) = k) (all_rules sel fwds)"
  have "mset (concat (map (?pick \<circ> gw_key) gws)) =
      mset (filter (\<lambda>x. rule_gateway (snd x) \<in> set (map gw_key gws)) (all_rules sel fwds))"
    unfolding map_map [symmetric] by (rule mset_group [OF assms])
  moreover have "concat (map (\<lambda>gw. map (case_prod gatewayRule) (?pick (gw_key gw))) gws) =
      map (case_prod gatewayRule) (concat (map (?pick \<circ> gw_key) gws))"
    by (simp add: map_concat comp_def)
  ultimately show ?thesis
    unfolding gen_as_filter by (simp add: mset_filter)
qed

text \<open>
  C13: Every rule reaches exactly the gateway it names. Over gateways with different keys, the
  generated egress rules are, counted with multiplicity, the rules of all forwarders that name
  one of these gateways, each translated once; the same holds for ingress rules. So no rule is
  lost, duplicated or given to another gateway.
\<close>

theorem gateway_rules_partition:
  assumes "distinct (map gw_key gws)"
  shows "mset (concat (map (genGatewayEgressRules fwds) gws)) =
           image_mset (case_prod gatewayRule) (filter_mset (\<lambda>x. rule_gateway (snd x) \<in> gw_key ` set gws)
             (mset (all_rules (\<lambda>fwd. fwd_EgressRules (fwd_Spec fwd)) fwds))) \<and>
         mset (concat (map (genGatewayIngressRules fwds) gws)) =
           image_mset (case_prod gatewayRule) (filter_mset (\<lambda>x. rule_gateway (snd x) \<in> gw_key ` set gws)
             (mset (all_rules (\<lambda>fwd. fwd_IngressRules (fwd_Spec fwd)) fwds)))"
  unfolding genGatewayEgressRules_def [abs_def] genGatewayIngressRules_def [abs_def]
  by (intro conjI mset_gen_partition [OF assms])

section \<open>The gateways of a list of rules\<close>

definition unique_step :: "forwarder_rule \<Rightarrow> nsname gomap \<Rightarrow> nsname gomap" where
  "unique_step rule nMap =
     (if map_of nMap (fr_GatewayIP rule) \<noteq> None then nMap
      else gset (fr_GatewayIP rule) (rule_gateway rule) nMap)"

lemma getUniqueGatwey_fold: "getUniqueGatwey rules = fold unique_step rules []"
  by (simp add: getUniqueGatwey_def unique_step_def [abs_def] rule_gateway_def Let_def
      cong del: if_weak_cong)

lemma unique_fold:
  "gomap_ok m \<Longrightarrow> gomap_ok (fold unique_step rules m)"
  "map_of (fold unique_step rules m) ip =
     (case map_of m ip of Some n \<Rightarrow> Some n
      | None \<Rightarrow> map_option rule_gateway (find (\<lambda>r. fr_GatewayIP r = ip) rules))"
  by (induction rules arbitrary: m) (auto simp: unique_step_def split: option.split)

lemma getUniqueGatwey_ok: "gomap_ok (getUniqueGatwey rules)"
  by (simp add: getUniqueGatwey_fold unique_fold)

lemma map_of_getUniqueGatwey:
  "map_of (getUniqueGatwey rules) ip =
     map_option rule_gateway (find (\<lambda>r. fr_GatewayIP r = ip) rules)"
  by (simp add: getUniqueGatwey_fold unique_fold(2))

lemma getUniqueGatwey_Some:
  "map_of (getUniqueGatwey rules) ip = Some n \<Longrightarrow>
     \<exists>r \<in> set rules. fr_GatewayIP r = ip \<and> rule_gateway r = n"
  by (auto simp: map_of_getUniqueGatwey find_Some_iff)

lemma dom_getUniqueGatwey: "dom (map_of (getUniqueGatwey rules)) = fr_GatewayIP ` set rules"
  by (force simp: dom_def map_of_getUniqueGatwey find_None_iff find_None_iff2 image_iff)


lemma ingress_rule_gateway:
  "ingress_rule_of cr r \<Longrightarrow> \<exists>name. GetRuleName (fr_GatewayIP r) = Inr name \<and>
     rule_gateway r = \<lparr>nn_Namespace = ConnectorNamespace, nn_Name = name\<rparr>"
  unfolding ingress_rule_of_def ingressRule_def rule_gateway_def
  by (metis forwarder_rule.select_convs(6,7) gateway_ref.select_convs)

text \<open>
  The gateways the operator updates. From the ingress rules it generated, the operator
  finds one entry for each gateway address that occurs in them, and the Gateway resource of
  the entry is the one named after that address, in the connector's namespace.
\<close>

theorem gateways_of_ingress_rules:
  assumes "\<And>n. range_order (ords n)"
    and "genForwarderIngressRules ords cl cr iPorts w = (Inr (rules, m), w')"
  shows "gomap_ok (getUniqueGatwey rules) \<and>
    (map_of (getUniqueGatwey rules) ip = Some n \<longleftrightarrow>
       ip \<in> fr_GatewayIP ` set rules \<and>
       (\<exists>name. GetRuleName ip = Inr name \<and> n = \<lparr>nn_Namespace = ConnectorNamespace, nn_Name = name\<rparr>))"
proof -
  from genForwarderIngressRules_inv [where ords = ords, OF assms]
  have form: "\<forall>r \<in> set rules. ingress_rule_of cr r" by (simp add: ingress_inv_def)
  have named: "\<exists>name. GetRuleName ip = Inr name \<and> n = \<lparr>nn_Namespace = ConnectorNamespace, nn_Name = name\<rparr>"
    if "map_of (getUniqueGatwey rules) ip = Some n" for n
    using getUniqueGatwey_Some [OF that] form ingress_rule_gateway by metis
  have "ip \<in> fr_GatewayIP ` set rules \<longleftrightarrow> (\<exists>n. map_of (getUniqueGatwey rules) ip = Some n)"
    using dom_getUniqueGatwey [of rules] by (auto simp: dom_def)
  with named show ?thesis using getUniqueGatwey_ok by (metis old.sum.inject(2))
qed

section \<open>Two ExternalServices on one gateway\<close>






section \<open>Witnesses\<close>

definition test_forwarder :: "unit forwarder" where
  "test_forwarder =
     \<lparr>fwd_Meta = meta ''external-services'' ''es1'',
      fwd_Spec = \<lparr>fwd_EgressRules = [test_egress_rule ''2049''],
                  fwd_IngressRules = [test_ingress_rule ''2049''], fwd_ForwarderIP = ''10.0.0.3''\<rparr>,
      fwd_Status = \<lparr>fwd_Conditions = (), fwd_RuleGeneration = 0, fwd_SyncGeneration = 0\<rparr>\<rparr>"

definition empty_gateway :: "string \<Rightarrow> unit gateway" where
  "empty_gateway name =
     \<lparr>gw_Meta = meta ''external-services'' name,
      gw_Spec = \<lparr>gw_EgressRules = [], gw_IngressRules = [], gw_GatewayIP = []\<rparr>,
      gw_Status = \<lparr>gw_Conditions = (), gw_RuleGeneration = 0, gw_SyncGeneration = 0\<rparr>\<rparr>"

theorem gateway_rules_partition_witness:
  "mset (concat (map (genGatewayEgressRules [test_forwarder])
      [empty_gateway ''gwrulec0a87ac8'', empty_gateway ''gwrulec0a87ac9''])) =
     {# gatewayRule test_forwarder (test_egress_rule ''2049'') #}"
proof -
  have "distinct (map gw_key [empty_gateway ''gwrulec0a87ac8'', empty_gateway ''gwrulec0a87ac9''])"
    by (simp add: empty_gateway_def gw_key_def)
  from gateway_rules_partition [OF this, of "[test_forwarder]"] show ?thesis
    by (simp add: all_rules_def test_forwarder_def test_egress_rule_def rule_gateway_def
        empty_gateway_def gw_key_def)
qed

theorem gateways_of_ingress_rules_witness:
  "map_of (getUniqueGatwey [test_ingress_rule ''2049'']) (dotted 192 168 122 200) =
     Some \<lparr>nn_Namespace = ''external-services'', nn_Name = ''gwrulec0a87ac8''\<rparr>"
proof -
  have "dotted 192 168 122 200 \<in> fr_GatewayIP ` set [test_ingress_rule ''2049'']"
    by (simp add: test_ingress_rule_def)
  with gateways_of_ingress_rules [where ords = "\<lambda>_. rev", OF range_order_rev
      test_ingress_run [OF refl], of "dotted 192 168 122 200"] test_rule_name
  show ?thesis by (simp add: ConnectorNamespace_def)
qed





end
