(* ===== verification/OperatorSpecs.thy ===== *)
theory OperatorSpecs
  imports GatewayRules
begin

text \<open>
  \<^verbatim>\<open>pkg/controller/externalservice/resource.go\<close> (the forwarder pod and service the
  operator creates) and the watches of
  \<^verbatim>\<open>pkg/controller/externalservice/externalservice_controller.go\<close>, which map a change
  of another object back to the ExternalServices to reconcile.
\<close>

section \<open>Created objects\<close>

definition ExternalServiceNamespaceLabel :: string where
  "ExternalServiceNamespaceLabel = ''externalservice.submariner.io/namespace''"

definition ExternalServiceNameLabel :: string where
  "ExternalServiceNameLabel = ''externalservice.submariner.io/name''"

definition ExternalServiceFinalizerName :: string where
  "ExternalServiceFinalizerName = ''finalizer.externalservice.submariner.io''"

definition genForwardPodSpec :: "external_service \<Rightarrow> pod" where
  "genForwardPodSpec cr =
     (let labels = [(ExternalServiceNamespaceLabel, m_Namespace (es_Meta cr)),
                    (ExternalServiceNameLabel, m_Name (es_Meta cr))];
          env = [\<lparr>ev_Name = ''FORWARDER_NAMESPACE'', ev_Value = ConnectorNamespace\<rparr>,
                 \<lparr>ev_Name = ''FORWARDER_NAME'', ev_Value = m_Name (es_Meta cr)\<rparr>];
          volumes = [\<lparr>vol_Name = ''ssh-key-volume'', vol_SecretName = ''my-ssh-key'',
                      vol_DefaultMode = 256\<rparr>];
          volumeMounts = [\<lparr>vm_Name = ''ssh-key-volume'', vm_MountPath = ''/etc/ssh-key'',
                           vm_ReadOnly = True\<rparr>]
      in \<lparr>pod_Meta = (meta ConnectorNamespace (m_Name (es_Meta cr)))\<lparr>m_Labels := labels\<rparr>,
          pod_ServiceAccountName = ''k8s-ext-connector'',
          pod_Containers =
            [\<lparr>ct_Name = ''forwarder'',
              ct_Image = ''docker.io/mkimuram/forwarder:v0.3.0'',
              ct_Privileged = True,
              ct_Env = env,
              ct_VolumeMounts = volumeMounts\<rparr>],
          pod_Volumes = volumes,
          pod_PodIP = []\<rparr>)"

definition genForwardServiceSpec :: "external_service \<Rightarrow> service" where
  "genForwardServiceSpec cr =
     (let labels = [(ExternalServiceNamespaceLabel, m_Namespace (es_Meta cr)),
                    (ExternalServiceNameLabel, m_Name (es_Meta cr))];
          ports = fold (\<lambda>port ports. ports @ [port]) (es_Ports (es_Spec cr)) []
      in \<lparr>svc_Meta = (meta ConnectorNamespace (m_Name (es_Meta cr)))\<lparr>m_Labels := labels\<rparr>,
          svc_Ports = ports,
          svc_ClusterIP = [],
          svc_Selector = labels\<rparr>)"

section \<open>Watches\<close>

definition podRequests :: "pod \<Rightarrow> nsname list" where
  "podRequests pod =
     (if m_Namespace (pod_Meta pod) \<noteq> ConnectorNamespace then []
      else case (map_of (m_Labels (pod_Meta pod)) ExternalServiceNamespaceLabel,
                 map_of (m_Labels (pod_Meta pod)) ExternalServiceNameLabel) of
             (Some namespace, Some name) \<Rightarrow> [\<lparr>nn_Namespace = namespace, nn_Name = name\<rparr>]
           | _ \<Rightarrow> [])"

definition serviceRequests :: "service \<Rightarrow> nsname list" where
  "serviceRequests svc =
     (if m_Namespace (svc_Meta svc) \<noteq> ConnectorNamespace then []
      else case (map_of (m_Labels (svc_Meta svc)) ExternalServiceNamespaceLabel,
                 map_of (m_Labels (svc_Meta svc)) ExternalServiceNameLabel) of
             (Some namespace, Some name) \<Rightarrow> [\<lparr>nn_Namespace = namespace, nn_Name = name\<rparr>]
           | _ \<Rightarrow> [])"

text \<open>An error of the list call yields no request; the error itself is dropped.\<close>

definition endpointsRequests :: "('w, 'c) client \<Rightarrow> endpoints \<Rightarrow> ('w, nsname list) io" where
  "endpointsRequests cl ep =
     andThen (attempt (res_List (cl_ExternalServices cl))) (\<lambda>r. case r of
         Inl _ \<Rightarrow> ret []
       | Inr items \<Rightarrow> ret (concat (map (\<lambda>es.
           concat (map (\<lambda>src.
               if m_Namespace (ep_Meta ep) = sref_Namespace (src_Service src) \<and>
                  m_Name (ep_Meta ep) = sref_Name (src_Service src)
               then [\<lparr>nn_Namespace = m_Namespace (es_Meta es), nn_Name = m_Name (es_Meta es)\<rparr>]
               else [])
             (es_Sources (es_Spec es)))) items)))"

section \<open>The contract of a child object\<close>

text \<open>
  An object the operator creates for an ExternalService carries labels from which the watch of
  its kind computes requests. The contract: the watch maps every created object back to its
  owner and ignores objects outside the connector's namespace; the object has the owner's name,
  in that namespace.
\<close>

locale child_object =
  fixes build :: "external_service \<Rightarrow> 'o"
    and obj_meta :: "'o \<Rightarrow> object_meta"
    and requests :: "'o \<Rightarrow> nsname list"
  assumes build_key:
      "meta_key (obj_meta (build es)) =
         \<lparr>nn_Namespace = ConnectorNamespace, nn_Name = m_Name (es_Meta es)\<rparr>"
    and build_requests: "requests (build es) = [meta_key (es_Meta es)]"
    and foreign: "m_Namespace (obj_meta x) \<noteq> ConnectorNamespace \<Longrightarrow> requests x = []"
    and by_meta: "obj_meta x = obj_meta y \<Longrightarrow> requests x = requests y"
begin

text \<open>Only metadata counts: the request survives any change of spec or status.\<close>

lemma owner_of:
  "obj_meta x = obj_meta (build es) \<Longrightarrow> requests x = [meta_key (es_Meta es)]"
  using by_meta build_requests by metis

text \<open>Two owners with the same name share one child; its labels name only one of them.\<close>

lemma shared_child:
  "m_Name (es_Meta es) = m_Name (es_Meta es') \<Longrightarrow>
     meta_key (obj_meta (build es)) = meta_key (obj_meta (build es'))"
  by (simp add: build_key)

lemma owner_unique:
  "obj_meta (build es) = obj_meta (build es') \<Longrightarrow> meta_key (es_Meta es) = meta_key (es_Meta es')"
  using owner_of [of "build es" es'] build_requests [of es] by simp

end

lemma labels_distinct [simp]: "ExternalServiceNamespaceLabel \<noteq> ExternalServiceNameLabel"
  by (simp add: ExternalServiceNamespaceLabel_def ExternalServiceNameLabel_def)

interpretation forwarder_pod: child_object genForwardPodSpec pod_Meta podRequests
  by unfold_locales
     (auto simp: genForwardPodSpec_def podRequests_def meta_def meta_key_def Let_def
        labels_distinct [symmetric] simp del: labels_distinct)

interpretation forwarder_service: child_object genForwardServiceSpec svc_Meta serviceRequests
  by unfold_locales
     (auto simp: genForwardServiceSpec_def serviceRequests_def meta_def meta_key_def Let_def
        labels_distinct [symmetric] simp del: labels_distinct)

section \<open>Properties\<close>

text \<open>
  Child objects lead back to their owner. Whatever happens to the spec or status of the
  pod and the service created for an ExternalService, as long as their metadata is kept, a
  change of either enqueues exactly that ExternalService; a pod or service outside the
  connector's namespace enqueues nothing.
\<close>

theorem children_enqueue_owner:
  "podRequests ((genForwardPodSpec es)\<lparr>pod_PodIP := ip\<rparr>) = [meta_key (es_Meta es)] \<and>
   serviceRequests ((genForwardServiceSpec es)\<lparr>svc_ClusterIP := cip, svc_Ports := ports\<rparr>) =
     [meta_key (es_Meta es)] \<and>
   set (podRequests pod) \<subseteq> {k. m_Namespace (pod_Meta pod) = ConnectorNamespace} \<and>
   set (serviceRequests svc) \<subseteq> {k. m_Namespace (svc_Meta svc) = ConnectorNamespace}"
proof -
  have "podRequests pod = []" if "m_Namespace (pod_Meta pod) \<noteq> ConnectorNamespace"
    using that by (rule forwarder_pod.foreign)
  moreover have "serviceRequests svc = []" if "m_Namespace (svc_Meta svc) \<noteq> ConnectorNamespace"
    using that by (rule forwarder_service.foreign)
  ultimately show ?thesis by (auto simp: forwarder_pod.owner_of forwarder_service.owner_of)
qed

text \<open>
  Endpoints lead to every interested ExternalService. When the list call answers, a change
  of an Endpoints object enqueues exactly the ExternalServices that have it as the service of
  one of their sources; when the list call fails nothing is enqueued and no error is reported.
\<close>

theorem endpoints_enqueue_sources:
  assumes "res_List (cl_ExternalServices cl) w = (r, w')"
  shows "\<exists>reqs. endpointsRequests cl ep w = (Inr reqs, w') \<and>
    set reqs = (case r of Inl _ \<Rightarrow> {}
      | Inr items \<Rightarrow> (\<lambda>es. meta_key (es_Meta es)) ` {es \<in> set items.
          \<exists>src \<in> set (es_Sources (es_Spec es)).
            meta_key (ep_Meta ep) = \<lparr>nn_Namespace = sref_Namespace (src_Service src),
                                     nn_Name = sref_Name (src_Service src)\<rparr>})"
  by (auto simp: endpointsRequests_def io_eval assms meta_key_def image_iff split: sum.split)

theorem endpoints_enqueue_sources_witness:
  "\<exists>reqs. endpointsRequests (mem_client []) test_ep test_world = (Inr reqs, test_world) \<and>
     set reqs = {\<lparr>nn_Namespace = ''ns1'', nn_Name = ''es1''\<rparr>}"
proof -
  have "res_List (cl_ExternalServices (mem_client [])) test_world = (Inr [test_es], test_world)"
    by (simp add: mem_client_def mem_resource_def test_world_def)
  moreover have "(\<lambda>es. meta_key (es_Meta es)) ` {es \<in> set [test_es].
          \<exists>src \<in> set (es_Sources (es_Spec es)).
            meta_key (ep_Meta test_ep) = \<lparr>nn_Namespace = sref_Namespace (src_Service src),
                                          nn_Name = sref_Name (src_Service src)\<rparr>} =
      {\<lparr>nn_Namespace = ''ns1'', nn_Name = ''es1''\<rparr>}"
    by (auto simp: test_es_def test_ep_def)
  ultimately show ?thesis using endpoints_enqueue_sources [of "mem_client []" test_world _ _ test_ep]
    by force
qed

section \<open>The forwarder service\<close>

definition selects :: "service \<Rightarrow> pod \<Rightarrow> bool" where
  "selects svc pod \<longleftrightarrow>
     m_Namespace (svc_Meta svc) = m_Namespace (pod_Meta pod) \<and>
     (\<forall>(k, v) \<in> set (svc_Selector svc). map_of (m_Labels (pod_Meta pod)) k = Some v)"

text \<open>
  The forwarder service selects the forwarder pod. The service has the ports of the
  external service, in order, and it selects the pod created for an ExternalService exactly
  when that ExternalService is its own (same namespace and name).
\<close>

theorem service_selects_pod:
  "svc_Ports (genForwardServiceSpec es) = es_Ports (es_Spec es) \<and>
   (selects (genForwardServiceSpec es) (genForwardPodSpec es') \<longleftrightarrow>
      meta_key (es_Meta es) = meta_key (es_Meta es'))"
proof -
  have "fold (\<lambda>port ports. ports @ [port]) xs ys = ys @ xs" for xs ys :: "service_port list"
    by (induction xs arbitrary: ys) auto
  then show ?thesis
    by (auto simp: selects_def genForwardServiceSpec_def genForwardPodSpec_def Let_def meta_def
        meta_key_def labels_distinct [symmetric] simp del: labels_distinct)
qed

end
