(* ===== verification/Operator.thy ===== *)
theory Operator
  imports OperatorSpecs
begin

text \<open>
  The operator's reconciler (\<^verbatim>\<open>pkg/controller/externalservice/reconciler.go\<close>):
  publishing the rules of Forwarders and Gateways, the finalizer, the deletion of an
  ExternalService and \<^verbatim>\<open>Reconcile\<close>.

  A pointer that a call updates (\<^verbatim>\<open>fwd\<close>, \<^verbatim>\<open>gw\<close>, \<^verbatim>\<open>cr\<close>) is
  rebound to the object the call returns. \<open>eo\<close>, \<open>io\<close> and \<open>go\<close> are the orders in which
  \<^verbatim>\<open>range\<close> visits the tables of relay ports and the map of gateways.
\<close>

section \<open>Forwarder rules\<close>

definition newForwarder :: "'c libs \<Rightarrow> nsname \<Rightarrow> 'c forwarder" where
  "newForwarder L n =
     \<lparr>fwd_Meta = meta (nn_Namespace n) (nn_Name n),
      fwd_Spec = \<lparr>fwd_EgressRules = [], fwd_IngressRules = [], fwd_ForwarderIP = []\<rparr>,
      fwd_Status = \<lparr>fwd_Conditions = nilConditions L, fwd_RuleGeneration = 0, fwd_SyncGeneration = 0\<rparr>\<rparr>"

definition fwd_setCondition :: "'c libs \<Rightarrow> condition \<Rightarrow> 'c forwarder \<Rightarrow> 'c forwarder \<times> bool" where
  "fwd_setCondition L k fwd =
     (let (conds, changed) = setCondition L (fwd_Conditions (fwd_Status fwd)) k
      in (fwd\<lparr>fwd_Status := (fwd_Status fwd)\<lparr>fwd_Conditions := conds\<rparr>\<rparr>, changed))"

text \<open>The condition that opens and the one that closes an update of a Forwarder.\<close>

definition fwdBeginUpdate :: "'c libs \<Rightarrow> ('w, 'c) client \<Rightarrow> 'c forwarder \<Rightarrow> ('w, 'c forwarder) io" where
  "fwdBeginUpdate L cl fwd =
     (let (fwd, changed) = fwd_setCondition L (RuleUpdatingCondition ConditionTrue) fwd
      in if changed then res_StatusUpdate (cl_Forwarders cl) fwd else ret fwd)"

definition fwdEndUpdate :: "'c libs \<Rightarrow> ('w, 'c) client \<Rightarrow> 'c forwarder \<Rightarrow> ('w, unit) io" where
  "fwdEndUpdate L cl fwd =
     (let (fwd, updateChanged) = fwd_setCondition L (RuleUpdatingCondition ConditionFalse) fwd;
          (fwd, syncChanged) = fwd_setCondition L (RuleSyncingCondition ConditionUnknown) fwd
      in if updateChanged \<or> syncChanged
         then let fwd = fwd\<lparr>fwd_Status := (fwd_Status fwd)
                    \<lparr>fwd_RuleGeneration := fwd_RuleGeneration (fwd_Status fwd) + 1\<rparr>\<rparr>
              in andThen (res_StatusUpdate (cl_Forwarders cl) fwd) (\<lambda>_. ret ())
         else ret ())"

text \<open>
  What \<^verbatim>\<open>updateForwarderRules\<close> does between the two: the address of the forwarder
  pod and the new rules, as the new spec of the Forwarder.
\<close>

definition genForwarderSpec ::
  "'c libs \<Rightarrow> (nat \<Rightarrow> key_order) \<Rightarrow> (nat \<Rightarrow> key_order) \<Rightarrow> ('w, 'c) client \<Rightarrow> external_service
     \<Rightarrow> 'c forwarder \<Rightarrow> ('w, forwarder_spec) io" where
  "genForwarderSpec L eo io cl cr fwd =
     andThen (res_Get (cl_Pods cl)
         \<lparr>nn_Namespace = ConnectorNamespace, nn_Name = m_Name (es_Meta cr)\<rparr>) (\<lambda>fwdPod.
     if pod_PodIP fwdPod = [] then fail NoPodIP
     else
     andThen (genForwarderEgressRules L eo cl cr (genUsedPortsForEgress fwd)) (\<lambda>(eRules, _).
     andThen (res_List (cl_Gateways cl)) (\<lambda>gws.
     andThen (genForwarderIngressRules io cl cr (genUsedPortsForIngress gws)) (\<lambda>(iRules, _).
     ret \<lparr>fwd_EgressRules = eRules, fwd_IngressRules = iRules, fwd_ForwarderIP = pod_PodIP fwdPod\<rparr>))))"

definition updateForwarderRules ::
  "'c libs \<Rightarrow> (nat \<Rightarrow> key_order) \<Rightarrow> (nat \<Rightarrow> key_order) \<Rightarrow> ('w, 'c) client \<Rightarrow> external_service
     \<Rightarrow> ('w, unit) io" where
  "updateForwarderRules L eo io cl cr =
     (let n = \<lparr>nn_Namespace = ConnectorNamespace, nn_Name = m_Name (es_Meta cr)\<rparr> in
      andThen (attempt (res_Get (cl_Forwarders cl) n)) (\<lambda>r.
      andThen (case r of
           Inl err \<Rightarrow> if err = NotFound then res_Create (cl_Forwarders cl) (newForwarder L n) else fail err
         | Inr fwd \<Rightarrow> ret fwd) (\<lambda>fwd.
      andThen (fwdBeginUpdate L cl fwd) (\<lambda>fwd.
      andThen (genForwarderSpec L eo io cl cr fwd) (\<lambda>spec.
      andThen (res_Update (cl_Forwarders cl) (fwd\<lparr>fwd_Spec := spec\<rparr>)) (\<lambda>fwd.
      fwdEndUpdate L cl fwd))))))"

section \<open>Gateway rules\<close>

definition newGateway :: "'c libs \<Rightarrow> nsname \<Rightarrow> 'c gateway" where
  "newGateway L n =
     \<lparr>gw_Meta = meta (nn_Namespace n) (nn_Name n),
      gw_Spec = \<lparr>gw_EgressRules = [], gw_IngressRules = [], gw_GatewayIP = []\<rparr>,
      gw_Status = \<lparr>gw_Conditions = nilConditions L, gw_RuleGeneration = 0, gw_SyncGeneration = 0\<rparr>\<rparr>"

definition gw_setCondition :: "'c libs \<Rightarrow> condition \<Rightarrow> 'c gateway \<Rightarrow> 'c gateway \<times> bool" where
  "gw_setCondition L k gw =
     (let (conds, changed) = setCondition L (gw_Conditions (gw_Status gw)) k
      in (gw\<lparr>gw_Status := (gw_Status gw)\<lparr>gw_Conditions := conds\<rparr>\<rparr>, changed))"

definition gwBeginUpdate :: "'c libs \<Rightarrow> ('w, 'c) client \<Rightarrow> 'c gateway \<Rightarrow> ('w, 'c gateway) io" where
  "gwBeginUpdate L cl gw =
     (let (gw, changed) = gw_setCondition L (RuleUpdatingCondition ConditionTrue) gw
      in if changed then res_StatusUpdate (cl_Gateways cl) gw else ret gw)"

definition gwEndUpdate :: "'c libs \<Rightarrow> ('w, 'c) client \<Rightarrow> 'c gateway \<Rightarrow> ('w, unit) io" where
  "gwEndUpdate L cl gw =
     (let (gw, updateChanged) = gw_setCondition L (RuleUpdatingCondition ConditionFalse) gw;
          (gw, syncChanged) = gw_setCondition L (RuleSyncingCondition ConditionUnknown) gw
      in if updateChanged \<or> syncChanged
         then let gw = gw\<lparr>gw_Status := (gw_Status gw)
                    \<lparr>gw_RuleGeneration := gw_RuleGeneration (gw_Status gw) + 1\<rparr>\<rparr>
              in andThen (res_StatusUpdate (cl_Gateways cl) gw) (\<lambda>_. ret ())
         else ret ())"

definition updateRulesForOneGateway ::
  "'c libs \<Rightarrow> ('w, 'c) client \<Rightarrow> 'c forwarder list \<Rightarrow> 'c gateway \<Rightarrow> string \<Rightarrow> ('w, unit) io" where
  "updateRulesForOneGateway L cl fwds gw gwIP =
     andThen (gwBeginUpdate L cl gw) (\<lambda>gw.
     andThen (res_Update (cl_Gateways cl)
          (gw\<lparr>gw_Spec := \<lparr>gw_EgressRules = genGatewayEgressRules fwds gw,
                         gw_IngressRules = genGatewayIngressRules fwds gw,
                         gw_GatewayIP = gwIP\<rparr>\<rparr>)) (\<lambda>gw.
     gwEndUpdate L cl gw))"

text \<open>The body of the loop over the unique gateways.\<close>

definition updateGateway ::
  "'c libs \<Rightarrow> ('w, 'c) client \<Rightarrow> 'c forwarder list \<Rightarrow> string \<times> nsname \<Rightarrow> ('w, unit) io" where
  "updateGateway L cl fwds = (\<lambda>(gwIP, n).
     andThen (attempt (res_Get (cl_Gateways cl) n)) (\<lambda>r.
     andThen (case r of
          Inl err \<Rightarrow> if err = NotFound then res_Create (cl_Gateways cl) (newGateway L n) else fail err
        | Inr gw \<Rightarrow> ret gw) (\<lambda>gw.
     updateRulesForOneGateway L cl fwds gw gwIP)))"

definition updateGatewayRules ::
  "'c libs \<Rightarrow> key_order \<Rightarrow> ('w, 'c) client \<Rightarrow> external_service \<Rightarrow> ('w, unit) io" where
  "updateGatewayRules L go cl cr =
     andThen (res_Get (cl_Forwarders cl)
         \<lparr>nn_Namespace = ConnectorNamespace, nn_Name = m_Name (es_Meta cr)\<rparr>) (\<lambda>fwd.
     andThen (res_List (cl_Forwarders cl)) (\<lambda>fwds.
     foldE (\<lambda>g _. updateGateway L cl fwds g)
       (grange go (getUniqueGatwey (fwd_IngressRules (fwd_Spec fwd)))) ()))"

section \<open>Finalizer and deletion\<close>

definition addFinalizer :: "('w, 'c) client \<Rightarrow> external_service \<Rightarrow> ('w, external_service) io" where
  "addFinalizer cl cr =
     (if length (m_Finalizers (es_Meta cr)) < 1 \<and> m_DeletionTimestamp (es_Meta cr) = None
      then res_Update (cl_ExternalServices cl)
             (cr\<lparr>es_Meta := (es_Meta cr)\<lparr>m_Finalizers := [ExternalServiceFinalizerName]\<rparr>\<rparr>)
      else ret cr)"

text \<open>Read an object; a missing one is skipped, a found one is deleted and the answer ignored.\<close>

definition deleteIfExists :: "('w, 'o) resource \<Rightarrow> nsname \<Rightarrow> ('w, unit) io" where
  "deleteIfExists R n =
     andThen (attempt (res_Get R n)) (\<lambda>r. case r of
         Inl err \<Rightarrow> if err \<noteq> NotFound then fail err else ret ()
       | Inr x \<Rightarrow> andThen (attempt (res_Delete R x)) (\<lambda>_. ret ()))"

definition deleteResourceForExternalService ::
  "'c libs \<Rightarrow> ('w, 'c) client \<Rightarrow> external_service \<Rightarrow> ('w, unit) io" where
  "deleteResourceForExternalService L cl cr =
     (let n = \<lparr>nn_Namespace = ConnectorNamespace, nn_Name = m_Name (es_Meta cr)\<rparr> in
      andThen (deleteIfExists (cl_Pods cl) n) (\<lambda>_.
      andThen (deleteIfExists (cl_Services cl) n) (\<lambda>_.
      andThen (deleteIfExists (cl_Forwarders cl) n) (\<lambda>_.
      andThen (res_List (cl_Forwarders cl)) (\<lambda>fwds.
      if \<exists>fwd \<in> set fwds. m_Namespace (fwd_Meta fwd) = ConnectorNamespace \<and>
           m_Name (fwd_Meta fwd) = m_Name (es_Meta cr)
      then fail ForwarderStillExists
      else
      andThen (res_List (cl_Gateways cl)) (\<lambda>gws.
      foldE (\<lambda>gw _. updateRulesForOneGateway L cl fwds gw (gw_GatewayIP (gw_Spec gw))) gws ()))))))"

section \<open>Reconcile\<close>

text \<open>Create an object unless it exists.\<close>

definition createIfMissing :: "('w, 'o) resource \<Rightarrow> nsname \<Rightarrow> 'o \<Rightarrow> ('w, unit) io" where
  "createIfMissing R n x =
     andThen (attempt (res_Get R n)) (\<lambda>r. case r of
         Inl err \<Rightarrow> if err \<noteq> NotFound then fail err else andThen (res_Create R x) (\<lambda>_. ret ())
       | Inr _ \<Rightarrow> ret ())"

definition Reconcile ::
  "'c libs \<Rightarrow> (nat \<Rightarrow> key_order) \<Rightarrow> (nat \<Rightarrow> key_order) \<Rightarrow> key_order \<Rightarrow> ('w, 'c) client \<Rightarrow> nsname
     \<Rightarrow> ('w, unit) io" where
  "Reconcile L eo io go cl request =
     andThen (attempt (res_Get (cl_ExternalServices cl) request)) (\<lambda>r. case r of
         Inl err \<Rightarrow> if err = NotFound then ret () else fail err
       | Inr cr \<Rightarrow>
           if m_DeletionTimestamp (es_Meta cr) \<noteq> None
           then andThen (deleteResourceForExternalService L cl cr) (\<lambda>_.
                andThen (res_Update (cl_ExternalServices cl)
                    (cr\<lparr>es_Meta := (es_Meta cr)\<lparr>m_Finalizers := []\<rparr>\<rparr>)) (\<lambda>_.
                ret ()))
           else andThen (addFinalizer cl cr) (\<lambda>cr.
                andThen (createIfMissing (cl_Pods cl) (meta_key (pod_Meta (genForwardPodSpec cr)))
                    (genForwardPodSpec cr)) (\<lambda>_.
                andThen (createIfMissing (cl_Services cl) (meta_key (svc_Meta (genForwardServiceSpec cr)))
                    (genForwardServiceSpec cr)) (\<lambda>_.
                andThen (updateForwarderRules L eo io cl cr) (\<lambda>_.
                updateGatewayRules L go cl cr)))))"

section \<open>Setting a condition\<close>

lemma fwd_setCondition_simps:
  "fwd_Meta (fst (fwd_setCondition L k x)) = fwd_Meta x"
  "fwd_Spec (fst (fwd_setCondition L k x)) = fwd_Spec x"
  "fwd_Conditions (fwd_Status (fst (fwd_setCondition L k x))) =
     fst (setCondition L (fwd_Conditions (fwd_Status x)) k)"
  "fwd_RuleGeneration (fwd_Status (fst (fwd_setCondition L k x))) = fwd_RuleGeneration (fwd_Status x)"
  "fwd_SyncGeneration (fwd_Status (fst (fwd_setCondition L k x))) = fwd_SyncGeneration (fwd_Status x)"
  "snd (fwd_setCondition L k x) = snd (setCondition L (fwd_Conditions (fwd_Status x)) k)"
  by (simp_all add: fwd_setCondition_def split_def Let_def)

lemma gw_setCondition_simps:
  "gw_Meta (fst (gw_setCondition L k x)) = gw_Meta x"
  "gw_Spec (fst (gw_setCondition L k x)) = gw_Spec x"
  "gw_Conditions (gw_Status (fst (gw_setCondition L k x))) =
     fst (setCondition L (gw_Conditions (gw_Status x)) k)"
  "gw_RuleGeneration (gw_Status (fst (gw_setCondition L k x))) = gw_RuleGeneration (gw_Status x)"
  "gw_SyncGeneration (gw_Status (fst (gw_setCondition L k x))) = gw_SyncGeneration (gw_Status x)"
  "snd (gw_setCondition L k x) = snd (setCondition L (gw_Conditions (gw_Status x)) k)"
  by (simp_all add: gw_setCondition_def split_def Let_def)

end
