(* ===== verification/SyncStatus.thy ===== *)
theory SyncStatus
  imports Operator
begin

text \<open>
  \<^verbatim>\<open>pkg/forwarder/status.go\<close> and \<^verbatim>\<open>pkg/gateway/status.go\<close>: when an agent
  has to apply the rules of its resource, when it only has to check them, and how it records
  progress in the status. The two files are the same code for two types; their contract is the
  locale \<open>sync_object\<close>.

  The functions get a pointer. \<^verbatim>\<open>SetCondition\<close> changes the caller's object, but the
  answer of the server is assigned to the parameter only, so the caller keeps its own object,
  with the resource version it had: the model's functions return the caller's object.
\<close>

section \<open>Forwarder\<close>

definition fwd_needSync :: "'c libs \<Rightarrow> 'c forwarder \<Rightarrow> bool" where
  "fwd_needSync L fwd \<longleftrightarrow>
     isFalseFor L (fwd_Conditions (fwd_Status fwd)) ConditionRuleUpdating \<and>
     (fwd_RuleGeneration (fwd_Status fwd) \<noteq> fwd_SyncGeneration (fwd_Status fwd) \<or>
      isTrueFor L (fwd_Conditions (fwd_Status fwd)) ConditionRuleSyncing)"

definition fwd_needCheckSync :: "'c libs \<Rightarrow> 'c forwarder \<Rightarrow> bool" where
  "fwd_needCheckSync L fwd \<longleftrightarrow>
     isFalseFor L (fwd_Conditions (fwd_Status fwd)) ConditionRuleUpdating \<and>
     fwd_RuleGeneration (fwd_Status fwd) = fwd_SyncGeneration (fwd_Status fwd) \<and>
     isFalseFor L (fwd_Conditions (fwd_Status fwd)) ConditionRuleSyncing"

definition fwd_setSyncing ::
  "'c libs \<Rightarrow> ('w, 'c forwarder) resource \<Rightarrow> 'c forwarder \<Rightarrow> ('w, 'c forwarder) io" where
  "fwd_setSyncing L R fwd =
     (let (fwd, changed) = fwd_setCondition L (RuleSyncingCondition ConditionTrue) fwd
      in if changed then andThen (res_StatusUpdate R fwd) (\<lambda>_. ret fwd) else ret fwd)"

definition fwd_setSynced ::
  "'c libs \<Rightarrow> ('w, 'c forwarder) resource \<Rightarrow> 'c forwarder \<Rightarrow> ('w, 'c forwarder) io" where
  "fwd_setSynced L R fwd =
     (let (fwd, changed) = fwd_setCondition L (RuleSyncingCondition ConditionFalse) fwd
      in if changed
         then let fwd = fwd\<lparr>fwd_Status := (fwd_Status fwd)
                    \<lparr>fwd_SyncGeneration := fwd_RuleGeneration (fwd_Status fwd)\<rparr>\<rparr>
              in andThen (res_StatusUpdate R fwd) (\<lambda>_. ret fwd)
         else ret fwd)"

section \<open>Gateway\<close>

definition gw_needSync :: "'c libs \<Rightarrow> 'c gateway \<Rightarrow> bool" where
  "gw_needSync L gw \<longleftrightarrow>
     isFalseFor L (gw_Conditions (gw_Status gw)) ConditionRuleUpdating \<and>
     (gw_RuleGeneration (gw_Status gw) \<noteq> gw_SyncGeneration (gw_Status gw) \<or>
      isTrueFor L (gw_Conditions (gw_Status gw)) ConditionRuleSyncing)"

definition gw_needCheckSync :: "'c libs \<Rightarrow> 'c gateway \<Rightarrow> bool" where
  "gw_needCheckSync L gw \<longleftrightarrow>
     isFalseFor L (gw_Conditions (gw_Status gw)) ConditionRuleUpdating \<and>
     gw_RuleGeneration (gw_Status gw) = gw_SyncGeneration (gw_Status gw) \<and>
     isFalseFor L (gw_Conditions (gw_Status gw)) ConditionRuleSyncing"

definition gw_setSyncing ::
  "'c libs \<Rightarrow> ('w, 'c gateway) resource \<Rightarrow> 'c gateway \<Rightarrow> ('w, 'c gateway) io" where
  "gw_setSyncing L R gw =
     (let (gw, changed) = gw_setCondition L (RuleSyncingCondition ConditionTrue) gw
      in if changed then andThen (res_StatusUpdate R gw) (\<lambda>_. ret gw) else ret gw)"

definition gw_setSynced ::
  "'c libs \<Rightarrow> ('w, 'c gateway) resource \<Rightarrow> 'c gateway \<Rightarrow> ('w, 'c gateway) io" where
  "gw_setSynced L R gw =
     (let (gw, changed) = gw_setCondition L (RuleSyncingCondition ConditionFalse) gw
      in if changed
         then let gw = gw\<lparr>gw_Status := (gw_Status gw)
                    \<lparr>gw_SyncGeneration := gw_RuleGeneration (gw_Status gw)\<rparr>\<rparr>
              in andThen (res_StatusUpdate R gw) (\<lambda>_. ret gw)
         else ret gw)"

section \<open>The contract\<close>

text \<open>
  What an object looks like to the sync protocol: updating or not, syncing (true, false or
  neither), and the two generations.
\<close>

record sync_view =
  sv_updating :: "condition_status option"
  sv_syncing :: "condition_status option"
  sv_rule :: "64 word"
  sv_sync :: "64 word"

definition fwd_view :: "('c \<Rightarrow> string \<rightharpoonup> condition_status) \<Rightarrow> 'c forwarder \<Rightarrow> sync_view" where
  "fwd_view look x =
     \<lparr>sv_updating = look (fwd_Conditions (fwd_Status x)) ConditionRuleUpdating,
      sv_syncing = look (fwd_Conditions (fwd_Status x)) ConditionRuleSyncing,
      sv_rule = fwd_RuleGeneration (fwd_Status x), sv_sync = fwd_SyncGeneration (fwd_Status x)\<rparr>"

definition gw_view :: "('c \<Rightarrow> string \<rightharpoonup> condition_status) \<Rightarrow> 'c gateway \<Rightarrow> sync_view" where
  "gw_view look x =
     \<lparr>sv_updating = look (gw_Conditions (gw_Status x)) ConditionRuleUpdating,
      sv_syncing = look (gw_Conditions (gw_Status x)) ConditionRuleSyncing,
      sv_rule = gw_RuleGeneration (gw_Status x), sv_sync = gw_SyncGeneration (gw_Status x)\<rparr>"

text \<open>The protocol on views: what is to be done, and the two status changes.\<close>

definition sync_due :: "sync_view \<Rightarrow> bool" where
  "sync_due s \<longleftrightarrow> sv_updating s = Some ConditionFalse \<and>
     (sv_rule s \<noteq> sv_sync s \<or> sv_syncing s = Some ConditionTrue)"

definition check_due :: "sync_view \<Rightarrow> bool" where
  "check_due s \<longleftrightarrow> sv_updating s = Some ConditionFalse \<and> sv_rule s = sv_sync s \<and>
     sv_syncing s = Some ConditionFalse"

definition mark_syncing :: "sync_view \<Rightarrow> sync_view" where
  "mark_syncing s = s\<lparr>sv_syncing := Some ConditionTrue\<rparr>"

definition mark_synced :: "sync_view \<Rightarrow> sync_view" where
  "mark_synced s = (if sv_syncing s = Some ConditionFalse then s
     else s\<lparr>sv_syncing := Some ConditionFalse, sv_sync := sv_rule s\<rparr>)"

locale sync_object =
  fixes view :: "('c \<Rightarrow> string \<rightharpoonup> condition_status) \<Rightarrow> 'o \<Rightarrow> sync_view"
    and meta_of :: "'o \<Rightarrow> object_meta"
    and put_status :: "string \<Rightarrow> 'o \<Rightarrow> 'o \<Rightarrow> 'o"
    and needSync :: "'c libs \<Rightarrow> 'o \<Rightarrow> bool"
    and needCheckSync :: "'c libs \<Rightarrow> 'o \<Rightarrow> bool"
    and setSyncing :: "'c libs \<Rightarrow> ('w, 'o) resource \<Rightarrow> 'o \<Rightarrow> ('w, 'o) io"
    and setSynced :: "'c libs \<Rightarrow> ('w, 'o) resource \<Rightarrow> 'o \<Rightarrow> ('w, 'o) io"
    and spec :: "'o \<Rightarrow> 's"
  assumes needSync: "conditions_laws L look \<Longrightarrow> needSync L x \<longleftrightarrow> sync_due (view look x)"
    and needCheckSync: "conditions_laws L look \<Longrightarrow> needCheckSync L x \<longleftrightarrow> check_due (view look x)"
    and setSyncing:
      "conditions_laws L look \<Longrightarrow> \<exists>y. view look y = mark_syncing (view look x) \<and>
         meta_of y = meta_of x \<and> spec y = spec x \<and>
         setSyncing L R x = (if sv_syncing (view look x) = Some ConditionTrue then ret y
           else andThen (res_StatusUpdate R y) (\<lambda>_. ret y))"
    and setSynced:
      "conditions_laws L look \<Longrightarrow> \<exists>y. view look y = mark_synced (view look x) \<and>
         meta_of y = meta_of x \<and> spec y = spec x \<and>
         setSynced L R x = (if sv_syncing (view look x) = Some ConditionFalse then ret y
           else andThen (res_StatusUpdate R y) (\<lambda>_. ret y))"
    and put_status: "view look (put_status rv x y) = view look x" "spec (put_status rv x y) = spec y"
      "meta_of (put_status rv x y) = (meta_of y)\<lparr>m_ResourceVersion := rv\<rparr>"
begin

lemma not_both: "conditions_laws L look \<Longrightarrow> needSync L x \<Longrightarrow> \<not> needCheckSync L x"
  by (auto simp: needSync needCheckSync sync_due_def check_due_def)

text \<open>A pass over an object that needs a sync: its status ends as synced.\<close>

lemma pass_ends_synced:
  assumes laws: "conditions_laws L look" "resource_laws v (\<lambda>x. meta_key (meta_of x)) put_status R"
    and due: "needSync L x"
    and one: "setSyncing L R x w = (Inr y, w1)" and two: "setSynced L R y w2 = (Inr z, w3)"
  shows "\<exists>stored. v w3 = (v w2)(meta_key (meta_of x) \<mapsto> stored) \<and> check_due (view look stored) \<and>
    sv_rule (view look stored) = sv_rule (view look x) \<and> meta_of y = meta_of x"
proof -
  from setSyncing [OF laws(1), of x R] one
  have y: "view look y = mark_syncing (view look x)" "meta_of y = meta_of x"
    by (auto simp: run_Inr split: if_splits)
  then have "sv_syncing (view look y) \<noteq> Some ConditionFalse" by (simp add: mark_syncing_def)
  with setSynced [OF laws(1), of y R] two obtain y' x' where
    y': "view look y' = mark_synced (view look y)" "meta_of y' = meta_of y"
    and up: "res_StatusUpdate R y' w2 = (Inr x', w3)"
    by (auto simp: run_Inr)
  from resource_lawsD(5) [OF laws(2) up] obtain cur rv where
    "v w3 = (v w2)(meta_key (meta_of y') \<mapsto> x')" "x' = put_status rv y' cur" by blast
  then show ?thesis
    using due y y' by (auto simp: put_status needSync [OF laws(1)] sync_due_def check_due_def
        mark_syncing_def mark_synced_def)
qed

text \<open>
  A pass that marks the object as syncing cannot mark it as synced: the second update is
  built on the version before the first.
\<close>

lemma second_update_fails:
  assumes laws: "conditions_laws L look" "resource_laws v (\<lambda>x. meta_key (meta_of x)) put_status R"
      "versioned v meta_of R"
    and not_yet: "sv_syncing (view look x) \<noteq> Some ConditionTrue"
    and one: "setSyncing L R x w = (Inr y, w1)"
    and same: "v w2 (meta_key (meta_of x)) = v w1 (meta_key (meta_of x))"
  shows "\<exists>e. fst (setSynced L R y w2) = Inl e"
proof (rule ccontr)
  assume "\<not> ?thesis"
  then obtain z w3 where two: "setSynced L R y w2 = (Inr z, w3)"
    by (metis obj_sumE prod.exhaust_sel)
  from setSyncing [OF laws(1), of x R] one not_yet obtain x' where
    y: "view look y = mark_syncing (view look x)" "meta_of y = meta_of x"
    and up1: "res_StatusUpdate R y w = (Inr x', w1)"
    by (auto simp: run_Inr)
  then have "sv_syncing (view look y) \<noteq> Some ConditionFalse" by (simp add: mark_syncing_def)
  with setSynced [OF laws(1), of y R] two obtain y' z' where
    y': "meta_of y' = meta_of y" and up2: "res_StatusUpdate R y' w2 = (Inr z', w3)"
    by (auto simp: run_Inr)
  from resource_lawsD(5) [OF laws(2) up1] have "v w1 (meta_key (meta_of x)) = Some x'"
    by (simp add: y)
  with versionedD(1) [OF laws(3) up2] versionedD(2) [OF laws(3) up1] same show False
    by (simp add: y y')
qed

end

section \<open>Both agents follow it\<close>

interpretation fwd_sync: sync_object fwd_view fwd_Meta put_fwd_status
  fwd_needSync fwd_needCheckSync fwd_setSyncing fwd_setSynced fwd_Spec
proof (unfold_locales, goal_cases)
  case (3 L look x R)
  then show ?case
    by (intro exI [of _ "fst (fwd_setCondition L (RuleSyncingCondition ConditionTrue) x)"])
       (auto simp: fwd_setSyncing_def split_def Let_def fwd_setCondition_simps fwd_view_def
          mark_syncing_def conditions_lawsD [OF 3])
next
  case (4 L look x R)
  then show ?case
    by (intro exI [of _ "let (x, changed) = fwd_setCondition L (RuleSyncingCondition ConditionFalse) x
          in if changed then x\<lparr>fwd_Status := (fwd_Status x)
               \<lparr>fwd_SyncGeneration := fwd_RuleGeneration (fwd_Status x)\<rparr>\<rparr> else x"])
       (auto simp: fwd_setSynced_def split_def Let_def fwd_setCondition_simps fwd_view_def
          mark_synced_def conditions_lawsD [OF 4])
qed (auto simp: fwd_needSync_def fwd_needCheckSync_def fwd_view_def sync_due_def check_due_def
      conditions_lawsD put_fwd_status_def)

interpretation gw_sync: sync_object gw_view gw_Meta put_gw_status
  gw_needSync gw_needCheckSync gw_setSyncing gw_setSynced gw_Spec
proof (unfold_locales, goal_cases)
  case (3 L look x R)
  then show ?case
    by (intro exI [of _ "fst (gw_setCondition L (RuleSyncingCondition ConditionTrue) x)"])
       (auto simp: gw_setSyncing_def split_def Let_def gw_setCondition_simps gw_view_def
          mark_syncing_def conditions_lawsD [OF 3])
next
  case (4 L look x R)
  then show ?case
    by (intro exI [of _ "let (x, changed) = gw_setCondition L (RuleSyncingCondition ConditionFalse) x
          in if changed then x\<lparr>gw_Status := (gw_Status x)
               \<lparr>gw_SyncGeneration := gw_RuleGeneration (gw_Status x)\<rparr>\<rparr> else x"])
       (auto simp: gw_setSynced_def split_def Let_def gw_setCondition_simps gw_view_def
          mark_synced_def conditions_lawsD [OF 4])
qed (auto simp: gw_needSync_def gw_needCheckSync_def gw_view_def sync_due_def check_due_def
      conditions_lawsD put_gw_status_def)

end
