(* ===== verification/Iptables.thy ===== *)
theory Iptables
  imports ApiLaws
begin

text \<open>
  \<^verbatim>\<open>pkg/util/iptables.go\<close>: rule specifications, and replacing, adding and checking the
  rules of chains. The iptables library (\<^verbatim>\<open>go-iptables\<close>) is not part of the
  repository: its three operations and its constructor are the fields of the record
  \<open>iptables\<close>, and \<open>iptables_laws\<close> states their documented behaviour on a view \<open>tv\<close> of the
  kernel's tables: the list of rules of every chain that exists.
\<close>

definition TableNAT :: string where
  "TableNAT = ''nat''"

definition ChainPrerouting :: string where
  "ChainPrerouting = ''PREROUTING''"

definition ChainPostrouting :: string where
  "ChainPostrouting = ''POSTROUTING''"

lemma chains_distinct [simp]: "ChainPrerouting \<noteq> ChainPostrouting" "ChainPostrouting \<noteq> ChainPrerouting"
  by (simp_all add: ChainPrerouting_def ChainPostrouting_def)

type_synonym rule_spec = "string list"
type_synonym chains = "rule_spec list gomap"

definition DNATRuleSpec :: "string \<Rightarrow> string \<Rightarrow> string \<Rightarrow> string \<Rightarrow> string \<Rightarrow> rule_spec" where
  "DNATRuleSpec dstIP srcIP dPort destinationIP destinationPort =
     [''-m'', ''tcp'', ''-p'', ''tcp'', ''--dst'', dstIP, ''--src'', srcIP, ''--dport'', dPort,
      ''-j'', ''DNAT'', ''--to-destination'', destinationIP @ '':'' @ destinationPort]"

definition SNATRuleSpec :: "string \<Rightarrow> string \<Rightarrow> string \<Rightarrow> rule_spec" where
  "SNATRuleSpec dstIP srcIP dPort =
     [''-m'', ''tcp'', ''-p'', ''tcp'', ''--dst'', dstIP, ''--dport'', dPort,
      ''-j'', ''SNAT'', ''--to-source'', srcIP]"

section \<open>The library\<close>

record 'w iptables =
  ipt_New :: "('w, unit) io"
  ipt_ClearChain :: "string \<Rightarrow> string \<Rightarrow> ('w, unit) io"
  ipt_AppendUnique :: "string \<Rightarrow> string \<Rightarrow> rule_spec \<Rightarrow> ('w, unit) io"
  ipt_Exists :: "string \<Rightarrow> string \<Rightarrow> rule_spec \<Rightarrow> ('w, bool) io"

type_synonym tables = "string \<times> string \<rightharpoonup> rule_spec list"

definition add_unique :: "rule_spec \<Rightarrow> rule_spec list \<Rightarrow> rule_spec list" where
  "add_unique r rs = (if r \<in> set rs then rs else rs @ [r])"

definition iptables_laws :: "'w iptables \<Rightarrow> ('w \<Rightarrow> tables) \<Rightarrow> bool" where
  "iptables_laws ipt tv \<longleftrightarrow>
     quiet tv (ipt_New ipt) \<and>
     (\<forall>t c w u w'. ipt_ClearChain ipt t c w = (Inr u, w') \<longrightarrow> tv w' = (tv w)((t, c) \<mapsto> [])) \<and>
     (\<forall>t c r w u w'. ipt_AppendUnique ipt t c r w = (Inr u, w') \<longrightarrow>
        (\<exists>rs. tv w (t, c) = Some rs \<and> tv w' = (tv w)((t, c) \<mapsto> add_unique r rs))) \<and>
     (\<forall>t c r. quiet tv (ipt_Exists ipt t c r)) \<and>
     (\<forall>t c r w b w'. ipt_Exists ipt t c r w = (Inr b, w') \<longrightarrow>
        (b \<longleftrightarrow> (\<exists>rs. tv w (t, c) = Some rs \<and> r \<in> set rs)))"

lemma iptables_lawsD:
  assumes "iptables_laws ipt tv"
  shows "quiet tv (ipt_New ipt)"
    and "ipt_ClearChain ipt t c w = (Inr u, w') \<Longrightarrow> tv w' = (tv w)((t, c) \<mapsto> [])"
    and "ipt_AppendUnique ipt t c r w = (Inr u, w') \<Longrightarrow>
        \<exists>rs. tv w (t, c) = Some rs \<and> tv w' = (tv w)((t, c) \<mapsto> add_unique r rs)"
    and "quiet tv (ipt_Exists ipt t c r)"
    and "ipt_Exists ipt t c r w = (Inr b, w') \<Longrightarrow>
        b \<longleftrightarrow> (\<exists>rs. tv w (t, c) = Some rs \<and> r \<in> set rs)"
  using assms unfolding iptables_laws_def by blast+

text \<open>The library answers: the constructor works, and so does a check in a chain that exists.\<close>

definition iptables_answers :: "'w iptables \<Rightarrow> ('w \<Rightarrow> tables) \<Rightarrow> bool" where
  "iptables_answers ipt tv \<longleftrightarrow>
     (\<forall>w. \<exists>u. fst (ipt_New ipt w) = Inr u) \<and>
     (\<forall>t c r w. tv w (t, c) \<noteq> None \<longrightarrow> (\<exists>b. fst (ipt_Exists ipt t c r w) = Inr b))"

text \<open>
  The library works: the constructor and clearing a chain succeed, and so does adding a rule to
  a chain that exists.
\<close>

definition iptables_works :: "'w iptables \<Rightarrow> ('w \<Rightarrow> tables) \<Rightarrow> bool" where
  "iptables_works ipt tv \<longleftrightarrow>
     (\<forall>w. \<exists>w'. ipt_New ipt w = (Inr (), w')) \<and>
     (\<forall>t c w. \<exists>w'. ipt_ClearChain ipt t c w = (Inr (), w')) \<and>
     (\<forall>t c r w. tv w (t, c) \<noteq> None \<longrightarrow> (\<exists>w'. ipt_AppendUnique ipt t c r w = (Inr (), w')))"

text \<open>No operation of the library changes what \<open>v\<close> sees, for instance the API server.\<close>

definition iptables_quiet :: "('w \<Rightarrow> 'v) \<Rightarrow> 'w iptables \<Rightarrow> bool" where
  "iptables_quiet v ipt \<longleftrightarrow>
     quiet v (ipt_New ipt) \<and> (\<forall>t c. quiet v (ipt_ClearChain ipt t c)) \<and>
     (\<forall>t c r. quiet v (ipt_AppendUnique ipt t c r)) \<and> (\<forall>t c r. quiet v (ipt_Exists ipt t c r))"

section \<open>The code\<close>

text \<open>\<open>ord1\<close> and \<open>ord2\<close> are the orders in which the two loops visit \<open>expected\<close>.\<close>

definition appendChains ::
  "key_order \<Rightarrow> key_order \<Rightarrow> 'w iptables \<Rightarrow> string \<Rightarrow> chains \<Rightarrow> bool \<Rightarrow> ('w, unit) io" where
  "appendChains ord1 ord2 ipt table expected flash =
     andThen (if flash
              then foldE (\<lambda>(chain, _) _. ipt_ClearChain ipt table chain) (grange ord1 expected) ()
              else ret ()) (\<lambda>_.
     foldE (\<lambda>(chain, rules) _. foldE (\<lambda>rule _. ipt_AppendUnique ipt table chain rule) rules ())
       (grange ord2 expected) ())"

definition ReplaceChains ::
  "key_order \<Rightarrow> key_order \<Rightarrow> 'w iptables \<Rightarrow> string \<Rightarrow> chains \<Rightarrow> ('w, unit) io" where
  "ReplaceChains ord1 ord2 ipt table expected =
     andThen (ipt_New ipt) (\<lambda>_. appendChains ord1 ord2 ipt table expected True)"

definition AddChains ::
  "key_order \<Rightarrow> key_order \<Rightarrow> 'w iptables \<Rightarrow> string \<Rightarrow> chains \<Rightarrow> ('w, unit) io" where
  "AddChains ord1 ord2 ipt table expected =
     andThen (ipt_New ipt) (\<lambda>_. appendChains ord1 ord2 ipt table expected False)"

text \<open>The two nested loops return at the first rule that is missing or cannot be checked.\<close>

primrec checkRules :: "'w iptables \<Rightarrow> string \<Rightarrow> string \<Rightarrow> rule_spec list \<Rightarrow> ('w, bool) io" where
  "checkRules ipt table chain [] = ret True"
| "checkRules ipt table chain (rule # rules) =
     andThen (attempt (ipt_Exists ipt table chain rule)) (\<lambda>r. case r of
         Inl _ \<Rightarrow> ret False
       | Inr exists \<Rightarrow> if \<not> exists then ret False else checkRules ipt table chain rules)"

primrec checkChains :: "'w iptables \<Rightarrow> string \<Rightarrow> (string \<times> rule_spec list) list \<Rightarrow> ('w, bool) io" where
  "checkChains ipt table [] = ret True"
| "checkChains ipt table (c # cs) =
     andThen (checkRules ipt table (fst c) (snd c)) (\<lambda>ok.
       if \<not> ok then ret False else checkChains ipt table cs)"

definition checkChainsExist :: "key_order \<Rightarrow> 'w iptables \<Rightarrow> string \<Rightarrow> chains \<Rightarrow> ('w, bool) io" where
  "checkChainsExist ord ipt table expected = checkChains ipt table (grange ord expected)"

definition CheckChainsExist :: "key_order \<Rightarrow> 'w iptables \<Rightarrow> string \<Rightarrow> chains \<Rightarrow> ('w, bool) io" where
  "CheckChainsExist ord ipt table expected =
     andThen (attempt (ipt_New ipt)) (\<lambda>r. case r of
         Inl _ \<Rightarrow> ret False
       | Inr _ \<Rightarrow> checkChainsExist ord ipt table expected)"

section \<open>Lists without duplicates\<close>

text \<open>What appending a list of rules to a chain leaves in it.\<close>

definition append_all :: "rule_spec list \<Rightarrow> rule_spec list \<Rightarrow> rule_spec list" where
  "append_all rules rs = fold add_unique rules rs"

lemma append_all_simps [simp]:
  "append_all [] = (\<lambda>rs. rs)"
  "append_all (r # rules) rs = append_all rules (add_unique r rs)"
  by (simp_all add: append_all_def fun_eq_iff)

lemma set_append_all: "set (append_all rules rs) = set rs \<union> set rules"
  by (induction rules arbitrary: rs) (auto simp: add_unique_def)

lemma distinct_append_all: "distinct rs \<Longrightarrow> distinct (append_all rules rs)"
  by (induction rules arbitrary: rs) (auto simp: add_unique_def)

lemma append_all_prefix: "\<exists>new. append_all rules rs = rs @ new"
proof (induction rules arbitrary: rs)
  case (Cons r rules)
  from Cons [of "add_unique r rs"] show ?case by (auto simp: add_unique_def split: if_splits)
qed simp

lemma append_all_distinct: "distinct (rs @ rules) \<Longrightarrow> append_all rules rs = rs @ rules"
  by (induction rules arbitrary: rs) (auto simp: add_unique_def)

section \<open>What the operations do to the tables\<close>

lemma clear_loop:
  assumes "iptables_laws ipt tv"
    and "foldE (\<lambda>(chain, _) _. ipt_ClearChain ipt table chain) cs () w = (Inr u, w')"
  shows "tv w' = (\<lambda>k. if fst k = table \<and> snd k \<in> fst ` set cs then Some [] else tv w k)"
  using assms(2)
proof (induction cs arbitrary: w)
  case Nil
  then show ?case by (simp add: ret_Inr)
next
  case (Cons c cs)
  from Cons.prems obtain w1 where "ipt_ClearChain ipt table (fst c) w = (Inr (), w1)"
    and rest: "foldE (\<lambda>(chain, _) _. ipt_ClearChain ipt table chain) cs () w1 = (Inr u, w')"
    by (auto simp: andThen_Inr split_def)
  with iptables_lawsD(2) [OF assms(1)] have "tv w1 = (tv w)((table, fst c) \<mapsto> [])" by blast
  with Cons.IH [OF rest] show ?case by (auto simp: fun_eq_iff)
qed

lemma append_loop:
  assumes "iptables_laws ipt tv"
    and "foldE (\<lambda>rule _. ipt_AppendUnique ipt table chain rule) rules () w = (Inr u, w')"
    and "tv w (table, chain) = Some rs"
  shows "tv w' = (tv w)((table, chain) \<mapsto> append_all rules rs)"
  using assms(2,3)
proof (induction rules arbitrary: w rs)
  case Nil
  then show ?case by (simp add: ret_Inr fun_upd_idem)
next
  case (Cons r rules)
  from Cons.prems obtain w1 where r: "ipt_AppendUnique ipt table chain r w = (Inr (), w1)"
    and rest: "foldE (\<lambda>rule _. ipt_AppendUnique ipt table chain rule) rules () w1 = (Inr u, w')"
    by (auto simp: andThen_Inr)
  from iptables_lawsD(3) [OF assms(1) r] Cons.prems(2)
  have w1: "tv w1 = (tv w)((table, chain) \<mapsto> add_unique r rs)" by auto
  then have "tv w1 (table, chain) = Some (add_unique r rs)" by simp
  from Cons.IH [OF rest this] show ?case by (simp only: w1 fun_upd_upd append_all_simps)
qed

lemma append_loop_exists:
  assumes "iptables_laws ipt tv"
    and "foldE (\<lambda>rule _. ipt_AppendUnique ipt table chain rule) rules () w = (Inr u, w')"
    and "rules \<noteq> []"
  shows "\<exists>rs. tv w (table, chain) = Some rs"
proof (cases rules)
  case (Cons r rest)
  with assms(2) obtain w1 where "ipt_AppendUnique ipt table chain r w = (Inr (), w1)"
    by (auto simp: andThen_Inr)
  from iptables_lawsD(3) [OF assms(1) this] show ?thesis by blast
qed (use assms in simp)

text \<open>The rules a list of chains has for a chain, and the tables after appending them all.\<close>

definition rules_for :: "(string \<times> rule_spec list) list \<Rightarrow> string \<Rightarrow> rule_spec list" where
  "rules_for cs c = (case map_of cs c of None \<Rightarrow> [] | Some rs \<Rightarrow> rs)"

lemma rules_for_simps [simp]:
  "rules_for [] c = []"
  "rules_for (x # cs) c = (if fst x = c then snd x else rules_for cs c)"
  by (simp_all add: rules_for_def)

lemma rules_for_notin: "c \<notin> fst ` set cs \<Longrightarrow> rules_for cs c = []"
  by (induction cs) auto

definition appended :: "string \<Rightarrow> (string \<times> rule_spec list) list \<Rightarrow> tables \<Rightarrow> tables" where
  "appended table cs tb k =
     (if fst k = table then map_option (append_all (rules_for cs (snd k))) (tb k) else tb k)"

lemma append_chains_loop:
  assumes laws: "iptables_laws ipt tv"
    and "foldE (\<lambda>(chain, rules) _. foldE (\<lambda>rule _. ipt_AppendUnique ipt table chain rule) rules ()) cs () w
           = (Inr u, w')"
    and "distinct (map fst cs)"
  shows "tv w' = appended table cs (tv w) \<and>
    (\<forall>c rules. (c, rules) \<in> set cs \<and> rules \<noteq> [] \<longrightarrow> tv w (table, c) \<noteq> None)"
  using assms(2,3)
proof (induction cs arbitrary: w)
  case Nil
  then show ?case by (auto simp: ret_Inr appended_def fun_eq_iff option.map_ident cong del: if_weak_cong split: option.split)
next
  case (Cons c cs)
  obtain chain rules where c: "c = (chain, rules)" by (cases c)
  from Cons.prems c obtain w1 where
    one: "foldE (\<lambda>rule _. ipt_AppendUnique ipt table chain rule) rules () w = (Inr (), w1)"
    and rest: "foldE (\<lambda>(chain, rules) _. foldE (\<lambda>rule _. ipt_AppendUnique ipt table chain rule) rules ())
      cs () w1 = (Inr u, w')" and dist: "distinct (map fst cs)" "chain \<notin> fst ` set cs"
    by (auto simp: andThen_Inr)
  have w1: "tv w1 = (case tv w (table, chain) of None \<Rightarrow> tv w
      | Some rs \<Rightarrow> (tv w)((table, chain) \<mapsto> append_all rules rs))"
  proof (cases "tv w (table, chain)")
    case None
    with append_loop_exists [OF laws one] have "rules = []" by auto
    with one None show ?thesis by (simp add: ret_Inr)
  next
    case (Some rs)
    with append_loop [OF laws one] show ?thesis by simp
  qed
  have IH: "tv w' = appended table cs (tv w1)"
    "\<forall>c rules. (c, rules) \<in> set cs \<and> rules \<noteq> [] \<longrightarrow> tv w1 (table, c) \<noteq> None"
    using Cons.IH [OF rest dist(1)] by blast+
  have "tv w' k = appended table (c # cs) (tv w) k" for k
  proof (cases "k = (table, chain)")
    case True
    with dist(2) show ?thesis
      by (simp add: IH(1) w1 appended_def c rules_for_notin split: option.split)
  next
    case False
    then show ?thesis
      by (cases k) (auto simp: IH(1) w1 appended_def c split: option.split)
  qed
  moreover have "tv w (table, d) \<noteq> None" if "(d, rs) \<in> set (c # cs)" "rs \<noteq> []" for d rs
  proof (cases "d = chain")
    case True
    with that dist(2) c have "rules \<noteq> []" by force
    with append_loop_exists [OF laws one] True show ?thesis by auto
  next
    case False
    with that c IH(2) have "tv w1 (table, d) \<noteq> None" by auto
    with False show ?thesis by (auto simp: w1 split: option.splits)
  qed
  ultimately show ?case by blast
qed

lemma rules_for_grange:
  "range_order ord \<Longrightarrow> gomap_ok m \<Longrightarrow> rules_for (grange ord m) = rules_for m"
  by (simp add: rules_for_def map_of_grange fun_eq_iff)

lemma appended_grange:
  "range_order ord \<Longrightarrow> gomap_ok m \<Longrightarrow> appended table (grange ord m) tb = appended table m tb"
  by (rule ext) (simp only: appended_def rules_for_grange)

lemma fst_set_grange: "range_order ord \<Longrightarrow> fst ` set (grange ord m) = set (gkeys m)"
  by (force simp: set_grange set_gkeys)

lemma AddChains_tables:
  assumes laws: "iptables_laws ipt tv" and ok: "gomap_ok expected" "range_order ord2"
    and run: "AddChains ord1 ord2 ipt table expected w = (Inr u, w')"
  shows "tv w' = appended table expected (tv w) \<and>
    (\<forall>c r. r \<in> set (rules_for expected c) \<longrightarrow> tv w (table, c) \<noteq> None)"
proof -
  from run obtain w1 where new: "ipt_New ipt w = (Inr (), w1)"
    and loop: "foldE (\<lambda>(chain, rules) _. foldE (\<lambda>rule _. ipt_AppendUnique ipt table chain rule) rules ())
       (grange ord2 expected) () w1 = (Inr u, w')"
    unfolding AddChains_def appendChains_def by (auto simp: andThen_Inr)
  from iptables_lawsD(1) [OF laws] new have w1: "tv w1 = tv w" by (rule quietD)
  from append_chains_loop [OF laws loop distinct_grange [OF ok(2,1)]]
  have "tv w' = appended table expected (tv w)"
    and exists: "\<And>c rules. (c, rules) \<in> set (grange ord2 expected) \<Longrightarrow> rules \<noteq> [] \<Longrightarrow> tv w (table, c) \<noteq> None"
    by (auto simp: w1 appended_grange [OF ok(2,1)])
  moreover have "tv w (table, c) \<noteq> None" if "r \<in> set (rules_for expected c)" for c r
  proof -
    from that obtain rules where "map_of expected c = Some rules" and r: "r \<in> set rules"
      by (cases "map_of expected c") (auto simp: rules_for_def)
    moreover from r have "rules \<noteq> []" by auto
    ultimately show ?thesis using exists [of c rules] by (simp add: set_grange [OF ok(2)])
  qed
  ultimately show ?thesis by blast
qed

lemma ReplaceChains_tables:
  assumes laws: "iptables_laws ipt tv"
    and ok: "gomap_ok expected" "range_order ord1" "range_order ord2"
    and run: "ReplaceChains ord1 ord2 ipt table expected w = (Inr u, w')"
  shows "tv w' = (\<lambda>k. if fst k = table \<and> snd k \<in> set (gkeys expected)
    then Some (append_all (rules_for expected (snd k)) []) else tv w k)"
proof -
  from run obtain w1 w2 where new: "ipt_New ipt w = (Inr (), w1)"
    and clear: "foldE (\<lambda>(chain, _) _. ipt_ClearChain ipt table chain) (grange ord1 expected) () w1
      = (Inr (), w2)"
    and loop: "foldE (\<lambda>(chain, rules) _. foldE (\<lambda>rule _. ipt_AppendUnique ipt table chain rule) rules ())
       (grange ord2 expected) () w2 = (Inr u, w')"
    unfolding ReplaceChains_def appendChains_def by (auto simp: andThen_Inr)
  from iptables_lawsD(1) [OF laws] new have w1: "tv w1 = tv w" by (rule quietD)
  from append_chains_loop [OF laws loop distinct_grange [OF ok(3,1)]]
  have "tv w' = appended table expected (tv w2)"
    by (auto simp: appended_grange [OF ok(3,1)])
  moreover have "rules_for expected c = []" if "c \<notin> set (gkeys expected)" for c
    using that by (simp add: gkeys_def rules_for_notin)
  ultimately show ?thesis
    using clear_loop [OF laws clear]
    by (auto simp: w1 appended_def fun_eq_iff fst_set_grange [OF ok(2)] option.map_ident split: option.split)
qed

text \<open>Nothing else is touched, and the operations succeed when the library works.\<close>

lemma chains_quiet:
  assumes "iptables_quiet v ipt"
  shows "quiet v (ReplaceChains ord1 ord2 ipt table expected)"
    and "quiet v (AddChains ord1 ord2 ipt table expected)"
  using assms
  by (auto simp: iptables_quiet_def ReplaceChains_def AddChains_def appendChains_def split_def
      intro!: quiet_andThen quiet_foldE)

lemma append_loop_total:
  assumes laws: "iptables_laws ipt tv" "iptables_works ipt tv"
    and "\<forall>(c, rules) \<in> set cs. rules \<noteq> [] \<longrightarrow> tv w (table, c) \<noteq> None"
  shows "\<exists>w'. foldE (\<lambda>(chain, rules) _. foldE (\<lambda>rule _. ipt_AppendUnique ipt table chain rule) rules ()) cs () w
     = (Inr (), w')"
proof -
  let ?D = "\<lambda>w'. dom (tv w) \<subseteq> dom (tv w')"
  have one: "\<exists>u w2. ipt_AppendUnique ipt table c r w1 = (Inr u, w2) \<and> ?D w2"
    if "?D w1" "tv w (table, c) \<noteq> None" for c r w1
  proof -
    from that have "tv w1 (table, c) \<noteq> None" by blast
    with laws(2) obtain w2 where run: "ipt_AppendUnique ipt table c r w1 = (Inr (), w2)"
      unfolding iptables_works_def by metis
    from iptables_lawsD(3) [OF laws(1) run] that(1) have "?D w2" by auto
    with run show ?thesis by blast
  qed
  have "\<exists>u w'. foldE (\<lambda>(chain, rules) _. foldE (\<lambda>rule _. ipt_AppendUnique ipt table chain rule) rules ()) cs () w
     = (Inr u, w') \<and> ?D w'"
  proof (rule foldE_total)
    fix x w1 assume x: "x \<in> set cs" and D: "?D w1"
    obtain c rules where c: "x = (c, rules)" by (cases x)
    have "\<exists>u w'. foldE (\<lambda>rule _. ipt_AppendUnique ipt table c rule) rules () w1 = (Inr u, w') \<and> ?D w'"
    proof (rule foldE_total [where I = ?D])
      show "?D w1" by (rule D)
    next
      fix r w2 assume "r \<in> set rules" and D2: "?D w2"
      then have "rules \<noteq> []" by auto
      with x c assms(3) have "tv w (table, c) \<noteq> None" by auto
      with D2 show "\<exists>u w'. ipt_AppendUnique ipt table c r w2 = (Inr u, w') \<and> ?D w'" by (rule one)
    qed
    then show "\<exists>u w'. (\<lambda>(chain, rules) _. foldE (\<lambda>rule _. ipt_AppendUnique ipt table chain rule) rules ()) x s w1
       = (Inr u, w') \<and> ?D w'" for s by (simp add: c)
  qed simp
  then show ?thesis by auto
qed

lemma clear_loop_total:
  assumes "iptables_works ipt tv"
  shows "\<exists>w'. foldE (\<lambda>(chain, _) _. ipt_ClearChain ipt table chain) cs () w = (Inr (), w')"
proof -
  have "\<exists>u w'. foldE (\<lambda>(chain, _) _. ipt_ClearChain ipt table chain) cs () w = (Inr u, w') \<and> True"
    by (rule foldE_total) (use assms in \<open>auto simp: iptables_works_def split_def\<close>)
  then show ?thesis by auto
qed

lemma ReplaceChains_total:
  assumes laws: "iptables_laws ipt tv" "iptables_works ipt tv" and ord: "range_order ord1" "range_order ord2"
  shows "\<exists>w'. ReplaceChains ord1 ord2 ipt table expected w = (Inr (), w')"
proof -
  from laws(2) obtain w1 where new: "ipt_New ipt w = (Inr (), w1)" unfolding iptables_works_def by blast
  from clear_loop_total [OF laws(2)] obtain w2 where
    clear: "foldE (\<lambda>(chain, _) _. ipt_ClearChain ipt table chain) (grange ord1 expected) () w1 = (Inr (), w2)"
    by blast
  have "\<forall>(c, rules) \<in> set (grange ord2 expected). rules \<noteq> [] \<longrightarrow> tv w2 (table, c) \<noteq> None"
    using fst_grange_set [OF ord(2), of expected]
    by (force simp: clear_loop [OF laws(1) clear] fst_grange_set [OF ord(1)])
  from append_loop_total [OF laws this] obtain w3 where
    "foldE (\<lambda>(chain, rules) _. foldE (\<lambda>rule _. ipt_AppendUnique ipt table chain rule) rules ())
       (grange ord2 expected) () w2 = (Inr (), w3)" by blast
  with new clear show ?thesis by (auto simp: ReplaceChains_def appendChains_def andThen_def)
qed

lemma AddChains_total:
  assumes laws: "iptables_laws ipt tv" "iptables_works ipt tv" and ord: "range_order ord2"
    and exist: "\<forall>c \<in> dom (map_of expected). tv w (table, c) \<noteq> None"
  shows "\<exists>w'. AddChains ord1 ord2 ipt table expected w = (Inr (), w')"
proof -
  from laws(2) obtain w1 where new: "ipt_New ipt w = (Inr (), w1)" unfolding iptables_works_def by blast
  from iptables_lawsD(1) [OF laws(1)] new have "tv w1 = tv w" by (rule quietD)
  with exist have "\<forall>(c, rules) \<in> set (grange ord2 expected). rules \<noteq> [] \<longrightarrow> tv w1 (table, c) \<noteq> None"
    by (auto simp: set_grange [OF ord])
  from append_loop_total [OF laws this] obtain w3 where
    "foldE (\<lambda>(chain, rules) _. foldE (\<lambda>rule _. ipt_AppendUnique ipt table chain rule) rules ())
       (grange ord2 expected) () w1 = (Inr (), w3)" by blast
  with new show ?thesis by (auto simp: AddChains_def appendChains_def io_eval)
qed

section \<open>What the check finds\<close>

definition present :: "tables \<Rightarrow> string \<Rightarrow> (string \<times> rule_spec list) list \<Rightarrow> bool" where
  "present tb table cs \<longleftrightarrow>
     (\<forall>(c, rules) \<in> set cs. \<forall>r \<in> set rules. \<exists>rs. tb (table, c) = Some rs \<and> r \<in> set rs)"

lemma checkRules_correct:
  assumes "iptables_laws ipt tv"
  shows "\<exists>b w'. checkRules ipt table chain rules w = (Inr b, w') \<and> tv w' = tv w \<and>
    (b \<longrightarrow> present (tv w) table [(chain, rules)]) \<and>
    (iptables_answers ipt tv \<and> present (tv w) table [(chain, rules)] \<longrightarrow> b)"
proof (induction rules arbitrary: w)
  case Nil
  then show ?case by (intro exI [of _ True]) (simp add: io_eval present_def)
next
  case (Cons r rules)
  obtain x w1 where x: "ipt_Exists ipt table chain r w = (x, w1)" by (cases "ipt_Exists ipt table chain r w")
  from iptables_lawsD(4) [OF assms] x have w1: "tv w1 = tv w" by (rule quietD)
  show ?case
  proof (cases x)
    case (Inl e)
    moreover have "\<not> (iptables_answers ipt tv \<and> present (tv w) table [(chain, r # rules)])"
    proof
      assume a: "iptables_answers ipt tv \<and> present (tv w) table [(chain, r # rules)]"
      then have "tv w (table, chain) \<noteq> None" by (auto simp: present_def)
      with a x Inl show False unfolding iptables_answers_def by (metis Inl_Inr_False fst_conv)
    qed
    ultimately show ?thesis using x w1 by (intro exI [of _ False]) (simp add: io_eval)
  next
    case (Inr b)
    with iptables_lawsD(5) [OF assms] x
    have b: "b \<longleftrightarrow> (\<exists>rs. tv w (table, chain) = Some rs \<and> r \<in> set rs)" by blast
    have split: "present (tv w) table [(chain, r # rules)] \<longleftrightarrow>
        b \<and> present (tv w) table [(chain, rules)]"
      by (auto simp: present_def b)
    show ?thesis
    proof (cases b)
      case True
      with Cons.IH [of w1] x Inr w1 show ?thesis by (simp add: io_eval split)
    next
      case False
      with x Inr w1 show ?thesis by (intro exI [of _ False]) (simp add: io_eval split)
    qed
  qed
qed

lemma checkChains_correct:
  assumes "iptables_laws ipt tv"
  shows "\<exists>b w'. checkChains ipt table cs w = (Inr b, w') \<and> tv w' = tv w \<and>
    (b \<longrightarrow> present (tv w) table cs) \<and>
    (iptables_answers ipt tv \<and> present (tv w) table cs \<longrightarrow> b)"
proof (induction cs arbitrary: w)
  case Nil
  then show ?case by (intro exI [of _ True]) (simp add: io_eval present_def)
next
  case (Cons c cs)
  obtain b w1 where b: "checkRules ipt table (fst c) (snd c) w = (Inr b, w1)" and w1: "tv w1 = tv w"
    and sound: "b \<longrightarrow> present (tv w) table [c]"
    and complete: "iptables_answers ipt tv \<and> present (tv w) table [c] \<longrightarrow> b"
    using checkRules_correct [OF assms, of table "fst c" "snd c" w] by auto
  have split: "present (tv w) table (c # cs) \<longleftrightarrow> present (tv w) table [c] \<and> present (tv w) table cs"
    by (auto simp: present_def)
  show ?case
  proof (cases b)
    case True
    with Cons.IH [of w1] b w1 sound show ?thesis by (auto simp: io_eval split)
  next
    case False
    with b w1 complete show ?thesis by (auto simp: io_eval split)
  qed
qed

lemma present_grange: "range_order ord \<Longrightarrow> gomap_ok m \<Longrightarrow> present tb table (grange ord m) \<longleftrightarrow> present tb table m"
  unfolding present_def by (simp add: set_grange gomap_ok_def gkeys_def map_of_eq_Some_iff)

lemma CheckChainsExist_correct:
  assumes "iptables_laws ipt tv" and "range_order ord" and "gomap_ok expected"
  shows "\<exists>b w'. CheckChainsExist ord ipt table expected w = (Inr b, w') \<and> tv w' = tv w \<and>
    (b \<longrightarrow> present (tv w) table expected) \<and>
    (iptables_answers ipt tv \<and> present (tv w) table expected \<longrightarrow> b)"
proof -
  obtain x w1 where x: "ipt_New ipt w = (x, w1)" by (cases "ipt_New ipt w")
  from iptables_lawsD(1) [OF assms(1)] x have w1: "tv w1 = tv w" by (rule quietD)
  show ?thesis
  proof (cases x)
    case (Inl e)
    with x have "\<not> iptables_answers ipt tv" unfolding iptables_answers_def by (metis Inl_Inr_False fst_conv)
    with x Inl w1 show ?thesis by (intro exI [of _ False]) (simp add: CheckChainsExist_def io_eval)
  next
    case (Inr u)
    with checkChains_correct [OF assms(1), of table "grange ord expected" w1] x w1 show ?thesis
      by (simp add: CheckChainsExist_def checkChainsExist_def io_eval present_grange [OF assms(2,3)])
  qed
qed

lemma check_quiet:
  assumes "iptables_quiet v ipt"
  shows "quiet v (CheckChainsExist ord ipt table expected)"
proof -
  have rules: "quiet v (checkRules ipt table chain rules)" for chain rules
    using assms by (induction rules)
      (auto simp: iptables_quiet_def intro!: quiet_andThen quiet_attempt split: sum.split)
  have "quiet v (checkChains ipt table cs)" for cs
    by (induction cs) (auto intro!: quiet_andThen rules)
  with assms show ?thesis
    by (auto simp: iptables_quiet_def CheckChainsExist_def checkChainsExist_def
        intro!: quiet_andThen quiet_attempt split: sum.split)
qed

section \<open>Properties\<close>

text \<open>
  C19: What \<^verbatim>\<open>ReplaceChains\<close> leaves. If it succeeds, in whatever order the map is
  visited, every chain of \<open>expected\<close> exists and holds exactly its expected rules, each once (and
  in their order when they are distinct); every other chain of the table and every other
  table is as before.
\<close>

theorem ReplaceChains_replaces:
  assumes "iptables_laws ipt tv" and "gomap_ok expected"
    and "range_order ord1" and "range_order ord2"
    and "ReplaceChains ord1 ord2 ipt table expected w = (Inr u, w')"
  shows "(\<forall>c rules. map_of expected c = Some rules \<longrightarrow>
       (\<exists>rs. tv w' (table, c) = Some rs \<and> set rs = set rules \<and> distinct rs \<and>
          (distinct rules \<longrightarrow> rs = rules))) \<and>
    (\<forall>t c. (t, c) \<notin> {table} \<times> dom (map_of expected) \<longrightarrow> tv w' (t, c) = tv w (t, c))"
proof -
  note t = ReplaceChains_tables [OF assms]
  have "\<exists>rs. tv w' (table, c) = Some rs \<and> set rs = set rules \<and> distinct rs \<and> (distinct rules \<longrightarrow> rs = rules)"
    if "map_of expected c = Some rules" for c rules
  proof -
    from that have "c \<in> set (gkeys expected)" by (auto simp: set_gkeys)
    moreover from that have "rules_for expected c = rules" by (simp add: rules_for_def)
    ultimately have "tv w' (table, c) = Some (append_all rules [])" by (simp add: t)
    then show ?thesis
      by (simp add: set_append_all distinct_append_all append_all_distinct [of "[]"])
  qed
  moreover have "tv w' (t, c) = tv w (t, c)" if "(t, c) \<notin> {table} \<times> dom (map_of expected)" for t c
    using that by (auto simp: t set_gkeys)
  ultimately show ?thesis by blast
qed

text \<open>
  C25: What \<^verbatim>\<open>AddChains\<close> leaves. If it succeeds, every chain keeps its rules and
  their order, a chain of \<open>expected\<close> with rules existed before and now has all of them, and
  nothing but these rules was added.
\<close>

theorem AddChains_adds:
  assumes "iptables_laws ipt tv" and "gomap_ok expected" and "range_order ord2"
    and "AddChains ord1 ord2 ipt table expected w = (Inr u, w')"
  shows "(\<forall>t c rs. tv w (t, c) = Some rs \<longrightarrow>
       (\<exists>new. tv w' (t, c) = Some (rs @ new) \<and>
          set new \<subseteq> (if t = table then set (rules_for expected c) else {}))) \<and>
    (\<forall>c r. r \<in> set (rules_for expected c) \<longrightarrow> (\<exists>rs. tv w' (table, c) = Some rs \<and> r \<in> set rs)) \<and>
    dom (tv w') = dom (tv w)"
proof -
  note t = AddChains_tables [OF assms]
  have "\<exists>new. tv w' (t', c) = Some (rs @ new) \<and>
          set new \<subseteq> (if t' = table then set (rules_for expected c) else {})"
    if "tv w (t', c) = Some rs" for t' c rs
  proof (cases "t' = table")
    case True
    obtain new where new: "append_all (rules_for expected c) rs = rs @ new"
      using append_all_prefix by blast
    have "append_all rules rs = rs @ new \<Longrightarrow> set new \<subseteq> set rules" for rules rs new
    proof (induction rules arbitrary: rs new)
      case (Cons r rules)
      show ?case
      proof (cases "r \<in> set rs")
        case True
        with Cons show ?thesis by (auto simp: add_unique_def)
      next
        case False
        with append_all_prefix [of rules "rs @ [r]"] Cons.prems obtain new' where "new = r # new'"
          by (auto simp: add_unique_def)
        with Cons.IH [of "rs @ [r]" new'] Cons.prems False show ?thesis by (auto simp: add_unique_def)
      qed
    qed simp
    with new have "set new \<subseteq> set (rules_for expected c)" by blast
    with True new that show ?thesis by (simp add: t appended_def)
  next
    case False
    with that show ?thesis by (simp add: t appended_def)
  qed
  moreover have "\<exists>rs. tv w' (table, c) = Some rs \<and> r \<in> set rs" if "r \<in> set (rules_for expected c)" for c r
    using t that by (auto simp: appended_def set_append_all)
  moreover have "dom (tv w') = dom (tv w)" using t by (auto simp: appended_def split: if_splits)
  ultimately show ?thesis by blast
qed

text \<open>
  The check. \<^verbatim>\<open>CheckChainsExist\<close> always returns a boolean, changes no table, and
  answers yes only if every expected rule is in its chain; when the library answers, it says
  yes exactly then. So after a successful \<^verbatim>\<open>ReplaceChains\<close> it says yes.
\<close>

theorem CheckChainsExist_decides:
  assumes "iptables_laws ipt tv" and "gomap_ok expected" and "range_order ord"
  shows "\<exists>b w'. CheckChainsExist ord ipt table expected w = (Inr b, w') \<and> tv w' = tv w \<and>
    (b \<longrightarrow> present (tv w) table expected) \<and>
    (iptables_answers ipt tv \<longrightarrow>
       b = present (tv w) table expected \<and>
       (\<forall>ord1 ord2 u w0. range_order ord1 \<and> range_order ord2 \<and>
          ReplaceChains ord1 ord2 ipt table expected w0 = (Inr u, w) \<longrightarrow> b))"
proof -
  have "present (tv w) table expected" if "range_order ord1 \<and> range_order ord2 \<and>
      ReplaceChains ord1 ord2 ipt table expected w0 = (Inr u, w)" for ord1 ord2 u w0
  proof -
    from that have o: "range_order ord1" "range_order ord2"
      and run: "ReplaceChains ord1 ord2 ipt table expected w0 = (Inr u, w)" by auto
    have "\<exists>rs. tv w (table, c) = Some rs \<and> r \<in> set rs" if "(c, rules) \<in> set expected" "r \<in> set rules"
      for c rules r
    proof -
      from that assms(2) have "map_of expected c = Some rules" by (simp add: gomap_ok_def gkeys_def)
      moreover from this have "c \<in> set (gkeys expected)" by (auto simp: set_gkeys)
      ultimately show ?thesis
        using that(2) by (simp add: ReplaceChains_tables [OF assms(1,2) o run] set_append_all rules_for_def)
    qed
    then show ?thesis unfolding present_def by blast
  qed
  with CheckChainsExist_correct [OF assms(1,3,2), of table w] show ?thesis by blast
qed

section \<open>Tables in memory\<close>

definition mem_iptables ::
  "('w \<Rightarrow> ((string \<times> string) \<times> rule_spec list) list) \<Rightarrow>
     (((string \<times> string) \<times> rule_spec list) list \<Rightarrow> 'w \<Rightarrow> 'w) \<Rightarrow> 'w iptables" where
  "mem_iptables get put =
     \<lparr>ipt_New = ret (),
      ipt_ClearChain = (\<lambda>t c w. (Inr (), put (AList.update (t, c) [] (get w)) w)),
      ipt_AppendUnique = (\<lambda>t c r w. case map_of (get w) (t, c) of
          None \<Rightarrow> (Inl (ApiError ''no chain''), w)
        | Some rs \<Rightarrow> (Inr (), put (AList.update (t, c) (add_unique r rs) (get w)) w)),
      ipt_Exists = (\<lambda>t c r w. (case map_of (get w) (t, c) of
          None \<Rightarrow> Inl (ApiError ''no chain'')
        | Some rs \<Rightarrow> Inr (r \<in> set rs), w))\<rparr>"

lemma mem_iptables_laws:
  assumes "\<And>x w. get (put x w) = x"
  shows "iptables_laws (mem_iptables get put) (\<lambda>w. map_of (get w))"
  using assms
  by (auto simp: iptables_laws_def mem_iptables_def quiet_def ret_def update_conv' split: option.splits)

lemma mem_iptables_answers: "iptables_answers (mem_iptables get put) (\<lambda>w. map_of (get w))"
  by (auto simp: iptables_answers_def mem_iptables_def ret_def split: option.split)

lemma mem_iptables_works: "iptables_works (mem_iptables get put) (\<lambda>w. map_of (get w))"
  by (auto simp: iptables_works_def mem_iptables_def ret_def split: option.split)

lemma mem_iptables_quiet:
  assumes "\<And>x w. v (put x w) = v w"
  shows "iptables_quiet v (mem_iptables get put)"
  using assms by (auto simp: iptables_quiet_def mem_iptables_def quiet_def ret_def split: option.split)

definition test_ipt :: "((string \<times> string) \<times> rule_spec list) list iptables" where
  "test_ipt = mem_iptables (\<lambda>w. w) (\<lambda>x _. x)"

definition test_chains :: chains where
  "test_chains = [(ChainPrerouting, [[''-j'', ''a''], [''-j'', ''b''], [''-j'', ''a'']])]"

lemma test_ipt_laws: "iptables_laws test_ipt map_of" "iptables_answers test_ipt map_of"
  using mem_iptables_laws [of "\<lambda>w. w" "\<lambda>x _. x"] mem_iptables_answers [of "\<lambda>w. w" "\<lambda>x _. x"]
  by (simp_all add: test_ipt_def)

lemma test_chains_ok: "gomap_ok test_chains"
  by (simp add: test_chains_def gomap_ok_def gkeys_def)

lemma run_test_replace:
  "ReplaceChains rev rev test_ipt TableNAT test_chains [((TableNAT, ChainPrerouting), [[''-j'', ''old'']])] =
     (Inr (), [((TableNAT, ChainPrerouting), [[''-j'', ''a''], [''-j'', ''b'']])])"
  by (simp add: ReplaceChains_def appendChains_def io_eval test_ipt_def mem_iptables_def test_chains_def
      grange_def gkeys_def add_unique_def)

lemma run_test_add:
  "AddChains rev rev test_ipt TableNAT test_chains [((TableNAT, ChainPrerouting), [[''-j'', ''old'']])] =
     (Inr (), [((TableNAT, ChainPrerouting), [[''-j'', ''old''], [''-j'', ''a''], [''-j'', ''b'']])])"
  by (simp add: AddChains_def appendChains_def io_eval test_ipt_def mem_iptables_def test_chains_def
      grange_def gkeys_def add_unique_def)

theorem ReplaceChains_replaces_witness:
  "\<exists>w' rs. ReplaceChains rev rev test_ipt TableNAT test_chains
       [((TableNAT, ChainPrerouting), [[''-j'', ''old'']])] = (Inr (), w') \<and>
     map_of w' (TableNAT, ChainPrerouting) = Some rs \<and> distinct rs \<and>
     set rs = {[''-j'', ''a''], [''-j'', ''b'']}"
proof -
  have "map_of test_chains ChainPrerouting = Some [[''-j'', ''a''], [''-j'', ''b''], [''-j'', ''a'']]"
    by (simp add: test_chains_def)
  with ReplaceChains_replaces [OF test_ipt_laws(1) test_chains_ok range_order_rev range_order_rev
      run_test_replace, THEN conjunct1] run_test_replace
  show ?thesis by fastforce
qed

theorem AddChains_adds_witness:
  "\<exists>w' new. AddChains rev rev test_ipt TableNAT test_chains
       [((TableNAT, ChainPrerouting), [[''-j'', ''old'']])] = (Inr (), w') \<and>
     map_of w' (TableNAT, ChainPrerouting) = Some ([''-j'', ''old''] # new)"
proof -
  have "map_of [((TableNAT, ChainPrerouting), [[''-j'', ''old'']])] (TableNAT, ChainPrerouting) =
      Some [[''-j'', ''old'']]" by simp
  from AddChains_adds [OF test_ipt_laws(1) test_chains_ok range_order_rev run_test_add,
      THEN conjunct1, rule_format, OF this]
  obtain new where "map_of [((TableNAT, ChainPrerouting), [[''-j'', ''old''], [''-j'', ''a''], [''-j'', ''b'']])]
      (TableNAT, ChainPrerouting) = Some ([[''-j'', ''old'']] @ new)" by blast
  with run_test_add show ?thesis by (metis append_Cons append_Nil)
qed

theorem CheckChainsExist_decides_witness:
  "\<exists>w'. CheckChainsExist rev test_ipt TableNAT test_chains
     [((TableNAT, ChainPrerouting), [[''-j'', ''a''], [''-j'', ''b'']])] = (Inr True, w')"
proof -
  let ?w = "[((TableNAT, ChainPrerouting), [[''-j'', ''a''], [''-j'', ''b'']])]"
  from CheckChainsExist_decides [OF test_ipt_laws(1) test_chains_ok range_order_rev, of TableNAT ?w]
    test_ipt_laws(2)
  obtain b w' where check: "CheckChainsExist rev test_ipt TableNAT test_chains ?w = (Inr b, w')"
    and yes: "\<forall>ord1 ord2 u w0. range_order ord1 \<and> range_order ord2 \<and>
          ReplaceChains ord1 ord2 test_ipt TableNAT test_chains w0 = (Inr u, ?w) \<longrightarrow> b" by metis
  have b using yes [rule_format, OF conjI [OF range_order_rev conjI [OF range_order_rev run_test_replace]]] .
  with check show ?thesis by auto
qed

end
