(* ===== verification/AgentLoop.thy ===== *)
theory AgentLoop
  imports SyncStatus Iptables
begin

text \<open>
  What the agents of \<^verbatim>\<open>pkg/forwarder\<close> and \<^verbatim>\<open>pkg/gateway\<close> share. Both
  have the same \<^verbatim>\<open>Reconcile\<close> around their own \<^verbatim>\<open>syncRule\<close> and
  \<^verbatim>\<open>ruleSynced\<close>; the locale \<open>sync_agent\<close> states what the loop relies on and proves,
  once, what one pass does and how passes converge.

  An agent's world is its own state (the fields of its reconciler and the goroutines it
  started) and an environment \<open>'w\<close> with the API server and the kernel.
\<close>

record ('a, 'w) agent =
  ag_own :: 'a
  ag_env :: 'w

text \<open>A computation on the environment, a step of the agent's own state, and reading it.\<close>

definition onEnv :: "('w, 'b) io \<Rightarrow> (('a, 'w) agent, 'b) io" where
  "onEnv m = (\<lambda>s. case m (ag_env s) of (r, e) \<Rightarrow> (r, s\<lparr>ag_env := e\<rparr>))"

definition onOwn :: "('a \<Rightarrow> 'a result) \<Rightarrow> (('a, 'w) agent, unit) io" where
  "onOwn h = (\<lambda>s. case h (ag_own s) of
       Inl e \<Rightarrow> (Inl e, s)
     | Inr a \<Rightarrow> (Inr (), s\<lparr>ag_own := a\<rparr>))"

definition getOwn :: "(('a, 'w) agent, 'a) io" where
  "getOwn = (\<lambda>s. (Inr (ag_own s), s))"

lemma onEnv_Inr: "onEnv m s = (Inr x, s') \<longleftrightarrow> (\<exists>e. m (ag_env s) = (Inr x, e) \<and> s' = s\<lparr>ag_env := e\<rparr>)"
  by (auto simp: onEnv_def split: prod.splits)

lemma onOwn_Inr:
  "onOwn h s = (Inr u, s') \<longleftrightarrow> (\<exists>a. h (ag_own s) = Inr a \<and> s' = s\<lparr>ag_own := a\<rparr>)"
  by (auto simp: onOwn_def split: sum.splits)

lemma getOwn_Inr: "getOwn s = (Inr a, s') \<longleftrightarrow> a = ag_own s \<and> s' = s"
  by (auto simp: getOwn_def)

lemmas agent_run = run_Inr onEnv_Inr onOwn_Inr getOwn_Inr

lemma onEnv_eval: "m (ag_env s) = (r, e) \<Longrightarrow> onEnv m s = (r, s\<lparr>ag_env := e\<rparr>)"
  by (simp add: onEnv_def)

lemma onOwn_eval: "h (ag_own s) = Inr a \<Longrightarrow> onOwn h s = (Inr (), s\<lparr>ag_own := a\<rparr>)"
  by (simp add: onOwn_def)

text \<open>\<open>v\<close> sees the environment only.\<close>

definition env_view :: "('w \<Rightarrow> 'v) \<Rightarrow> ('a, 'w) agent \<Rightarrow> 'v" where
  "env_view v s = v (ag_env s)"

lemma env_view_simps [simp]:
  "env_view v (s\<lparr>ag_own := a\<rparr>) = env_view v s" "env_view v (s\<lparr>ag_env := e\<rparr>) = v e"
  by (simp_all add: env_view_def)

lemma quiet_onEnv [intro]: "quiet v m \<Longrightarrow> quiet (env_view v) (onEnv m)"
  by (auto simp: quiet_def onEnv_def env_view_def split: prod.split) (metis snd_conv)

lemma quiet_onOwn [simp, intro]: "quiet (env_view v) (onOwn h)"
  by (auto simp: quiet_def onOwn_def split: sum.split)

lemma quiet_getOwn [simp, intro]: "quiet (env_view v) getOwn"
  by (simp add: quiet_def getOwn_def)

text \<open>\<open>preserves P m\<close>: \<open>m\<close> keeps the property \<open>P\<close> of the agent's own state, whatever it answers.\<close>

definition preserves :: "('a \<Rightarrow> bool) \<Rightarrow> (('a, 'w) agent, 'b) io \<Rightarrow> bool" where
  "preserves P m \<longleftrightarrow> (\<forall>s. P (ag_own s) \<longrightarrow> P (ag_own (snd (m s))))"

lemma preservesD: "preserves P m \<Longrightarrow> P (ag_own s) \<Longrightarrow> m s = (r, s') \<Longrightarrow> P (ag_own s')"
  unfolding preserves_def by (metis snd_conv)

lemma preserves_onEnv [simp, intro]: "preserves P (onEnv m)"
  by (simp add: preserves_def onEnv_def split: prod.split)

lemma preserves_onOwn [intro]: "(\<And>a a'. P a \<Longrightarrow> h a = Inr a' \<Longrightarrow> P a') \<Longrightarrow> preserves P (onOwn h)"
  by (simp add: preserves_def onOwn_def split: sum.split)

lemma preserves_basic [simp, intro]:
  "preserves P getOwn" "preserves P (ret x)" "preserves P (fail e)" "preserves P (lift_result r)"
  by (simp_all add: preserves_def getOwn_def ret_def fail_def lift_result_def)

lemma preserves_if [intro]: "preserves P m \<Longrightarrow> preserves P m' \<Longrightarrow> preserves P (if b then m else m')"
  by simp

lemma preserves_andThen [intro]:
  fixes m :: "(('a, 'w) agent, 'b) io"
  assumes "preserves P m" and "\<And>x. preserves P (f x)"
  shows "preserves P (andThen m f)"
  unfolding preserves_def
proof (intro allI impI)
  fix s :: "('a, 'w) agent" assume P: "P (ag_own s)"
  obtain r s' where m: "m s = (r, s')" by (cases "m s")
  then have P': "P (ag_own s')" using preservesD [OF assms(1) P] by blast
  show "P (ag_own (snd (andThen m f s)))"
  proof (cases r)
    case (Inr x)
    with m P' assms(2) [of x] show ?thesis by (simp add: andThen_def preserves_def)
  qed (use m P' in \<open>simp add: andThen_def\<close>)
qed

section \<open>Building the expected rules\<close>

text \<open>\<open>appendRule chain rule it\<close> is \<^verbatim>\<open>it[chain] = append(it[chain], rule)\<close>.\<close>

definition appendRule :: "string \<Rightarrow> rule_spec \<Rightarrow> chains \<Rightarrow> chains" where
  "appendRule chain rule it =
     gset chain ((case map_of it chain of None \<Rightarrow> [] | Some rs \<Rightarrow> rs) @ [rule]) it"

lemma appendRule_simps:
  "gomap_ok it \<Longrightarrow> gomap_ok (appendRule c r it)"
  "rules_for (appendRule c r it) d = (if d = c then rules_for it c @ [r] else rules_for it d)"
  "dom (map_of (appendRule c r it)) = insert c (dom (map_of it))"
  by (auto simp: appendRule_def rules_for_def)

lemma fold_appendRule:
  assumes "gomap_ok it"
  shows "gomap_ok (fold (\<lambda>r it. appendRule c2 (g r) (appendRule c1 (f r) it)) rs it) \<and>
    (c1 \<noteq> c2 \<longrightarrow>
      rules_for (fold (\<lambda>r it. appendRule c2 (g r) (appendRule c1 (f r) it)) rs it) c1 =
        rules_for it c1 @ map f rs \<and>
      rules_for (fold (\<lambda>r it. appendRule c2 (g r) (appendRule c1 (f r) it)) rs it) c2 =
        rules_for it c2 @ map g rs) \<and>
    ({c1, c2} \<subseteq> dom (map_of it) \<longrightarrow>
      dom (map_of (fold (\<lambda>r it. appendRule c2 (g r) (appendRule c1 (f r) it)) rs it)) = dom (map_of it))"
  using assms
proof (induction rs arbitrary: it)
  case Nil
  then show ?case by simp
next
  case (Cons r rs)
  let ?it = "appendRule c2 (g r) (appendRule c1 (f r) it)"
  have "gomap_ok ?it" using Cons.prems by (simp add: appendRule_simps)
  note IH = Cons.IH [OF this]
  have "dom (map_of ?it) = dom (map_of it)" if "{c1, c2} \<subseteq> dom (map_of it)"
    using that by (auto simp: appendRule_simps(3))
  with IH show ?case by (simp add: appendRule_simps(2))
qed

lemma two_chains:
  assumes "c1 \<noteq> c2"
  shows "gomap_ok (fold (\<lambda>r it. appendRule c2 (g r) (appendRule c1 (f r) it)) rs [(c1, []), (c2, [])])"
    and "rules_for (fold (\<lambda>r it. appendRule c2 (g r) (appendRule c1 (f r) it)) rs [(c1, []), (c2, [])]) c1 = map f rs"
    and "rules_for (fold (\<lambda>r it. appendRule c2 (g r) (appendRule c1 (f r) it)) rs [(c1, []), (c2, [])]) c2 = map g rs"
    and "set (gkeys (fold (\<lambda>r it. appendRule c2 (g r) (appendRule c1 (f r) it)) rs [(c1, []), (c2, [])])) = {c1, c2}"
proof -
  have "gomap_ok [(c1, []), (c2, [])]" using assms by (simp add: gomap_ok_def gkeys_def)
  note f = fold_appendRule [OF this, of c2 g c1 f rs]
  have "{c1, c2} \<subseteq> dom (map_of [(c1, []), (c2, [])])" by auto
  with f assms show "gomap_ok (fold (\<lambda>r it. appendRule c2 (g r) (appendRule c1 (f r) it)) rs [(c1, []), (c2, [])])"
    "rules_for (fold (\<lambda>r it. appendRule c2 (g r) (appendRule c1 (f r) it)) rs [(c1, []), (c2, [])]) c1 = map f rs"
    "rules_for (fold (\<lambda>r it. appendRule c2 (g r) (appendRule c1 (f r) it)) rs [(c1, []), (c2, [])]) c2 = map g rs"
    "set (gkeys (fold (\<lambda>r it. appendRule c2 (g r) (appendRule c1 (f r) it)) rs [(c1, []), (c2, [])])) = {c1, c2}"
    by (auto simp: set_gkeys)
qed

section \<open>The host\<close>

text \<open>
  The host of an agent: the orders of its loops over maps (the n-th of them), the iptables
  library, and the view of the kernel's tables in which its laws are stated.
\<close>

record 'w host =
  h_ords :: "nat \<Rightarrow> key_order"
  h_ipt :: "'w iptables"
  h_tables :: "'w \<Rightarrow> tables"

definition host_laws :: "('w, 'z) host_scheme \<Rightarrow> bool" where
  "host_laws h \<longleftrightarrow> (\<forall>n. range_order (h_ords h n)) \<and> iptables_laws (h_ipt h) (h_tables h)"

definition host_works :: "('w, 'z) host_scheme \<Rightarrow> ('w \<Rightarrow> 'v) \<Rightarrow> bool" where
  "host_works h v \<longleftrightarrow> iptables_works (h_ipt h) (h_tables h) \<and> iptables_answers (h_ipt h) (h_tables h) \<and>
     iptables_quiet v (h_ipt h)"

lemma host_lawsD:
  assumes "host_laws h"
  shows "range_order (h_ords h n)" "iptables_laws (h_ipt h) (h_tables h)"
  using assms by (simp_all add: host_laws_def)

lemma host_worksD:
  assumes "host_works h v"
  shows "iptables_works (h_ipt h) (h_tables h)" "iptables_answers (h_ipt h) (h_tables h)"
    "iptables_quiet v (h_ipt h)"
  using assms by (simp_all add: host_works_def)

section \<open>The contract of an agent\<close>

text \<open>
  \<open>p\<close> stands for the libraries an agent calls. \<open>laws p\<close> is their documented behaviour,
  \<open>works p v\<close> says that they succeed and leave the API server \<open>v\<close> alone, \<open>tables_of p\<close> is the
  part of the environment the agent manages. \<open>ok\<close> is the agent's invariant, \<open>possible x\<close> says
  that the resource \<open>x\<close> can be applied at all, and \<open>applied p x s\<close> that it is.
\<close>

locale sync_agent = sync_object view meta_of put_status needSync needCheckSync setSyncing setSynced spec
  for view :: "('c \<Rightarrow> string \<rightharpoonup> condition_status) \<Rightarrow> 'o \<Rightarrow> sync_view"
    and meta_of :: "'o \<Rightarrow> object_meta"
    and put_status :: "string \<Rightarrow> 'o \<Rightarrow> 'o \<Rightarrow> 'o"
    and needSync :: "'c libs \<Rightarrow> 'o \<Rightarrow> bool"
    and needCheckSync :: "'c libs \<Rightarrow> 'o \<Rightarrow> bool"
    and setSyncing :: "'c libs \<Rightarrow> ('w, 'o) resource \<Rightarrow> 'o \<Rightarrow> ('w, 'o) io"
    and setSynced :: "'c libs \<Rightarrow> ('w, 'o) resource \<Rightarrow> 'o \<Rightarrow> ('w, 'o) io"
    and spec :: "'o \<Rightarrow> 's" +
  fixes mine :: "'a \<Rightarrow> string \<Rightarrow> string \<Rightarrow> bool"
    and syncRule :: "'p \<Rightarrow> 'o \<Rightarrow> (('a, 'w) agent, unit) io"
    and ruleSynced :: "'p \<Rightarrow> 'o \<Rightarrow> (('a, 'w) agent, bool) io"
    and reconcile :: "'c libs \<Rightarrow> 'p \<Rightarrow> ('w, 'o) resource \<Rightarrow> string \<Rightarrow> string \<Rightarrow> (('a, 'w) agent, unit) io"
    and tables_of :: "'p \<Rightarrow> 'w \<Rightarrow> tables"
    and laws :: "'p \<Rightarrow> bool"
    and works :: "'p \<Rightarrow> ('w \<Rightarrow> nsname \<rightharpoonup> 'o) \<Rightarrow> bool"
    and ok :: "'p \<Rightarrow> ('a, 'w) agent \<Rightarrow> bool"
    and possible :: "'o \<Rightarrow> bool"
    and applied :: "'p \<Rightarrow> 'o \<Rightarrow> ('a, 'w) agent \<Rightarrow> bool"
  assumes reconcile_mine:
      "mine (ag_own s) namespace name \<Longrightarrow>
       res_Get R \<lparr>nn_Namespace = namespace, nn_Name = name\<rparr> (ag_env s) = (Inr x, e) \<Longrightarrow>
       reconcile L p R namespace name s =
         (if needSync L x
          then andThen (onEnv (setSyncing L R x)) (\<lambda>x.
               andThen (syncRule p x) (\<lambda>_.
               andThen (onEnv (setSynced L R x)) (\<lambda>_. ret ())))
          else if needCheckSync L x
          then andThen (ruleSynced p x) (\<lambda>synced.
               if \<not> synced then andThen (onEnv (setSyncing L R x)) (\<lambda>_. ret ()) else ret ())
          else ret ()) (s\<lparr>ag_env := e\<rparr>)"
    and reconcile_error:
      "mine (ag_own s) namespace name \<Longrightarrow>
       res_Get R \<lparr>nn_Namespace = namespace, nn_Name = name\<rparr> (ag_env s) = (Inl err, e) \<Longrightarrow>
       reconcile L p R namespace name s = (Inl err, s\<lparr>ag_env := e\<rparr>)"
    and reconcile_foreign:
      "\<not> mine (ag_own s) namespace name \<Longrightarrow> reconcile L p R namespace name s = (Inr (), s)"
    and sync_safe:
      "\<lbrakk>laws p; ok p s; syncRule p x s = (Inr u, s')\<rbrakk> \<Longrightarrow>
       applied p x s' \<and> ok p s' \<and> mine (ag_own s') = mine (ag_own s)"
    and sync_live: "\<lbrakk>laws p; works p v; ok p s; possible x\<rbrakk> \<Longrightarrow> \<exists>s'. syncRule p x s = (Inr (), s')"
    and sync_quiet: "works p v \<Longrightarrow> quiet (env_view v) (syncRule p x)"
    and check_live: "\<lbrakk>laws p; works p v; applied p x s\<rbrakk> \<Longrightarrow> \<exists>s'. ruleSynced p x s = (Inr True, s')"
    and check_quiet: "works p v \<Longrightarrow> quiet (env_view v) (ruleSynced p x)"
    and check_keeps:
      "laws p \<Longrightarrow> ruleSynced p x s = (r, s') \<Longrightarrow>
       tables_of p (ag_env s') = tables_of p (ag_env s) \<and> ag_own s' = ag_own s"
    and spec_only:
      "spec x = spec y \<Longrightarrow> applied p x s = applied p y s" "spec x = spec y \<Longrightarrow> possible x = possible y"
    and frame:
      "tables_of p (ag_env s') = tables_of p (ag_env s) \<Longrightarrow> ag_own s' = ag_own s \<Longrightarrow>
         ok p s' = ok p s \<and> applied p x s' = applied p x s"
begin

lemma setSyncing_keeps:
  assumes "conditions_laws L look" and "setSyncing L R x w = (Inr y, w1)" and "writes_quiet tv R"
  shows "spec y = spec x" and "meta_of y = meta_of x" and "tv w1 = tv w"
    and "view look y = mark_syncing (view look x)"
  using setSyncing [OF assms(1), of x R] assms(2) writes_quietD(3) [OF assms(3)]
  by (auto simp: run_Inr split: if_splits)

lemma setSynced_keeps:
  assumes "conditions_laws L look" and "setSynced L R x w = (Inr y, w1)" and "writes_quiet tv R"
  shows "tv w1 = tv w"
  using setSynced [OF assms(1), of x R] assms(2) writes_quietD(3) [OF assms(3)]
  by (auto simp: run_Inr split: if_splits)

lemma env_ok: "tables_of p e = tables_of p (ag_env s) \<Longrightarrow> ok p (s\<lparr>ag_env := e\<rparr>) = ok p s"
  using frame [of p "s\<lparr>ag_env := e\<rparr>" s] by simp

lemma env_applied:
  "tables_of p e = tables_of p (ag_env s) \<Longrightarrow> applied p x (s\<lparr>ag_env := e\<rparr>) = applied p x s"
  using frame [of p "s\<lparr>ag_env := e\<rparr>" s] by simp

text \<open>Safety of one pass: success means that the resource that was read is applied and recorded.\<close>

lemma pass_syncs:
  assumes laws: "conditions_laws L look" "resource_laws v (\<lambda>x. meta_key (meta_of x)) put_status R"
      "laws p" "writes_quiet (tables_of p) R" "reads_quiet (tables_of p) R"
    and ok: "ok p s" and mine: "mine (ag_own s) namespace name"
    and get: "res_Get R \<lparr>nn_Namespace = namespace, nn_Name = name\<rparr> (ag_env s) = (Inr x, e)"
    and due: "needSync L x" and run: "reconcile L p R namespace name s = (Inr (), s')"
  shows "applied p x s' \<and> ok p s' \<and> mine (ag_own s') = mine (ag_own s) \<and>
    (\<exists>stored. v (ag_env s') \<lparr>nn_Namespace = namespace, nn_Name = name\<rparr> = Some stored \<and>
       check_due (view look stored) \<and> sv_rule (view look stored) = sv_rule (view look x))"
proof -
  from run obtain y e1 s2 z e3 where one: "setSyncing L R x e = (Inr y, e1)"
    and mid: "syncRule p y (s\<lparr>ag_env := e1\<rparr>) = (Inr (), s2)"
    and two: "setSynced L R y (ag_env s2) = (Inr z, e3)" and s': "s' = s2\<lparr>ag_env := e3\<rparr>"
    by (auto simp: reconcile_mine [OF mine get] due agent_run)
  note y = setSyncing_keeps [OF laws(1) one laws(4)]
  from reads_quietD(1) [OF laws(5) get] y(3) have "ok p (s\<lparr>ag_env := e1\<rparr>)"
    using ok by (simp add: env_ok)
  from sync_safe [OF laws(3) this mid] have mid': "applied p x s2" "ok p s2"
    "mine (ag_own s2) = mine (ag_own s)" using spec_only(1) [OF y(1)] by auto
  have tv: "tables_of p e3 = tables_of p (ag_env s2)" by (rule setSynced_keeps [OF laws(1) two laws(4)])
  from pass_ends_synced [OF laws(1,2) due one two] resource_lawsD(2) [OF laws(2) get]
  have "\<exists>stored. v e3 \<lparr>nn_Namespace = namespace, nn_Name = name\<rparr> = Some stored \<and>
       check_due (view look stored) \<and> sv_rule (view look stored) = sv_rule (view look x)" by auto
  with mid' show ?thesis by (simp add: s' env_ok [OF tv] env_applied [OF tv])
qed

text \<open>A pass that has to mark the resource as syncing fails.\<close>

lemma first_pass_fails:
  assumes laws: "conditions_laws L look" "resource_laws v (\<lambda>x. meta_key (meta_of x)) put_status R"
      "versioned v meta_of R" "works p v"
    and mine: "mine (ag_own s) namespace name"
    and get: "res_Get R \<lparr>nn_Namespace = namespace, nn_Name = name\<rparr> (ag_env s) = (Inr x, e)"
    and due: "needSync L x" and not_yet: "sv_syncing (view look x) \<noteq> Some ConditionTrue"
  shows "\<exists>err. fst (reconcile L p R namespace name s) = Inl err"
proof (rule ccontr)
  assume "\<not> ?thesis"
  then obtain u s' where "reconcile L p R namespace name s = (Inr u, s')"
    by (cases "reconcile L p R namespace name s"; cases "fst (reconcile L p R namespace name s)") auto
  then obtain y e1 s2 z e3 where one: "setSyncing L R x e = (Inr y, e1)"
    and mid: "syncRule p y (s\<lparr>ag_env := e1\<rparr>) = (Inr (), s2)"
    and two: "setSynced L R y (ag_env s2) = (Inr z, e3)"
    by (auto simp: reconcile_mine [OF mine get] due agent_run)
  have "env_view v s2 = env_view v (s\<lparr>ag_env := e1\<rparr>)"
    using sync_quiet [OF laws(4)] mid by (rule quietD)
  then have "v (ag_env s2) = v e1" by (simp add: env_view_def)
  with second_update_fails [OF laws(1-3) not_yet one] obtain err where
    "fst (setSynced L R y (ag_env s2)) = Inl err" by metis
  with two show False by simp
qed

end

section \<open>Convergence\<close>

text \<open>
  \<open>stored L look p v R s x\<close>: everything is in place for a pass over \<open>x\<close>, which is the resource
  the API server holds and the agent is responsible for.
\<close>

context sync_agent
begin

definition server_laws :: "('w \<Rightarrow> nsname \<rightharpoonup> 'o) \<Rightarrow> 'p \<Rightarrow> ('w, 'o) resource \<Rightarrow> bool" where
  "server_laws v p R \<longleftrightarrow> resource_laws v (\<lambda>x. meta_key (meta_of x)) put_status R \<and>
     versioned v meta_of R \<and> available v meta_of R \<and>
     writes_quiet (tables_of p) R \<and> reads_quiet (tables_of p) R \<and> laws p \<and> works p v"

definition holds :: "('w \<Rightarrow> nsname \<rightharpoonup> 'o) \<Rightarrow> 'p \<Rightarrow> string \<Rightarrow> string \<Rightarrow> ('a, 'w) agent \<Rightarrow> 'o \<Rightarrow> bool" where
  "holds v p namespace name s x \<longleftrightarrow> mine (ag_own s) namespace name \<and> ok p s \<and>
     meta_key (meta_of x) = \<lparr>nn_Namespace = namespace, nn_Name = name\<rparr> \<and>
     v (ag_env s) \<lparr>nn_Namespace = namespace, nn_Name = name\<rparr> = Some x"

lemma server_lawsD:
  assumes "server_laws v p R"
  shows "resource_laws v (\<lambda>x. meta_key (meta_of x)) put_status R" "versioned v meta_of R"
    "available v meta_of R" "writes_quiet (tables_of p) R" "reads_quiet (tables_of p) R" "laws p" "works p v"
  using assms by (simp_all add: server_laws_def)

lemma read_stored:
  assumes "server_laws v p R" and "holds v p namespace name s x"
  shows "\<exists>e. res_Get R \<lparr>nn_Namespace = namespace, nn_Name = name\<rparr> (ag_env s) = (Inr x, e) \<and>
    v e = v (ag_env s) \<and> tables_of p e = tables_of p (ag_env s) \<and>
    holds v p namespace name (s\<lparr>ag_env := e\<rparr>) x"
proof -
  have key: "meta_key (meta_of x) = \<lparr>nn_Namespace = namespace, nn_Name = name\<rparr>"
    and st: "v (ag_env s) (meta_key (meta_of x)) = Some x"
    using assms(2) by (simp_all add: holds_def)
  from availableD(1) [OF server_lawsD(3) [OF assms(1)] st] obtain e where
    get: "res_Get R \<lparr>nn_Namespace = namespace, nn_Name = name\<rparr> (ag_env s) = (Inr x, e)"
    by (auto simp: key)
  have "v e = v (ag_env s)"
    using reads_quietD(1) [OF resource_lawsD(1) [OF server_lawsD(1) [OF assms(1)]] get] .
  moreover have tv: "tables_of p e = tables_of p (ag_env s)"
    using reads_quietD(1) [OF server_lawsD(5) [OF assms(1)] get] .
  ultimately show ?thesis
    using get assms(2) by (auto simp: holds_def env_ok [OF tv])
qed

text \<open>Applying the rules of a resource that the server holds.\<close>

lemma apply_stored:
  assumes "server_laws v p R" and "ok p s" and "possible x"
  shows "\<exists>s'. syncRule p x s = (Inr (), s') \<and> applied p x s' \<and> ok p s' \<and>
    mine (ag_own s') = mine (ag_own s) \<and> v (ag_env s') = v (ag_env s)"
proof -
  note laws = server_lawsD [OF assms(1)]
  from sync_live [OF laws(6,7) assms(2,3)] obtain s' where run: "syncRule p x s = (Inr (), s')" by blast
  have "env_view v s' = env_view v s" using sync_quiet [OF laws(7)] run by (rule quietD)
  with sync_safe [OF laws(6) assms(2) run] run show ?thesis by (auto simp: env_view_def)
qed

lemma status_update:
  assumes "server_laws v p R" and "v e (meta_key (meta_of x)) = Some cur"
    and "meta_key (meta_of cur) = meta_key (meta_of x)"
    and "m_ResourceVersion (meta_of cur) = m_ResourceVersion (meta_of x)"
  shows "\<exists>x' e' rv. res_StatusUpdate R x e = (Inr x', e') \<and> x' = put_status rv x cur \<and>
    v e' = (v e)(meta_key (meta_of x) \<mapsto> x') \<and> tables_of p e' = tables_of p e \<and>
    m_ResourceVersion (meta_of x') \<noteq> m_ResourceVersion (meta_of x)"
proof -
  note laws = server_lawsD [OF assms(1)]
  from availableD(2) [OF laws(3) assms(2-4)] obtain x' e' where
    up: "res_StatusUpdate R x e = (Inr x', e')" by blast
  from resource_lawsD(5) [OF laws(1) up] assms(2) obtain rv where
    "x' = put_status rv x cur" and "v e' = (v e)(meta_key (meta_of x) \<mapsto> x')" by auto
  with up versionedD(2) [OF laws(2) up] writes_quietD(3) [OF laws(4) up] show ?thesis by blast
qed

text \<open>The first pass applies the rules, leaves the mark and is refused at the end.\<close>

lemma pass_marks:
  assumes C: "conditions_laws L look" and S: "server_laws v p R" and x: "holds v p namespace name s x"
    and poss: "possible x" and due: "needSync L x"
    and not_yet: "sv_syncing (view look x) \<noteq> Some ConditionTrue"
  shows "\<exists>s' y. reconcile L p R namespace name s = (Inl Conflict, s') \<and>
    holds v p namespace name s' y \<and> applied p x s' \<and> spec y = spec x \<and>
    view look y = mark_syncing (view look x)"
proof -
  note laws = server_lawsD [OF S]
  let ?k = "\<lparr>nn_Namespace = namespace, nn_Name = name\<rparr>"
  from x have mine: "mine (ag_own s) namespace name" by (simp add: holds_def)
  from read_stored [OF S x] obtain e where get: "res_Get R ?k (ag_env s) = (Inr x, e)"
    and tv: "tables_of p e = tables_of p (ag_env s)" and xe: "holds v p namespace name (s\<lparr>ag_env := e\<rparr>) x"
    by blast
  from xe have key: "meta_key (meta_of x) = ?k" and st: "v e ?k = Some x" and ok: "ok p (s\<lparr>ag_env := e\<rparr>)"
    by (simp_all add: holds_def)
  from setSyncing [OF C, of x R] not_yet obtain y where
    y: "view look y = mark_syncing (view look x)" "meta_of y = meta_of x" "spec y = spec x"
    and one: "setSyncing L R x = andThen (res_StatusUpdate R y) (\<lambda>_. ret y)" by auto
  from status_update [OF S, of e y x] obtain x' e1 rv where
    up: "res_StatusUpdate R y e = (Inr x', e1)" and x': "x' = put_status rv y x"
    and v1: "v e1 = (v e)(?k \<mapsto> x')" and tv1: "tables_of p e1 = tables_of p e"
    and rv: "m_ResourceVersion (meta_of x') \<noteq> m_ResourceVersion (meta_of x)"
    using st by (auto simp: y key)
  have "ok p (s\<lparr>ag_env := e1\<rparr>)"
    using frame [of p "s\<lparr>ag_env := e1\<rparr>" "s\<lparr>ag_env := e\<rparr>"] ok tv1 by simp
  moreover have "possible y" using spec_only(2) [OF y(3)] poss by simp
  ultimately obtain s2 where mid: "syncRule p y (s\<lparr>ag_env := e1\<rparr>) = (Inr (), s2)"
    and ap: "applied p y s2" "ok p s2" "mine (ag_own s2) = mine (ag_own s)" "v (ag_env s2) = v e1"
    using apply_stored [OF S, of "s\<lparr>ag_env := e1\<rparr>" y] by auto
  have "sv_syncing (view look y) \<noteq> Some ConditionFalse" by (simp add: y mark_syncing_def)
  with setSynced [OF C, of y R] obtain y' where y': "meta_of y' = meta_of y"
    and two: "setSynced L R y = andThen (res_StatusUpdate R y') (\<lambda>_. ret y')" by auto
  have key': "meta_key (meta_of x') = ?k" by (simp add: x' put_status key)
  have st': "v (ag_env s2) (meta_key (meta_of y')) = Some x'" by (simp add: ap v1 y y' key)
  have k': "meta_key (meta_of x') = meta_key (meta_of y')" by (simp add: key' y y' key)
  have rv': "m_ResourceVersion (meta_of x') \<noteq> m_ResourceVersion (meta_of y')" using rv by (simp add: y y')
  from availableD(3) [OF laws(3) st' k' rv'] obtain e3 where
    refused: "res_StatusUpdate R y' (ag_env s2) = (Inl Conflict, e3)" and v3: "v e3 = v (ag_env s2)" by blast
  have tv3: "tables_of p e3 = tables_of p (ag_env s2)" by (rule writes_quietD(3) [OF laws(4) refused])
  have "reconcile L p R namespace name s = (Inl Conflict, s2\<lparr>ag_env := e3\<rparr>)"
    by (simp add: reconcile_mine [OF mine get] due one two io_eval onEnv_def up mid refused)
  moreover have "holds v p namespace name (s2\<lparr>ag_env := e3\<rparr>) x'"
    using mine ap v1 v3 key' by (simp add: holds_def env_ok [OF tv3])
  moreover have "applied p x (s2\<lparr>ag_env := e3\<rparr>)"
    using ap(1) spec_only(1) [OF y(3)] by (simp add: env_applied [OF tv3])
  moreover have "spec x' = spec x" "view look x' = mark_syncing (view look x)"
    by (simp_all add: x' put_status y)
  ultimately show ?thesis by blast
qed

text \<open>A pass over a marked resource succeeds and records it.\<close>

lemma pass_finishes:
  assumes C: "conditions_laws L look" and S: "server_laws v p R" and x: "holds v p namespace name s x"
    and poss: "possible x" and due: "needSync L x"
    and marked: "sv_syncing (view look x) = Some ConditionTrue"
  shows "\<exists>s' y. reconcile L p R namespace name s = (Inr (), s') \<and>
    holds v p namespace name s' y \<and> applied p x s' \<and> spec y = spec x \<and> check_due (view look y) \<and>
    sv_rule (view look y) = sv_rule (view look x)"
proof -
  note laws = server_lawsD [OF S]
  let ?k = "\<lparr>nn_Namespace = namespace, nn_Name = name\<rparr>"
  from x have mine: "mine (ag_own s) namespace name" by (simp add: holds_def)
  from read_stored [OF S x] obtain e where get: "res_Get R ?k (ag_env s) = (Inr x, e)"
    and xe: "holds v p namespace name (s\<lparr>ag_env := e\<rparr>) x" by blast
  from xe have key: "meta_key (meta_of x) = ?k" and st: "v e ?k = Some x" and ok: "ok p (s\<lparr>ag_env := e\<rparr>)"
    by (simp_all add: holds_def)
  from setSyncing [OF C, of x R] marked obtain y where
    y: "view look y = mark_syncing (view look x)" "meta_of y = meta_of x" "spec y = spec x"
    and one: "setSyncing L R x = ret y" by auto
  have "possible y" using spec_only(2) [OF y(3)] poss by simp
  with ok obtain s2 where mid: "syncRule p y (s\<lparr>ag_env := e\<rparr>) = (Inr (), s2)"
    and ap: "applied p y s2" "ok p s2" "mine (ag_own s2) = mine (ag_own s)" "v (ag_env s2) = v e"
    using apply_stored [OF S, of "s\<lparr>ag_env := e\<rparr>" y] by auto
  have "sv_syncing (view look y) \<noteq> Some ConditionFalse" by (simp add: y mark_syncing_def)
  with setSynced [OF C, of y R] obtain y' where
    y': "view look y' = mark_synced (view look y)" "meta_of y' = meta_of y" "spec y' = spec y"
    and two: "setSynced L R y = andThen (res_StatusUpdate R y') (\<lambda>_. ret y')" by auto
  from status_update [OF S, of "ag_env s2" y' x] obtain x' e3 rv where
    up: "res_StatusUpdate R y' (ag_env s2) = (Inr x', e3)" and x': "x' = put_status rv y' x"
    and v3: "v e3 = (v (ag_env s2))(?k \<mapsto> x')" and tv3: "tables_of p e3 = tables_of p (ag_env s2)"
    using st ap by (auto simp: y y' key)
  have "reconcile L p R namespace name s = (Inr (), s2\<lparr>ag_env := e3\<rparr>)"
    by (simp add: reconcile_mine [OF mine get] due one two io_eval onEnv_def mid up)
  moreover have "holds v p namespace name (s2\<lparr>ag_env := e3\<rparr>) x'"
    using mine ap v3 by (simp add: holds_def env_ok [OF tv3] x' put_status key)
  moreover have "applied p x (s2\<lparr>ag_env := e3\<rparr>)"
    using ap(1) spec_only(1) [OF y(3)] by (simp add: env_applied [OF tv3])
  moreover have "sync_due (view look x)" using due by (simp add: needSync [OF C])
  then have "check_due (view look x')" and "sv_rule (view look x') = sv_rule (view look x)"
    by (auto simp: x' put_status y y' sync_due_def check_due_def mark_syncing_def mark_synced_def)
  moreover have "spec x' = spec x" by (simp add: x' put_status)
  ultimately show ?thesis by blast
qed

text \<open>A pass over an applied and recorded resource succeeds and changes nothing.\<close>

lemma pass_checks:
  assumes C: "conditions_laws L look" and S: "server_laws v p R" and x: "holds v p namespace name s x"
    and ap: "applied p x s" and due: "check_due (view look x)"
  shows "\<exists>s'. reconcile L p R namespace name s = (Inr (), s') \<and> holds v p namespace name s' x \<and>
    applied p x s' \<and> ag_own s' = ag_own s \<and> v (ag_env s') = v (ag_env s)"
proof -
  note laws = server_lawsD [OF S]
  let ?k = "\<lparr>nn_Namespace = namespace, nn_Name = name\<rparr>"
  from x have mine: "mine (ag_own s) namespace name" by (simp add: holds_def)
  from read_stored [OF S x] obtain e where get: "res_Get R ?k (ag_env s) = (Inr x, e)"
    and tv: "tables_of p e = tables_of p (ag_env s)" and ve: "v e = v (ag_env s)"
    and xe: "holds v p namespace name (s\<lparr>ag_env := e\<rparr>) x" by blast
  have check: "needCheckSync L x" using due by (simp add: needCheckSync [OF C])
  with not_both [OF C] have no: "\<not> needSync L x" by blast
  have ape: "applied p x (s\<lparr>ag_env := e\<rparr>)" using ap by (simp add: env_applied [OF tv])
  from check_live [OF laws(6,7) ape] obtain s' where
    run: "ruleSynced p x (s\<lparr>ag_env := e\<rparr>) = (Inr True, s')" by blast
  from check_keeps [OF laws(6) run] have keep: "tables_of p (ag_env s') = tables_of p e" "ag_own s' = ag_own s"
    by simp_all
  have "env_view v s' = env_view v (s\<lparr>ag_env := e\<rparr>)" using check_quiet [OF laws(7)] run by (rule quietD)
  then have v': "v (ag_env s') = v e" by (simp add: env_view_def)
  have fr: "ok p s' = ok p (s\<lparr>ag_env := e\<rparr>)" "applied p x s' = applied p x (s\<lparr>ag_env := e\<rparr>)"
    using frame [of p s' "s\<lparr>ag_env := e\<rparr>" x] keep by simp_all
  have "reconcile L p R namespace name s = (Inr (), s')"
    by (simp add: reconcile_mine [OF mine get] no check io_eval run)
  moreover have "holds v p namespace name s' x" using xe v' fr keep(2) by (simp add: holds_def)
  ultimately show ?thesis using fr ape keep v' ve by auto
qed

text \<open>Three passes: refused, applied and recorded, checked.\<close>

lemma converges:
  assumes C: "conditions_laws L look" and S: "server_laws v p R" and x: "holds v p namespace name s x"
    and poss: "possible x" and due: "needSync L x"
    and not_yet: "sv_syncing (view look x) \<noteq> Some ConditionTrue"
  shows "\<exists>s1 s2 s3 y. reconcile L p R namespace name s = (Inl Conflict, s1) \<and>
    reconcile L p R namespace name s1 = (Inr (), s2) \<and>
    reconcile L p R namespace name s2 = (Inr (), s3) \<and>
    applied p x s1 \<and> applied p x s2 \<and> applied p x s3 \<and>
    v (ag_env s2) \<lparr>nn_Namespace = namespace, nn_Name = name\<rparr> = Some y \<and>
    check_due (view look y) \<and> sv_rule (view look y) = sv_rule (view look x) \<and>
    v (ag_env s3) = v (ag_env s2) \<and> ag_own s3 = ag_own s2"
proof -
  from pass_marks [OF assms] obtain s1 x1 where
    p1: "reconcile L p R namespace name s = (Inl Conflict, s1)"
    and h1: "holds v p namespace name s1 x1" and a1: "applied p x s1" and sp1: "spec x1 = spec x"
    and v1: "view look x1 = mark_syncing (view look x)" by blast
  have "possible x1" using spec_only(2) [OF sp1] poss by simp
  moreover have "needSync L x1"
    using due by (auto simp: needSync [OF C] v1 sync_due_def mark_syncing_def)
  moreover have "sv_syncing (view look x1) = Some ConditionTrue" by (simp add: v1 mark_syncing_def)
  ultimately obtain s2 x2 where p2: "reconcile L p R namespace name s1 = (Inr (), s2)"
    and h2: "holds v p namespace name s2 x2" and a2: "applied p x1 s2" and sp2: "spec x2 = spec x1"
    and c2: "check_due (view look x2)" "sv_rule (view look x2) = sv_rule (view look x1)"
    using pass_finishes [OF C S h1] by blast
  have "applied p x2 s2" using a2 spec_only(1) [OF sp2] by simp
  from pass_checks [OF C S h2 this c2(1)] obtain s3 where
    p3: "reconcile L p R namespace name s2 = (Inr (), s3)" and a3: "applied p x2 s3"
    and same: "ag_own s3 = ag_own s2" "v (ag_env s3) = v (ag_env s2)" by blast
  have "applied p x s2" "applied p x s3"
    using a2 a3 spec_only(1) [OF sp1] spec_only(1) [OF sp2] by simp_all
  moreover have "v (ag_env s2) \<lparr>nn_Namespace = namespace, nn_Name = name\<rparr> = Some x2"
    using h2 by (simp add: holds_def)
  moreover have "sv_rule (view look x2) = sv_rule (view look x)" by (simp add: c2 v1 mark_syncing_def)
  ultimately show ?thesis using p1 p2 p3 a1 same c2(1) by blast
qed

end

end
