(* ===== verification/ForwarderAgent.thy ===== *)
theory ForwarderAgent
  imports TunnelTable AgentLoop
begin

text \<open>
  The forwarder's agent (\<^verbatim>\<open>pkg/forwarder/reconciler.go\<close>): the tunnels and iptables
  rules a Forwarder asks for, applying and checking them, and \<^verbatim>\<open>Reconcile\<close>.

  \<open>ords n\<close> is the order in which the n-th \<^verbatim>\<open>range\<close> over a map visits the keys.
\<close>

text \<open>The agent's own state is its reconciler and the goroutines of its tunnels.\<close>

type_synonym 'w fwd_agent = "(reconciler \<times> goroutines, 'w) agent"

abbreviation ag_f :: "'w fwd_agent \<Rightarrow> reconciler" where
  "ag_f s \<equiv> fst (ag_own s)"

abbreviation ag_go :: "'w fwd_agent \<Rightarrow> goroutines" where
  "ag_go s \<equiv> snd (ag_own s)"

section \<open>What a Forwarder asks for\<close>

definition getExpectedSSHTunnel :: "'c forwarder \<Rightarrow> bool gomap" where
  "getExpectedSSHTunnel fwd =
     fold (\<lambda>rule st. gset (tunnelKey (fwd_ForwarderIP (fwd_Spec fwd)) (fr_RelayPort rule)
           (fr_GatewayIP rule) SSHPort (fr_DestinationIP rule) (fr_DestinationPort rule)) True st)
       (fwd_EgressRules (fwd_Spec fwd)) []"

definition getExpectedRemoteSSHTunnel :: "'c forwarder \<Rightarrow> bool gomap" where
  "getExpectedRemoteSSHTunnel fwd =
     fold (\<lambda>rule rt. gset (tunnelKey (fr_DestinationIP rule) (fr_DestinationPort rule)
           (fr_GatewayIP rule) SSHPort (fr_GatewayIP rule) (fr_RelayPort rule)) True rt)
       (fwd_IngressRules (fwd_Spec fwd)) []"

definition fwd_getExpectedIptablesRule :: "'c forwarder \<Rightarrow> chains" where
  "fwd_getExpectedIptablesRule fwd =
     fold (\<lambda>rule it.
         appendRule ChainPostrouting
           (SNATRuleSpec (fr_DestinationIP rule) (fwd_ForwarderIP (fwd_Spec fwd)) (fr_RelayPort rule))
         (appendRule ChainPrerouting
           (DNATRuleSpec (fwd_ForwarderIP (fwd_Spec fwd)) (fr_SourceIP rule) (fr_TargetPort rule)
              (fwd_ForwarderIP (fwd_Spec fwd)) (fr_RelayPort rule)) it))
       (fwd_EgressRules (fwd_Spec fwd)) [(ChainPrerouting, []), (ChainPostrouting, [])]"

section \<open>Applying and checking\<close>

definition updateIptablesRule ::
  "(nat \<Rightarrow> key_order) \<Rightarrow> 'w iptables \<Rightarrow> chains \<Rightarrow> ('w, unit) io" where
  "updateIptablesRule ords ipt expected = ReplaceChains (ords 6) (ords 7) ipt TableNAT expected"

definition fwd_syncRule ::
  "(nat \<Rightarrow> key_order) \<Rightarrow> 'w iptables \<Rightarrow> 'c forwarder \<Rightarrow> ('w fwd_agent, unit) io" where
  "fwd_syncRule ords ipt fwd =
     andThen (onOwn (updateSSHTunnel (ords 0) (ords 1) (ords 2) (getExpectedSSHTunnel fwd))) (\<lambda>_.
     andThen (onOwn (updateRemoteSSHTunnel (ords 3) (ords 4) (ords 5) (getExpectedRemoteSSHTunnel fwd))) (\<lambda>_.
     onEnv (updateIptablesRule ords ipt (fwd_getExpectedIptablesRule fwd))))"

definition isTunnelRunning :: "reconciler \<Rightarrow> 'c forwarder \<Rightarrow> bool" where
  "isTunnelRunning f fwd \<longleftrightarrow>
     list_all (\<lambda>k. map_of (f_tunnels f) k \<noteq> None) (gkeys (getExpectedSSHTunnel fwd)) \<and>
     list_all (\<lambda>k. map_of (f_remoteTunnels f) k \<noteq> None) (gkeys (getExpectedRemoteSSHTunnel fwd))"

definition isIptablesRulesApplied ::
  "(nat \<Rightarrow> key_order) \<Rightarrow> 'w iptables \<Rightarrow> 'c forwarder \<Rightarrow> ('w, bool) io" where
  "isIptablesRulesApplied ords ipt fwd =
     CheckChainsExist (ords 0) ipt TableNAT (fwd_getExpectedIptablesRule fwd)"

definition fwd_ruleSynced ::
  "(nat \<Rightarrow> key_order) \<Rightarrow> 'w iptables \<Rightarrow> 'c forwarder \<Rightarrow> ('w fwd_agent, bool) io" where
  "fwd_ruleSynced ords ipt fwd =
     andThen getOwn (\<lambda>(f, g).
       if \<not> isTunnelRunning f fwd then ret False else onEnv (isIptablesRulesApplied ords ipt fwd))"

definition fwd_Reconcile ::
  "'c libs \<Rightarrow> (nat \<Rightarrow> key_order) \<Rightarrow> ('w, 'c forwarder) resource \<Rightarrow> 'w iptables \<Rightarrow> string \<Rightarrow> string
     \<Rightarrow> ('w fwd_agent, unit) io" where
  "fwd_Reconcile L ords R ipt namespace name =
     andThen getOwn (\<lambda>(f, g).
     if f_namespace f \<noteq> namespace \<or> f_name f \<noteq> name then ret ()
     else
     andThen (onEnv (res_Get R \<lparr>nn_Namespace = namespace, nn_Name = name\<rparr>)) (\<lambda>fwd.
     if fwd_needSync L fwd
     then andThen (onEnv (fwd_setSyncing L R fwd)) (\<lambda>fwd.
          andThen (fwd_syncRule ords ipt fwd) (\<lambda>_.
          andThen (onEnv (fwd_setSynced L R fwd)) (\<lambda>_. ret ())))
     else if fwd_needCheckSync L fwd
     then andThen (fwd_ruleSynced ords ipt fwd) (\<lambda>synced.
          if \<not> synced then andThen (onEnv (fwd_setSyncing L R fwd)) (\<lambda>_. ret ()) else ret ())
     else ret ()))"

section \<open>What is asked for: lemmas\<close>

lemma fold_gset_True:
  "map_of (fold (\<lambda>r m. gset (key r) True m) rs m) k =
     (if k \<in> key ` set rs then Some True else map_of m k)"
  "gomap_ok m \<Longrightarrow> gomap_ok (fold (\<lambda>r m. gset (key r) True m) rs m)"
  by (induction rs arbitrary: m) auto

definition egress_key :: "'c forwarder \<Rightarrow> forwarder_rule \<Rightarrow> string" where
  "egress_key fwd rule =
     tunnelKey (fwd_ForwarderIP (fwd_Spec fwd)) (fr_RelayPort rule)
       (fr_GatewayIP rule) SSHPort (fr_DestinationIP rule) (fr_DestinationPort rule)"

definition ingress_key :: "forwarder_rule \<Rightarrow> string" where
  "ingress_key rule =
     tunnelKey (fr_DestinationIP rule) (fr_DestinationPort rule)
       (fr_GatewayIP rule) SSHPort (fr_GatewayIP rule) (fr_RelayPort rule)"

lemma expected_tunnels:
  "gomap_ok (getExpectedSSHTunnel fwd)"
  "dom (map_of (getExpectedSSHTunnel fwd)) = egress_key fwd ` set (fwd_EgressRules (fwd_Spec fwd))"
  "gomap_ok (getExpectedRemoteSSHTunnel fwd)"
  "dom (map_of (getExpectedRemoteSSHTunnel fwd)) = ingress_key ` set (fwd_IngressRules (fwd_Spec fwd))"
  by (auto simp: getExpectedSSHTunnel_def getExpectedRemoteSSHTunnel_def fold_gset_True egress_key_def
      ingress_key_def dom_def split: if_splits)

lemma expected_pieces:
  "k \<in> dom (map_of (getExpectedSSHTunnel fwd)) \<Longrightarrow> 6 \<le> length (split_on (CHR '':'') k)"
  "k \<in> dom (map_of (getExpectedRemoteSSHTunnel fwd)) \<Longrightarrow> 6 \<le> length (split_on (CHR '':'') k)"
  unfolding expected_tunnels egress_key_def ingress_key_def using tunnelKey_pieces by auto

definition dnat_of :: "'c forwarder \<Rightarrow> forwarder_rule \<Rightarrow> rule_spec" where
  "dnat_of fwd rule =
     DNATRuleSpec (fwd_ForwarderIP (fwd_Spec fwd)) (fr_SourceIP rule) (fr_TargetPort rule)
       (fwd_ForwarderIP (fwd_Spec fwd)) (fr_RelayPort rule)"

definition snat_of :: "'c forwarder \<Rightarrow> forwarder_rule \<Rightarrow> rule_spec" where
  "snat_of fwd rule =
     SNATRuleSpec (fr_DestinationIP rule) (fwd_ForwarderIP (fwd_Spec fwd)) (fr_RelayPort rule)"

lemma fwd_expected_iptables:
  "gomap_ok (fwd_getExpectedIptablesRule fwd)"
  "rules_for (fwd_getExpectedIptablesRule fwd) ChainPrerouting =
     map (dnat_of fwd) (fwd_EgressRules (fwd_Spec fwd))"
  "rules_for (fwd_getExpectedIptablesRule fwd) ChainPostrouting =
     map (snat_of fwd) (fwd_EgressRules (fwd_Spec fwd))"
  "set (gkeys (fwd_getExpectedIptablesRule fwd)) = {ChainPrerouting, ChainPostrouting}"
  unfolding fwd_getExpectedIptablesRule_def dnat_of_def [symmetric] snat_of_def [symmetric]
  by (rule two_chains, rule chains_distinct)+

section \<open>Applying: lemmas\<close>

definition fwd_applied :: "('w \<Rightarrow> tables) \<Rightarrow> 'c forwarder \<Rightarrow> 'w fwd_agent \<Rightarrow> bool" where
  "fwd_applied tv fwd s \<longleftrightarrow>
     dom (map_of (f_tunnels (ag_f s))) = egress_key fwd ` set (fwd_EgressRules (fwd_Spec fwd)) \<and>
     dom (map_of (f_remoteTunnels (ag_f s))) = ingress_key ` set (fwd_IngressRules (fwd_Spec fwd)) \<and>
     (\<exists>pre post. tv (ag_env s) (TableNAT, ChainPrerouting) = Some pre \<and>
        tv (ag_env s) (TableNAT, ChainPostrouting) = Some post \<and>
        set pre = dnat_of fwd ` set (fwd_EgressRules (fwd_Spec fwd)) \<and>
        set post = snat_of fwd ` set (fwd_EgressRules (fwd_Spec fwd)))"

lemma fwd_syncRule_lemma:
  assumes ords: "\<And>n. range_order (ords n)" and ipt: "iptables_laws ipt tv"
    and ok: "tunnels_ok (ag_f s) (ag_go s)" and run: "fwd_syncRule ords ipt fwd s = (Inr u, s')"
  shows "fwd_applied tv fwd s' \<and> tunnels_ok (ag_f s') (ag_go s') \<and>
    f_namespace (ag_f s') = f_namespace (ag_f s) \<and> f_name (ag_f s') = f_name (ag_f s)"
proof -
  from run obtain f1 g1 f2 g2 e where
    one: "updateSSHTunnel (ords 0) (ords 1) (ords 2) (getExpectedSSHTunnel fwd) (ag_f s, ag_go s) = Inr (f1, g1)"
    and two: "updateRemoteSSHTunnel (ords 3) (ords 4) (ords 5) (getExpectedRemoteSSHTunnel fwd) (f1, g1) = Inr (f2, g2)"
    and rules: "ReplaceChains (ords 6) (ords 7) ipt TableNAT (fwd_getExpectedIptablesRule fwd) (ag_env s) = (Inr u, e)"
    and s': "s' = s\<lparr>ag_own := (f2, g2), ag_env := e\<rparr>"
    by (auto simp: fwd_syncRule_def updateIptablesRule_def agent_run)
  from ok have ok0: "tables_ok (f_tunnels (ag_f s)) (f_remoteTunnels (ag_f s)) (ag_go s)"
    by (simp add: tunnels_ok_def)
  have ok1: "tables_ok (f_tunnels f1) (f_remoteTunnels f1) g1"
    by (rule tunnels.update_ok [OF ords ords ords expected_tunnels(1) ok0 one])
  have ok2: "tables_ok (f_remoteTunnels f2) (f_tunnels f2) g2"
    by (rule remote_tunnels.update_ok [OF ords ords ords expected_tunnels(3) tables_ok_commute [OF ok1] two])
  have gm: "gomap_ok (f_tunnels (ag_f s))" "gomap_ok (f_remoteTunnels f1)"
    using ok0 ok1 by (auto simp: tables_ok_def dest: tbl_okD(1))
  from tunnels.update_change [OF ords ords ords expected_tunnels(1) gm(1) one]
    remote_tunnels.update_change [OF ords ords ords expected_tunnels(3) gm(2) two]
  have same: "f_tunnels f2 = f_tunnels f1" "f_namespace f2 = f_namespace (ag_f s)"
    "f_name f2 = f_name (ag_f s)" by simp_all
  have "dom (map_of (f_tunnels f2)) = egress_key fwd ` set (fwd_EgressRules (fwd_Spec fwd))"
    using tunnels.update_keys(1) [OF ords ords ords expected_tunnels(1) gm(1) one]
    by (simp add: same expected_tunnels)
  moreover have "dom (map_of (f_remoteTunnels f2)) = ingress_key ` set (fwd_IngressRules (fwd_Spec fwd))"
    using remote_tunnels.update_keys(1) [OF ords ords ords expected_tunnels(3) gm(2) two]
    by (simp add: expected_tunnels)
  moreover have "\<exists>pre post. tv e (TableNAT, ChainPrerouting) = Some pre \<and>
      tv e (TableNAT, ChainPostrouting) = Some post \<and>
      set pre = dnat_of fwd ` set (fwd_EgressRules (fwd_Spec fwd)) \<and>
      set post = snat_of fwd ` set (fwd_EgressRules (fwd_Spec fwd))"
    using ReplaceChains_tables [OF ipt fwd_expected_iptables(1) ords ords rules]
    by (simp add: fwd_expected_iptables set_append_all)
  ultimately show ?thesis
    using tables_ok_commute [OF ok2] same by (simp add: fwd_applied_def s' tunnels_ok_def)
qed

text \<open>The tunnels can always be updated, so the result is that of the iptables rules.\<close>

lemma fwd_syncRule_runs:
  assumes ords: "\<And>n. range_order (ords n)" and ok: "tunnels_ok (ag_f s) (ag_go s)"
    and rules: "updateIptablesRule ords ipt (fwd_getExpectedIptablesRule fwd) (ag_env s) = (r, e)"
  shows "\<exists>a. fwd_syncRule ords ipt fwd s = (r, s\<lparr>ag_own := a, ag_env := e\<rparr>)"
proof -
  from ok have ok0: "tables_ok (f_tunnels (ag_f s)) (f_remoteTunnels (ag_f s)) (ag_go s)"
    by (simp add: tunnels_ok_def)
  then have gm0: "gomap_ok (f_tunnels (ag_f s))" by (auto simp: tables_ok_def dest: tbl_okD(1))
  have pieces: "\<forall>k \<in> dom (map_of (getExpectedSSHTunnel fwd)). 6 \<le> length (split_on (CHR '':'') k)"
    "\<forall>k \<in> dom (map_of (getExpectedRemoteSSHTunnel fwd)). 6 \<le> length (split_on (CHR '':'') k)"
    using expected_pieces by blast+
  from tunnels.update_total [OF ords ords ords expected_tunnels(1) gm0 pieces(1), of 0 1 2 "ag_go s"]
  obtain f1 g1 where one: "updateSSHTunnel (ords 0) (ords 1) (ords 2) (getExpectedSSHTunnel fwd)
      (ag_f s, ag_go s) = Inr (f1, g1)" by (metis surj_pair)
  have "tables_ok (f_tunnels f1) (f_remoteTunnels f1) g1"
    by (rule tunnels.update_ok [OF ords ords ords expected_tunnels(1) ok0 one])
  then have gm1: "gomap_ok (f_remoteTunnels f1)" by (auto simp: tables_ok_def dest: tbl_okD(1))
  from remote_tunnels.update_total [OF ords ords ords expected_tunnels(3) gm1 pieces(2), of 3 4 5 g1]
  obtain a where two: "updateRemoteSSHTunnel (ords 3) (ords 4) (ords 5) (getExpectedRemoteSSHTunnel fwd)
      (f1, g1) = Inr a" by metis
  have "onOwn (updateSSHTunnel (ords 0) (ords 1) (ords 2) (getExpectedSSHTunnel fwd)) s =
      (Inr (), s\<lparr>ag_own := (f1, g1)\<rparr>)"
    using one by (intro onOwn_eval) simp
  moreover have "onOwn (updateRemoteSSHTunnel (ords 3) (ords 4) (ords 5) (getExpectedRemoteSSHTunnel fwd))
      (s\<lparr>ag_own := (f1, g1)\<rparr>) = (Inr (), s\<lparr>ag_own := a\<rparr>)"
    using two onOwn_eval [of _ "s\<lparr>ag_own := (f1, g1)\<rparr>" a] by simp
  moreover have "onEnv (updateIptablesRule ords ipt (fwd_getExpectedIptablesRule fwd)) (s\<lparr>ag_own := a\<rparr>) =
      (r, s\<lparr>ag_own := a, ag_env := e\<rparr>)"
    using rules onEnv_eval [of _ "s\<lparr>ag_own := a\<rparr>" r e] by simp
  ultimately show ?thesis by (intro exI [of _ a]) (simp add: fwd_syncRule_def io_eval(4))
qed

lemma present_applied:
  assumes "fwd_applied tv fwd s"
  shows "present (tv (ag_env s)) TableNAT (fwd_getExpectedIptablesRule fwd)"
  unfolding present_def
proof (intro ballI, clarify)
  fix c rules r assume c: "(c, rules) \<in> set (fwd_getExpectedIptablesRule fwd)" and r: "r \<in> set rules"
  then have "rules_for (fwd_getExpectedIptablesRule fwd) c = rules"
    using fwd_expected_iptables(1) [of fwd] by (simp add: rules_for_def gomap_ok_def gkeys_def)
  moreover have "c \<in> {ChainPrerouting, ChainPostrouting}"
    using c fwd_expected_iptables(4) [of fwd] by (force simp: gkeys_def)
  ultimately show "\<exists>rs. tv (ag_env s) (TableNAT, c) = Some rs \<and> r \<in> set rs"
    using assms r by (auto simp: fwd_applied_def fwd_expected_iptables)
qed

lemma fwd_ruleSynced_cases:
  "fwd_ruleSynced ords ipt fwd s =
     (if \<not> isTunnelRunning (ag_f s) fwd then (Inr False, s)
      else onEnv (isIptablesRulesApplied ords ipt fwd) s)"
  by (cases "ag_own s") (simp add: fwd_ruleSynced_def io_eval getOwn_def)

lemma applied_synced:
  assumes "\<And>n. range_order (ords n)" and "iptables_laws ipt tv" and "iptables_answers ipt tv"
    and ap: "fwd_applied tv fwd s"
  shows "\<exists>s'. fwd_ruleSynced ords ipt fwd s = (Inr True, s')"
proof -
  have "isTunnelRunning (ag_f s) fwd"
    using ap by (auto simp: isTunnelRunning_def list_all_iff set_gkeys fwd_applied_def expected_tunnels)
  then show ?thesis
    using present_applied [OF ap] assms(3)
      CheckChainsExist_correct [OF assms(2) assms(1) fwd_expected_iptables(1), of 0 TableNAT fwd "ag_env s"]
    by (auto simp: fwd_ruleSynced_cases isIptablesRulesApplied_def onEnv_def)
qed

lemma fwd_ruleSynced_keeps:
  assumes "\<And>n. range_order (ords n)" and "iptables_laws ipt tv"
    and "fwd_ruleSynced ords ipt fwd s = (r, s')"
  shows "tv (ag_env s') = tv (ag_env s) \<and> ag_own s' = ag_own s"
  using CheckChainsExist_correct [OF assms(2) assms(1) fwd_expected_iptables(1), of 0 TableNAT fwd "ag_env s"]
    assms(3)
  by (auto simp: fwd_ruleSynced_cases isIptablesRulesApplied_def onEnv_def split: if_splits)

lemma fwd_syncRule_quiet:
  "iptables_quiet v ipt \<Longrightarrow> quiet (env_view v) (fwd_syncRule ords ipt fwd)"
  by (auto simp: fwd_syncRule_def updateIptablesRule_def intro!: quiet_andThen chains_quiet)

lemma fwd_ruleSynced_quiet:
  "iptables_quiet v ipt \<Longrightarrow> quiet (env_view v) (fwd_ruleSynced ords ipt fwd)"
  by (auto simp: fwd_ruleSynced_def isIptablesRulesApplied_def intro!: quiet_andThen check_quiet)

section \<open>The agent follows the contract\<close>

definition fwd_mine :: "reconciler \<times> goroutines \<Rightarrow> string \<Rightarrow> string \<Rightarrow> bool" where
  "fwd_mine a namespace name \<longleftrightarrow> f_namespace (fst a) = namespace \<and> f_name (fst a) = name"

lemma expected_spec_only:
  "fwd_Spec x = fwd_Spec y \<Longrightarrow> fwd_applied tv x s \<longleftrightarrow> fwd_applied tv y s"
  unfolding fwd_applied_def egress_key_def [abs_def] dnat_of_def [abs_def] snat_of_def [abs_def] by simp

interpretation fwd_agent: sync_agent fwd_view fwd_Meta put_fwd_status
  fwd_needSync fwd_needCheckSync fwd_setSyncing fwd_setSynced fwd_Spec fwd_mine
  "\<lambda>h. fwd_syncRule (h_ords h) (h_ipt h)" "\<lambda>h. fwd_ruleSynced (h_ords h) (h_ipt h)"
  "\<lambda>L h R. fwd_Reconcile L (h_ords h) R (h_ipt h)" h_tables host_laws host_works
  "\<lambda>_ s. tunnels_ok (ag_f s) (ag_go s)" "\<lambda>_. True" "\<lambda>h. fwd_applied (h_tables h)"
proof (unfold_locales, goal_cases)
  case (1 s namespace name R x e L p)
  then show ?case by (simp add: fwd_Reconcile_def fwd_mine_def io_eval(4) getOwn_def onEnv_def split_def)
next
  case (2 s namespace name R err e L p)
  then show ?case by (simp add: fwd_Reconcile_def fwd_mine_def io_eval(4) getOwn_def onEnv_def split_def)
next
  case (3 s namespace name L p R)
  then show ?case by (auto simp: fwd_Reconcile_def fwd_mine_def io_eval getOwn_def split_def)
next
  case (4 p s x u s')
  from fwd_syncRule_lemma [OF host_lawsD [OF 4(1)] 4(2,3)] show ?case
    by (simp add: fwd_mine_def fun_eq_iff)
next
  case (5 p v s x)
  obtain e where "updateIptablesRule (h_ords p) (h_ipt p) (fwd_getExpectedIptablesRule x) (ag_env s) = (Inr (), e)"
    using ReplaceChains_total [OF host_lawsD(2) [OF 5(1)] host_worksD(1) [OF 5(2)]] host_lawsD(1) [OF 5(1)]
    unfolding updateIptablesRule_def by metis
  from fwd_syncRule_runs [OF host_lawsD(1) [OF 5(1)] 5(3) this] show ?case by blast
next
  case (6 p v x)
  then show ?case by (intro fwd_syncRule_quiet host_worksD(3))
next
  case (7 p v x s)
  from applied_synced [OF host_lawsD [OF 7(1)] host_worksD(2) [OF 7(2)] 7(3)] show ?case .
next
  case (8 p v x)
  then show ?case by (intro fwd_ruleSynced_quiet host_worksD(3))
next
  case (9 p x s r s')
  from fwd_ruleSynced_keeps [OF host_lawsD [OF 9(1)] 9(2)] show ?case .
next
  case (12 p s' s x)
  then show ?case by (simp add: fwd_applied_def)
next
  case (10 x y p s)
  then show ?case by (rule expected_spec_only)
qed simp

section \<open>Properties\<close>

text \<open>
  Applying the rules of a forwarder. Bringing the tunnels in line with a Forwarder never
  fails, whatever the strings in its rules; if the iptables rules can be replaced as well, the
  tables of tunnels have exactly the keys the Forwarder asks for, the two chains hold exactly
  its rules, each tunnel still has the endpoints of its key and a live context of its own, and
  the following check finds everything in place.
\<close>

theorem fwd_syncRule_applies:
  assumes "\<And>n. range_order (ords n)" and "iptables_laws ipt tv"
    and "tunnels_ok (ag_f s) (ag_go s)"
  shows "fst (fwd_syncRule ords ipt fwd s) =
      fst (updateIptablesRule ords ipt (fwd_getExpectedIptablesRule fwd) (ag_env s)) \<and>
    (\<forall>s'. fwd_syncRule ords ipt fwd s = (Inr (), s') \<longrightarrow>
      fwd_applied tv fwd s' \<and> tunnels_ok (ag_f s') (ag_go s') \<and>
      (iptables_answers ipt tv \<longrightarrow> (\<exists>s''. fwd_ruleSynced ords ipt fwd s' = (Inr True, s''))))"
proof -
  obtain r e where rules: "updateIptablesRule ords ipt (fwd_getExpectedIptablesRule fwd) (ag_env s) = (r, e)"
    by force
  from fwd_syncRule_runs [where ords = ords, OF assms(1,3) rules] obtain a where
    "fwd_syncRule ords ipt fwd s = (r, s\<lparr>ag_own := a, ag_env := e\<rparr>)" by blast
  moreover have "fwd_applied tv fwd s' \<and> tunnels_ok (ag_f s') (ag_go s') \<and>
      (iptables_answers ipt tv \<longrightarrow> (\<exists>s''. fwd_ruleSynced ords ipt fwd s' = (Inr True, s'')))"
    if "fwd_syncRule ords ipt fwd s = (Inr (), s')" for s'
    using fwd_syncRule_lemma [of ords, OF assms that] applied_synced [of ords, OF assms(1,2)] by blast
  ultimately show ?thesis using rules by simp
qed

text \<open>
  The way of egress traffic through the forwarder. After a successful
  \<^verbatim>\<open>syncRule\<close>, each egress rule without a colon in its fields has a live tunnel that
  listens on the forwarder's address and the rule's relay port, through the gateway's ssh
  server, to the rule's destination; and the PREROUTING chain sends the packets from the rule's
  source and target port to exactly the endpoint on which that tunnel listens.
\<close>

theorem egress_rule_has_tunnel:
  assumes "\<And>n. range_order (ords n)" and "iptables_laws ipt tv"
    and "tunnels_ok (ag_f s) (ag_go s)" and "fwd_syncRule ords ipt fwd s = (Inr u, s')"
    and "r \<in> set (fwd_EgressRules (fwd_Spec fwd))"
    and "\<forall>x \<in> {fwd_ForwarderIP (fwd_Spec fwd), fr_RelayPort r, fr_GatewayIP r, fr_DestinationIP r,
           fr_DestinationPort r}. CHR '':'' \<notin> set x"
  shows "\<exists>t \<in> ran (map_of (f_tunnels (ag_f s'))).
    tun_local t = fwd_ForwarderIP (fwd_Spec fwd) @ '':'' @ fr_RelayPort r \<and>
    tun_server t = fr_GatewayIP r @ '':'' @ SSHPort \<and>
    tun_remote t = fr_DestinationIP r @ '':'' @ fr_DestinationPort r \<and>
    tun_context t \<notin> set (go_cancelled (ag_go s')) \<and>
    (\<exists>rules. tv (ag_env s') (TableNAT, ChainPrerouting) = Some rules \<and>
       [''-m'', ''tcp'', ''-p'', ''tcp'', ''--dst'', fwd_ForwarderIP (fwd_Spec fwd),
        ''--src'', fr_SourceIP r, ''--dport'', fr_TargetPort r, ''-j'', ''DNAT'',
        ''--to-destination'', tun_local t] \<in> set rules)"
proof -
  from fwd_syncRule_lemma [of ords, OF assms(1-4)] have ap: "fwd_applied tv fwd s'"
    and ok: "tables_ok (f_tunnels (ag_f s')) (f_remoteTunnels (ag_f s')) (ag_go s')"
    by (simp_all add: tunnels_ok_def)
  then have tbl: "tbl_ok (f_tunnels (ag_f s')) (ag_go s')" by (simp add: tables_ok_def)
  from ap assms(5) have "egress_key fwd r \<in> dom (map_of (f_tunnels (ag_f s')))"
    by (simp add: fwd_applied_def)
  then obtain t where t: "map_of (f_tunnels (ag_f s')) (egress_key fwd r) = Some t" by blast
  have "CHR '':'' \<notin> set SSHPort" by (simp add: SSHPort_def)
  with assms(6) have "t = NewTunnel (tun_context t) (fwd_ForwarderIP (fwd_Spec fwd) @ '':'' @ fr_RelayPort r)
      (fr_GatewayIP r @ '':'' @ SSHPort) (fr_DestinationIP r @ '':'' @ fr_DestinationPort r)"
    using tbl_okD(2) [OF tbl t] toTunnel_key unfolding egress_key_def by simp
  then have "tun_local t = fwd_ForwarderIP (fwd_Spec fwd) @ '':'' @ fr_RelayPort r"
    "tun_server t = fr_GatewayIP r @ '':'' @ SSHPort"
    "tun_remote t = fr_DestinationIP r @ '':'' @ fr_DestinationPort r"
    by (metis NewTunnel_def tunnel.select_convs)+
  moreover have "t \<in> ran (map_of (f_tunnels (ag_f s')))" using t by (auto simp: ran_def)
  moreover have "\<exists>rules. tv (ag_env s') (TableNAT, ChainPrerouting) = Some rules \<and> dnat_of fwd r \<in> set rules"
    using ap assms(5) by (auto simp: fwd_applied_def)
  ultimately show ?thesis
    using tbl_okD(4) [OF tbl t] by (auto simp: dnat_of_def DNATRuleSpec_def)
qed

section \<open>Reconcile\<close>

text \<open>
  What a successful pass leaves. If \<^verbatim>\<open>Reconcile\<close> succeeds for the agent's own
  Forwarder when that needs a sync, then the tunnels and the iptables rules are those of the
  Forwarder that was read, and the API server's object is marked as synced at the rule
  generation that was read, so that later passes only check it.
\<close>

theorem fwd_Reconcile_syncs:
  assumes "conditions_laws L look" and "resource_laws v (\<lambda>x. meta_key (fwd_Meta x)) put_fwd_status R"
    and "host_laws h" and "writes_quiet (h_tables h) R" and "reads_quiet (h_tables h) R"
    and "tunnels_ok (ag_f s) (ag_go s)" and "fwd_mine (ag_own s) namespace name"
    and "res_Get R \<lparr>nn_Namespace = namespace, nn_Name = name\<rparr> (ag_env s) = (Inr fwd, e)"
    and "fwd_needSync L fwd"
    and "fwd_Reconcile L (h_ords h) R (h_ipt h) namespace name s = (Inr (), s')"
  shows "fwd_applied (h_tables h) fwd s' \<and> tunnels_ok (ag_f s') (ag_go s') \<and>
    (\<exists>stored. v (ag_env s') \<lparr>nn_Namespace = namespace, nn_Name = name\<rparr> = Some stored \<and>
       fwd_needCheckSync L stored \<and> \<not> fwd_needSync L stored \<and>
       fwd_SyncGeneration (fwd_Status stored) = fwd_RuleGeneration (fwd_Status fwd))"
proof -
  from fwd_agent.pass_syncs [OF assms(1-8) assms(9,10)] obtain stored where
    "fwd_applied (h_tables h) fwd s'" "tunnels_ok (ag_f s') (ag_go s')"
    and stored: "v (ag_env s') \<lparr>nn_Namespace = namespace, nn_Name = name\<rparr> = Some stored"
    and due: "check_due (fwd_view look stored)" "sv_rule (fwd_view look stored) = sv_rule (fwd_view look fwd)"
    by blast
  moreover have check: "fwd_needCheckSync L stored" using due by (simp add: fwd_sync.needCheckSync [OF assms(1)])
  moreover from this fwd_sync.not_both [OF assms(1)] have "\<not> fwd_needSync L stored" by blast
  moreover have "fwd_SyncGeneration (fwd_Status stored) = fwd_RuleGeneration (fwd_Status fwd)"
    using due by (simp add: check_due_def fwd_view_def)
  ultimately show ?thesis by blast
qed

text \<open>
  The first pass over a changed Forwarder fails. On a server with optimistic concurrency, a
  pass that has to mark the Forwarder as syncing never succeeds: the second status update is
  built on the object from before the first one.
\<close>

theorem fwd_first_pass_fails:
  assumes "conditions_laws L look" and "resource_laws v (\<lambda>x. meta_key (fwd_Meta x)) put_fwd_status R"
    and "versioned v fwd_Meta R" and "host_works h v" and "fwd_mine (ag_own s) namespace name"
    and "res_Get R \<lparr>nn_Namespace = namespace, nn_Name = name\<rparr> (ag_env s) = (Inr fwd, e)"
    and "fwd_needSync L fwd" and "\<not> isTrueFor L (fwd_Conditions (fwd_Status fwd)) ConditionRuleSyncing"
  shows "\<exists>err. fst (fwd_Reconcile L (h_ords h) R (h_ipt h) namespace name s) = Inl err"
proof -
  have "sv_syncing (fwd_view look fwd) \<noteq> Some ConditionTrue"
    using assms(8) by (simp add: fwd_view_def conditions_lawsD(2) [OF assms(1)])
  from fwd_agent.first_pass_fails [OF assms(1-7) this] show ?thesis .
qed

text \<open>
  C15: The agent converges. When the API server and iptables work and nobody else writes, three
  passes over a Forwarder that needs a sync bring it home: the first applies the rules and is
  refused with a conflict, the second applies and records them, and the third finds them in
  place, succeeds and changes neither the agent nor the API server.
\<close>

theorem fwd_agent_converges:
  assumes "conditions_laws L look" and "resource_laws v (\<lambda>x. meta_key (fwd_Meta x)) put_fwd_status R"
    and "versioned v fwd_Meta R" and "available v fwd_Meta R"
    and "writes_quiet (h_tables h) R" and "reads_quiet (h_tables h) R"
    and "host_laws h" and "host_works h v"
    and "tunnels_ok (ag_f s) (ag_go s)" and "fwd_mine (ag_own s) namespace name"
    and "meta_key (fwd_Meta fwd) = \<lparr>nn_Namespace = namespace, nn_Name = name\<rparr>"
    and "v (ag_env s) \<lparr>nn_Namespace = namespace, nn_Name = name\<rparr> = Some fwd"
    and "fwd_needSync L fwd" and "\<not> isTrueFor L (fwd_Conditions (fwd_Status fwd)) ConditionRuleSyncing"
  shows "\<exists>s1 s2 s3 stored.
    fwd_Reconcile L (h_ords h) R (h_ipt h) namespace name s = (Inl Conflict, s1) \<and>
    fwd_Reconcile L (h_ords h) R (h_ipt h) namespace name s1 = (Inr (), s2) \<and>
    fwd_Reconcile L (h_ords h) R (h_ipt h) namespace name s2 = (Inr (), s3) \<and>
    fwd_applied (h_tables h) fwd s1 \<and> fwd_applied (h_tables h) fwd s2 \<and> fwd_applied (h_tables h) fwd s3 \<and>
    v (ag_env s2) \<lparr>nn_Namespace = namespace, nn_Name = name\<rparr> = Some stored \<and>
    fwd_SyncGeneration (fwd_Status stored) = fwd_RuleGeneration (fwd_Status fwd) \<and>
    v (ag_env s3) = v (ag_env s2) \<and> ag_own s3 = ag_own s2"
proof -
  have not_yet: "sv_syncing (fwd_view look fwd) \<noteq> Some ConditionTrue"
    using assms(14) by (simp add: fwd_view_def conditions_lawsD(2) [OF assms(1)])
  have S: "fwd_agent.server_laws v h R" using assms(2-8) by (simp add: fwd_agent.server_laws_def)
  have H: "fwd_agent.holds v h namespace name s fwd" using assms(9-12) by (simp add: fwd_agent.holds_def)
  from fwd_agent.converges [OF assms(1) S H TrueI assms(13) not_yet] show ?thesis
    by (auto simp: check_due_def fwd_view_def)
qed

section \<open>Reachable states\<close>

text \<open>
  The states an agent of a Forwarder can be in between two passes: it starts without tunnels;
  a pass may be for any resource, succeed or fail, with any answers of the API server and
  iptables, and the environment may change in any way before the next one.
\<close>

inductive fwd_reachable :: "'c libs \<Rightarrow> string \<Rightarrow> string \<Rightarrow> 'w fwd_agent \<Rightarrow> bool"
  for L namespace name where
  start: "fwd_reachable L namespace name \<lparr>ag_own = (NewReconciler namespace name, newGoroutines), ag_env = e\<rparr>"
| pass: "\<lbrakk>fwd_reachable L namespace name s; \<And>n. range_order (ords n);
          fwd_Reconcile L ords R ipt namespace' name' s = (r, s')\<rbrakk> \<Longrightarrow>
         fwd_reachable L namespace name (s'\<lparr>ag_env := e\<rparr>)"

lemma fwd_Reconcile_preserves:
  assumes "\<And>n. range_order (ords n)"
  shows "preserves (reconciler_ok namespace name) (fwd_Reconcile L ords R ipt namespace' name')"
proof -
  let ?P = "reconciler_ok namespace name"
  have "preserves ?P (fwd_syncRule ords ipt fwd)" for fwd
    unfolding fwd_syncRule_def
    by (intro preserves_andThen preserves_onOwn preserves_onEnv)
       (auto intro: updateSSHTunnel_ok updateRemoteSSHTunnel_ok assms expected_tunnels(1,3))
  moreover have "preserves ?P (fwd_ruleSynced ords ipt fwd)" for fwd
    unfolding fwd_ruleSynced_def by (auto simp: split_def)
  ultimately show ?thesis
    unfolding fwd_Reconcile_def split_def
    by (intro preserves_andThen preserves_if preserves_onEnv preserves_basic)
qed

lemma fwd_reachable_ok: "fwd_reachable L namespace name s \<Longrightarrow> reconciler_ok namespace name (ag_own s)"
proof (induction rule: fwd_reachable.induct)
  case (start e)
  show ?case by (simp add: reconciler_ok_new)
next
  case (pass s ords R ipt namespace' name' r s' e)
  from preservesD [OF fwd_Reconcile_preserves [OF pass.hyps(2)] pass.IH pass.hyps(3)] show ?case by simp
qed

text \<open>
  C7: The tables never lie. In every reachable state of the agent, each tunnel of a table has
  exactly the endpoints that its key spells, was started in the right direction, and has a
  context that was not cancelled and that no other tunnel of either table has, so that
  cancelling a tunnel stops no other one.
\<close>

theorem fwd_reachable_tunnels:
  assumes "fwd_reachable L namespace name s"
  shows "(\<forall>k t. map_of (f_tunnels (ag_f s)) k = Some t \<longrightarrow>
      toTunnel (tun_context t) k = Inr t \<and> t \<in> set (go_forwards (ag_go s)) \<and>
      tun_context t \<notin> set (go_cancelled (ag_go s))) \<and>
    (\<forall>k t. map_of (f_remoteTunnels (ag_f s)) k = Some t \<longrightarrow>
      toTunnel (tun_context t) k = Inr t \<and> t \<in> set (go_remoteForwards (ag_go s)) \<and>
      tun_context t \<notin> set (go_cancelled (ag_go s))) \<and>
    (\<forall>k k' t t'. map_of (f_tunnels (ag_f s)) k = Some t \<and> map_of (f_remoteTunnels (ag_f s)) k' = Some t' \<longrightarrow>
      tun_context t \<noteq> tun_context t') \<and>
    inj_on tun_context (ran (map_of (f_tunnels (ag_f s)))) \<and>
    inj_on tun_context (ran (map_of (f_remoteTunnels (ag_f s))))"
proof -
  from fwd_reachable_ok [OF assms] have
    t: "tbl_ok (f_tunnels (ag_f s)) (ag_go s)" and u: "tbl_ok (f_remoteTunnels (ag_f s)) (ag_go s)"
    and apart: "contexts (f_tunnels (ag_f s)) \<inter> contexts (f_remoteTunnels (ag_f s)) = {}"
    and started: "started_ok (ag_f s) (ag_go s)"
    by (auto simp: reconciler_ok_def split_def tunnels_ok_def tables_ok_def)
  have inj: "inj_on tun_context (ran (map_of tbl))" if "tbl_ok tbl g" for tbl g
    using tbl_okD(5) [OF that] by (fastforce simp: inj_on_def ran_def)
  have "t \<in> ran m" if "m k = Some t" for m :: "string \<rightharpoonup> tunnel" and k t
    using that by (auto simp: ran_def)
  with started have "t \<in> set (go_forwards (ag_go s))" if "map_of (f_tunnels (ag_f s)) k = Some t" for k t
    using that unfolding started_ok_def by blast
  moreover have "t \<in> set (go_remoteForwards (ag_go s))" if "map_of (f_remoteTunnels (ag_f s)) k = Some t" for k t
    using that started unfolding started_ok_def ran_def by blast
  moreover have "tun_context t \<noteq> tun_context t'"
    if "map_of (f_tunnels (ag_f s)) k = Some t" "map_of (f_remoteTunnels (ag_f s)) k' = Some t'" for k k' t t'
    using context_of [OF that(1)] context_of [OF that(2)] apart by auto
  ultimately show ?thesis
    using inj [OF t] inj [OF u] tbl_okD(2,4) [OF t] tbl_okD(2,4) [OF u] by blast
qed

end
