(* ===== verification/GatewayAgent.thy ===== *)
theory GatewayAgent
  imports AgentLoop Tunnels
begin

text \<open>
  The gateway's agent (\<^verbatim>\<open>pkg/gateway/reconciler.go\<close>): one ssh server for each gateway
  address, two iptables chains of its own for each gateway with jumps from the built-in
  chains, and \<^verbatim>\<open>Reconcile\<close>.

  The agent's own state is its reconciler and the servers for which it started a goroutine;
  that goroutine retries \<^verbatim>\<open>ListenAndServe\<close> with exponential backoff, which is library
  code.
\<close>

section \<open>The code\<close>

definition prechainPrefix :: string where
  "prechainPrefix = ''pre''"

definition postchainPrefix :: string where
  "postchainPrefix = ''pst''"

record gw_reconciler =
  g_namespace :: string
  g_ssh :: "ssh_server gomap"

type_synonym gw_own = "gw_reconciler \<times> ssh_server list"
type_synonym 'w gw_agent = "(gw_own, 'w) agent"

abbreviation ag_g :: "'w gw_agent \<Rightarrow> gw_reconciler" where
  "ag_g s \<equiv> fst (ag_own s)"

abbreviation ag_sshds :: "'w gw_agent \<Rightarrow> ssh_server list" where
  "ag_sshds s \<equiv> snd (ag_own s)"

definition gw_NewReconciler :: "string \<Rightarrow> gw_reconciler" where
  "gw_NewReconciler ns = \<lparr>g_namespace = ns, g_ssh = []\<rparr>"

definition ensureSshdRunning :: "string \<Rightarrow> gw_own \<Rightarrow> gw_own result" where
  "ensureSshdRunning ip = (\<lambda>(g, started).
     if map_of (g_ssh g) ip \<noteq> None then Inr (g, started)
     else (let srv = NewSSHServer (ip @ '':'' @ SSHPort)
           in Inr (g\<lparr>g_ssh := gset ip srv (g_ssh g)\<rparr>, started @ [srv])))"

text \<open>\<open>close\<close> is the server's \<^verbatim>\<open>Close\<close>. Nothing calls \<^verbatim>\<open>stopSshd\<close>.\<close>

definition stopSshd :: "(ssh_server \<Rightarrow> ('w, unit) io) \<Rightarrow> string \<Rightarrow> ('w gw_agent, unit) io" where
  "stopSshd close ip =
     andThen getOwn (\<lambda>(g, started). case map_of (g_ssh g) ip of
         None \<Rightarrow> ret ()
       | Some srv \<Rightarrow>
           andThen (onEnv (close srv)) (\<lambda>_.
           onOwn (\<lambda>(g, started). Inr (g\<lparr>g_ssh := gdel ip (g_ssh g)\<rparr>, started))))"

definition gw_getExpectedIptablesRule :: "'c gateway \<Rightarrow> (chains \<times> chains) result" where
  "gw_getExpectedIptablesRule gw =
     rbind (GetHexIP (gw_GatewayIP (gw_Spec gw))) (\<lambda>hexIP.
       let preChain = prechainPrefix @ hexIP;
           postChain = postchainPrefix @ hexIP;
           jumpChains = [(ChainPrerouting, [[''-j'', preChain]]), (ChainPostrouting, [[''-j'', postChain]])];
           chains = [(preChain, []), (postChain, [])]
       in Inr (jumpChains,
            fold (\<lambda>rule chains.
                appendRule postChain
                  (SNATRuleSpec (gr_DestinationIP rule) (gw_GatewayIP (gw_Spec gw)) (gr_RelayPort rule))
                (appendRule preChain
                  (DNATRuleSpec (gw_GatewayIP (gw_Spec gw)) (gr_SourceIP rule) (gr_TargetPort rule)
                     (gw_GatewayIP (gw_Spec gw)) (gr_RelayPort rule)) chains))
              (gw_IngressRules (gw_Spec gw)) chains))"

definition applyIptablesRules ::
  "(nat \<Rightarrow> key_order) \<Rightarrow> 'w iptables \<Rightarrow> 'c gateway \<Rightarrow> ('w, unit) io" where
  "applyIptablesRules ords ipt gw =
     andThen (lift_result (gw_getExpectedIptablesRule gw)) (\<lambda>(jumpChains, chains).
     andThen (ReplaceChains (ords 0) (ords 1) ipt TableNAT chains) (\<lambda>_.
     AddChains (ords 2) (ords 3) ipt TableNAT jumpChains))"

definition gw_syncRule ::
  "(nat \<Rightarrow> key_order) \<Rightarrow> 'w iptables \<Rightarrow> 'c gateway \<Rightarrow> ('w gw_agent, unit) io" where
  "gw_syncRule ords ipt gw =
     andThen (onOwn (ensureSshdRunning (gw_GatewayIP (gw_Spec gw)))) (\<lambda>_.
     onEnv (applyIptablesRules ords ipt gw))"

definition checkSshdRunning ::
  "(string \<Rightarrow> ('w, 'conn option) io) \<Rightarrow> ('conn \<Rightarrow> 'w \<Rightarrow> 'w) \<Rightarrow> string \<Rightarrow> ('w, bool) io" where
  "checkSshdRunning dial close ip = (\<lambda>w. case IsPortOpen dial close ip SSHPort w of (b, w') \<Rightarrow> (Inr b, w'))"

definition checkIptablesRulesApplied ::
  "(nat \<Rightarrow> key_order) \<Rightarrow> 'w iptables \<Rightarrow> 'c gateway \<Rightarrow> ('w, bool) io" where
  "checkIptablesRulesApplied ords ipt gw =
     (case gw_getExpectedIptablesRule gw of
        Inl err \<Rightarrow> ret False
      | Inr expected \<Rightarrow>
          (let (jumpChains, chains) = expected in
           andThen (CheckChainsExist (ords 0) ipt TableNAT chains) (\<lambda>found.
           if \<not> found then ret False
           else andThen (CheckChainsExist (ords 1) ipt TableNAT jumpChains) (\<lambda>found.
           if \<not> found then ret False else ret True))))"

definition gw_ruleSynced ::
  "(nat \<Rightarrow> key_order) \<Rightarrow> 'w iptables \<Rightarrow> (string \<Rightarrow> ('w, 'conn option) io) \<Rightarrow> ('conn \<Rightarrow> 'w \<Rightarrow> 'w)
     \<Rightarrow> 'c gateway \<Rightarrow> ('w, bool) io" where
  "gw_ruleSynced ords ipt dial close gw =
     andThen (checkSshdRunning dial close (gw_GatewayIP (gw_Spec gw))) (\<lambda>running.
     if \<not> running then ret False else checkIptablesRulesApplied ords ipt gw)"

definition gw_Reconcile ::
  "'c libs \<Rightarrow> (nat \<Rightarrow> key_order) \<Rightarrow> ('w, 'c gateway) resource \<Rightarrow> 'w iptables
     \<Rightarrow> (string \<Rightarrow> ('w, 'conn option) io) \<Rightarrow> ('conn \<Rightarrow> 'w \<Rightarrow> 'w) \<Rightarrow> string \<Rightarrow> string
     \<Rightarrow> ('w gw_agent, unit) io" where
  "gw_Reconcile L ords R ipt dial close namespace name =
     andThen getOwn (\<lambda>(g, _).
     if g_namespace g \<noteq> namespace then ret ()
     else
     andThen (onEnv (res_Get R \<lparr>nn_Namespace = namespace, nn_Name = name\<rparr>)) (\<lambda>gw.
     if gw_needSync L gw
     then andThen (onEnv (gw_setSyncing L R gw)) (\<lambda>gw.
          andThen (gw_syncRule ords ipt gw) (\<lambda>_.
          andThen (onEnv (gw_setSynced L R gw)) (\<lambda>_. ret ())))
     else if gw_needCheckSync L gw
     then andThen (onEnv (gw_ruleSynced ords ipt dial close gw)) (\<lambda>synced.
          if \<not> synced then andThen (onEnv (gw_setSyncing L R gw)) (\<lambda>_. ret ()) else ret ())
     else ret ()))"

section \<open>What a Gateway asks for\<close>

definition gw_dnat_of :: "'c gateway \<Rightarrow> gateway_rule \<Rightarrow> rule_spec" where
  "gw_dnat_of gw rule =
     DNATRuleSpec (gw_GatewayIP (gw_Spec gw)) (gr_SourceIP rule) (gr_TargetPort rule)
       (gw_GatewayIP (gw_Spec gw)) (gr_RelayPort rule)"

definition gw_snat_of :: "'c gateway \<Rightarrow> gateway_rule \<Rightarrow> rule_spec" where
  "gw_snat_of gw rule =
     SNATRuleSpec (gr_DestinationIP rule) (gw_GatewayIP (gw_Spec gw)) (gr_RelayPort rule)"

text \<open>The names of a gateway's chains differ from each other and from the built-in ones.\<close>

lemma chain_names [simp]:
  "prechainPrefix @ h \<noteq> postchainPrefix @ h'" "postchainPrefix @ h' \<noteq> prechainPrefix @ h"
  "prechainPrefix @ h \<noteq> ChainPrerouting" "prechainPrefix @ h \<noteq> ChainPostrouting"
  "postchainPrefix @ h \<noteq> ChainPrerouting" "postchainPrefix @ h \<noteq> ChainPostrouting"
  by (simp_all add: prechainPrefix_def postchainPrefix_def ChainPrerouting_def ChainPostrouting_def)

definition jump_chains :: "string \<Rightarrow> chains" where
  "jump_chains h =
     [(ChainPrerouting, [[''-j'', prechainPrefix @ h]]), (ChainPostrouting, [[''-j'', postchainPrefix @ h]])]"

lemma jump_chains_simps:
  "gomap_ok (jump_chains h)"
  "dom (map_of (jump_chains h)) = {ChainPrerouting, ChainPostrouting}"
  "rules_for (jump_chains h) c =
     (if c = ChainPrerouting then [[''-j'', prechainPrefix @ h]]
      else if c = ChainPostrouting then [[''-j'', postchainPrefix @ h]] else [])"
  by (auto simp: jump_chains_def gomap_ok_def gkeys_def)

definition gw_chains :: "'c gateway \<Rightarrow> string \<Rightarrow> chains" where
  "gw_chains gw h =
     fold (\<lambda>rule it. appendRule (postchainPrefix @ h) (gw_snat_of gw rule)
         (appendRule (prechainPrefix @ h) (gw_dnat_of gw rule) it))
       (gw_IngressRules (gw_Spec gw)) [(prechainPrefix @ h, []), (postchainPrefix @ h, [])]"

lemma gw_expected:
  assumes "GetHexIP (gw_GatewayIP (gw_Spec gw)) = Inr h"
  shows "gw_getExpectedIptablesRule gw = Inr (jump_chains h, gw_chains gw h)"
  by (simp add: gw_getExpectedIptablesRule_def assms Let_def jump_chains_def gw_chains_def gw_dnat_of_def
      gw_snat_of_def)

lemma gw_chains_simps:
  "gomap_ok (gw_chains gw h)"
  "rules_for (gw_chains gw h) (prechainPrefix @ h) = map (gw_dnat_of gw) (gw_IngressRules (gw_Spec gw))"
  "rules_for (gw_chains gw h) (postchainPrefix @ h) = map (gw_snat_of gw) (gw_IngressRules (gw_Spec gw))"
  "set (gkeys (gw_chains gw h)) = {prechainPrefix @ h, postchainPrefix @ h}"
  unfolding gw_chains_def by (rule two_chains, rule chain_names)+

lemma gw_expected_error:
  "GetHexIP (gw_GatewayIP (gw_Spec gw)) = Inl e \<Longrightarrow> gw_getExpectedIptablesRule gw = Inl e"
  by (simp add: gw_getExpectedIptablesRule_def)

section \<open>Applying: lemmas\<close>

text \<open>The chains of the gateway with hexadecimal address \<open>h\<close> hold its rules and are jumped to.\<close>

definition gw_chains_hold :: "tables \<Rightarrow> 'c gateway \<Rightarrow> string \<Rightarrow> bool" where
  "gw_chains_hold tb gw h \<longleftrightarrow>
     (\<exists>rs. tb (TableNAT, prechainPrefix @ h) = Some rs \<and>
        set rs = gw_dnat_of gw ` set (gw_IngressRules (gw_Spec gw))) \<and>
     (\<exists>rs. tb (TableNAT, postchainPrefix @ h) = Some rs \<and>
        set rs = gw_snat_of gw ` set (gw_IngressRules (gw_Spec gw))) \<and>
     (\<exists>rs. tb (TableNAT, ChainPrerouting) = Some rs \<and> [''-j'', prechainPrefix @ h] \<in> set rs) \<and>
     (\<exists>rs. tb (TableNAT, ChainPostrouting) = Some rs \<and> [''-j'', postchainPrefix @ h] \<in> set rs)"

lemma apply_tables:
  assumes ords: "\<And>n. range_order (ords n)" and ipt: "iptables_laws ipt tv"
    and h: "GetHexIP (gw_GatewayIP (gw_Spec gw)) = Inr h"
    and run: "applyIptablesRules ords ipt gw w = (Inr u, w')"
  shows "tv w' = appended TableNAT (jump_chains h)
      (\<lambda>k. if fst k = TableNAT \<and> snd k \<in> {prechainPrefix @ h, postchainPrefix @ h}
           then Some (append_all (rules_for (gw_chains gw h) (snd k)) []) else tv w k) \<and>
    (\<forall>c \<in> {ChainPrerouting, ChainPostrouting}. tv w (TableNAT, c) \<noteq> None)"
proof -
  from run obtain w1 where one: "ReplaceChains (ords 0) (ords 1) ipt TableNAT (gw_chains gw h) w = (Inr (), w1)"
    and two: "AddChains (ords 2) (ords 3) ipt TableNAT (jump_chains h) w1 = (Inr u, w')"
    by (auto simp: applyIptablesRules_def gw_expected [OF h] io_eval split: prod.splits sum.splits)
  note t1 = ReplaceChains_tables [OF ipt gw_chains_simps(1) ords ords one, unfolded gw_chains_simps(4)]
  note t2 = AddChains_tables [OF ipt jump_chains_simps(1) ords two]
  have "tv w1 (TableNAT, c) \<noteq> None" if "c \<in> {ChainPrerouting, ChainPostrouting}" for c
    using t2 that by (auto simp: jump_chains_simps split: if_splits)
  then have "tv w (TableNAT, c) \<noteq> None" if "c \<in> {ChainPrerouting, ChainPostrouting}" for c
    using that unfolding t1 by (metis (no_types, lifting) chain_names(3-6) insert_iff singletonD snd_conv)
  with t1 t2 show ?thesis by simp
qed

text \<open>
  One equation for each kind of chain: the gateway's own, the built-in ones, and all others.
\<close>

lemma apply_lookup:
  assumes ords: "\<And>n. range_order (ords n)" and ipt: "iptables_laws ipt tv"
    and h: "GetHexIP (gw_GatewayIP (gw_Spec gw)) = Inr h"
    and run: "applyIptablesRules ords ipt gw w = (Inr u, w')"
  shows "tv w' (TableNAT, prechainPrefix @ h) =
      Some (append_all (map (gw_dnat_of gw) (gw_IngressRules (gw_Spec gw))) [])"
    and "tv w' (TableNAT, postchainPrefix @ h) =
      Some (append_all (map (gw_snat_of gw) (gw_IngressRules (gw_Spec gw))) [])"
    and "\<exists>rs. tv w (TableNAT, ChainPrerouting) = Some rs \<and>
      tv w' (TableNAT, ChainPrerouting) = Some (add_unique [''-j'', prechainPrefix @ h] rs)"
    and "\<exists>rs. tv w (TableNAT, ChainPostrouting) = Some rs \<and>
      tv w' (TableNAT, ChainPostrouting) = Some (add_unique [''-j'', postchainPrefix @ h] rs)"
    and "k \<notin> {TableNAT} \<times> {prechainPrefix @ h, postchainPrefix @ h, ChainPrerouting, ChainPostrouting} \<Longrightarrow>
      tv w' k = tv w k"
proof -
  note t = apply_tables [of ords, OF assms]
  show "tv w' (TableNAT, prechainPrefix @ h) =
      Some (append_all (map (gw_dnat_of gw) (gw_IngressRules (gw_Spec gw))) [])"
    "tv w' (TableNAT, postchainPrefix @ h) =
      Some (append_all (map (gw_snat_of gw) (gw_IngressRules (gw_Spec gw))) [])"
    using t by (simp_all add: appended_def jump_chains_simps gw_chains_simps)
  show "\<exists>rs. tv w (TableNAT, ChainPrerouting) = Some rs \<and>
      tv w' (TableNAT, ChainPrerouting) = Some (add_unique [''-j'', prechainPrefix @ h] rs)"
    using t by (auto simp: appended_def jump_chains_simps chain_names [symmetric])
  show "\<exists>rs. tv w (TableNAT, ChainPostrouting) = Some rs \<and>
      tv w' (TableNAT, ChainPostrouting) = Some (add_unique [''-j'', postchainPrefix @ h] rs)"
    using t by (auto simp: appended_def jump_chains_simps chain_names [symmetric])
  show "tv w' k = tv w k"
    if "k \<notin> {TableNAT} \<times> {prechainPrefix @ h, postchainPrefix @ h, ChainPrerouting, ChainPostrouting}"
    using t that by (cases k) (auto simp: appended_def jump_chains_simps option.map_ident)
qed

lemma apply_holds:
  assumes "\<And>n. range_order (ords n)" and "iptables_laws ipt tv"
    and "GetHexIP (gw_GatewayIP (gw_Spec gw)) = Inr h"
    and "applyIptablesRules ords ipt gw w = (Inr u, w')"
  shows "gw_chains_hold (tv w') gw h"
  using apply_lookup(1-4) [of ords, OF assms]
  by (auto simp: gw_chains_hold_def set_append_all add_unique_def)

text \<open>A gateway with another address keeps its rules.\<close>

lemma apply_isolated:
  assumes "\<And>n. range_order (ords n)" and "iptables_laws ipt tv"
    and "GetHexIP (gw_GatewayIP (gw_Spec gw)) = Inr h"
    and "applyIptablesRules ords ipt gw w = (Inr u, w')"
    and "h' \<noteq> h" and "gw_chains_hold (tv w) gw' h'"
  shows "gw_chains_hold (tv w') gw' h'"
proof -
  note l = apply_lookup [of ords, OF assms(1-4)]
  have "tv w' (TableNAT, prechainPrefix @ h') = tv w (TableNAT, prechainPrefix @ h')"
    "tv w' (TableNAT, postchainPrefix @ h') = tv w (TableNAT, postchainPrefix @ h')"
    using assms(5) by (intro l(5); simp)+
  with assms(6) l(3,4) show ?thesis
    by (auto simp: gw_chains_hold_def add_unique_def)
qed

lemma apply_total:
  assumes ords: "\<And>n. range_order (ords n)" and ipt: "iptables_laws ipt tv" "iptables_works ipt tv"
    and h: "GetHexIP (gw_GatewayIP (gw_Spec gw)) = Inr h"
    and exist: "tv w (TableNAT, ChainPrerouting) \<noteq> None" "tv w (TableNAT, ChainPostrouting) \<noteq> None"
  shows "\<exists>w'. applyIptablesRules ords ipt gw w = (Inr (), w')"
proof -
  obtain w1 where one: "ReplaceChains (ords 0) (ords 1) ipt TableNAT (gw_chains gw h) w = (Inr (), w1)"
    using ReplaceChains_total [OF ipt ords ords] by blast
  have "\<forall>c \<in> dom (map_of (jump_chains h)). tv w1 (TableNAT, c) \<noteq> None"
    using exist unfolding ReplaceChains_tables [OF ipt(1) gw_chains_simps(1) ords ords one, unfolded gw_chains_simps(4)]
    by (auto simp: jump_chains_simps)
  from AddChains_total [OF ipt ords this] obtain w2 where
    "AddChains (ords 2) (ords 3) ipt TableNAT (jump_chains h) w1 = (Inr (), w2)" by blast
  with one show ?thesis by (simp add: applyIptablesRules_def gw_expected [OF h] io_eval)
qed

lemma apply_quiet:
  "iptables_quiet v ipt \<Longrightarrow> quiet v (applyIptablesRules ords ipt gw)"
  by (auto simp: applyIptablesRules_def split_def intro!: quiet_andThen chains_quiet)

section \<open>The agent follows the contract\<close>

definition sshd_running :: "gw_own \<Rightarrow> string \<Rightarrow> bool" where
  "sshd_running a ip \<longleftrightarrow>
     map_of (g_ssh (fst a)) ip = Some (NewSSHServer (ip @ '':'' @ SSHPort)) \<and>
     NewSSHServer (ip @ '':'' @ SSHPort) \<in> set (snd a)"

text \<open>Every server of the table is that of its key's address and was started.\<close>

definition sshds_ok :: "gw_own \<Rightarrow> bool" where
  "sshds_ok a \<longleftrightarrow> (\<forall>ip. map_of (g_ssh (fst a)) ip \<noteq> None \<longrightarrow> sshd_running a ip)"

definition gw_applied :: "('w \<Rightarrow> tables) \<Rightarrow> 'c gateway \<Rightarrow> 'w gw_agent \<Rightarrow> bool" where
  "gw_applied tv gw s \<longleftrightarrow>
     (\<exists>h. GetHexIP (gw_GatewayIP (gw_Spec gw)) = Inr h \<and> gw_chains_hold (tv (ag_env s)) gw h) \<and>
     sshd_running (ag_own s) (gw_GatewayIP (gw_Spec gw))"

definition gw_ok :: "('w \<Rightarrow> tables) \<Rightarrow> 'w gw_agent \<Rightarrow> bool" where
  "gw_ok tv s \<longleftrightarrow> sshds_ok (ag_own s) \<and> tv (ag_env s) (TableNAT, ChainPrerouting) \<noteq> None \<and>
     tv (ag_env s) (TableNAT, ChainPostrouting) \<noteq> None"

definition gw_mine :: "gw_own \<Rightarrow> string \<Rightarrow> string \<Rightarrow> bool" where
  "gw_mine a namespace name \<longleftrightarrow> g_namespace (fst a) = namespace"

lemma ensureSshdRunning_spec:
  "\<exists>a'. ensureSshdRunning ip a = Inr a' \<and> g_namespace (fst a') = g_namespace (fst a) \<and>
     dom (map_of (g_ssh (fst a'))) = insert ip (dom (map_of (g_ssh (fst a)))) \<and>
     (\<forall>x. sshd_running a x \<longrightarrow> sshd_running a' x) \<and> (sshds_ok a \<longrightarrow> sshds_ok a' \<and> sshd_running a' ip)"
proof (cases "map_of (g_ssh (fst a)) ip")
  case None
  obtain g started where a: "a = (g, started)" by (cases a)
  with None show ?thesis
    by (auto simp: ensureSshdRunning_def Let_def sshds_ok_def sshd_running_def NewSSHServer_def split: if_splits)
next
  case (Some srv)
  obtain g started where a: "a = (g, started)" by (cases a)
  with Some show ?thesis
    by (intro exI [of _ a]) (auto simp: ensureSshdRunning_def sshds_ok_def)
qed

lemma gw_syncRule_runs:
  "\<exists>a. ensureSshdRunning (gw_GatewayIP (gw_Spec gw)) (ag_own s) = Inr a \<and>
     gw_syncRule ords ipt gw s = onEnv (applyIptablesRules ords ipt gw) (s\<lparr>ag_own := a\<rparr>)"
  using ensureSshdRunning_spec [of "gw_GatewayIP (gw_Spec gw)" "ag_own s"]
  by (auto simp: gw_syncRule_def io_eval(4) onOwn_eval)

lemma gw_syncRule_lemma:
  assumes ords: "\<And>n. range_order (ords n)" and ipt: "iptables_laws ipt tv"
    and ok: "gw_ok tv s" and run: "gw_syncRule ords ipt gw s = (Inr u, s')"
  shows "gw_applied tv gw s' \<and> gw_ok tv s' \<and> g_namespace (ag_g s') = g_namespace (ag_g s)"
proof -
  from gw_syncRule_runs [of gw s ords ipt] obtain a where
    a: "ensureSshdRunning (gw_GatewayIP (gw_Spec gw)) (ag_own s) = Inr a"
    and "gw_syncRule ords ipt gw s = onEnv (applyIptablesRules ords ipt gw) (s\<lparr>ag_own := a\<rparr>)" by blast
  with run have "onEnv (applyIptablesRules ords ipt gw) (s\<lparr>ag_own := a\<rparr>) = (Inr u, s')" by simp
  then obtain e where e: "applyIptablesRules ords ipt gw (ag_env s) = (Inr u, e)"
    and s': "s' = s\<lparr>ag_own := a, ag_env := e\<rparr>" unfolding onEnv_Inr by auto
  from e obtain h where h: "GetHexIP (gw_GatewayIP (gw_Spec gw)) = Inr h"
    by (cases "GetHexIP (gw_GatewayIP (gw_Spec gw))")
       (auto simp: applyIptablesRules_def gw_expected_error io_eval)
  note l = apply_lookup [of ords, OF ords ipt h e]
  show ?thesis
    using ensureSshdRunning_spec [of "gw_GatewayIP (gw_Spec gw)" "ag_own s"] a ok l(3,4) h
      apply_holds [of ords, OF ords ipt h e]
    by (auto simp: gw_applied_def gw_ok_def s')
qed

lemma present_jump:
  assumes "gw_chains_hold tb gw h"
  shows "present tb TableNAT (gw_chains gw h)" and "present tb TableNAT (jump_chains h)"
proof -
  show "present tb TableNAT (jump_chains h)"
    using assms by (auto simp: present_def jump_chains_def gw_chains_hold_def)
  show "present tb TableNAT (gw_chains gw h)"
    unfolding present_def
  proof (intro ballI, clarify)
    fix c rules r assume c: "(c, rules) \<in> set (gw_chains gw h)" and r: "r \<in> set rules"
    then have "rules_for (gw_chains gw h) c = rules"
      using gw_chains_simps(1) [of gw h] by (simp add: rules_for_def gomap_ok_def gkeys_def)
    moreover have "c \<in> {prechainPrefix @ h, postchainPrefix @ h}"
      using c gw_chains_simps(4) [of gw h] by (force simp: gkeys_def)
    ultimately show "\<exists>rs. tb (TableNAT, c) = Some rs \<and> r \<in> set rs"
      using assms r by (auto simp: gw_chains_hold_def gw_chains_simps)
  qed
qed

text \<open>The check of the iptables rules decides whether they are there.\<close>

lemma checkIptables_correct:
  assumes ords: "\<And>n. range_order (ords n)" and ipt: "iptables_laws ipt tv"
  shows "\<exists>b w'. checkIptablesRulesApplied ords ipt gw w = (Inr b, w') \<and> tv w' = tv w \<and>
    (\<forall>h. GetHexIP (gw_GatewayIP (gw_Spec gw)) = Inr h \<and> gw_chains_hold (tv w) gw h \<and>
       iptables_answers ipt tv \<longrightarrow> b)"
proof (cases "GetHexIP (gw_GatewayIP (gw_Spec gw))")
  case (Inl e)
  then show ?thesis
    by (intro exI [of _ False]) (simp add: checkIptablesRulesApplied_def gw_expected_error io_eval)
next
  case (Inr h)
  obtain b w1 where one: "CheckChainsExist (ords 0) ipt TableNAT (gw_chains gw h) w = (Inr b, w1)"
    and w1: "tv w1 = tv w" and b: "iptables_answers ipt tv \<and> present (tv w) TableNAT (gw_chains gw h) \<longrightarrow> b"
    using CheckChainsExist_correct [OF ipt ords gw_chains_simps(1)] by metis
  obtain c w2 where two: "CheckChainsExist (ords 1) ipt TableNAT (jump_chains h) w1 = (Inr c, w2)"
    and w2: "tv w2 = tv w1" and c: "iptables_answers ipt tv \<and> present (tv w1) TableNAT (jump_chains h) \<longrightarrow> c"
    using CheckChainsExist_correct [OF ipt ords jump_chains_simps(1)] by metis
  have "\<exists>w'. checkIptablesRulesApplied ords ipt gw w = (Inr (b \<and> c), w') \<and> tv w' = tv w"
    using one two w1 w2 by (simp add: checkIptablesRulesApplied_def gw_expected [OF Inr] io_eval)
  moreover have "b \<and> c" if "gw_chains_hold (tv w) gw h" "iptables_answers ipt tv"
    using present_jump [OF that(1)] that(2) b c w1 by simp
  ultimately show ?thesis using Inr by force
qed

text \<open>The network of a gateway, on top of its host; \<open>sshd_open\<close> says its own port answers.\<close>

record ('w, 'conn) gw_host = "'w host" +
  gh_dial :: "string \<Rightarrow> ('w, 'conn option) io"
  gh_close :: "'conn \<Rightarrow> 'w \<Rightarrow> 'w"

definition dial_quiet :: "('w \<Rightarrow> 'v) \<Rightarrow> ('w, 'conn) gw_host \<Rightarrow> bool" where
  "dial_quiet v h \<longleftrightarrow> (\<forall>a. quiet v (gh_dial h a)) \<and> (\<forall>c w. v (gh_close h c w) = v w)"

definition sshd_open :: "('w, 'conn) gw_host \<Rightarrow> bool" where
  "sshd_open h \<longleftrightarrow> (\<forall>ip w. \<exists>conn. fst (gh_dial h (JoinHostPort ip SSHPort) w) = Inr (Some conn))"

definition gw_laws :: "('w, 'conn) gw_host \<Rightarrow> bool" where
  "gw_laws h \<longleftrightarrow> host_laws h \<and> dial_quiet (h_tables h) h"

definition gw_works :: "('w, 'conn) gw_host \<Rightarrow> ('w \<Rightarrow> 'v) \<Rightarrow> bool" where
  "gw_works h v \<longleftrightarrow> host_works h v \<and> dial_quiet v h \<and> sshd_open h"

definition gw_check :: "('w, 'conn) gw_host \<Rightarrow> 'c gateway \<Rightarrow> ('w gw_agent, bool) io" where
  "gw_check h gw = onEnv (gw_ruleSynced (h_ords h) (h_ipt h) (gh_dial h) (gh_close h) gw)"

lemma checkSshd_quiet:
  "dial_quiet v h \<Longrightarrow> quiet v (checkSshdRunning (gh_dial h) (gh_close h) ip)"
  by (auto simp: dial_quiet_def quiet_def checkSshdRunning_def IsPortOpen_def split: prod.split sum.split option.split)
     (metis snd_conv)+

lemma checkSshd_open:
  "sshd_open h \<Longrightarrow> \<exists>w'. checkSshdRunning (gh_dial h) (gh_close h) ip w = (Inr True, w')"
proof -
  assume "sshd_open h"
  then obtain conn where "fst (gh_dial h (JoinHostPort ip SSHPort) w) = Inr (Some conn)"
    unfolding sshd_open_def by blast
  then show ?thesis
    by (cases "gh_dial h (JoinHostPort ip SSHPort) w") (simp add: checkSshdRunning_def IsPortOpen_def)
qed

lemma checkIptables_quiet:
  "iptables_quiet v ipt \<Longrightarrow> quiet v (checkIptablesRulesApplied ords ipt gw)"
  unfolding checkIptablesRulesApplied_def
  by (auto intro!: quiet_andThen check_quiet split: sum.split prod.split)

lemma gw_ruleSynced_quiet:
  "\<lbrakk>iptables_quiet v (h_ipt h); dial_quiet v h\<rbrakk> \<Longrightarrow>
     quiet v (gw_ruleSynced (h_ords h) (h_ipt h) (gh_dial h) (gh_close h) gw)"
  unfolding gw_ruleSynced_def
  by (auto intro!: quiet_andThen checkIptables_quiet checkSshd_quiet)

lemma gw_ruleSynced_run:
  assumes laws: "gw_laws h" and run: "gw_ruleSynced (h_ords h) (h_ipt h) (gh_dial h) (gh_close h) gw w = (r, w')"
  shows "h_tables h w' = h_tables h w"
proof -
  have d: "dial_quiet (h_tables h) h" and hl: "host_laws h" using laws by (simp_all add: gw_laws_def)
  obtain b w1 where one: "checkSshdRunning (gh_dial h) (gh_close h) (gw_GatewayIP (gw_Spec gw)) w = (Inr b, w1)"
    by (cases "IsPortOpen (gh_dial h) (gh_close h) (gw_GatewayIP (gw_Spec gw)) SSHPort w")
       (auto simp: checkSshdRunning_def)
  then have "h_tables h w1 = h_tables h w" using checkSshd_quiet [OF d] quietD by metis
  moreover have "h_tables h w' = h_tables h w1"
  proof (cases b)
    case True
    with one run have "checkIptablesRulesApplied (h_ords h) (h_ipt h) gw w1 = (r, w')"
      by (simp add: gw_ruleSynced_def io_eval)
    with checkIptables_correct [where ords = "h_ords h" and gw = gw and w = w1, OF host_lawsD [OF hl]] show ?thesis by auto
  qed (use one run in \<open>simp add: gw_ruleSynced_def io_eval\<close>)
  ultimately show ?thesis by simp
qed

lemma gw_ruleSynced_live:
  assumes laws: "gw_laws h" and works: "gw_works h v"
    and hex: "GetHexIP (gw_GatewayIP (gw_Spec gw)) = Inr x" and holds: "gw_chains_hold (h_tables h w) gw x"
  shows "\<exists>w'. gw_ruleSynced (h_ords h) (h_ipt h) (gh_dial h) (gh_close h) gw w = (Inr True, w')"
proof -
  have d: "dial_quiet (h_tables h) h" and hl: "host_laws h" using laws by (simp_all add: gw_laws_def)
  have hw: "host_works h v" and op: "sshd_open h" using works by (simp_all add: gw_works_def)
  from checkSshd_open [OF op] obtain w1 where
    one: "checkSshdRunning (gh_dial h) (gh_close h) (gw_GatewayIP (gw_Spec gw)) w = (Inr True, w1)" by blast
  then have "h_tables h w1 = h_tables h w" using checkSshd_quiet [OF d] quietD by metis
  with holds have "gw_chains_hold (h_tables h w1) gw x" by simp
  moreover obtain b w2 where two: "checkIptablesRulesApplied (h_ords h) (h_ipt h) gw w1 = (Inr b, w2)"
    and b: "\<forall>h'. GetHexIP (gw_GatewayIP (gw_Spec gw)) = Inr h' \<and> gw_chains_hold (h_tables h w1) gw h' \<and>
       iptables_answers (h_ipt h) (h_tables h) \<longrightarrow> b"
    using checkIptables_correct [where ords = "h_ords h" and gw = gw and w = w1, OF host_lawsD [OF hl]] by blast
  ultimately have b using hex host_worksD(2) [OF hw] by blast
  with one two show ?thesis by (simp add: gw_ruleSynced_def io_eval)
qed

lemma gw_applied_spec_only: "gw_Spec x = gw_Spec y \<Longrightarrow> gw_applied tv x s \<longleftrightarrow> gw_applied tv y s"
  unfolding gw_applied_def gw_chains_hold_def gw_dnat_of_def [abs_def] gw_snat_of_def [abs_def] by simp

interpretation gw_agent: sync_agent gw_view gw_Meta put_gw_status
  gw_needSync gw_needCheckSync gw_setSyncing gw_setSynced gw_Spec gw_mine
  "\<lambda>h. gw_syncRule (h_ords h) (h_ipt h)" gw_check
  "\<lambda>L h R. gw_Reconcile L (h_ords h) R (h_ipt h) (gh_dial h) (gh_close h)" h_tables gw_laws gw_works
  "\<lambda>h. gw_ok (h_tables h)" "\<lambda>gw. ipv4_of (gw_GatewayIP (gw_Spec gw)) \<noteq> None"
  "\<lambda>h. gw_applied (h_tables h)"
proof (unfold_locales, goal_cases)
  case (1 s namespace name R x e L p)
  then show ?case
    by (simp add: gw_Reconcile_def gw_mine_def io_eval(4) getOwn_def onEnv_def split_def gw_check_def)
next
  case (2 s namespace name R err e L p)
  then show ?case by (simp add: gw_Reconcile_def gw_mine_def io_eval(4) getOwn_def onEnv_def split_def)
next
  case (3 s namespace name L p R)
  then show ?case by (auto simp: gw_Reconcile_def gw_mine_def io_eval getOwn_def split_def)
next
  case (4 p s x u s')
  then have "host_laws p" by (simp add: gw_laws_def)
  from gw_syncRule_lemma [OF host_lawsD [OF this] 4(2,3)] show ?case
    by (simp add: gw_mine_def fun_eq_iff)
next
  case (5 p v s x)
  then have hl: "host_laws p" and hw: "host_works p v" by (simp_all add: gw_laws_def gw_works_def)
  from 5(4) obtain h where h: "GetHexIP (gw_GatewayIP (gw_Spec x)) = Inr h"
    using GetHexIP_error [of "gw_GatewayIP (gw_Spec x)"] by (cases "GetHexIP (gw_GatewayIP (gw_Spec x))") auto
  from gw_syncRule_runs [of x s "h_ords p" "h_ipt p"] obtain a where
    run: "gw_syncRule (h_ords p) (h_ipt p) x s = onEnv (applyIptablesRules (h_ords p) (h_ipt p) x) (s\<lparr>ag_own := a\<rparr>)"
    by blast
  from apply_total [of "h_ords p", OF host_lawsD [OF hl] host_worksD(1) [OF hw] h, of "ag_env s"] 5(3)
  obtain w' where "applyIptablesRules (h_ords p) (h_ipt p) x (ag_env s) = (Inr (), w')"
    by (auto simp: gw_ok_def)
  then show ?case by (simp add: run onEnv_def)
next
  case (6 p v x)
  then have "iptables_quiet v (h_ipt p)" by (simp add: gw_works_def host_works_def)
  then show ?case unfolding gw_syncRule_def by (intro quiet_andThen quiet_onOwn quiet_onEnv apply_quiet)
next
  case (7 p v x s)
  then obtain h where "GetHexIP (gw_GatewayIP (gw_Spec x)) = Inr h" "gw_chains_hold (h_tables p (ag_env s)) x h"
    by (auto simp: gw_applied_def)
  from gw_ruleSynced_live [OF 7(1,2) this] show ?case by (auto simp: gw_check_def onEnv_def)
next
  case (8 p v x)
  then show ?case
    unfolding gw_check_def
    by (intro quiet_onEnv gw_ruleSynced_quiet) (simp_all add: gw_works_def host_works_def)
next
  case (9 p x s r s')
  then show ?case
    using gw_ruleSynced_run [OF 9(1)] by (auto simp: gw_check_def onEnv_def split: prod.splits)
next
  case (10 x y p s)
  then show ?case by (rule gw_applied_spec_only)
next
  case (11 x y)
  then show ?case by simp
next
  case (12 p s' s x)
  then show ?case by (simp add: gw_applied_def gw_ok_def)
qed

section \<open>Properties\<close>

text \<open>
  C8: Gateways do not interfere. If \<^verbatim>\<open>syncRule\<close> succeeds for a Gateway, then its
  ssh server is running, its two chains hold exactly its ingress rules and are jumped to; every
  Gateway with another IPv4 address that was in place still is, no chain but the gateway's own
  and the two built-in ones has changed, and the built-in ones have lost nothing.
\<close>

theorem gw_sync_isolated:
  assumes "\<And>n. range_order (ords n)" and "iptables_laws ipt tv" and "gw_ok tv s"
    and "gw_syncRule ords ipt gw s = (Inr u, s')"
    and "gw_applied tv gw' s"
    and "ipv4_of (gw_GatewayIP (gw_Spec gw')) \<noteq> ipv4_of (gw_GatewayIP (gw_Spec gw))"
  shows "gw_applied tv gw s' \<and> gw_applied tv gw' s' \<and>
    (\<exists>h. GetHexIP (gw_GatewayIP (gw_Spec gw)) = Inr h \<and>
      (\<forall>k. k \<notin> {TableNAT} \<times> {''pre'' @ h, ''pst'' @ h, ChainPrerouting, ChainPostrouting} \<longrightarrow>
         tv (ag_env s') k = tv (ag_env s) k)) \<and>
    (\<forall>c \<in> {ChainPrerouting, ChainPostrouting}. \<forall>rs. tv (ag_env s) (TableNAT, c) = Some rs \<longrightarrow>
       (\<exists>new. tv (ag_env s') (TableNAT, c) = Some (rs @ new)))"
proof -
  from gw_syncRule_runs [of gw s ords ipt] obtain a where
    a: "ensureSshdRunning (gw_GatewayIP (gw_Spec gw)) (ag_own s) = Inr a"
    and "gw_syncRule ords ipt gw s = onEnv (applyIptablesRules ords ipt gw) (s\<lparr>ag_own := a\<rparr>)" by blast
  with assms(4) have "onEnv (applyIptablesRules ords ipt gw) (s\<lparr>ag_own := a\<rparr>) = (Inr u, s')" by simp
  then obtain e where e: "applyIptablesRules ords ipt gw (ag_env s) = (Inr u, e)"
    and s': "s' = s\<lparr>ag_own := a, ag_env := e\<rparr>" unfolding onEnv_Inr by auto
  have ap: "gw_applied tv gw s'" using gw_syncRule_lemma [of ords, OF assms(1-4)] by blast
  then obtain h where h: "GetHexIP (gw_GatewayIP (gw_Spec gw)) = Inr h" by (auto simp: gw_applied_def)
  note l = apply_lookup [of ords, OF assms(1,2) h e]
  from assms(5) obtain h' where h': "GetHexIP (gw_GatewayIP (gw_Spec gw')) = Inr h'"
    and holds: "gw_chains_hold (tv (ag_env s)) gw' h'" and run: "sshd_running (ag_own s) (gw_GatewayIP (gw_Spec gw'))"
    by (auto simp: gw_applied_def)
  have "h' \<noteq> h" using assms(6) h h' concat_hex02_inject ipv4_of_length unfolding GetHexIP_ipv4 by metis
  from apply_isolated [of ords, OF assms(1,2) h e this holds] have "gw_applied tv gw' s'"
    using h' run ensureSshdRunning_spec [of "gw_GatewayIP (gw_Spec gw)" "ag_own s"] a
    by (auto simp: gw_applied_def s')
  moreover have "tv (ag_env s') k = tv (ag_env s) k"
    if "k \<notin> {TableNAT} \<times> {''pre'' @ h, ''pst'' @ h, ChainPrerouting, ChainPostrouting}" for k
    using l(5) [of k] that by (simp add: s' prechainPrefix_def postchainPrefix_def)
  moreover have "\<exists>new. tv (ag_env s') (TableNAT, c) = Some (rs @ new)"
    if "c \<in> {ChainPrerouting, ChainPostrouting}" "tv (ag_env s) (TableNAT, c) = Some rs" for c rs
    using l(3,4) that by (auto simp: s' add_unique_def)
  ultimately show ?thesis using ap h by blast
qed

text \<open>
  A Gateway whose address is not an IPv4 address. Every attempt to apply it fails with the
  error of \<^verbatim>\<open>GetHexIP\<close> and leaves iptables and the API server alone, but only
  after its ssh server was started and entered into the table, where it stays.
\<close>

theorem gw_invalid_address:
  assumes "ipv4_of (gw_GatewayIP (gw_Spec gw)) = None" and "sshds_ok (ag_own s)"
  shows "\<exists>e s'. gw_syncRule ords ipt gw s = (Inl e, s') \<and>
    GetHexIP (gw_GatewayIP (gw_Spec gw)) = Inl e \<and> ag_env s' = ag_env s \<and>
    sshd_running (ag_own s') (gw_GatewayIP (gw_Spec gw))"
proof -
  from assms(1) obtain e where e: "GetHexIP (gw_GatewayIP (gw_Spec gw)) = Inl e"
    using GetHexIP_error by blast
  from gw_syncRule_runs [of gw s ords ipt] obtain a where
    "ensureSshdRunning (gw_GatewayIP (gw_Spec gw)) (ag_own s) = Inr a"
    and "gw_syncRule ords ipt gw s = onEnv (applyIptablesRules ords ipt gw) (s\<lparr>ag_own := a\<rparr>)" by blast
  with ensureSshdRunning_spec [of "gw_GatewayIP (gw_Spec gw)" "ag_own s"] assms(2) e show ?thesis
    by (auto simp: onEnv_def applyIptablesRules_def gw_expected_error io_eval)
qed

text \<open>
  What a successful pass of the gateway's agent leaves. If \<^verbatim>\<open>Reconcile\<close>
  succeeds for a Gateway of its namespace that needs a sync, the rules of the Gateway that was
  read are applied, and the API server's object is marked as synced at the rule generation
  that was read.
\<close>

theorem gw_Reconcile_syncs:
  assumes "conditions_laws L look" and "resource_laws v (\<lambda>x. meta_key (gw_Meta x)) put_gw_status R"
    and "gw_laws h" and "writes_quiet (h_tables h) R" and "reads_quiet (h_tables h) R"
    and "gw_ok (h_tables h) s" and "g_namespace (ag_g s) = namespace"
    and "res_Get R \<lparr>nn_Namespace = namespace, nn_Name = name\<rparr> (ag_env s) = (Inr gw, e)"
    and "gw_needSync L gw"
    and "gw_Reconcile L (h_ords h) R (h_ipt h) (gh_dial h) (gh_close h) namespace name s = (Inr (), s')"
  shows "gw_applied (h_tables h) gw s' \<and> gw_ok (h_tables h) s' \<and>
    (\<exists>stored. v (ag_env s') \<lparr>nn_Namespace = namespace, nn_Name = name\<rparr> = Some stored \<and>
       gw_needCheckSync L stored \<and> \<not> gw_needSync L stored \<and>
       gw_SyncGeneration (gw_Status stored) = gw_RuleGeneration (gw_Status gw))"
proof -
  have "gw_mine (ag_own s) namespace name" using assms(7) by (simp add: gw_mine_def)
  from gw_agent.pass_syncs [OF assms(1-6) this assms(8-10)] obtain stored where
    "gw_applied (h_tables h) gw s'" "gw_ok (h_tables h) s'"
    and stored: "v (ag_env s') \<lparr>nn_Namespace = namespace, nn_Name = name\<rparr> = Some stored"
    and due: "check_due (gw_view look stored)" "sv_rule (gw_view look stored) = sv_rule (gw_view look gw)"
    by blast
  moreover have check: "gw_needCheckSync L stored" using due by (simp add: gw_sync.needCheckSync [OF assms(1)])
  moreover from this gw_sync.not_both [OF assms(1)] have "\<not> gw_needSync L stored" by blast
  moreover have "gw_SyncGeneration (gw_Status stored) = gw_RuleGeneration (gw_Status gw)"
    using due by (simp add: check_due_def gw_view_def)
  ultimately show ?thesis by blast
qed

text \<open>
  The gateway's agent converges. When the API server, iptables and the network work and
  nobody else writes, three passes over a Gateway with an IPv4 address that needs a sync bring
  it home: the first applies the rules and is refused with a conflict, the second applies and
  records them, and the third finds them in place and changes nothing.
\<close>

theorem gw_agent_converges:
  assumes "conditions_laws L look" and "resource_laws v (\<lambda>x. meta_key (gw_Meta x)) put_gw_status R"
    and "versioned v gw_Meta R" and "available v gw_Meta R"
    and "writes_quiet (h_tables h) R" and "reads_quiet (h_tables h) R"
    and "gw_laws h" and "gw_works h v"
    and "gw_ok (h_tables h) s" and "g_namespace (ag_g s) = namespace"
    and "meta_key (gw_Meta gw) = \<lparr>nn_Namespace = namespace, nn_Name = name\<rparr>"
    and "v (ag_env s) \<lparr>nn_Namespace = namespace, nn_Name = name\<rparr> = Some gw"
    and "ipv4_of (gw_GatewayIP (gw_Spec gw)) \<noteq> None"
    and "gw_needSync L gw" and "\<not> isTrueFor L (gw_Conditions (gw_Status gw)) ConditionRuleSyncing"
  shows "\<exists>s1 s2 s3 stored.
    gw_Reconcile L (h_ords h) R (h_ipt h) (gh_dial h) (gh_close h) namespace name s = (Inl Conflict, s1) \<and>
    gw_Reconcile L (h_ords h) R (h_ipt h) (gh_dial h) (gh_close h) namespace name s1 = (Inr (), s2) \<and>
    gw_Reconcile L (h_ords h) R (h_ipt h) (gh_dial h) (gh_close h) namespace name s2 = (Inr (), s3) \<and>
    gw_applied (h_tables h) gw s1 \<and> gw_applied (h_tables h) gw s2 \<and> gw_applied (h_tables h) gw s3 \<and>
    v (ag_env s2) \<lparr>nn_Namespace = namespace, nn_Name = name\<rparr> = Some stored \<and>
    gw_SyncGeneration (gw_Status stored) = gw_RuleGeneration (gw_Status gw) \<and>
    v (ag_env s3) = v (ag_env s2) \<and> ag_own s3 = ag_own s2"
proof -
  have not_yet: "sv_syncing (gw_view look gw) \<noteq> Some ConditionTrue"
    using assms(15) by (simp add: gw_view_def conditions_lawsD(2) [OF assms(1)])
  have S: "gw_agent.server_laws v h R" using assms(2-8) by (simp add: gw_agent.server_laws_def)
  have H: "gw_agent.holds v h namespace name s gw" using assms(9-12)
    by (simp add: gw_agent.holds_def gw_mine_def)
  from gw_agent.converges [OF assms(1) S H assms(13,14) not_yet] show ?thesis
    by (auto simp: check_due_def gw_view_def)
qed

text \<open>A request for a missing Gateway, and one for another namespace.\<close>

lemma gw_Reconcile_gone:
  assumes "res_Get R \<lparr>nn_Namespace = namespace, nn_Name = name\<rparr> (ag_env s) = (Inl err, e)"
  shows "gw_Reconcile L ords R ipt dial close namespace name s =
    (if g_namespace (ag_g s) = namespace then (Inl err, s\<lparr>ag_env := e\<rparr>) else (Inr (), s))"
  by (cases "ag_own s") (simp add: gw_Reconcile_def io_eval getOwn_def onEnv_def assms)

end
