(* ===== verification/OperatorPublish.thy ===== *)
theory OperatorPublish
  imports Operator
begin

text \<open>
  What the operator's updates leave on the API server: the contract that updates of Forwarders
  and of Gateways share (the locale \<open>published_object\<close>), and the properties of
  \<^verbatim>\<open>updateForwarderRules\<close>, \<^verbatim>\<open>updateRulesForOneGateway\<close>,
  \<^verbatim>\<open>updateGatewayRules\<close>, the deletion and \<^verbatim>\<open>Reconcile\<close>.
\<close>

section \<open>The contract of an update\<close>

text \<open>
  An update sets \<open>RuleUpdating\<close> to true, stores a new spec, then sets \<open>RuleUpdating\<close> to false
  and \<open>RuleSyncing\<close> to unknown and counts one generation up. \<open>begin_ok\<close> and \<open>end_ok\<close> are the
  laws of the first and the last step.
\<close>

locale published_object =
  fixes key :: "'o \<Rightarrow> nsname" and put_status :: "string \<Rightarrow> 'o \<Rightarrow> 'o \<Rightarrow> 'o"
    and spec :: "'o \<Rightarrow> 's" and set_spec :: "'s \<Rightarrow> 'o \<Rightarrow> 'o"
    and conds :: "'o \<Rightarrow> 'c" and gens :: "'o \<Rightarrow> 64 word \<times> 64 word"
    and res :: "('w, 'c) client \<Rightarrow> ('w, 'o) resource"
    and begin_update :: "'c libs \<Rightarrow> ('w, 'c) client \<Rightarrow> 'o \<Rightarrow> ('w, 'o) io"
    and end_update :: "'c libs \<Rightarrow> ('w, 'c) client \<Rightarrow> 'o \<Rightarrow> ('w, unit) io"
  assumes put_status: "key (put_status rv x y) = key y" "spec (put_status rv x y) = spec y"
      "conds (put_status rv x y) = conds x" "gens (put_status rv x y) = gens x"
    and set_spec: "key (set_spec s x) = key x" "spec (set_spec s x) = s"
    and begin_ok:
      "\<lbrakk>conditions_laws L look; resource_laws v key put_status (res cl);
        begin_update L cl x w = (Inr y, w')\<rbrakk> \<Longrightarrow>
       key y = key x \<and>
       (if look (conds x) ConditionRuleUpdating = Some ConditionTrue then v w' = v w \<and> spec y = spec x
        else (\<exists>cur. v w (key x) = Some cur \<and> spec y = spec cur) \<and> v w' = (v w)(key x \<mapsto> y) \<and>
             look (conds y) ConditionRuleUpdating = Some ConditionTrue \<and> gens y = gens x)"
    and end_ok:
      "\<lbrakk>conditions_laws L look; resource_laws v key put_status (res cl);
        v w (key x) = Some x; end_update L cl x w = (Inr u, w')\<rbrakk> \<Longrightarrow>
       \<exists>z. v w' = (v w)(key x \<mapsto> z) \<and> spec z = spec x \<and>
         look (conds z) ConditionRuleUpdating = Some ConditionFalse \<and>
         look (conds z) ConditionRuleSyncing = Some ConditionUnknown \<and>
         (look (conds x) ConditionRuleUpdating = Some ConditionTrue \<longrightarrow> gens z = (fst (gens x) + 1, snd (gens x)))"
begin

text \<open>Storing the spec and closing the update.\<close>

lemma update_end:
  assumes laws: "conditions_laws L look" "resource_laws v key put_status (res cl)"
    and run: "andThen (res_Update (res cl) x) (end_update L cl) w = (Inr u, w')"
  shows "\<exists>cur z. v w (key x) = Some cur \<and> v w' = (v w)(key x \<mapsto> z) \<and> spec z = spec x \<and>
    look (conds z) ConditionRuleUpdating = Some ConditionFalse \<and>
    look (conds z) ConditionRuleSyncing = Some ConditionUnknown \<and>
    (look (conds cur) ConditionRuleUpdating = Some ConditionTrue \<longrightarrow> gens z = (fst (gens cur) + 1, snd (gens cur)))"
proof -
  from run obtain x' w1 where up: "res_Update (res cl) x w = (Inr x', w1)"
    and fin: "end_update L cl x' w1 = (Inr u, w')"
    by (auto simp: andThen_Inr)
  from resource_lawsD(4) [OF laws(2) up] obtain cur rv where cur: "v w (key x) = Some cur"
    and x': "x' = put_status rv cur x" and w1: "v w1 = (v w)(key x \<mapsto> x')" by blast
  have same: "key x' = key x" "spec x' = spec x" "conds x' = conds cur" "gens x' = gens cur"
    by (simp_all add: x' put_status)
  have "v w1 (key x') = Some x'" by (simp add: w1 same)
  from end_ok [OF laws this fin, unfolded same] obtain z where "v w' = (v w1)(key x \<mapsto> z)"
    and z: "spec z = spec x" "look (conds z) ConditionRuleUpdating = Some ConditionFalse"
      "look (conds z) ConditionRuleSyncing = Some ConditionUnknown"
      "look (conds cur) ConditionRuleUpdating = Some ConditionTrue \<longrightarrow> gens z = (fst (gens cur) + 1, snd (gens cur))" by blast
  then have "v w' = (v w)(key x \<mapsto> z)" by (simp add: w1)
  with z cur show ?thesis by blast
qed

text \<open>
  A whole update from an object \<open>x\<close>. The new spec is computed by \<open>prep\<close>, which does not write
  this kind of object.
\<close>

lemma publish:
  assumes laws: "conditions_laws L look" "resource_laws v key put_status (res cl)"
    and prep: "\<And>y. quiet v (prep y)"
    and run: "andThen (begin_update L cl x) (\<lambda>y. andThen (prep y) (\<lambda>s.
        andThen (res_Update (res cl) (set_spec s y)) (end_update L cl))) w = (Inr u, w')"
  shows "\<exists>y s w1 w2 z. key y = key x \<and> begin_update L cl x w = (Inr y, w1) \<and>
    (v w (key x) = Some x \<longrightarrow> spec y = spec x) \<and> prep y w1 = (Inr s, w2) \<and> v w' = (v w)(key x \<mapsto> z) \<and> spec z = s \<and>
    look (conds z) ConditionRuleUpdating = Some ConditionFalse \<and>
    look (conds z) ConditionRuleSyncing = Some ConditionUnknown \<and>
    (v w (key x) = Some x \<longrightarrow> gens z = (fst (gens x) + 1, snd (gens x)))"
proof -
  from run obtain y w1 s w2 where b: "begin_update L cl x w = (Inr y, w1)"
    and p: "prep y w1 = (Inr s, w2)"
    and up: "andThen (res_Update (res cl) (set_spec s y)) (end_update L cl) w2 = (Inr u, w')"
    by (auto simp: andThen_Inr)
  from begin_ok [OF laws b] have key: "key y = key x" by simp
  have w2: "v w2 = v w1" using prep p by (rule quietD)
  from update_end [OF laws up] obtain cur z where cur: "v w1 (key x) = Some cur"
    and z: "v w' = (v w1)(key x \<mapsto> z)" "spec z = s"
      "look (conds z) ConditionRuleUpdating = Some ConditionFalse"
      "look (conds z) ConditionRuleSyncing = Some ConditionUnknown"
    and g: "look (conds cur) ConditionRuleUpdating = Some ConditionTrue \<longrightarrow> gens z = (fst (gens cur) + 1, snd (gens cur))"
    unfolding set_spec key w2 by blast
  have "v w' = (v w)(key x \<mapsto> z) \<and> (v w (key x) = Some x \<longrightarrow> gens z = (fst (gens x) + 1, snd (gens x)))"
    using begin_ok [OF laws b] cur z(1) g by (auto split: if_splits)
  moreover have "v w (key x) = Some x \<longrightarrow> spec y = spec x"
    using begin_ok [OF laws b] by (auto split: if_splits)
  ultimately show ?thesis using key b p z(2-4) by blast
qed

end

section \<open>Both kinds are published this way\<close>

interpretation fwd_pub: published_object fwd_key put_fwd_status fwd_Spec
  "\<lambda>s x. x\<lparr>fwd_Spec := s\<rparr>" "\<lambda>x. fwd_Conditions (fwd_Status x)"
  "\<lambda>x. (fwd_RuleGeneration (fwd_Status x), fwd_SyncGeneration (fwd_Status x))" cl_Forwarders fwdBeginUpdate fwdEndUpdate
proof (unfold_locales, goal_cases)
  case (7 L look v cl x w y w')
  let ?k = "RuleUpdatingCondition ConditionTrue"
  let ?x = "fst (fwd_setCondition L ?k x)"
  note c = conditions_lawsD [OF 7(1)]
  have key: "fwd_key ?x = fwd_key x" by (simp add: fwd_key_def fwd_setCondition_simps)
  show ?case
  proof (cases "snd (fwd_setCondition L ?k x)")
    case True
    with 7(3) have "res_StatusUpdate (cl_Forwarders cl) ?x w = (Inr y, w')"
      by (simp add: fwdBeginUpdate_def split_def Let_def)
    from resource_lawsD(5) [OF 7(2) this] True show ?thesis
      unfolding key by (auto simp: put_fwd_status_def fwd_setCondition_simps c fwd_key_def)
  next
    case False
    with 7(3) have "y = ?x" "w' = w" by (simp_all add: fwdBeginUpdate_def split_def Let_def io_eval)
    with False show ?thesis by (simp add: key fwd_setCondition_simps c)
  qed
next
  case (8 L look v cl w x u w')
  let ?x = "fst (fwd_setCondition L (RuleSyncingCondition ConditionUnknown)
      (fst (fwd_setCondition L (RuleUpdatingCondition ConditionFalse) x)))"
  let ?z = "?x\<lparr>fwd_Status := (fwd_Status ?x)
      \<lparr>fwd_RuleGeneration := fwd_RuleGeneration (fwd_Status ?x) + 1\<rparr>\<rparr>"
  note c = conditions_lawsD [OF 8(1)]
  have key: "fwd_key ?z = fwd_key x" by (simp add: fwd_key_def fwd_setCondition_simps)
  show ?case
  proof (cases "look (fwd_Conditions (fwd_Status x)) ConditionRuleUpdating = Some ConditionFalse \<and>
      look (fwd_Conditions (fwd_Status x)) ConditionRuleSyncing = Some ConditionUnknown")
    case True
    with 8(3,4) show ?thesis
      by (intro exI [of _ x])
         (auto simp: fwdEndUpdate_def split_def Let_def io_eval fwd_setCondition_simps c fun_upd_idem)
  next
    case False
    then have "snd (fwd_setCondition L (RuleUpdatingCondition ConditionFalse) x) \<or>
        snd (fwd_setCondition L (RuleSyncingCondition ConditionUnknown)
          (fst (fwd_setCondition L (RuleUpdatingCondition ConditionFalse) x)))"
      by (simp add: fwd_setCondition_simps c)
    with 8(4) obtain z where up: "res_StatusUpdate (cl_Forwarders cl) ?z w = (Inr z, w')"
      by (auto simp: fwdEndUpdate_def split_def Let_def run_Inr)
    from resource_lawsD(5) [OF 8(2) up] 8(3) show ?thesis
      unfolding key by (auto simp: put_fwd_status_def fwd_setCondition_simps c)
  qed
qed (simp_all add: put_fwd_status_def fwd_key_def meta_key_def)

interpretation gw_pub: published_object gw_key put_gw_status gw_Spec
  "\<lambda>s x. x\<lparr>gw_Spec := s\<rparr>" "\<lambda>x. gw_Conditions (gw_Status x)"
  "\<lambda>x. (gw_RuleGeneration (gw_Status x), gw_SyncGeneration (gw_Status x))" cl_Gateways gwBeginUpdate gwEndUpdate
proof (unfold_locales, goal_cases)
  case (7 L look v cl x w y w')
  let ?k = "RuleUpdatingCondition ConditionTrue"
  let ?x = "fst (gw_setCondition L ?k x)"
  note c = conditions_lawsD [OF 7(1)]
  have key: "gw_key ?x = gw_key x" by (simp add: gw_key_def gw_setCondition_simps)
  show ?case
  proof (cases "snd (gw_setCondition L ?k x)")
    case True
    with 7(3) have "res_StatusUpdate (cl_Gateways cl) ?x w = (Inr y, w')"
      by (simp add: gwBeginUpdate_def split_def Let_def)
    from resource_lawsD(5) [OF 7(2) this] True show ?thesis
      unfolding key by (auto simp: put_gw_status_def gw_setCondition_simps c gw_key_def)
  next
    case False
    with 7(3) have "y = ?x" "w' = w" by (simp_all add: gwBeginUpdate_def split_def Let_def io_eval)
    with False show ?thesis by (simp add: key gw_setCondition_simps c)
  qed
next
  case (8 L look v cl w x u w')
  let ?x = "fst (gw_setCondition L (RuleSyncingCondition ConditionUnknown)
      (fst (gw_setCondition L (RuleUpdatingCondition ConditionFalse) x)))"
  let ?z = "?x\<lparr>gw_Status := (gw_Status ?x)
      \<lparr>gw_RuleGeneration := gw_RuleGeneration (gw_Status ?x) + 1\<rparr>\<rparr>"
  note c = conditions_lawsD [OF 8(1)]
  have key: "gw_key ?z = gw_key x" by (simp add: gw_key_def gw_setCondition_simps)
  show ?case
  proof (cases "look (gw_Conditions (gw_Status x)) ConditionRuleUpdating = Some ConditionFalse \<and>
      look (gw_Conditions (gw_Status x)) ConditionRuleSyncing = Some ConditionUnknown")
    case True
    with 8(3,4) show ?thesis
      by (intro exI [of _ x])
         (auto simp: gwEndUpdate_def split_def Let_def io_eval gw_setCondition_simps c fun_upd_idem)
  next
    case False
    then have "snd (gw_setCondition L (RuleUpdatingCondition ConditionFalse) x) \<or>
        snd (gw_setCondition L (RuleSyncingCondition ConditionUnknown)
          (fst (gw_setCondition L (RuleUpdatingCondition ConditionFalse) x)))"
      by (simp add: gw_setCondition_simps c)
    with 8(4) obtain z where up: "res_StatusUpdate (cl_Gateways cl) ?z w = (Inr z, w')"
      by (auto simp: gwEndUpdate_def split_def Let_def run_Inr)
    from resource_lawsD(5) [OF 8(2) up] 8(3) show ?thesis
      unfolding key by (auto simp: put_gw_status_def gw_setCondition_simps c)
  qed
qed (simp_all add: put_gw_status_def gw_key_def meta_key_def)

section \<open>Frames\<close>

text \<open>Which parts of the operator leave a view alone.\<close>

lemma getEndpointAddrs_quiet: "reads_quiet v (cl_Endpoints cl) \<Longrightarrow> quiet v (getEndpointAddrs cl ns n)"
  unfolding getEndpointAddrs_def reads_quiet_def
  by (intro quiet_andThen quiet_attempt) (auto split: sum.split)

lemma genForwarderEgressRules_quiet:
  "reads_quiet v (cl_Endpoints cl) \<Longrightarrow> quiet v (genForwarderEgressRules L eo cl cr m)"
  unfolding genForwarderEgressRules_def
  by (intro quiet_foldE quiet_andThen quiet_lift_result getEndpointAddrs_quiet)

lemma genForwarderIngressRules_quiet:
  "reads_quiet v (cl_Services cl) \<Longrightarrow> quiet v (genForwarderIngressRules io cl cr m)"
  unfolding genForwarderIngressRules_def reads_quiet_def
  by (intro quiet_foldE quiet_andThen quiet_lift_result quiet_attempt)
     (auto simp: Let_def split: sum.split)

lemma genForwarderSpec_quiet:
  assumes "other_kinds_quiet v cl" and "reads_quiet v (cl_Gateways cl)"
  shows "quiet v (genForwarderSpec L eo io cl cr fwd)"
  using assms unfolding genForwarderSpec_def other_kinds_quiet_def
  by (auto intro!: quiet_andThen genForwarderEgressRules_quiet genForwarderIngressRules_quiet
      simp: reads_quiet_def split: prod.split)

lemma fwd_updates_quiet:
  assumes "writes_quiet v (cl_Forwarders cl)"
  shows "quiet v (fwdBeginUpdate L cl x)" and "quiet v (fwdEndUpdate L cl x)"
  using assms unfolding fwdBeginUpdate_def fwdEndUpdate_def writes_quiet_def
  by (auto simp: Let_def split: prod.split)

lemma gw_updates_quiet:
  assumes "writes_quiet v (cl_Gateways cl)"
  shows "quiet v (gwBeginUpdate L cl y)" and "quiet v (gwEndUpdate L cl y)"
  using assms unfolding gwBeginUpdate_def gwEndUpdate_def writes_quiet_def
  by (auto simp: Let_def split: prod.split)

lemma updateForwarderRules_quiet:
  assumes "other_kinds_quiet v cl" and "reads_quiet v (cl_Gateways cl)"
    and "reads_quiet v (cl_Forwarders cl)" and "writes_quiet v (cl_Forwarders cl)"
  shows "quiet v (updateForwarderRules L eo io cl cr)"
proof -
  have "quiet v (res_Get (cl_Forwarders cl) n)" "quiet v (res_Create (cl_Forwarders cl) x)"
    "quiet v (res_Update (cl_Forwarders cl) x)" for n x
    using assms by (simp_all add: reads_quiet_def writes_quiet_def)
  then show ?thesis
    unfolding updateForwarderRules_def Let_def
    by (auto intro!: quiet_andThen quiet_attempt genForwarderSpec_quiet fwd_updates_quiet assms
        split: sum.split)
qed

lemma updateRulesForOneGateway_quiet:
  "writes_quiet v (cl_Gateways cl) \<Longrightarrow> quiet v (updateRulesForOneGateway L cl fwds gw gwIP)"
  unfolding updateRulesForOneGateway_def
  by (intro quiet_andThen gw_updates_quiet) (auto simp: writes_quiet_def)

section \<open>Publishing one object\<close>

definition in_sync_request :: "('c \<Rightarrow> string \<rightharpoonup> condition_status) \<Rightarrow> 'c \<Rightarrow> bool" where
  "in_sync_request look c \<longleftrightarrow>
     look c ConditionRuleUpdating = Some ConditionFalse \<and>
     look c ConditionRuleSyncing = Some ConditionUnknown"

lemma oneGateway_lemma:
  assumes "api_laws cl fv gv" and "conditions_laws L look"
    and "updateRulesForOneGateway L cl fwds gw gwIP w = (Inr u, w')"
  shows "fv w' = fv w \<and> (\<exists>z. gv w' = (gv w)(gw_key gw \<mapsto> z) \<and>
    gw_Spec z = \<lparr>gw_EgressRules = genGatewayEgressRules fwds gw,
                 gw_IngressRules = genGatewayIngressRules fwds gw, gw_GatewayIP = gwIP\<rparr> \<and>
    in_sync_request look (gw_Conditions (gw_Status z)) \<and>
    (gv w (gw_key gw) = Some gw \<longrightarrow>
       gw_RuleGeneration (gw_Status z) = gw_RuleGeneration (gw_Status gw) + 1 \<and>
       gw_SyncGeneration (gw_Status z) = gw_SyncGeneration (gw_Status gw)))"
proof -
  let ?s = "\<lambda>y. \<lparr>gw_EgressRules = genGatewayEgressRules fwds y,
                 gw_IngressRules = genGatewayIngressRules fwds y, gw_GatewayIP = gwIP\<rparr>"
  have "andThen (gwBeginUpdate L cl gw) (\<lambda>y. andThen (ret (?s y)) (\<lambda>s.
      andThen (res_Update (cl_Gateways cl) (y\<lparr>gw_Spec := s\<rparr>)) (gwEndUpdate L cl))) w = (Inr u, w')"
    using assms(3) by (simp add: updateRulesForOneGateway_def)
  from gw_pub.publish [OF assms(2) api_lawsD(2) [OF assms(1)] quiet_ret this, unfolded ret_Inr fst_conv snd_conv prod.inject]
  obtain y s z where y: "gw_key y = gw_key gw" and "s = ?s y"
    and z: "gv w' = (gv w)(gw_key gw \<mapsto> z)" "gw_Spec z = s"
      "look (gw_Conditions (gw_Status z)) ConditionRuleUpdating = Some ConditionFalse"
      "look (gw_Conditions (gw_Status z)) ConditionRuleSyncing = Some ConditionUnknown"
      "gv w (gw_key gw) = Some gw \<longrightarrow>
       gw_RuleGeneration (gw_Status z) = gw_RuleGeneration (gw_Status gw) + 1 \<and>
       gw_SyncGeneration (gw_Status z) = gw_SyncGeneration (gw_Status gw)" by blast
  from this(2) have "s = ?s gw" by (simp add: gateway_rules_cong [OF y])
  moreover have "fv w' = fv w"
    using updateRulesForOneGateway_quiet assms(3) api_lawsD(6) [OF assms(1)] by (metis quietD)
  ultimately show ?thesis using z by (auto simp: in_sync_request_def)
qed

lemma genForwarderSpec_run:
  assumes "\<And>n. range_order (eo n)" and "\<And>n. range_order (io n)"
    and "genForwarderSpec L eo io cl cr fwd w = (Inr s, w')"
  shows "(\<forall>r \<in> set (fwd_EgressRules s). egress_rule_of L cr r) \<and>
    (\<forall>r \<in> set (fwd_IngressRules s). ingress_rule_of cr r) \<and> fwd_ForwarderIP s \<noteq> []"
proof -
  from assms(3) obtain eRules m iRules m' w1 w2 w3 w4 gws where
    "genForwarderEgressRules L eo cl cr (genUsedPortsForEgress fwd) w1 = (Inr (eRules, m), w2)"
    "genForwarderIngressRules io cl cr (genUsedPortsForIngress (gws :: 'b gateway list)) w3 =
       (Inr (iRules, m'), w4)"
    "fwd_EgressRules s = eRules" "fwd_IngressRules s = iRules" "fwd_ForwarderIP s \<noteq> []"
    unfolding genForwarderSpec_def
    by (auto simp: run_Inr split: if_splits prod.splits)
  with genForwarderEgressRules_inv [where ords = eo, OF assms(1)]
    genForwarderIngressRules_inv [where ords = io, OF assms(2)]
  show ?thesis by (fastforce simp: egress_inv_def ingress_inv_def)
qed

text \<open>
  The inputs of the rules: what reads of Endpoints, Services and Pods answer. Writing
  Forwarders and reading anything leaves them as they are.
\<close>

definition inputs_quiet :: "('w \<Rightarrow> 'v) \<Rightarrow> ('w, 'c) client \<Rightarrow> bool" where
  "inputs_quiet v cl \<longleftrightarrow>
     reads_quiet v (cl_Forwarders cl) \<and> writes_quiet v (cl_Forwarders cl) \<and>
     reads_quiet v (cl_Gateways cl) \<and> reads_quiet v (cl_Pods cl) \<and>
     reads_quiet v (cl_Services cl) \<and> reads_quiet v (cl_Endpoints cl)"

lemma genForwarderSpec_spec:
  assumes answers: "answers ev (cl_Endpoints cl)" "answers sv (cl_Services cl)" "answers pv (cl_Pods cl)"
    and quiet: "inputs_quiet (\<lambda>w. (ev w, sv w, pv w)) cl"
    and run: "genForwarderSpec L eo io cl cr fwd w = (Inr s, w')"
  shows "map strip (fwd_EgressRules s) = egress_spec L cr (ev w)"
    and "map strip (fwd_IngressRules s) = ingress_spec cr (sv w)"
    and "\<exists>pod. pv w \<lparr>nn_Namespace = ConnectorNamespace, nn_Name = m_Name (es_Meta cr)\<rparr> = Inr pod \<and>
      fwd_ForwarderIP s = pod_PodIP pod \<and> pod_PodIP pod \<noteq> []"
    and "\<exists>w1 m w2. genForwarderEgressRules L eo cl cr (genUsedPortsForEgress fwd) w1 =
      (Inr (fwd_EgressRules s, m), w2)"
    and "\<exists>w1 gws w2 m w3. res_List (cl_Gateways cl) w1 = (Inr gws, w2) \<and>
      genForwarderIngressRules io cl cr (genUsedPortsForIngress gws) w2 = (Inr (fwd_IngressRules s, m), w3)"
proof -
  let ?n = "\<lparr>nn_Namespace = ConnectorNamespace, nn_Name = m_Name (es_Meta cr)\<rparr>"
  let ?iv = "\<lambda>w. (ev w, sv w, pv w)"
  from run obtain pod eRules m w1 gws w2 w3 iRules m' where
    pod: "res_Get (cl_Pods cl) ?n w = (Inr pod, w1)" and ip: "pod_PodIP pod \<noteq> []"
    and egress: "genForwarderEgressRules L eo cl cr (genUsedPortsForEgress fwd) w1 = (Inr (eRules, m), w2)"
    and list: "res_List (cl_Gateways cl) w2 = (Inr gws, w3)"
    and ingress: "genForwarderIngressRules io cl cr (genUsedPortsForIngress gws) w3 = (Inr (iRules, m'), w')"
    and s: "s = \<lparr>fwd_EgressRules = eRules, fwd_IngressRules = iRules, fwd_ForwarderIP = pod_PodIP pod\<rparr>"
    unfolding genForwarderSpec_def by (auto simp: run_Inr split: if_splits prod.splits)
  have w1: "?iv w1 = ?iv w" using quiet pod by (auto simp: inputs_quiet_def dest: reads_quietD)
  have w2: "?iv w2 = ?iv w1"
    using genForwarderEgressRules_quiet [of ?iv cl L eo cr "genUsedPortsForEgress fwd"] quiet egress
    by (auto simp: inputs_quiet_def dest: quietD)
  have w3: "?iv w3 = ?iv w2" using quiet list by (auto simp: inputs_quiet_def dest: reads_quietD)
  show "map strip (fwd_EgressRules s) = egress_spec L cr (ev w)"
    using genForwarderEgressRules_spec [OF answers(1) egress] w1 by (simp add: s)
  show "map strip (fwd_IngressRules s) = ingress_spec cr (sv w)"
    using genForwarderIngressRules_spec [OF answers(2) ingress] w1 w2 w3 by (simp add: s)
  have "pv w ?n = Inr pod" using answersD [OF answers(3) pod] by simp
  then show "\<exists>pod. pv w ?n = Inr pod \<and> fwd_ForwarderIP s = pod_PodIP pod \<and> pod_PodIP pod \<noteq> []"
    using ip by (simp add: s)
  show "\<exists>w1 m w2. genForwarderEgressRules L eo cl cr (genUsedPortsForEgress fwd) w1 =
      (Inr (fwd_EgressRules s, m), w2)" using egress by (auto simp: s)
  show "\<exists>w1 gws w2 m w3. res_List (cl_Gateways cl) w1 = (Inr gws, w2) \<and>
      genForwarderIngressRules io cl cr (genUsedPortsForIngress gws) w2 = (Inr (fwd_IngressRules s, m), w3)"
  proof (intro exI conjI)
    show "res_List (cl_Gateways cl) w2 = (Inr gws, w3)" by (rule list)
    show "genForwarderIngressRules io cl cr (genUsedPortsForIngress gws) w3 = (Inr (fwd_IngressRules s, m'), w')"
      using ingress by (simp add: s)
  qed
qed

lemma updateForwarderRules_lemma:
  assumes laws: "api_laws cl fv gv" "conditions_laws L look"
    and n: "n = \<lparr>nn_Namespace = ConnectorNamespace, nn_Name = m_Name (es_Meta cr)\<rparr>"
    and run: "updateForwarderRules L eo io cl cr w = (Inr u, w')"
    and get: "res_Get (cl_Forwarders cl) n w = (r, w0)"
  shows "gv w' = gv w \<and> (\<exists>y w1 w2 z. fv w' = (fv w)(n \<mapsto> z) \<and>
    (reads_quiet iv (cl_Forwarders cl) \<and> writes_quiet iv (cl_Forwarders cl) \<longrightarrow> iv w1 = iv w) \<and>
    genForwarderSpec L eo io cl cr y w1 = (Inr (fwd_Spec z), w2) \<and>
    in_sync_request look (fwd_Conditions (fwd_Status z)) \<and>
    (\<forall>fwd. r = Inr fwd \<and> fv w n = Some fwd \<longrightarrow> fwd_Spec y = fwd_Spec fwd \<and>
       fwd_RuleGeneration (fwd_Status z) = fwd_RuleGeneration (fwd_Status fwd) + 1 \<and>
       fwd_SyncGeneration (fwd_Status z) = fwd_SyncGeneration (fwd_Status fwd)))"
proof -
  note F = api_lawsD(1) [OF laws(1)]
  let ?create = "case r of
       Inl err \<Rightarrow> if err = NotFound then res_Create (cl_Forwarders cl) (newForwarder L n) else fail err
     | Inr fwd \<Rightarrow> ret fwd"
  from run get obtain fwd v where c: "?create w0 = (Inr fwd, v)"
    and pub: "andThen (fwdBeginUpdate L cl fwd) (\<lambda>fwd. andThen (genForwarderSpec L eo io cl cr fwd)
      (\<lambda>spec. andThen (res_Update (cl_Forwarders cl) (fwd\<lparr>fwd_Spec := spec\<rparr>)) (fwdEndUpdate L cl))) v =
      (Inr u, w')"
    unfolding updateForwarderRules_def Let_def n [symmetric]
    by (auto simp: andThen_Inr attempt_Inr)
  have w0: "fv w0 = fv w" using F get by (auto dest: resource_lawsD(1) reads_quietD)
  have quiet_create: "iv v = iv w" if "reads_quiet iv (cl_Forwarders cl)" "writes_quiet iv (cl_Forwarders cl)"
  proof -
    have "quiet iv ?create" using that(2) by (auto simp: writes_quiet_def split: sum.split)
    from this c have "iv v = iv w0" by (rule quietD)
    with reads_quietD(1) [OF that(1) get] show ?thesis by simp
  qed
  have created: "fwd_key fwd = n \<and> (fv v)(n := None) = (fv w)(n := None) \<and>
      (\<forall>fwd'. r = Inr fwd' \<longrightarrow> fwd' = fwd \<and> fv v = fv w)"
  proof (cases r)
    case (Inl e)
    with c have "res_Create (cl_Forwarders cl) (newForwarder L n) w0 = (Inr fwd, v)"
      by (auto split: if_splits)
    from resource_lawsD(3) [OF F this] Inl show ?thesis
      by (simp add: w0 fwd_key_def newForwarder_def n)
  next
    case (Inr x)
    with c get resource_lawsD(2) [OF F] show ?thesis by (auto simp: run_Inr w0)
  qed
  have "quiet fv (genForwarderSpec L eo io cl cr y)" for y
    using api_lawsD(3,5) [OF laws(1)] by (rule genForwarderSpec_quiet)
  from fwd_pub.publish [OF laws(2) F this pub, unfolded fst_conv snd_conv prod.inject]
  obtain y s w1 w2 z where b: "fwdBeginUpdate L cl fwd v = (Inr y, w1)"
    and same: "fv v (fwd_key fwd) = Some fwd \<longrightarrow> fwd_Spec y = fwd_Spec fwd"
    and spec: "genForwarderSpec L eo io cl cr y w1 = (Inr s, w2)"
    and z: "fv w' = (fv v)(fwd_key fwd \<mapsto> z)" "fwd_Spec z = s"
      "look (fwd_Conditions (fwd_Status z)) ConditionRuleUpdating = Some ConditionFalse"
      "look (fwd_Conditions (fwd_Status z)) ConditionRuleSyncing = Some ConditionUnknown"
    and g: "fv v (fwd_key fwd) = Some fwd \<longrightarrow>
       fwd_RuleGeneration (fwd_Status z) = fwd_RuleGeneration (fwd_Status fwd) + 1 \<and>
       fwd_SyncGeneration (fwd_Status z) = fwd_SyncGeneration (fwd_Status fwd)" by (elim exE conjE) (rule that)
  have "iv w1 = iv w" if "reads_quiet iv (cl_Forwarders cl)" "writes_quiet iv (cl_Forwarders cl)"
    using fwd_updates_quiet(1) [OF that(2)] b quiet_create [OF that] by (metis quietD)
  then have inputs: "reads_quiet iv (cl_Forwarders cl) \<and> writes_quiet iv (cl_Forwarders cl) \<longrightarrow> iv w1 = iv w" by simp
  have "fv w' = (fv w)(n \<mapsto> z)" using created z(1) by (metis fun_upd_upd)
  moreover have "gv w' = gv w"
    using updateForwarderRules_quiet [OF api_lawsD(4) [OF laws(1)] _ api_lawsD(7,8) [OF laws(1)]]
      resource_lawsD(1) [OF api_lawsD(2) [OF laws(1)]] run by (metis quietD)
  moreover have "\<forall>fwd. r = Inr fwd \<and> fv w n = Some fwd \<longrightarrow> fwd_Spec y = fwd_Spec fwd \<and>
       fwd_RuleGeneration (fwd_Status z) = fwd_RuleGeneration (fwd_Status fwd) + 1 \<and>
       fwd_SyncGeneration (fwd_Status z) = fwd_SyncGeneration (fwd_Status fwd)"
    using created g same by auto
  moreover have "in_sync_request look (fwd_Conditions (fwd_Status z))"
    using z(3,4) by (simp add: in_sync_request_def)
  ultimately show ?thesis using spec z(2) inputs by blast
qed

text \<open>A loop whose steps each store one object.\<close>

lemma foldE_stores:
  assumes "foldE (\<lambda>x (_ :: unit). f x) xs () w = (Inr u, w')"
    and "\<And>x w w'. x \<in> set xs \<Longrightarrow> f x w = (Inr (), w') \<Longrightarrow>
           \<exists>z. v w' = (v w)(k x \<mapsto> z) \<and> P x z"
  shows "(\<forall>x \<in> set xs. \<exists>y \<in> set xs. k y = k x \<and> (\<exists>z. v w' (k x) = Some z \<and> P y z)) \<and>
    (\<forall>n. n \<notin> k ` set xs \<longrightarrow> v w' n = v w n)"
  using assms
proof (induction xs arbitrary: w)
  case Nil
  then show ?case by (simp add: ret_Inr)
next
  case (Cons x xs)
  from Cons.prems(1) obtain w1 where x: "f x w = (Inr (), w1)"
    and xs: "foldE (\<lambda>x _. f x) xs () w1 = (Inr u, w')" by (auto simp: andThen_Inr)
  from Cons.prems(2) [OF list.set_intros(1) x]
  obtain z where z: "v w1 = (v w)(k x \<mapsto> z)" "P x z" by blast
  from Cons.IH [OF xs Cons.prems(2)]
  have rest: "\<forall>y \<in> set xs. \<exists>y' \<in> set xs. k y' = k y \<and> (\<exists>z. v w' (k y) = Some z \<and> P y' z)"
    and frame: "\<forall>n. n \<notin> k ` set xs \<longrightarrow> v w' n = v w1 n" by auto
  have "\<exists>y \<in> set (x # xs). k y = k x \<and> (\<exists>z. v w' (k x) = Some z \<and> P y z)"
  proof (cases "k x \<in> k ` set xs")
    case True
    with rest show ?thesis by (metis imageE list.set_intros(2))
  next
    case False
    with frame z show ?thesis by auto
  qed
  with rest frame z(1) show ?case by auto
qed

section \<open>Properties of the updates\<close>

text \<open>
  C9: What \<^verbatim>\<open>updateForwarderRules\<close> publishes. Let \<open>ev\<close>, \<open>sv\<close> and \<open>pv\<close> be what
  reads of Endpoints, Services and Pods answer. If the update succeeds, the API server's
  Forwarder of the ExternalService holds exactly the rules of \<open>egress_spec\<close> and \<open>ingress_spec\<close>
  for the Endpoints and Services of the start, with relay ports from a run of the generators
  on the ports of the listed Gateways, and the address of the forwarder's pod, which is not
  empty. It is marked as updated and to be synced (\<open>RuleUpdating\<close> false, \<open>RuleSyncing\<close>
  unknown). If it was read as it was stored, its egress rules got their relay ports from a run
  on the ports of the old rules, its rule generation is one higher than before and its sync
  generation the same. No other Forwarder and no Gateway changed.
\<close>

theorem updateForwarderRules_publishes:
  assumes "api_laws cl fv gv" and "conditions_laws L look"
    and "answers ev (cl_Endpoints cl)" and "answers sv (cl_Services cl)" and "answers pv (cl_Pods cl)"
    and "inputs_quiet (\<lambda>w. (ev w, sv w, pv w)) cl"
    and "n = \<lparr>nn_Namespace = ConnectorNamespace, nn_Name = m_Name (es_Meta cr)\<rparr>"
    and "updateForwarderRules L eo io cl cr w = (Inr u, w')"
    and "res_Get (cl_Forwarders cl) n w = (r, w0)"
  shows "gv w' = gv w \<and> (\<exists>z. fv w' = (fv w)(n \<mapsto> z) \<and>
    map strip (fwd_EgressRules (fwd_Spec z)) = egress_spec L cr (ev w) \<and>
    map strip (fwd_IngressRules (fwd_Spec z)) = ingress_spec cr (sv w) \<and>
    (\<exists>pod. pv w n = Inr pod \<and> fwd_ForwarderIP (fwd_Spec z) = pod_PodIP pod \<and> pod_PodIP pod \<noteq> []) \<and>
    (\<exists>w1 gws w2 m w3. res_List (cl_Gateways cl) w1 = (Inr gws, w2) \<and>
       genForwarderIngressRules io cl cr (genUsedPortsForIngress gws) w2 =
         (Inr (fwd_IngressRules (fwd_Spec z), m), w3)) \<and>
    look (fwd_Conditions (fwd_Status z)) ConditionRuleUpdating = Some ConditionFalse \<and>
    look (fwd_Conditions (fwd_Status z)) ConditionRuleSyncing = Some ConditionUnknown \<and>
    (\<forall>fwd. r = Inr fwd \<and> fv w n = Some fwd \<longrightarrow>
       (\<exists>w1 m w2. genForwarderEgressRules L eo cl cr (genUsedPortsForEgress fwd) w1 =
          (Inr (fwd_EgressRules (fwd_Spec z), m), w2)) \<and>
       fwd_RuleGeneration (fwd_Status z) = fwd_RuleGeneration (fwd_Status fwd) + 1 \<and>
       fwd_SyncGeneration (fwd_Status z) = fwd_SyncGeneration (fwd_Status fwd)))"
proof -
  from updateForwarderRules_lemma [OF assms(1,2,7-9), where iv = "\<lambda>w. (ev w, sv w, pv w)"] assms(6)
  obtain y w1 w2 z where stored: "gv w' = gv w" "fv w' = (fv w)(n \<mapsto> z)"
    and iv: "ev w1 = ev w" "sv w1 = sv w" "pv w1 = pv w"
    and spec: "genForwarderSpec L eo io cl cr y w1 = (Inr (fwd_Spec z), w2)"
    and sync: "in_sync_request look (fwd_Conditions (fwd_Status z))"
    and old: "\<forall>fwd. r = Inr fwd \<and> fv w n = Some fwd \<longrightarrow> fwd_Spec y = fwd_Spec fwd \<and>
       fwd_RuleGeneration (fwd_Status z) = fwd_RuleGeneration (fwd_Status fwd) + 1 \<and>
       fwd_SyncGeneration (fwd_Status z) = fwd_SyncGeneration (fwd_Status fwd)"
    by (auto simp: inputs_quiet_def)
  note gen = genForwarderSpec_spec [OF assms(3-6) spec, unfolded iv]
  have "genUsedPortsForEgress y = genUsedPortsForEgress fwd" if "fwd_Spec y = fwd_Spec fwd" for fwd
    using that by (simp add: genUsedPortsForEgress_def)
  with gen(4) old have "\<forall>fwd. r = Inr fwd \<and> fv w n = Some fwd \<longrightarrow>
       (\<exists>w1 m w2. genForwarderEgressRules L eo cl cr (genUsedPortsForEgress fwd) w1 =
          (Inr (fwd_EgressRules (fwd_Spec z), m), w2))" by metis
  with stored sync old gen(1,2,3,5) show ?thesis
    unfolding in_sync_request_def assms(7) by (intro conjI exI [of _ z]) simp_all
qed

text \<open>
  What \<^verbatim>\<open>updateRulesForOneGateway\<close> publishes. If it succeeds, the API server's
  Gateway holds exactly the rules of the given forwarders that name it and the given address,
  is marked as updated and to be synced, and, if the caller's copy was current, has a rule
  generation one higher than before and the same sync generation; no other Gateway and no
  Forwarder changed.
\<close>

theorem updateRulesForOneGateway_publishes:
  assumes "api_laws cl fv gv" and "conditions_laws L look"
    and "updateRulesForOneGateway L cl fwds gw gwIP w = (Inr u, w')"
  shows "fv w' = fv w \<and> (\<exists>z. gv w' = (gv w)(gw_key gw \<mapsto> z) \<and>
    gw_EgressRules (gw_Spec z) = genGatewayEgressRules fwds gw \<and>
    gw_IngressRules (gw_Spec z) = genGatewayIngressRules fwds gw \<and>
    gw_GatewayIP (gw_Spec z) = gwIP \<and>
    look (gw_Conditions (gw_Status z)) ConditionRuleUpdating = Some ConditionFalse \<and>
    look (gw_Conditions (gw_Status z)) ConditionRuleSyncing = Some ConditionUnknown \<and>
    (gv w (gw_key gw) = Some gw \<longrightarrow>
       gw_RuleGeneration (gw_Status z) = gw_RuleGeneration (gw_Status gw) + 1 \<and>
       gw_SyncGeneration (gw_Status z) = gw_SyncGeneration (gw_Status gw)))"
  using oneGateway_lemma [OF assms] unfolding in_sync_request_def by auto

section \<open>Updating the gateways of a forwarder\<close>

lemma updateGateway_lemma:
  assumes laws: "api_laws cl fv gv" "conditions_laws L look"
    and run: "updateGateway L cl fwds (gwIP, n) w = (Inr u, w')"
  shows "fv w' = fv w \<and> (\<exists>z. gv w' = (gv w)(n \<mapsto> z) \<and>
    (\<exists>gw. gw_key gw = n \<and>
       gw_Spec z = \<lparr>gw_EgressRules = genGatewayEgressRules fwds gw,
                    gw_IngressRules = genGatewayIngressRules fwds gw, gw_GatewayIP = gwIP\<rparr>) \<and>
    in_sync_request look (gw_Conditions (gw_Status z)))"
proof -
  note G = api_lawsD(2) [OF laws(1)]
  from run obtain r gw w0 v where get: "res_Get (cl_Gateways cl) n w = (r, w0)"
    and c: "(case r of
          Inl err \<Rightarrow> if err = NotFound then res_Create (cl_Gateways cl) (newGateway L n) else fail err
        | Inr gw \<Rightarrow> ret gw) w0 = (Inr gw, v)"
    and upd: "updateRulesForOneGateway L cl fwds gw gwIP v = (Inr u, w')"
    unfolding updateGateway_def by (auto simp: andThen_Inr attempt_Inr)
  have w0: "gv w0 = gv w" "fv w0 = fv w"
    using resource_lawsD(1) [OF G] api_lawsD(5) [OF laws(1)] get by (auto dest: reads_quietD)
  have v: "gw_key gw = n \<and> (gv v)(n := None) = (gv w)(n := None) \<and> fv v = fv w"
  proof (cases r)
    case (Inl e)
    with c have create: "res_Create (cl_Gateways cl) (newGateway L n) w0 = (Inr gw, v)"
      by (auto split: if_splits)
    with api_lawsD(6) [OF laws(1)] have "fv v = fv w0" by (rule writes_quietD)
    with resource_lawsD(3) [OF G create] show ?thesis
      by (simp add: w0 gw_key_def newGateway_def)
  next
    case (Inr x)
    with c get resource_lawsD(2) [OF G] show ?thesis by (auto simp: run_Inr w0)
  qed
  from oneGateway_lemma [OF laws upd] obtain z where z: "gv w' = (gv v)(gw_key gw \<mapsto> z)"
    and spec: "gw_Spec z = \<lparr>gw_EgressRules = genGatewayEgressRules fwds gw,
                    gw_IngressRules = genGatewayIngressRules fwds gw, gw_GatewayIP = gwIP\<rparr>"
      "in_sync_request look (gw_Conditions (gw_Status z))" and "fv w' = fv v" by blast
  moreover from this v have "fv w' = fv w" by simp
  moreover have "gv w' = (gv w)(n \<mapsto> z)" using z v by (metis fun_upd_upd)
  ultimately show ?thesis using v by (intro conjI exI [of _ z] exI [of _ gw]) simp_all
qed

lemma quiet_updateGateway:
  assumes "reads_quiet v (cl_Gateways cl)" and "writes_quiet v (cl_Gateways cl)"
  shows "quiet v (updateGateway L cl fwds g)"
proof -
  have "quiet v (res_Get (cl_Gateways cl) n)" "quiet v (res_Create (cl_Gateways cl) x)" for n x
    using assms by (simp_all add: reads_quiet_def writes_quiet_def)
  then show ?thesis
    unfolding updateGateway_def
    by (auto intro!: quiet_andThen quiet_attempt updateRulesForOneGateway_quiet assms
        split: sum.split prod.split)
qed

text \<open>
  The rules a gateway has to hold, with every field written out: one for each rule of a
  forwarder that names the gateway, in the order of the forwarders and their rules.
\<close>

definition gateway_spec_rules ::
  "('c forwarder \<Rightarrow> forwarder_rule list) \<Rightarrow> 'c forwarder list \<Rightarrow> nsname \<Rightarrow> gateway_rule list" where
  "gateway_spec_rules sel fwds n =
     [\<lparr>gr_Protocol = fr_Protocol r, gr_SourceIP = fr_SourceIP r, gr_TargetPort = fr_TargetPort r,
       gr_DestinationPort = fr_DestinationPort r, gr_DestinationIP = fr_DestinationIP r,
       gr_Forwarder = \<lparr>fwdref_Namespace = m_Namespace (fwd_Meta fwd), fwdref_Name = m_Name (fwd_Meta fwd)\<rparr>,
       gr_ForwarderIP = fwd_ForwarderIP (fwd_Spec fwd), gr_RelayPort = fr_RelayPort r\<rparr>.
      fwd \<leftarrow> fwds, r \<leftarrow> sel fwd,
      fr_Gateway r = \<lparr>gwref_Namespace = nn_Namespace n, gwref_Name = nn_Name n\<rparr>]"

definition holds_rules :: "'c forwarder list \<Rightarrow> nsname \<Rightarrow> 'c gateway \<Rightarrow> bool" where
  "holds_rules fwds n z \<longleftrightarrow>
     gw_EgressRules (gw_Spec z) = gateway_spec_rules (\<lambda>fwd. fwd_EgressRules (fwd_Spec fwd)) fwds n \<and>
     gw_IngressRules (gw_Spec z) = gateway_spec_rules (\<lambda>fwd. fwd_IngressRules (fwd_Spec fwd)) fwds n"

lemma rule_gateway_iff:
  "rule_gateway r = n \<longleftrightarrow> fr_Gateway r = \<lparr>gwref_Namespace = nn_Namespace n, gwref_Name = nn_Name n\<rparr>"
  by (cases n, cases "fr_Gateway r") (auto simp: rule_gateway_def)

lemma gateway_spec_rules:
  "gateway_spec_rules sel fwds (gw_key gw) =
     concat (map (\<lambda>fwd. map (gatewayRule fwd) (filter (forGateway gw) (sel fwd))) fwds)"
proof -
  have "concat (map (\<lambda>r. if P r then [f r] else []) rs) = map f (filter P rs)"
    for P :: "forwarder_rule \<Rightarrow> bool" and f :: "forwarder_rule \<Rightarrow> gateway_rule" and rs
    by (induction rs) simp_all
  then show ?thesis
    by (simp add: gateway_spec_rules_def gatewayRule_def [abs_def] forGateway_iff [abs_def] rule_gateway_iff)
qed

lemma holds_rulesI:
  assumes "gw_Spec z = \<lparr>gw_EgressRules = genGatewayEgressRules fwds gw,
                    gw_IngressRules = genGatewayIngressRules fwds gw, gw_GatewayIP = gwIP\<rparr>"
  shows "holds_rules fwds (gw_key gw) z"
  using assms
  by (simp add: holds_rules_def gateway_spec_rules genGatewayEgressRules_def genGatewayIngressRules_def)

text \<open>
  C10: What \<^verbatim>\<open>updateGatewayRules\<close> publishes. Suppose it succeeds after reading a
  forwarder and a list of forwarders. Every gateway that an ingress rule of that forwarder
  names then holds exactly the rules of the listed forwarders that name it and an address by
  which such a rule names it, and is marked to be synced. This is for rules that agree on the
  gateway of an address, as generated rules do; where two rules disagree, the code takes the
  first. Every other gateway and all forwarders are as before: gateways that the forwarder's
  rules no longer name keep their rules.
\<close>

theorem updateGatewayRules_publishes:
  assumes "api_laws cl fv gv" and "conditions_laws L look" and "range_order go"
    and "updateGatewayRules L go cl cr w = (Inr u, w')"
    and "res_Get (cl_Forwarders cl)
       \<lparr>nn_Namespace = ConnectorNamespace, nn_Name = m_Name (es_Meta cr)\<rparr> w = (Inr fwd, w1)"
    and "res_List (cl_Forwarders cl) w1 = (Inr fwds, w2)"
    and "rules = fwd_IngressRules (fwd_Spec fwd)"
  shows "fv w' = fv w \<and>
    (\<forall>r \<in> set rules. (\<forall>r' \<in> set rules. fr_GatewayIP r' = fr_GatewayIP r \<longrightarrow> fr_Gateway r' = fr_Gateway r) \<longrightarrow>
       (\<exists>z. gv w' (rule_gateway r) = Some z \<and> holds_rules fwds (rule_gateway r) z \<and>
          (\<exists>r' \<in> set rules. fr_Gateway r' = fr_Gateway r \<and> gw_GatewayIP (gw_Spec z) = fr_GatewayIP r') \<and>
          look (gw_Conditions (gw_Status z)) ConditionRuleUpdating = Some ConditionFalse \<and>
          look (gw_Conditions (gw_Status z)) ConditionRuleSyncing = Some ConditionUnknown)) \<and>
    (\<forall>n. n \<notin> rule_gateway ` set rules \<longrightarrow> gv w' n = gv w n)"
proof -
  note F = api_lawsD(1) [OF assms(1)]
  note get = assms(5) and list = assms(6)
  have run: "foldE (\<lambda>g _. updateGateway L cl fwds g) (grange go (getUniqueGatwey rules)) () w2 = (Inr u, w')"
    using assms(4) unfolding updateGatewayRules_def by (auto simp: andThen_Inr get list assms(7))
  let ?m = "map_of (getUniqueGatwey rules)"
  let ?P = "\<lambda>g z. holds_rules fwds (snd g) z \<and> gw_GatewayIP (gw_Spec z) = fst g \<and>
      in_sync_request look (gw_Conditions (gw_Status z))"
  have w2: "gv w2 = gv w" "fv w2 = fv w"
    using get list resource_lawsD(1) [OF F] api_lawsD(7) [OF assms(1)] by (metis reads_quietD)+
  have set: "set (grange go (getUniqueGatwey rules)) = {(ip, n). ?m ip = Some n}"
    using assms(3) by (rule set_grange)
  have step: "\<exists>z. gv w' = (gv w)(snd g \<mapsto> z) \<and> ?P g z"
    if "updateGateway L cl fwds g w = (Inr (), w')" for g w w'
  proof -
    obtain gwIP n where g: "g = (gwIP, n)" by (cases g)
    from updateGateway_lemma [OF assms(1,2) that [unfolded g]] show ?thesis
      unfolding g using holds_rulesI by (metis fst_conv gateway_spec.select_convs(3) snd_conv)
  qed
  from foldE_stores [OF run, where v = gv and k = snd and P = ?P] step
  have stored: "\<And>ip n. ?m ip = Some n \<Longrightarrow>
       \<exists>ip'. ?m ip' = Some n \<and> (\<exists>z. gv w' n = Some z \<and> ?P (ip', n) z)"
    and frame: "\<And>n. n \<notin> ran ?m \<Longrightarrow> gv w' n = gv w n"
    unfolding set w2 by (fastforce simp: ran_def image_iff)+
  have "ran ?m \<subseteq> rule_gateway ` set rules"
    by (auto simp: ran_def dest!: getUniqueGatwey_Some)
  with frame have frame': "\<forall>n. n \<notin> rule_gateway ` set rules \<longrightarrow> gv w' n = gv w n" by blast
  have "quiet fv (foldE (\<lambda>g _. updateGateway L cl fwds g) (grange go (getUniqueGatwey rules)) ())"
    by (intro quiet_foldE quiet_updateGateway api_lawsD(5,6) [OF assms(1)])
  from quietD [OF this run] have fv: "fv w' = fv w" by (simp add: w2)
  have published: "\<exists>z. gv w' (rule_gateway r) = Some z \<and> holds_rules fwds (rule_gateway r) z \<and>
      (\<exists>r' \<in> set rules. fr_Gateway r' = fr_Gateway r \<and> gw_GatewayIP (gw_Spec z) = fr_GatewayIP r') \<and>
      in_sync_request look (gw_Conditions (gw_Status z))"
    if r: "r \<in> set rules" and agree: "\<forall>r' \<in> set rules. fr_GatewayIP r' = fr_GatewayIP r \<longrightarrow> fr_Gateway r' = fr_Gateway r"
    for r
  proof -
    from r have "fr_GatewayIP r \<in> dom ?m" by (simp add: dom_getUniqueGatwey)
    then obtain n where n: "?m (fr_GatewayIP r) = Some n" by blast
    from getUniqueGatwey_Some [OF n] agree have "n = rule_gateway r" by (auto simp: rule_gateway_def)
    with stored [OF n] obtain ip z where ip: "?m ip = Some (rule_gateway r)"
      and z: "gv w' (rule_gateway r) = Some z" "?P (ip, rule_gateway r) z" by blast
    from getUniqueGatwey_Some [OF ip] obtain r' where "r' \<in> set rules" "fr_GatewayIP r' = ip"
      "rule_gateway r' = rule_gateway r" by blast
    moreover from this(3) have "fr_Gateway r' = fr_Gateway r"
      unfolding rule_gateway_iff by (simp add: rule_gateway_def)
    ultimately show ?thesis using z by auto
  qed
  with fv frame' show ?thesis unfolding in_sync_request_def by blast
qed

section \<open>Deletion\<close>

lemma deleteIfExists_quiet:
  "reads_quiet v R \<Longrightarrow> writes_quiet v R \<Longrightarrow> quiet v (deleteIfExists R n)"
  unfolding deleteIfExists_def
  by (auto intro!: quiet_andThen quiet_attempt simp: reads_quiet_def writes_quiet_def split: sum.split)

text \<open>A loop over stored objects with different keys, whose steps each store one of them anew.\<close>

lemma foldE_stores_each:
  assumes "foldE (\<lambda>x (_ :: unit). f x) xs () w = (Inr u, w')"
    and "distinct (map k xs)" and "\<And>x. x \<in> set xs \<Longrightarrow> v w (k x) = Some x"
    and "\<And>x w w'. v w (k x) = Some x \<Longrightarrow> f x w = (Inr (), w') \<Longrightarrow> \<exists>z. v w' = (v w)(k x \<mapsto> z) \<and> P x z"
  shows "(\<forall>x \<in> set xs. \<exists>z. v w' (k x) = Some z \<and> P x z) \<and> (\<forall>n. n \<notin> k ` set xs \<longrightarrow> v w' n = v w n)"
  using assms
proof (induction xs arbitrary: w)
  case Nil
  then show ?case by (simp add: ret_Inr)
next
  case (Cons x xs)
  from Cons.prems(1) obtain w1 where x: "f x w = (Inr (), w1)"
    and xs: "foldE (\<lambda>x _. f x) xs () w1 = (Inr u, w')" by (auto simp: andThen_Inr)
  from Cons.prems(4) [OF Cons.prems(3) [OF list.set_intros(1)] x]
  obtain z where z: "v w1 = (v w)(k x \<mapsto> z)" "P x z" by blast
  have "v w1 (k y) = Some y" if "y \<in> set xs" for y
  proof -
    from Cons.prems(2) have "k x \<notin> set (map k xs)" by simp
    moreover from that have "k y \<in> set (map k xs)" by simp
    ultimately have "k y \<noteq> k x" by metis
    with that Cons.prems(3) show ?thesis by (simp add: z)
  qed
  moreover have "distinct (map k xs)" using Cons.prems(2) by simp
  ultimately have IH: "(\<forall>y \<in> set xs. \<exists>z. v w' (k y) = Some z \<and> P y z) \<and>
      (\<forall>n. n \<notin> k ` set xs \<longrightarrow> v w' n = v w1 n)"
    using Cons.IH [OF xs] Cons.prems(4) by blast
  then have rest: "\<forall>y \<in> set xs. \<exists>z. v w' (k y) = Some z \<and> P y z"
    and frame: "\<forall>n. n \<notin> k ` set xs \<longrightarrow> v w' n = v w1 n" by blast+
  from frame Cons.prems(2) z have "\<exists>z. v w' (k x) = Some z \<and> P x z" by simp
  with rest frame z(1) show ?case by auto
qed

lemma delete_steps:
  assumes "deleteResourceForExternalService L cl cr w = (Inr u, w')"
    and "n = \<lparr>nn_Namespace = ConnectorNamespace, nn_Name = m_Name (es_Meta cr)\<rparr>"
  obtains w3 fwds w4 gws w5 where
    "andThen (deleteIfExists (cl_Pods cl) n) (\<lambda>_. andThen (deleteIfExists (cl_Services cl) n)
       (\<lambda>_. deleteIfExists (cl_Forwarders cl) n)) w = (Inr (), w3)"
    and "res_List (cl_Forwarders cl) w3 = (Inr fwds, w4)" and "\<forall>fwd \<in> set fwds. fwd_key fwd \<noteq> n"
    and "res_List (cl_Gateways cl) w4 = (Inr gws, w5)"
    and "foldE (\<lambda>gw _. updateRulesForOneGateway L cl fwds gw (gw_GatewayIP (gw_Spec gw))) gws () w5
           = (Inr u, w')"
  using assms unfolding deleteResourceForExternalService_def Let_def
  by (auto simp: andThen_Inr fwd_key_def meta_key_def split: if_splits)

lemma delete_prefix_quiet:
  assumes "other_kinds_quiet v cl" and "reads_quiet v (cl_Forwarders cl)"
    and "writes_quiet v (cl_Forwarders cl)"
  shows "quiet v (andThen (deleteIfExists (cl_Pods cl) n) (\<lambda>_. andThen (deleteIfExists (cl_Services cl) n)
       (\<lambda>_. deleteIfExists (cl_Forwarders cl) n)))"
  using assms by (auto intro!: quiet_andThen deleteIfExists_quiet simp: other_kinds_quiet_def)

text \<open>Deleting what is found under a name.\<close>

lemma deleteIfExists_removes:
  assumes laws: "resource_laws v key put_status R" "deletes v key R"
    and run: "deleteIfExists R n w = (Inr u, w')"
  shows "v w' = (v w)(n := None) \<or> v w' = v w"
proof -
  from run obtain r w1 where get: "res_Get R n w = (r, w1)"
    and rest: "(case r of Inl err \<Rightarrow> if err \<noteq> NotFound then fail err else ret ()
       | Inr x \<Rightarrow> andThen (attempt (res_Delete R x)) (\<lambda>_. ret ())) w1 = (Inr u, w')"
    unfolding deleteIfExists_def by (auto simp: andThen_Inr attempt_Inr)
  have w1: "v w1 = v w" using resource_lawsD(1) [OF laws(1)] get by (rule reads_quietD)
  show ?thesis
  proof (cases r)
    case (Inl e)
    with rest w1 show ?thesis by (auto simp: ret_Inr split: if_splits)
  next
    case (Inr x)
    with rest obtain r' where "res_Delete R x w1 = (r', w')" by (auto simp: run_Inr)
    with laws(2) have "v w' = (v w1)(key x := None) \<or> v w' = v w1" unfolding deletes_def by blast
    moreover have "key x = n" using resource_lawsD(2) [OF laws(1)] get Inr by simp
    ultimately show ?thesis by (simp add: w1)
  qed
qed

lemma deleted_forwarder:
  assumes laws: "api_laws cl fv gv" "deletes fv fwd_key (cl_Forwarders cl)"
    and run: "andThen (deleteIfExists (cl_Pods cl) n) (\<lambda>_. andThen (deleteIfExists (cl_Services cl) n)
       (\<lambda>_. deleteIfExists (cl_Forwarders cl) n)) w = (Inr u, w')"
  shows "fv w' = (fv w)(n := None) \<or> fv w' = fv w"
proof -
  from run obtain w1 w2 where pods: "deleteIfExists (cl_Pods cl) n w = (Inr (), w1)"
    and svcs: "deleteIfExists (cl_Services cl) n w1 = (Inr (), w2)"
    and fwds: "deleteIfExists (cl_Forwarders cl) n w2 = (Inr u, w')" by (auto simp: andThen_Inr)
  have "quiet fv (deleteIfExists (cl_Pods cl) n)" "quiet fv (deleteIfExists (cl_Services cl) n)"
    using api_lawsD(3) [OF laws(1)] by (simp_all add: deleteIfExists_quiet other_kinds_quiet_def)
  with pods svcs have "fv w2 = fv w" by (metis quietD)
  with deleteIfExists_removes [OF api_lawsD(1) [OF laws(1)] laws(2) fwds] show ?thesis by simp
qed

text \<open>
  C11: Deletion cleans the gateways. Suppose lists are current and
  \<^verbatim>\<open>deleteResourceForExternalService\<close> succeeds. Then the Forwarder of the ExternalService
  is gone and all others are as before. With \<open>fwds\<close> all Forwarders that remain, every Gateway
  holds exactly their rules that name it, written out by \<open>holds_rules\<close>, has kept its address,
  is marked as updated and to be synced, and has a rule generation one higher than before and
  the same sync generation. No Gateway was created or removed.
\<close>

theorem delete_cleans_gateways:
  assumes "api_laws cl fv gv" and "conditions_laws L look"
    and "lists_stored fv fwd_key (cl_Forwarders cl)" and "lists_stored gv gw_key (cl_Gateways cl)"
    and "deletes fv fwd_key (cl_Forwarders cl)"
    and "\<And>k x. fv w k = Some x \<Longrightarrow> fwd_key x = k" and "\<And>k z. gv w k = Some z \<Longrightarrow> gw_key z = k"
    and "n = \<lparr>nn_Namespace = ConnectorNamespace, nn_Name = m_Name (es_Meta cr)\<rparr>"
    and "deleteResourceForExternalService L cl cr w = (Inr u, w')"
  shows "fv w' = (fv w)(n := None) \<and>
    (\<exists>fwds. distinct (map fwd_key fwds) \<and> set fwds = ran (fv w') \<and>
       (\<forall>k. case gv w k of
            None \<Rightarrow> gv w' k = None
          | Some gw \<Rightarrow> \<exists>z. gv w' k = Some z \<and> holds_rules fwds k z \<and>
              gw_GatewayIP (gw_Spec z) = gw_GatewayIP (gw_Spec gw) \<and>
              look (gw_Conditions (gw_Status z)) ConditionRuleUpdating = Some ConditionFalse \<and>
              look (gw_Conditions (gw_Status z)) ConditionRuleSyncing = Some ConditionUnknown \<and>
              gw_RuleGeneration (gw_Status z) = gw_RuleGeneration (gw_Status gw) + 1 \<and>
              gw_SyncGeneration (gw_Status z) = gw_SyncGeneration (gw_Status gw)))"
proof -
  obtain w3 fwds w4 gws w5 where
    prefix: "andThen (deleteIfExists (cl_Pods cl) n) (\<lambda>_. andThen (deleteIfExists (cl_Services cl) n)
       (\<lambda>_. deleteIfExists (cl_Forwarders cl) n)) w = (Inr (), w3)"
    and fwds: "res_List (cl_Forwarders cl) w3 = (Inr fwds, w4)"
    and gone: "\<forall>fwd \<in> set fwds. fwd_key fwd \<noteq> n"
    and gws: "res_List (cl_Gateways cl) w4 = (Inr gws, w5)"
    and run: "foldE (\<lambda>gw _. updateRulesForOneGateway L cl fwds gw (gw_GatewayIP (gw_Spec gw))) gws () w5
      = (Inr u, w')" by (rule delete_steps [OF assms(9,8)])
  note F = api_lawsD(1) [OF assms(1)] and G = api_lawsD(2) [OF assms(1)]
  have "quiet fv (foldE (\<lambda>gw _. updateRulesForOneGateway L cl fwds gw (gw_GatewayIP (gw_Spec gw))) gws ())"
    by (intro quiet_foldE updateRulesForOneGateway_quiet api_lawsD(6) [OF assms(1)])
  from quietD [OF this run] reads_quietD(2) [OF api_lawsD(5) [OF assms(1)] gws]
    reads_quietD(2) [OF resource_lawsD(1) [OF F] fwds] have fv: "fv w' = fv w3" by simp
  have "gv w3 = gv w"
    using delete_prefix_quiet [OF api_lawsD(4,7,8) [OF assms(1)]] prefix by (rule quietD)
  with reads_quietD(2) [OF resource_lawsD(1) [OF G] gws] reads_quietD(2) [OF api_lawsD(7) [OF assms(1)] fwds]
  have gv: "gv w5 = gv w" "gv w4 = gv w" by simp_all
  have keyed: "fwd_key x = k" if "fv w3 k = Some x" for k x
    using deleted_forwarder [OF assms(1,5) prefix] assms(6) that by (auto split: if_splits)
  have listed: "set fwds = ran (fv w3)"
    using lists_storedD(2) [OF assms(3) fwds] keyed by (auto simp: ran_def)
  have "fv w3 n = None"
  proof (cases "fv w3 n")
    case (Some x)
    with listed keyed gone show ?thesis by (metis ranI)
  qed simp
  with deleted_forwarder [OF assms(1,5) prefix] have del: "fv w3 = (fv w)(n := None)" by auto
  let ?P = "\<lambda>gw z. holds_rules fwds (gw_key gw) z \<and> gw_GatewayIP (gw_Spec z) = gw_GatewayIP (gw_Spec gw) \<and>
      in_sync_request look (gw_Conditions (gw_Status z)) \<and>
      gw_RuleGeneration (gw_Status z) = gw_RuleGeneration (gw_Status gw) + 1 \<and>
      gw_SyncGeneration (gw_Status z) = gw_SyncGeneration (gw_Status gw)"
  have stored: "gv w5 (gw_key gw) = Some gw" if "gw \<in> set gws" for gw
    using lists_storedD(2) [OF assms(4) gws] that gv by simp
  have step: "\<exists>z. gv w' = (gv w)(gw_key gw \<mapsto> z) \<and> ?P gw z"
    if "gv w (gw_key gw) = Some gw"
      "updateRulesForOneGateway L cl fwds gw (gw_GatewayIP (gw_Spec gw)) w = (Inr (), w')" for gw w w'
    using oneGateway_lemma [OF assms(1,2) that(2)] that(1) holds_rulesI by (metis gateway_spec.select_convs(3))
  from foldE_stores_each [where v = gv and k = gw_key and P = ?P,
      OF run lists_storedD(1) [OF assms(4) gws] stored step]
  have each: "\<forall>gw \<in> set gws. \<exists>z. gv w' (gw_key gw) = Some z \<and> ?P gw z"
    and frame: "\<forall>k. k \<notin> gw_key ` set gws \<longrightarrow> gv w' k = gv w k" unfolding gv by blast+
  have known: "gw \<in> set gws" if "gv w k = Some gw" for k gw
    using lists_storedD(2) [OF assms(4) gws] assms(7) [OF that] that gv by simp
  have "case gv w k of None \<Rightarrow> gv w' k = None
    | Some gw \<Rightarrow> \<exists>z. gv w' k = Some z \<and> holds_rules fwds k z \<and>
        gw_GatewayIP (gw_Spec z) = gw_GatewayIP (gw_Spec gw) \<and>
        in_sync_request look (gw_Conditions (gw_Status z)) \<and>
        gw_RuleGeneration (gw_Status z) = gw_RuleGeneration (gw_Status gw) + 1 \<and>
        gw_SyncGeneration (gw_Status z) = gw_SyncGeneration (gw_Status gw)" for k
  proof (cases "gv w k")
    case None
    then have "k \<notin> gw_key ` set gws" using stored gv by auto
    with frame None show ?thesis by simp
  next
    case (Some gw)
    with each known [OF Some] assms(7) [OF Some] show ?thesis by fastforce
  qed
  then show ?thesis
    using lists_storedD(1) [OF assms(3) fwds] listed del
    unfolding fv in_sync_request_def conj_assoc by (intro conjI exI [of _ fwds]) simp_all
qed

text \<open>
  C12: The finalizer is kept until the cleanup is done. While an ExternalService is being
  deleted, \<^verbatim>\<open>Reconcile\<close> writes to it only after
  \<^verbatim>\<open>deleteResourceForExternalService\<close> succeeded: if the cleanup fails,
  \<^verbatim>\<open>Reconcile\<close> returns its error and every ExternalService is as before; if
  \<^verbatim>\<open>Reconcile\<close> succeeds, the cleanup did, and the last step was the update that
  clears the finalizers.
\<close>

definition only_es_writes :: "('w \<Rightarrow> 'v) \<Rightarrow> ('w, 'c) client \<Rightarrow> bool" where
  "only_es_writes ev cl \<longleftrightarrow>
     reads_quiet ev (cl_ExternalServices cl) \<and>
     reads_quiet ev (cl_Pods cl) \<and> writes_quiet ev (cl_Pods cl) \<and>
     reads_quiet ev (cl_Services cl) \<and> writes_quiet ev (cl_Services cl) \<and>
     reads_quiet ev (cl_Forwarders cl) \<and> writes_quiet ev (cl_Forwarders cl) \<and>
     reads_quiet ev (cl_Gateways cl) \<and> writes_quiet ev (cl_Gateways cl)"

lemma delete_quiet_es:
  assumes "only_es_writes ev cl"
  shows "quiet ev (deleteResourceForExternalService L cl cr)"
proof -
  have "quiet ev (res_List (cl_Forwarders cl))" "quiet ev (res_List (cl_Gateways cl))"
    using assms by (simp_all add: only_es_writes_def reads_quiet_def)
  with assms show ?thesis
    unfolding deleteResourceForExternalService_def Let_def only_es_writes_def
    by (auto intro!: quiet_andThen quiet_foldE deleteIfExists_quiet updateRulesForOneGateway_quiet)
qed

theorem finalizer_kept:
  assumes "only_es_writes ev cl"
    and "res_Get (cl_ExternalServices cl) request w = (Inr cr, w1)"
    and "m_DeletionTimestamp (es_Meta cr) \<noteq> None"
  shows "(\<forall>e w2. deleteResourceForExternalService L cl cr w1 = (Inl e, w2) \<longrightarrow>
            Reconcile L eo io go cl request w = (Inl e, w2) \<and> ev w2 = ev w) \<and>
    (\<forall>w'. Reconcile L eo io go cl request w = (Inr (), w') \<longrightarrow>
       (\<exists>w2 x. deleteResourceForExternalService L cl cr w1 = (Inr (), w2) \<and> ev w2 = ev w \<and>
          res_Update (cl_ExternalServices cl)
            (cr\<lparr>es_Meta := (es_Meta cr)\<lparr>m_Finalizers := []\<rparr>\<rparr>) w2 = (Inr x, w')))"
proof -
  have "ev w1 = ev w" using assms(1,2) by (auto simp: only_es_writes_def dest: reads_quietD)
  moreover have "ev w2 = ev w1" if "deleteResourceForExternalService L cl cr w1 = (r, w2)" for r w2
    using delete_quiet_es [OF assms(1)] that by (rule quietD)
  moreover from assms(3) have rec: "Reconcile L eo io go cl request w =
      andThen (deleteResourceForExternalService L cl cr) (\<lambda>_.
      andThen (res_Update (cl_ExternalServices cl)
         (cr\<lparr>es_Meta := (es_Meta cr)\<lparr>m_Finalizers := []\<rparr>\<rparr>)) (\<lambda>_. ret ())) w1"
    by (simp add: Reconcile_def io_eval(4,5) assms(2))
  ultimately show ?thesis
    unfolding rec by (simp only: run_Inr) (auto simp: io_eval(4))
qed

end
