(* ===== verification/AgentControllers.thy ===== *)
theory AgentControllers
  imports Controller ForwarderAgent GatewayAgent OperatorPublish
begin

text \<open>
  The two agents under their controller: both \<^verbatim>\<open>Reconcile\<close> functions follow the
  contract the controller relies on, and what the operator publishes reaches the agent's tables
  through the controller's queue.
\<close>

section \<open>Agents under a controller\<close>

context sync_agent
begin

lemma contract:
  "reconciler_contract (reconcile L p R) (\<lambda>s. mine (ag_own s))
     (\<lambda>namespace name. onEnv (res_Get R \<lparr>nn_Namespace = namespace, nn_Name = name\<rparr>))"
  by unfold_locales (auto simp: reconcile_foreign onEnv_def reconcile_error split: prod.splits)

text \<open>Two rounds of a controller with nothing else to do bring a resource home.\<close>

lemma controlled:
  assumes C: "conditions_laws L look" and S: "server_laws v p R"
    and x: "holds v p namespace name (ctl_world st) x" and poss: "possible x" and due: "needSync L x"
    and not_yet: "sv_syncing (view look x) \<noteq> Some ConditionTrue"
    and c: "c_reconciler c = reconcile L p R" "c_SplitMetaNamespaceKey c k = Inr (namespace, name)"
    and q: "wq_laws (c_workqueue c) todo closed" "hands_out (c_workqueue c) todo closed"
      "\<not> closed (ctl_queue st)" "todo (ctl_queue st) = {k}"
  shows "\<exists>st1 st2 y. processNext c st = (True, st1) \<and> processNext c st1 = (True, st2) \<and>
    applied p x (ctl_world st1) \<and> applied p x (ctl_world st2) \<and> todo (ctl_queue st1) = {k} \<and>
    v (ag_env (ctl_world st2)) \<lparr>nn_Namespace = namespace, nn_Name = name\<rparr> = Some y \<and>
    check_due (view look y) \<and> sv_rule (view look y) = sv_rule (view look x)"
proof -
  from converges [OF C S x poss due not_yet] obtain s1 s2 y where
    runs: "reconcile L p R namespace name (ctl_world st) = (Inl Conflict, s1)"
      "reconcile L p R namespace name s1 = (Inr (), s2)"
    and ap: "applied p x s1" "applied p x s2"
    and y: "v (ag_env s2) \<lparr>nn_Namespace = namespace, nn_Name = name\<rparr> = Some y"
      "check_due (view look y)" "sv_rule (view look y) = sv_rule (view look x)" by blast
  from two_rounds [OF q c(2), unfolded c(1), OF runs] obtain st1 st2 where
    "processNext c st = (True, st1)" "processNext c st1 = (True, st2)"
    "ctl_world st1 = s1" "ctl_world st2 = s2" "todo (ctl_queue st1) = {k}" by blast
  with ap y show ?thesis by blast
qed

end

interpretation fwd_contract: reconciler_contract "fwd_Reconcile L (h_ords h) R (h_ipt h)"
  "\<lambda>s. fwd_mine (ag_own s)"
  "\<lambda>namespace name. onEnv (res_Get R \<lparr>nn_Namespace = namespace, nn_Name = name\<rparr>)"
  for L h R by (rule fwd_agent.contract)

interpretation gw_contract: reconciler_contract "gw_Reconcile L (h_ords h) R (h_ipt h) (gh_dial h) (gh_close h)"
  "\<lambda>s. gw_mine (ag_own s)"
  "\<lambda>namespace name. onEnv (res_Get R \<lparr>nn_Namespace = namespace, nn_Name = name\<rparr>)"
  for L and h :: "('w, 'conn) gw_host" and R by (rule gw_agent.contract)

text \<open>A pass of the gateway's agent keeps its namespace and stops no ssh server.\<close>

lemma gw_Reconcile_preserves:
  "preserves (\<lambda>a. g_namespace (fst a) = ns \<and> (\<forall>ip \<in> A. sshd_running a ip))
     (gw_Reconcile L ords R ipt dial close namespace name)"
proof -
  let ?P = "\<lambda>a. g_namespace (fst a) = ns \<and> (\<forall>ip \<in> A. sshd_running a ip)"
  have "preserves ?P (onOwn (ensureSshdRunning ip))" for ip
  proof
    fix a a'
    assume "?P a" and "ensureSshdRunning ip a = Inr a'"
    with ensureSshdRunning_spec [of ip a] show "?P a'" by auto
  qed
  then have "preserves ?P (gw_syncRule ords ipt gw)" for gw
    unfolding gw_syncRule_def by (intro preserves_andThen preserves_onEnv)
  then show ?thesis
    unfolding gw_Reconcile_def split_def
    by (intro preserves_andThen preserves_if preserves_onEnv preserves_basic)
qed

section \<open>Properties\<close>

text \<open>
  A published object asks its agent for a sync, unless the generation counter happens to be at
  the one that was synced.
\<close>

lemma published_gateway_due:
  assumes "conditions_laws L look" and "in_sync_request look (gw_Conditions (gw_Status z))"
    and "gw_RuleGeneration (gw_Status z) \<noteq> gw_SyncGeneration (gw_Status z)"
  shows "gw_needSync L z" "sv_syncing (gw_view look z) \<noteq> Some ConditionTrue"
  using assms by (simp_all add: gw_sync.needSync [OF assms(1)] sync_due_def gw_view_def in_sync_request_def)

lemma published_forwarder_due:
  assumes "conditions_laws L look" and "in_sync_request look (fwd_Conditions (fwd_Status z))"
    and "fwd_RuleGeneration (fwd_Status z) \<noteq> fwd_SyncGeneration (fwd_Status z)"
  shows "fwd_needSync L z" "sv_syncing (fwd_view look z) \<noteq> Some ConditionTrue"
  using assms by (simp_all add: fwd_sync.needSync [OF assms(1)] sync_due_def fwd_view_def in_sync_request_def)

text \<open>The agent's controller has one key to work on, that of the resource with the given name.\<close>

definition works_on ::
  "('obj, 'q, 's) controller \<Rightarrow> ('q \<Rightarrow> string set) \<Rightarrow> ('q \<Rightarrow> bool) \<Rightarrow> string \<Rightarrow> nsname \<Rightarrow> 'q \<Rightarrow> bool" where
  "works_on c todo closed k n q \<longleftrightarrow>
     wq_laws (c_workqueue c) todo closed \<and> hands_out (c_workqueue c) todo closed \<and>
     \<not> closed q \<and> todo q = {k} \<and> c_SplitMetaNamespaceKey c k = Inr (nn_Namespace n, nn_Name n)"

lemma works_onD:
  assumes "works_on c todo closed k n q"
  shows "wq_laws (c_workqueue c) todo closed" "hands_out (c_workqueue c) todo closed" "\<not> closed q"
    "todo q = {k}" "c_SplitMetaNamespaceKey c k = Inr (nn_Namespace n, nn_Name n)"
  using assms by (simp_all add: works_on_def)

text \<open>
  C5: From the operator to the gateway. After the operator has published new rules for a
  Gateway, two rounds of the gateway agent's controller bring them into force: the chains of
  the gateway hold exactly the rules that the operator generated for it from the forwarders,
  and the API server's object says that this generation is synced.
\<close>

theorem published_gateway_applied:
  assumes "api_laws cl fv gv" and "conditions_laws L look"
    and "updateRulesForOneGateway L cl fwds gw gwIP w = (Inr u, w')"
    and "gv w (gw_key gw) = Some gw" and "\<And>n z. gv w' n = Some z \<Longrightarrow> gw_key z = n"
    and "gw_RuleGeneration (gw_Status gw) + 1 \<noteq> gw_SyncGeneration (gw_Status gw)"
    and "ipv4_of gwIP \<noteq> None"
    and "gw_agent.server_laws v h R" and "v (ag_env (ctl_world st)) = gv w'"
    and "gw_ok (h_tables h) (ctl_world st)" and "g_namespace (ag_g (ctl_world st)) = nn_Namespace (gw_key gw)"
    and "c_reconciler c = gw_Reconcile L (h_ords h) R (h_ipt h) (gh_dial h) (gh_close h)"
    and "works_on c todo closed k (gw_key gw) (ctl_queue st)"
  shows "\<exists>st1 st2 z y. processNext c st = (True, st1) \<and> processNext c st1 = (True, st2) \<and>
    gv w' (gw_key gw) = Some z \<and>
    gw_Spec z = \<lparr>gw_EgressRules = genGatewayEgressRules fwds gw,
                gw_IngressRules = genGatewayIngressRules fwds gw, gw_GatewayIP = gwIP\<rparr> \<and>
    gw_applied (h_tables h) z (ctl_world st1) \<and> gw_applied (h_tables h) z (ctl_world st2) \<and>
    v (ag_env (ctl_world st2)) (gw_key gw) = Some y \<and> gw_needCheckSync L y \<and>
    gw_SyncGeneration (gw_Status y) = gw_RuleGeneration (gw_Status gw) + 1"
proof -
  from oneGateway_lemma [OF assms(1-3)] assms(4) obtain z where z: "gv w' = (gv w)(gw_key gw \<mapsto> z)"
    and spec: "gw_Spec z = \<lparr>gw_EgressRules = genGatewayEgressRules fwds gw,
                 gw_IngressRules = genGatewayIngressRules fwds gw, gw_GatewayIP = gwIP\<rparr>"
    and req: "in_sync_request look (gw_Conditions (gw_Status z))"
    and gens: "gw_RuleGeneration (gw_Status z) = gw_RuleGeneration (gw_Status gw) + 1"
      "gw_SyncGeneration (gw_Status z) = gw_SyncGeneration (gw_Status gw)" by blast
  note due = published_gateway_due [OF assms(2) req, unfolded gens, OF assms(6)]
  note c = works_onD [OF assms(13)]
  have n: "\<lparr>nn_Namespace = nn_Namespace (gw_key gw), nn_Name = nn_Name (gw_key gw)\<rparr> = gw_key gw" by simp
  have gv: "gv w' (gw_key gw) = Some z" using z by simp
  from assms(5) [OF this] have "meta_key (gw_Meta z) = gw_key gw" by (simp add: gw_key_def)
  moreover have "v (ag_env (ctl_world st)) (gw_key gw) = Some z" using assms(9) gv by simp
  ultimately have x: "gw_agent.holds v h (nn_Namespace (gw_key gw)) (nn_Name (gw_key gw)) (ctl_world st) z"
    unfolding gw_agent.holds_def gw_mine_def n using assms(10,11) by blast
  have poss: "ipv4_of (gw_GatewayIP (gw_Spec z)) \<noteq> None" using assms(7) spec by simp
  from gw_agent.controlled [OF assms(2,8) x poss due assms(12) c(5) c(1-4), unfolded n]
  obtain st1 st2 y where run: "processNext c st = (True, st1)" "processNext c st1 = (True, st2)"
    and ap: "gw_applied (h_tables h) z (ctl_world st1)" "gw_applied (h_tables h) z (ctl_world st2)"
    and y: "v (ag_env (ctl_world st2)) (gw_key gw) = Some y"
      "check_due (gw_view look y)" "sv_rule (gw_view look y) = sv_rule (gw_view look z)" by (elim exE conjE) (rule that)
  moreover have "gw_needCheckSync L y" using y by (simp add: gw_sync.needCheckSync [OF assms(2)])
  moreover have "gw_SyncGeneration (gw_Status y) = gw_RuleGeneration (gw_Status gw) + 1"
    using y(2,3) gens(1) by (simp add: check_due_def gw_view_def)
  ultimately show ?thesis using spec gv by blast
qed

text \<open>
  C6: From the operator to the forwarder. After the operator has published new rules for a
  Forwarder, two rounds of the forwarder agent's controller bring them into force: tunnels and
  iptables rules are those of the Forwarder that was published, each egress rule of which comes
  from a source of the ExternalService, and the API server's object says that this generation
  is synced.
\<close>

theorem published_forwarder_applied:
  assumes "api_laws cl fv gv" and "conditions_laws L look"
    and "\<And>n. range_order (eo n)" and "\<And>n. range_order (io n)"
    and "n = \<lparr>nn_Namespace = ConnectorNamespace, nn_Name = m_Name (es_Meta cr)\<rparr>"
    and "updateForwarderRules L eo io cl cr w = (Inr u, w')"
    and "res_Get (cl_Forwarders cl) n w = (Inr fwd, w0)"
    and "fv w n = Some fwd" and "\<And>k z. fv w' k = Some z \<Longrightarrow> meta_key (fwd_Meta z) = k"
    and "fwd_RuleGeneration (fwd_Status fwd) + 1 \<noteq> fwd_SyncGeneration (fwd_Status fwd)"
    and "fwd_agent.server_laws v h R" and "v (ag_env (ctl_world st)) = fv w'"
    and "tunnels_ok (ag_f (ctl_world st)) (ag_go (ctl_world st))"
    and "fwd_mine (ag_own (ctl_world st)) (nn_Namespace n) (nn_Name n)"
    and "c_reconciler c = fwd_Reconcile L (h_ords h) R (h_ipt h)"
    and "works_on c todo closed k n (ctl_queue st)"
  shows "\<exists>st1 st2 z y. processNext c st = (True, st1) \<and> processNext c st1 = (True, st2) \<and>
    fv w' n = Some z \<and> (\<forall>r \<in> set (fwd_EgressRules (fwd_Spec z)). egress_rule_of L cr r) \<and>
    fwd_applied (h_tables h) z (ctl_world st1) \<and> fwd_applied (h_tables h) z (ctl_world st2) \<and>
    v (ag_env (ctl_world st2)) n = Some y \<and> fwd_needCheckSync L y \<and>
    fwd_SyncGeneration (fwd_Status y) = fwd_RuleGeneration (fwd_Status fwd) + 1"
proof -
  from updateForwarderRules_lemma [OF assms(1,2,5,6,7), where iv = "\<lambda>_. ()"] obtain y1 w1 w2 z where
    z: "fv w' = (fv w)(n \<mapsto> z)" and spec: "genForwarderSpec L eo io cl cr y1 w1 = (Inr (fwd_Spec z), w2)"
    and req: "in_sync_request look (fwd_Conditions (fwd_Status z))"
    and old: "\<forall>x. Inr fwd = (Inr x :: 'b forwarder result) \<and> fv w n = Some x \<longrightarrow> fwd_Spec y1 = fwd_Spec x \<and>
       fwd_RuleGeneration (fwd_Status z) = fwd_RuleGeneration (fwd_Status x) + 1 \<and>
       fwd_SyncGeneration (fwd_Status z) = fwd_SyncGeneration (fwd_Status x)"
    by (elim exE conjE) (rule that)
  from old assms(8) have gens: "fwd_RuleGeneration (fwd_Status z) = fwd_RuleGeneration (fwd_Status fwd) + 1"
      "fwd_SyncGeneration (fwd_Status z) = fwd_SyncGeneration (fwd_Status fwd)" by simp_all
  note due = published_forwarder_due [OF assms(2) req, unfolded gens, OF assms(10)]
  note c = works_onD [OF assms(16)]
  have st: "v (ag_env (ctl_world st)) n = Some z" using assms(12) z by simp
  have n: "\<lparr>nn_Namespace = nn_Namespace n, nn_Name = nn_Name n\<rparr> = n" by simp
  have fv: "fv w' n = Some z" using z by simp
  from assms(9) [OF this] have "meta_key (fwd_Meta z) = n" .
  with st have x: "fwd_agent.holds v h (nn_Namespace n) (nn_Name n) (ctl_world st) z"
    unfolding fwd_agent.holds_def n using assms(13,14) by blast
  from fwd_agent.controlled [OF assms(2,11) x TrueI due assms(15) c(5) c(1-4), unfolded n]
  obtain st1 st2 y where run: "processNext c st = (True, st1)" "processNext c st1 = (True, st2)"
    and ap: "fwd_applied (h_tables h) z (ctl_world st1)" "fwd_applied (h_tables h) z (ctl_world st2)"
    and y: "v (ag_env (ctl_world st2)) n = Some y"
      "check_due (fwd_view look y)" "sv_rule (fwd_view look y) = sv_rule (fwd_view look z)" by (elim exE conjE) (rule that)
  moreover have "fwd_needCheckSync L y" using y by (simp add: fwd_sync.needCheckSync [OF assms(2)])
  moreover have "fwd_SyncGeneration (fwd_Status y) = fwd_RuleGeneration (fwd_Status fwd) + 1"
    using y(2,3) gens(1) by (simp add: check_due_def fwd_view_def)
  ultimately show ?thesis using fv genForwarderSpec_run [of eo io, OF assms(3,4) spec] by blast
qed

text \<open>
  Requests for other forwarders. A forwarder's agent sees the keys of all Forwarders; a key
  that is not its own is forgotten in one round, without a call to the API server and without
  any change to the agent.
\<close>

theorem foreign_forwarder_forgotten:
  assumes "c_reconciler c = fwd_Reconcile L (h_ords h) R (h_ipt h)"
    and "c_SplitMetaNamespaceKey c k = Inr (namespace, name)"
    and "wq_Get (c_workqueue c) (ctl_queue st) = (KeyItem k, False, q)"
    and "\<not> (f_namespace (ag_f (ctl_world st)) = namespace \<and> f_name (ag_f (ctl_world st)) = name)"
  shows "processNext c st = (True, st\<lparr>ctl_queue :=
    wq_Done (c_workqueue c) (KeyItem k) (wq_Forget (c_workqueue c) (KeyItem k) q)\<rparr>)"
  using assms(4) by (intro fwd_contract.foreign_forgotten [OF assms(1-3)]) (simp add: fwd_mine_def)

text \<open>
  C33: A deleted Gateway is never let go. When the API server does not know the Gateway of a key
  any more, the key stays with the controller for ever, however its loop and events interleave,
  and no ssh server the agent has started is ever stopped.
\<close>

theorem deleted_gateway_retried:
  assumes "wq_laws (c_workqueue c) todo closed" and "\<not> closed (ctl_queue st)"
    and "c_reconciler c = gw_Reconcile L (h_ords h) R (h_ipt h) (gh_dial h) (gh_close h)"
    and "c_SplitMetaNamespaceKey c k = Inr (namespace, name)"
    and "g_namespace (ag_g (ctl_world st)) = namespace"
    and "\<And>e. fst (res_Get R \<lparr>nn_Namespace = namespace, nn_Name = name\<rparr> e) = Inl NotFound"
    and "k \<in> todo (ctl_queue st)" and "\<forall>ip \<in> A. sshd_running (ag_own (ctl_world st)) ip"
    and "(ctl_step c)\<^sup>*\<^sup>* (Idle, due, st) (ph, due', st')"
  shows "(k \<in> todo (ctl_queue st') \<or> ph = Busy (KeyItem k)) \<and>
    (\<forall>ip \<in> A. sshd_running (ag_own (ctl_world st')) ip)"
proof -
  let ?I = "\<lambda>s. g_namespace (ag_g s) = namespace \<and> (\<forall>ip \<in> A. sshd_running (ag_own s) ip)"
  have keep: "?I s'" if "?I s" "c_reconciler c n m s = (r, s')" for n m s r s'
    using preservesD [OF gw_Reconcile_preserves [of namespace A] that(1) that(2) [unfolded assms(3)]] .
  have "\<exists>err s'. c_reconciler c namespace name s = (Inl err, s')" if "?I s" for s
  proof -
    obtain e where "res_Get R \<lparr>nn_Namespace = namespace, nn_Name = name\<rparr> (ag_env s) = (Inl NotFound, e)"
      using assms(6) by (metis prod.collapse)
    then show ?thesis using that by (simp add: assms(3) gw_Reconcile_gone)
  qed
  moreover have "?I (ctl_world st)" using assms(5,8) by simp
  ultimately have "\<not> closed (ctl_queue st') \<and> ?I (ctl_world st') \<and> (k \<in> todo (ctl_queue st') \<or> ph = Busy (KeyItem k))"
    using assms(1,4) keep assms(9,2,7) by (intro failing_key_inv [where I = ?I]) assumption+
  then show ?thesis by simp
qed

end
