(* ===== verification/OperatorRuns.thy ===== *)
theory OperatorRuns
  imports OperatorPublish
begin

text \<open>
  Runs of the operator on the in-memory server, from the objects of the repository's unit test:
  the witnesses of the properties in \<open>OperatorPublish\<close>.
\<close>

type_synonym test_conds = "string \<Rightarrow> condition_status option"

definition es1_key :: nsname where
  "es1_key = \<lparr>nn_Namespace = ''external-services'', nn_Name = ''es1''\<rparr>"

definition gw1_key :: nsname where
  "gw1_key = \<lparr>nn_Namespace = ''external-services'', nn_Name = ''gwrulec0a87ac8''\<rparr>"

text \<open>A Forwarder and a Gateway of generation 7 that were in sync.\<close>

definition old_forwarder :: "test_conds forwarder" where
  "old_forwarder =
     \<lparr>fwd_Meta = meta ''external-services'' ''es1'',
      fwd_Spec = \<lparr>fwd_EgressRules = [], fwd_IngressRules = [], fwd_ForwarderIP = []\<rparr>,
      fwd_Status = \<lparr>fwd_Conditions = [ConditionRuleUpdating \<mapsto> ConditionFalse,
                                       ConditionRuleSyncing \<mapsto> ConditionFalse],
                    fwd_RuleGeneration = 7, fwd_SyncGeneration = 7\<rparr>\<rparr>"

definition old_gateway :: "test_conds gateway" where
  "old_gateway =
     \<lparr>gw_Meta = meta ''external-services'' ''gwrulec0a87ac8'',
      gw_Spec = \<lparr>gw_EgressRules = [], gw_IngressRules = [sample_ingress_rule
          \<lparr>gr_Forwarder := \<lparr>fwdref_Namespace = ''external-services'', fwdref_Name = ''es1''\<rparr>\<rparr>],
          gw_GatewayIP = dotted 192 168 122 200\<rparr>,
      gw_Status = \<lparr>gw_Conditions = [ConditionRuleUpdating \<mapsto> ConditionFalse,
                                     ConditionRuleSyncing \<mapsto> ConditionFalse],
                   gw_RuleGeneration = 7, gw_SyncGeneration = 7\<rparr>\<rparr>"

definition published_forwarder :: "test_conds forwarder" where
  "published_forwarder =
     \<lparr>fwd_Meta = (meta ''external-services'' ''es1'')\<lparr>m_ResourceVersion := ''vvv''\<rparr>,
      fwd_Spec = \<lparr>fwd_EgressRules = [test_egress_rule ''2049''],
                  fwd_IngressRules = [test_ingress_rule ''2049''], fwd_ForwarderIP = ''10.0.0.3''\<rparr>,
      fwd_Status = \<lparr>fwd_Conditions = [ConditionRuleUpdating \<mapsto> ConditionFalse,
                                       ConditionRuleSyncing \<mapsto> ConditionUnknown],
                    fwd_RuleGeneration = 8, fwd_SyncGeneration = 7\<rparr>\<rparr>"

lemmas run_simps = io_eval mem_client_sel mem_resource_eval fwdBeginUpdate_def fwdEndUpdate_def
  fwd_setCondition_def gwBeginUpdate_def gwEndUpdate_def gw_setCondition_def map_libs_def
  fwd_key_def gw_key_def meta_key_def put_fwd_status_def put_gw_status_def ConnectorNamespace_def
  next_version_def

definition world7 :: "test_conds mem" where
  "world7 = test_world\<lparr>mem_fwds := [(es1_key, old_forwarder)]\<rparr>"

lemma test_es_sel [simp]: "es_Meta test_es = meta ''ns1'' ''es1''"
  by (simp add: test_es_def)

lemma no_used_ports: "genUsedPortsForIngress [] = []"
  "fwd_EgressRules (fwd_Spec fwd) = [] \<Longrightarrow> genUsedPortsForEgress fwd = []"
  by (simp_all add: genUsedPortsForIngress_def genUsedPortsForEgress_def)

lemma run_genForwarderSpec:
  assumes "mem_eps w = mem_eps test_world" and "mem_svcs w = mem_svcs test_world"
    and "mem_pods w = mem_pods test_world" and "mem_gws w = []"
    and "fwd_EgressRules (fwd_Spec fwd) = []"
  shows "genForwarderSpec map_libs (\<lambda>_. rev) (\<lambda>_. rev) (mem_client ip) test_es fwd w =
    (Inr (fwd_Spec published_forwarder), w)"
  using assms
  by (simp add: genForwarderSpec_def io_eval mem_client_sel mem_resource_eval test_egress_run
      test_ingress_run no_used_ports published_forwarder_def
      test_world_def test_pod_def ConnectorNamespace_def meta_key_def)

definition updating :: "string \<Rightarrow> forwarder_spec \<Rightarrow> test_conds forwarder" where
  "updating rv spec = old_forwarder\<lparr>fwd_Meta := (fwd_Meta old_forwarder)\<lparr>m_ResourceVersion := rv\<rparr>,
     fwd_Spec := spec, fwd_Status := (fwd_Status old_forwarder)
     \<lparr>fwd_Conditions := [ConditionRuleUpdating \<mapsto> ConditionTrue, ConditionRuleSyncing \<mapsto> ConditionFalse]\<rparr>\<rparr>"

lemma run_begin:
  "fwdBeginUpdate map_libs (mem_client []) old_forwarder world7 =
     (Inr (updating ''v'' (fwd_Spec old_forwarder)),
      world7\<lparr>mem_fwds := [(es1_key, updating ''v'' (fwd_Spec old_forwarder))]\<rparr>)"
  by (simp add: run_simps world7_def old_forwarder_def es1_key_def fun_upd_twist updating_def Let_def)

lemma run_end:
  "mem_fwds w = [(es1_key, updating ''vv'' (fwd_Spec published_forwarder))] \<Longrightarrow>
   fwdEndUpdate map_libs (mem_client []) (updating ''vv'' (fwd_Spec published_forwarder)) w =
     (Inr (), w\<lparr>mem_fwds := [(es1_key, published_forwarder)]\<rparr>)"
  by (simp add: run_simps published_forwarder_def old_forwarder_def es1_key_def fun_upd_twist
      updating_def Let_def)

lemma run_updateForwarderRules:
  "updateForwarderRules map_libs (\<lambda>_. rev) (\<lambda>_. rev) (mem_client []) test_es world7 =
     (Inr (), world7\<lparr>mem_fwds := [(es1_key, published_forwarder)]\<rparr>)"
proof -
  have get: "res_Get (cl_Forwarders (mem_client [])) es1_key world7 = (Inr old_forwarder, world7)"
    by (simp add: mem_client_sel mem_resource_eval world7_def es1_key_def old_forwarder_def
        fwd_key_def)
  let ?w = "world7\<lparr>mem_fwds := [(es1_key, updating ''v'' (fwd_Spec old_forwarder))]\<rparr>"
  let ?x = "updating ''vv'' (fwd_Spec published_forwarder)"
  have gen: "genForwarderSpec map_libs (\<lambda>_. rev) (\<lambda>_. rev) (mem_client []) test_es
      (updating ''v'' (fwd_Spec old_forwarder)) ?w = (Inr (fwd_Spec published_forwarder), ?w)"
    by (rule run_genForwarderSpec)
       (simp_all add: world7_def test_world_def updating_def old_forwarder_def)
  let ?y = "(updating ''v'' (fwd_Spec old_forwarder))\<lparr>fwd_Spec := fwd_Spec published_forwarder\<rparr>"
  have upd: "res_Update (cl_Forwarders (mem_client [])) ?y ?w =
      (Inr ?x, world7\<lparr>mem_fwds := [(es1_key, ?x)]\<rparr>)"
    by (simp add: mem_client_sel mem_resource_eval updating_def es1_key_def old_forwarder_def
        put_fwd_status_def next_version_def meta_key_def)
  have n: "\<lparr>nn_Namespace = ConnectorNamespace, nn_Name = m_Name (es_Meta test_es)\<rparr> = es1_key"
    by (simp add: es1_key_def ConnectorNamespace_def)
  show ?thesis
    unfolding updateForwarderRules_def n by (simp add: io_eval get run_begin gen upd run_end)
qed

text \<open>What the in-memory server answers when Pods are read.\<close>

definition mem_pods_view :: "'c mem \<Rightarrow> nsname \<Rightarrow> pod result" where
  "mem_pods_view w k = fst (res_Get (cl_Pods (mem_client [])) k w)"

lemma mem_pods_answers: "answers mem_pods_view (cl_Pods (mem_client ip))"
  by (simp add: answers_def mem_pods_view_def mem_client_Get)

lemma mem_inputs_quiet:
  "inputs_quiet (\<lambda>w. (mem_eps_view w, mem_svcs_view w, mem_pods_view w)) (mem_client ip)"
proof -
  have "mem_eps_view (w\<lparr>mem_fwds := x\<rparr>) = mem_eps_view w" "mem_svcs_view (w\<lparr>mem_fwds := x\<rparr>) = mem_svcs_view w"
    "mem_pods_view (w\<lparr>mem_fwds := x\<rparr>) = mem_pods_view w" for w :: "'a mem" and x
    by (simp_all add: fun_eq_iff mem_eps_view_def mem_svcs_view_def mem_pods_view_def mem_client_Get)
  then show ?thesis
    by (simp add: inputs_quiet_def mem_client_def mem_reads_quiet mem_writes_quiet)
qed

theorem updateForwarderRules_publishes_witness:
  "\<exists>z w'. updateForwarderRules map_libs (\<lambda>_. rev) (\<lambda>_. rev) (mem_client []) test_es world7 = (Inr (), w') \<and>
     map_of (mem_fwds w') es1_key = Some z \<and> fwd_RuleGeneration (fwd_Status z) = 8 \<and>
     map strip (fwd_EgressRules (fwd_Spec z)) = egress_spec map_libs test_es (mem_eps_view test_world) \<and>
     fwd_Conditions (fwd_Status z) ConditionRuleSyncing = Some ConditionUnknown"
proof -
  have n: "es1_key = \<lparr>nn_Namespace = ConnectorNamespace, nn_Name = m_Name (es_Meta test_es)\<rparr>"
    by (simp add: es1_key_def ConnectorNamespace_def)
  have get: "res_Get (cl_Forwarders (mem_client [])) es1_key world7 = (Inr old_forwarder, world7)"
    by (simp add: mem_client_sel mem_resource_eval world7_def es1_key_def old_forwarder_def
        fwd_key_def)
  have stored: "map_of (mem_fwds world7) es1_key = Some old_forwarder" by (simp add: world7_def)
  have eps: "mem_eps_view world7 = mem_eps_view test_world"
    by (simp add: fun_eq_iff mem_eps_view_def mem_client_Get world7_def)
  from updateForwarderRules_publishes [OF mem_api_laws map_libs_laws mem_answers mem_pods_answers
      mem_inputs_quiet n run_updateForwarderRules get] stored
  obtain z where z: "map_of (mem_fwds (world7\<lparr>mem_fwds := [(es1_key, published_forwarder)]\<rparr>)) =
      (map_of (mem_fwds world7))(es1_key \<mapsto> z)"
    and rules: "map strip (fwd_EgressRules (fwd_Spec z)) = egress_spec map_libs test_es (mem_eps_view world7)"
    and gen: "fwd_RuleGeneration (fwd_Status z) = fwd_RuleGeneration (fwd_Status old_forwarder) + 1 \<and>
       fwd_SyncGeneration (fwd_Status z) = fwd_SyncGeneration (fwd_Status old_forwarder)"
    and sync: "fwd_Conditions (fwd_Status z) ConditionRuleSyncing = Some ConditionUnknown" by blast
  from gen have "fwd_RuleGeneration (fwd_Status z) = 8" by (simp add: old_forwarder_def)
  with run_updateForwarderRules sync z rules show ?thesis unfolding eps by (metis fun_upd_same)
qed

section \<open>Gateways\<close>

definition gw_world :: "test_conds mem" where
  "gw_world = test_world\<lparr>mem_fwds := [(es1_key, published_forwarder)], mem_gws := [(gw1_key, old_gateway)]\<rparr>"

definition gw_spec1 :: gateway_spec where
  "gw_spec1 = \<lparr>gw_EgressRules = [gatewayRule published_forwarder (test_egress_rule ''2049'')],
     gw_IngressRules = [gatewayRule published_forwarder (test_ingress_rule ''2049'')],
     gw_GatewayIP = dotted 192 168 122 200\<rparr>"

definition published_gateway :: "gateway_spec \<Rightarrow> test_conds gateway" where
  "published_gateway spec = \<lparr>gw_Meta = (meta ''external-services'' ''gwrulec0a87ac8'')\<lparr>m_ResourceVersion := ''vvv''\<rparr>, gw_Spec = spec,
     gw_Status = \<lparr>gw_Conditions = [ConditionRuleUpdating \<mapsto> ConditionFalse,
                                    ConditionRuleSyncing \<mapsto> ConditionUnknown],
                  gw_RuleGeneration = 8, gw_SyncGeneration = 7\<rparr>\<rparr>"

definition gw_updating :: "string \<Rightarrow> gateway_spec \<Rightarrow> test_conds gateway" where
  "gw_updating rv spec = old_gateway\<lparr>gw_Meta := (gw_Meta old_gateway)\<lparr>m_ResourceVersion := rv\<rparr>,
     gw_Spec := spec, gw_Status := (gw_Status old_gateway)
     \<lparr>gw_Conditions := [ConditionRuleUpdating \<mapsto> ConditionTrue, ConditionRuleSyncing \<mapsto> ConditionFalse]\<rparr>\<rparr>"

lemma gw_updating_simps:
  "gw_key (gw_updating rv spec) = gw1_key" "gw_key old_gateway = gw1_key"
  "meta_key (gw_Meta (gw_updating rv spec)) = gw1_key" "meta_key (gw_Meta old_gateway) = gw1_key"
  "m_ResourceVersion (gw_Meta (gw_updating rv spec)) = rv"
  "next_version (gw_Meta (gw_updating rv spec)) = CHR ''v'' # rv"
  "put_gw_status rv' (gw_updating rv s) (gw_updating rv spec) = gw_updating rv' spec"
  "(gw_updating rv s)\<lparr>gw_Spec := spec\<rparr> = gw_updating rv spec"
  by (simp_all add: gw_updating_def gw_key_def gw1_key_def old_gateway_def put_gw_status_def
      meta_key_def next_version_def)

lemma run_gw_begin:
  "mem_gws w = [(gw1_key, old_gateway)] \<Longrightarrow>
   gwBeginUpdate map_libs (mem_client []) old_gateway w =
     (Inr (gw_updating ''v'' (gw_Spec old_gateway)), w\<lparr>mem_gws := [(gw1_key, gw_updating ''v'' (gw_Spec old_gateway))]\<rparr>)"
  by (simp add: run_simps old_gateway_def gw1_key_def fun_upd_twist gw_updating_def Let_def)

lemma run_gw_end:
  "mem_gws w = [(gw1_key, gw_updating ''vv'' spec)] \<Longrightarrow>
   gwEndUpdate map_libs (mem_client []) (gw_updating ''vv'' spec) w =
     (Inr (), w\<lparr>mem_gws := [(gw1_key, published_gateway spec)]\<rparr>)"
  by (simp add: run_simps published_gateway_def old_gateway_def gw1_key_def fun_upd_twist
      gw_updating_def Let_def)

lemma run_oneGateway:
  assumes "mem_gws w = [(gw1_key, old_gateway)]"
  shows "updateRulesForOneGateway map_libs (mem_client []) fwds old_gateway ip w =
    (Inr (), w\<lparr>mem_gws := [(gw1_key, published_gateway
        \<lparr>gw_EgressRules = genGatewayEgressRules fwds old_gateway,
         gw_IngressRules = genGatewayIngressRules fwds old_gateway, gw_GatewayIP = ip\<rparr>)]\<rparr>)"
proof -
  have "genGatewayEgressRules fwds (gw_updating rv s) = genGatewayEgressRules fwds old_gateway"
    "genGatewayIngressRules fwds (gw_updating rv s) = genGatewayIngressRules fwds old_gateway" for rv s
    by (rule gateway_rules_cong, simp add: gw_updating_simps)+
  then show ?thesis
    by (simp add: updateRulesForOneGateway_def io_eval run_gw_begin [OF assms] gw_updating_simps
        mem_client_sel(5) mem_resource_eval run_gw_end)
qed

lemma gen_gateway1:
  "genGatewayEgressRules [published_forwarder] old_gateway =
     [gatewayRule published_forwarder (test_egress_rule ''2049'')]"
  "genGatewayIngressRules [published_forwarder] old_gateway =
     [gatewayRule published_forwarder (test_ingress_rule ''2049'')]"
  by (simp_all add: genGatewayEgressRules_def genGatewayIngressRules_def forGateway_def
      published_forwarder_def old_gateway_def test_egress_rule_def test_ingress_rule_def)

theorem updateRulesForOneGateway_publishes_witness:
  "\<exists>z w'. updateRulesForOneGateway map_libs (mem_client []) [published_forwarder] old_gateway
        (dotted 192 168 122 200) gw_world = (Inr (), w') \<and>
     map_of (mem_gws w') gw1_key = Some z \<and> gw_RuleGeneration (gw_Status z) = 8 \<and>
     gw_EgressRules (gw_Spec z) = [gatewayRule published_forwarder (test_egress_rule ''2049'')]"
proof -
  have w: "mem_gws gw_world = [(gw1_key, old_gateway)]" by (simp add: gw_world_def)
  note run = run_oneGateway [OF w, of "[published_forwarder]" "dotted 192 168 122 200"]
  from updateRulesForOneGateway_publishes [OF mem_api_laws map_libs_laws run]
  obtain z where "map_of (mem_gws (gw_world\<lparr>mem_gws := [(gw1_key, published_gateway
        \<lparr>gw_EgressRules = genGatewayEgressRules [published_forwarder] old_gateway,
         gw_IngressRules = genGatewayIngressRules [published_forwarder] old_gateway,
         gw_GatewayIP = dotted 192 168 122 200\<rparr>)]\<rparr>)) =
      (map_of (mem_gws gw_world))(gw_key old_gateway \<mapsto> z)"
    and spec: "gw_EgressRules (gw_Spec z) = genGatewayEgressRules [published_forwarder] old_gateway"
    and gen: "map_of (mem_gws gw_world) (gw_key old_gateway) = Some old_gateway \<longrightarrow>
      gw_RuleGeneration (gw_Status z) = gw_RuleGeneration (gw_Status old_gateway) + 1 \<and>
      gw_SyncGeneration (gw_Status z) = gw_SyncGeneration (gw_Status old_gateway)" by blast
  moreover from gen have "gw_RuleGeneration (gw_Status z) = 8"
    by (simp add: w gw_updating_simps) (simp add: old_gateway_def)
  ultimately show ?thesis using run unfolding gw_updating_simps gen_gateway1 by (metis fun_upd_same)
qed

lemma test_n: "\<lparr>nn_Namespace = ConnectorNamespace, nn_Name = m_Name (es_Meta test_es)\<rparr> = es1_key"
  by (simp add: es1_key_def ConnectorNamespace_def)

lemma get_published:
  "mem_fwds w = [(es1_key, published_forwarder)] \<Longrightarrow>
     res_Get (cl_Forwarders (mem_client [])) es1_key w = (Inr published_forwarder, w) \<and>
     res_List (cl_Forwarders (mem_client [])) w = (Inr [published_forwarder], w)"
  by (simp add: mem_client_sel mem_resource_eval published_forwarder_def es1_key_def fwd_key_def)

lemma test_unique:
  "getUniqueGatwey (fwd_IngressRules (fwd_Spec published_forwarder)) = [(dotted 192 168 122 200, gw1_key)]"
  by (simp add: getUniqueGatwey_def published_forwarder_def test_ingress_rule_def gw1_key_def gset_def)

lemma run_updateGatewayRules:
  "updateGatewayRules map_libs rev (mem_client []) test_es gw_world =
     (Inr (), gw_world\<lparr>mem_gws := [(gw1_key, published_gateway gw_spec1)]\<rparr>)"
proof -
  have get: "res_Get (cl_Gateways (mem_client [])) gw1_key gw_world = (Inr old_gateway, gw_world)"
    by (simp add: mem_client_sel mem_resource_eval gw_world_def gw_updating_simps)
  have range: "grange rev [(dotted 192 168 122 200, gw1_key)] = [(dotted 192 168 122 200, gw1_key)]"
    by (simp add: grange_def gkeys_def)
  have w: "mem_gws gw_world = [(gw1_key, old_gateway)]" by (simp add: gw_world_def)
  have "updateGateway map_libs (mem_client []) [published_forwarder] (dotted 192 168 122 200, gw1_key)
      gw_world = (Inr (), gw_world\<lparr>mem_gws := [(gw1_key, published_gateway gw_spec1)]\<rparr>)"
    by (simp add: updateGateway_def io_eval get run_oneGateway [OF w] gen_gateway1 gw_spec1_def)
  moreover have "mem_fwds gw_world = [(es1_key, published_forwarder)]" by (simp add: gw_world_def)
  ultimately show ?thesis
    unfolding updateGatewayRules_def test_n
    by (simp add: io_eval get_published test_unique range)
qed

theorem updateGatewayRules_publishes_witness:
  "\<exists>z w'. updateGatewayRules map_libs rev (mem_client []) test_es gw_world = (Inr (), w') \<and>
     map_of (mem_gws w') gw1_key = Some z \<and> holds_rules [published_forwarder] gw1_key z \<and>
     gw_GatewayIP (gw_Spec z) = dotted 192 168 122 200"
proof -
  have f: "mem_fwds gw_world = [(es1_key, published_forwarder)]" by (simp add: gw_world_def)
  have rules: "[test_ingress_rule ''2049''] = fwd_IngressRules (fwd_Spec published_forwarder)"
    by (simp add: published_forwarder_def)
  have name: "rule_gateway (test_ingress_rule ''2049'') = gw1_key"
    and ip: "fr_GatewayIP (test_ingress_rule ''2049'') = dotted 192 168 122 200"
    by (simp_all add: rule_gateway_def test_ingress_rule_def gw1_key_def)
  from updateGatewayRules_publishes [OF mem_api_laws map_libs_laws range_order_rev
      run_updateGatewayRules, unfolded test_n, OF get_published [OF f, THEN conjunct1]
      get_published [OF f, THEN conjunct2] rules]
  have "\<exists>z. map_of (mem_gws (gw_world\<lparr>mem_gws := [(gw1_key, published_gateway gw_spec1)]\<rparr>))
        (rule_gateway (test_ingress_rule ''2049'')) = Some z \<and>
      holds_rules [published_forwarder] (rule_gateway (test_ingress_rule ''2049'')) z \<and>
      gw_GatewayIP (gw_Spec z) = fr_GatewayIP (test_ingress_rule ''2049'')" by (auto simp: name)
  with run_updateGatewayRules show ?thesis unfolding name ip by blast
qed

section \<open>Deletion\<close>

definition deleted_es :: external_service where
  "deleted_es = test_es\<lparr>es_Meta := (meta ''ns1'' ''es1'')
     \<lparr>m_Finalizers := [ExternalServiceFinalizerName], m_DeletionTimestamp := Some 1\<rparr>\<rparr>"

definition es_key :: nsname where
  "es_key = \<lparr>nn_Namespace = ''ns1'', nn_Name = ''es1''\<rparr>"

text \<open>The pod, the service and the forwarder are there; the gateway has a rule of the forwarder.\<close>

definition del_world :: "test_conds mem" where
  "del_world = test_world\<lparr>mem_ess := [(es_key, deleted_es)],
     mem_fwds := [(es1_key, published_forwarder)], mem_gws := [(gw1_key, old_gateway)]\<rparr>"

definition empty_spec :: gateway_spec where
  "empty_spec = \<lparr>gw_EgressRules = [], gw_IngressRules = [], gw_GatewayIP = dotted 192 168 122 200\<rparr>"

lemma deleted_n: "\<lparr>nn_Namespace = ConnectorNamespace, nn_Name = m_Name (es_Meta deleted_es)\<rparr> = es1_key"
  by (simp add: es1_key_def ConnectorNamespace_def deleted_es_def)

lemma run_delete:
  "deleteResourceForExternalService map_libs (mem_client []) deleted_es del_world =
     (Inr (), del_world\<lparr>mem_pods := [], mem_fwds := [], mem_gws := [(gw1_key, published_gateway empty_spec)]\<rparr>)"
proof -
  let ?w = "del_world\<lparr>mem_pods := [], mem_fwds := []\<rparr>"
  have pod: "deleteIfExists (cl_Pods (mem_client [])) es1_key del_world = (Inr (), del_world\<lparr>mem_pods := []\<rparr>)"
    by (simp add: deleteIfExists_def io_eval mem_client_sel mem_resource_eval del_world_def
        test_world_def test_pod_def es1_key_def meta_key_def)
  have svc: "deleteIfExists (cl_Services (mem_client [])) es1_key (del_world\<lparr>mem_pods := []\<rparr>) =
      (Inr (), del_world\<lparr>mem_pods := []\<rparr>)"
    by (simp add: deleteIfExists_def io_eval mem_client_sel mem_resource_eval del_world_def
        test_world_def test_svc_def es1_key_def)
  have fwd: "deleteIfExists (cl_Forwarders (mem_client [])) es1_key (del_world\<lparr>mem_pods := []\<rparr>) =
      (Inr (), ?w)"
    by (simp add: deleteIfExists_def io_eval mem_client_sel mem_resource_eval del_world_def
        published_forwarder_def es1_key_def fwd_key_def)
  have lists: "res_List (cl_Forwarders (mem_client [])) ?w = (Inr [], ?w)"
    "res_List (cl_Gateways (mem_client [])) ?w = (Inr [old_gateway], ?w)"
    by (simp_all add: mem_client_sel mem_resource_eval del_world_def gw_updating_simps)
  have w: "mem_gws ?w = [(gw1_key, old_gateway)]" by (simp add: del_world_def)
  have "genGatewayEgressRules [] old_gateway = []" "genGatewayIngressRules [] old_gateway = []"
    "gw_GatewayIP (gw_Spec old_gateway) = dotted 192 168 122 200"
    by (simp_all add: genGatewayEgressRules_def genGatewayIngressRules_def old_gateway_def)
  then have one: "updateRulesForOneGateway map_libs (mem_client []) [] old_gateway
      (gw_GatewayIP (gw_Spec old_gateway)) ?w =
      (Inr (), ?w\<lparr>mem_gws := [(gw1_key, published_gateway empty_spec)]\<rparr>)"
    using run_oneGateway [OF w, of "[]" "dotted 192 168 122 200"] by (simp add: empty_spec_def)
  show ?thesis
    unfolding deleteResourceForExternalService_def Let_def deleted_n
    by (simp add: io_eval pod svc fwd lists one)
qed

lemma mem_lists:
  "lists_stored (\<lambda>w. map_of (mem_fwds w)) fwd_key (cl_Forwarders (mem_client ip))"
  "lists_stored (\<lambda>w. map_of (mem_gws w)) gw_key (cl_Gateways (mem_client ip))"
  "deletes (\<lambda>w. map_of (mem_fwds w)) fwd_key (cl_Forwarders (mem_client ip))"
  by (simp_all add: mem_client_sel fwd_key_def [abs_def] gw_key_def [abs_def] mem_lists_stored mem_deletes)

text \<open>A second Forwarder remains: its rules are what the gateway holds in the end.\<close>

definition es2_key :: nsname where
  "es2_key = \<lparr>nn_Namespace = ''external-services'', nn_Name = ''es2''\<rparr>"

definition remaining_forwarder :: "test_conds forwarder" where
  "remaining_forwarder = published_forwarder\<lparr>fwd_Meta := meta ''external-services'' ''es2''\<rparr>"

definition del2_world :: "test_conds mem" where
  "del2_world = del_world\<lparr>mem_fwds := [(es1_key, published_forwarder), (es2_key, remaining_forwarder)]\<rparr>"

lemma remaining_simps:
  "fwd_key remaining_forwarder = es2_key" "fwd_key published_forwarder = es1_key" "es2_key \<noteq> es1_key"
  "m_Name (fwd_Meta remaining_forwarder) = ''es2''"
  by (simp_all add: remaining_forwarder_def published_forwarder_def fwd_key_def es1_key_def es2_key_def meta_key_def)

lemma run_delete2:
  "deleteResourceForExternalService map_libs (mem_client []) deleted_es del2_world =
     (Inr (), del2_world\<lparr>mem_pods := [], mem_fwds := [(es2_key, remaining_forwarder)],
        mem_gws := [(gw1_key, published_gateway
          \<lparr>gw_EgressRules = genGatewayEgressRules [remaining_forwarder] old_gateway,
           gw_IngressRules = genGatewayIngressRules [remaining_forwarder] old_gateway,
           gw_GatewayIP = dotted 192 168 122 200\<rparr>)]\<rparr>)"
proof -
  let ?w = "del2_world\<lparr>mem_pods := [], mem_fwds := [(es2_key, remaining_forwarder)]\<rparr>"
  have pod: "deleteIfExists (cl_Pods (mem_client [])) es1_key del2_world = (Inr (), del2_world\<lparr>mem_pods := []\<rparr>)"
    by (simp add: deleteIfExists_def io_eval mem_client_sel mem_resource_eval del2_world_def del_world_def
        test_world_def test_pod_def es1_key_def meta_key_def)
  have svc: "deleteIfExists (cl_Services (mem_client [])) es1_key (del2_world\<lparr>mem_pods := []\<rparr>) =
      (Inr (), del2_world\<lparr>mem_pods := []\<rparr>)"
    by (simp add: deleteIfExists_def io_eval mem_client_sel mem_resource_eval del2_world_def del_world_def
        test_world_def test_svc_def es1_key_def)
  have fwd: "deleteIfExists (cl_Forwarders (mem_client [])) es1_key (del2_world\<lparr>mem_pods := []\<rparr>) =
      (Inr (), ?w)"
    using remaining_simps(2,3)
    by (simp add: deleteIfExists_def io_eval mem_client_sel mem_resource_eval del2_world_def fwd_key_def)
  have lists: "res_List (cl_Forwarders (mem_client [])) ?w = (Inr [remaining_forwarder], ?w)"
    "res_List (cl_Gateways (mem_client [])) ?w = (Inr [old_gateway], ?w)"
    using remaining_simps(1)
    by (simp_all add: mem_client_sel mem_resource_eval del2_world_def del_world_def fwd_key_def gw_updating_simps)
  have w: "mem_gws ?w = [(gw1_key, old_gateway)]" by (simp add: del2_world_def del_world_def)
  have ip: "gw_GatewayIP (gw_Spec old_gateway) = dotted 192 168 122 200" by (simp add: old_gateway_def)
  have other: "m_Name (es_Meta deleted_es) \<noteq> m_Name (fwd_Meta remaining_forwarder)"
    by (simp add: remaining_simps deleted_es_def)
  note one = run_oneGateway [OF w, of "[remaining_forwarder]" "dotted 192 168 122 200"]
  show ?thesis
    unfolding deleteResourceForExternalService_def Let_def deleted_n
    by (simp add: io_eval pod svc fwd lists one ip other [symmetric])
qed

theorem delete_cleans_gateways_witness:
  "\<exists>z w'. deleteResourceForExternalService map_libs (mem_client []) deleted_es del2_world = (Inr (), w') \<and>
     map_of (mem_fwds w') es1_key = None \<and> map_of (mem_fwds w') es2_key = Some remaining_forwarder \<and>
     map_of (mem_gws w') gw1_key = Some z \<and> holds_rules [remaining_forwarder] gw1_key z \<and>
     gw_RuleGeneration (gw_Status z) = 8"
proof -
  let ?w = "snd (deleteResourceForExternalService map_libs (mem_client []) deleted_es del2_world)"
  have run: "deleteResourceForExternalService map_libs (mem_client []) deleted_es del2_world = (Inr (), ?w)"
    by (simp add: run_delete2)
  have fkeyed: "fwd_key x = k" if "map_of (mem_fwds del2_world) k = Some x" for k x
    using that remaining_simps by (simp add: del2_world_def split: if_splits)
  have gkeyed: "gw_key z = k" if "map_of (mem_gws del2_world) k = Some z" for k z
    using that by (simp add: del2_world_def del_world_def gw_updating_simps split: if_splits)
  have gw: "map_of (mem_gws del2_world) gw1_key = Some old_gateway"
    by (simp add: del2_world_def del_world_def)
  note clean = delete_cleans_gateways [OF mem_api_laws map_libs_laws mem_lists fkeyed gkeyed
      deleted_n [symmetric] run]
  then obtain fwds where fv: "map_of (mem_fwds ?w) = (map_of (mem_fwds del2_world))(es1_key := None)"
    and fwds: "distinct (map fwd_key fwds)" "set fwds = ran (map_of (mem_fwds ?w))"
    and all: "\<And>k. case map_of (mem_gws del2_world) k of None \<Rightarrow> map_of (mem_gws ?w) k = None
       | Some gw \<Rightarrow> \<exists>z. map_of (mem_gws ?w) k = Some z \<and> holds_rules fwds k z \<and>
           gw_GatewayIP (gw_Spec z) = gw_GatewayIP (gw_Spec gw) \<and>
           gw_Conditions (gw_Status z) ConditionRuleUpdating = Some ConditionFalse \<and>
           gw_Conditions (gw_Status z) ConditionRuleSyncing = Some ConditionUnknown \<and>
           gw_RuleGeneration (gw_Status z) = gw_RuleGeneration (gw_Status gw) + 1 \<and>
           gw_SyncGeneration (gw_Status z) = gw_SyncGeneration (gw_Status gw)" by blast
  have left: "map_of (mem_fwds ?w) = [es2_key \<mapsto> remaining_forwarder]"
    unfolding fv using remaining_simps(3) by (auto simp: del2_world_def fun_eq_iff)
  then have "set fwds = {remaining_forwarder}" using fwds(2) by (simp add: ran_def)
  moreover from fwds(1) have "distinct fwds" by (simp add: distinct_map)
  ultimately have "fwds = [remaining_forwarder]" by (cases fwds; cases "tl fwds") auto
  with all [of gw1_key] gw obtain z where z: "map_of (mem_gws ?w) gw1_key = Some z"
    "holds_rules [remaining_forwarder] gw1_key z"
    "gw_RuleGeneration (gw_Status z) = gw_RuleGeneration (gw_Status old_gateway) + 1" by auto
  from z(3) have "gw_RuleGeneration (gw_Status z) = 8" by (simp add: old_gateway_def)
  moreover have "map_of (mem_fwds ?w) es1_key = None" "map_of (mem_fwds ?w) es2_key = Some remaining_forwarder"
    unfolding left using remaining_simps(3) by simp_all
  ultimately show ?thesis using run z(1,2) by blast
qed

theorem finalizer_kept_witness:
  "\<exists>x w'. Reconcile map_libs (\<lambda>_. rev) (\<lambda>_. rev) rev (mem_client []) es_key del_world = (Inr (), w') \<and>
     map_of (mem_ess w') es_key = Some x \<and> m_Finalizers (es_Meta x) = [] \<and>
     map_of (mem_gws w') gw1_key = Some (published_gateway empty_spec)"
proof -
  have quiet: "only_es_writes mem_ess (mem_client [])"
    by (simp add: only_es_writes_def mem_client_sel mem_reads_quiet mem_writes_quiet)
  have get: "res_Get (cl_ExternalServices (mem_client [])) es_key del_world = (Inr deleted_es, del_world)"
    by (simp add: mem_client_sel mem_resource_eval del_world_def es_key_def deleted_es_def meta_key_def)
  have del: "m_DeletionTimestamp (es_Meta deleted_es) \<noteq> None" by (simp add: deleted_es_def)
  note kept = finalizer_kept [OF quiet get del, where L = map_libs and eo = "\<lambda>_. rev" and io = "\<lambda>_. rev" and go = rev]
  have "\<exists>w'. Reconcile map_libs (\<lambda>_. rev) (\<lambda>_. rev) rev (mem_client []) es_key del_world = (Inr (), w')"
    by (simp add: Reconcile_def io_eval get del run_delete)
       (simp add: mem_client_sel mem_resource_eval del_world_def es_key_def deleted_es_def meta_key_def ret_def)
  then obtain w' where run: "Reconcile map_libs (\<lambda>_. rev) (\<lambda>_. rev) rev (mem_client []) es_key del_world = (Inr (), w')"
    by blast
  from kept [THEN conjunct2] run obtain w2 x where
    "deleteResourceForExternalService map_libs (mem_client []) deleted_es del_world = (Inr (), w2)"
    and up: "res_Update (cl_ExternalServices (mem_client []))
        (deleted_es\<lparr>es_Meta := (es_Meta deleted_es)\<lparr>m_Finalizers := []\<rparr>\<rparr>) w2 = (Inr x, w')" by blast
  from this(1) have "w2 = del_world\<lparr>mem_pods := [], mem_fwds := [],
      mem_gws := [(gw1_key, published_gateway empty_spec)]\<rparr>" unfolding run_delete by simp
  note up [unfolded this]
  then have "map_of (mem_ess w') es_key = Some x \<and> m_Finalizers (es_Meta x) = [] \<and>
      map_of (mem_gws w') gw1_key = Some (published_gateway empty_spec)"
    by (auto simp: mem_client_sel mem_resource_eval del_world_def es_key_def deleted_es_def meta_key_def)
  with run show ?thesis by blast
qed

end
