(* ===== verification/AgentRuns.thy ===== *)
theory AgentRuns
  imports ForwarderAgent GatewayAgent OperatorRuns
begin

text \<open>
  Concrete runs of the two agents, as witnesses of their properties: an environment with an
  in-memory API server and in-memory iptables, on which the agents handle the Forwarder and the
  Gateway that the operator published in \<open>OperatorRuns\<close>.
\<close>

record env =
  env_fwds :: "(nsname \<times> test_conds forwarder) list"
  env_gws :: "(nsname \<times> test_conds gateway) list"
  env_tables :: "((string \<times> string) \<times> rule_spec list) list"

definition env_tv :: "env \<Rightarrow> tables" where
  "env_tv w = map_of (env_tables w)"

definition env_ipt :: "env iptables" where
  "env_ipt = mem_iptables env_tables (\<lambda>x w. w\<lparr>env_tables := x\<rparr>)"

definition fwdR :: "(env, test_conds forwarder) resource" where
  "fwdR = mem_resource env_fwds (\<lambda>x w. w\<lparr>env_fwds := x\<rparr>) fwd_Meta put_fwd_status id"

definition gwR :: "(env, test_conds gateway) resource" where
  "gwR = mem_resource env_gws (\<lambda>x w. w\<lparr>env_gws := x\<rparr>) gw_Meta put_gw_status id"

definition fwd_host :: "env host" where
  "fwd_host = \<lparr>h_ords = \<lambda>_. rev, h_ipt = env_ipt, h_tables = env_tv\<rparr>"

text \<open>Every dialled port is open.\<close>

definition gwh :: "(env, unit) gw_host" where
  "gwh = \<lparr>h_ords = \<lambda>_. rev, h_ipt = env_ipt, h_tables = env_tv,
           gh_dial = \<lambda>_. ret (Some ()), gh_close = \<lambda>_ w. w\<rparr>"

lemma host_sel [simp]:
  "h_ords fwd_host = (\<lambda>_. rev)" "h_ipt fwd_host = env_ipt" "h_tables fwd_host = env_tv"
  "h_ords gwh = (\<lambda>_. rev)" "h_ipt gwh = env_ipt" "h_tables gwh = env_tv"
  by (simp_all add: fwd_host_def gwh_def)

abbreviation fwd_view_of :: "env \<Rightarrow> nsname \<rightharpoonup> test_conds forwarder" where
  "fwd_view_of \<equiv> \<lambda>w. map_of (env_fwds w)"

abbreviation gw_view_of :: "env \<Rightarrow> nsname \<rightharpoonup> test_conds gateway" where
  "gw_view_of \<equiv> \<lambda>w. map_of (env_gws w)"

section \<open>The laws hold\<close>

lemma env_ipt_laws:
  "iptables_laws env_ipt env_tv" "iptables_works env_ipt env_tv" "iptables_answers env_ipt env_tv"
  "iptables_quiet fwd_view_of env_ipt" "iptables_quiet gw_view_of env_ipt"
proof -
  have tv: "env_tv = (\<lambda>w. map_of (env_tables w))" by (simp add: env_tv_def fun_eq_iff)
  show "iptables_laws env_ipt env_tv" unfolding tv env_ipt_def by (rule mem_iptables_laws) simp
  show "iptables_works env_ipt env_tv" unfolding tv env_ipt_def by (rule mem_iptables_works)
  show "iptables_answers env_ipt env_tv" unfolding tv env_ipt_def by (rule mem_iptables_answers)
  show "iptables_quiet fwd_view_of env_ipt" "iptables_quiet gw_view_of env_ipt"
    unfolding env_ipt_def by (rule mem_iptables_quiet; simp)+
qed

lemma hosts_ok:
  "host_laws fwd_host" "host_works fwd_host fwd_view_of" "gw_laws gwh" "gw_works gwh gw_view_of"
  by (simp_all add: host_laws_def host_works_def gw_laws_def gw_works_def env_ipt_laws dial_quiet_def
      sshd_open_def gwh_def ret_def quiet_def)

lemma fwdR_laws:
  "resource_laws fwd_view_of (\<lambda>x. meta_key (fwd_Meta x)) put_fwd_status fwdR"
  "versioned fwd_view_of fwd_Meta fwdR" "available fwd_view_of fwd_Meta fwdR"
  "writes_quiet env_tv fwdR" "reads_quiet env_tv fwdR"
  unfolding fwdR_def
  by (rule mem_resource_laws mem_versioned mem_available mem_writes_quiet mem_reads_quiet;
      simp add: put_status_meta env_tv_def)+

lemma gwR_laws:
  "resource_laws gw_view_of (\<lambda>x. meta_key (gw_Meta x)) put_gw_status gwR"
  "versioned gw_view_of gw_Meta gwR" "available gw_view_of gw_Meta gwR"
  "writes_quiet env_tv gwR" "reads_quiet env_tv gwR"
  unfolding gwR_def
  by (rule mem_resource_laws mem_versioned mem_available mem_writes_quiet mem_reads_quiet;
      simp add: put_status_meta env_tv_def)+

lemma env_servers:
  "fwd_agent.server_laws fwd_view_of fwd_host fwdR" "gw_agent.server_laws gw_view_of gwh gwR"
  by (simp_all add: fwd_agent.server_laws_def gw_agent.server_laws_def fwdR_laws gwR_laws hosts_ok)

section \<open>The forwarder's agent\<close>

definition env0 :: env where
  "env0 = \<lparr>env_fwds = [(es1_key, published_forwarder)],
           env_gws = [(gw1_key, published_gateway gw_spec1)],
           env_tables = [((TableNAT, ChainPrerouting), []), ((TableNAT, ChainPostrouting), [])]\<rparr>"

definition fwd0 :: "env fwd_agent" where
  "fwd0 = \<lparr>ag_own = (NewReconciler ''external-services'' ''es1'', newGoroutines), ag_env = env0\<rparr>"

lemma fwd0_ok: "tunnels_ok (ag_f fwd0) (ag_go fwd0)" "fwd_mine (ag_own fwd0) ''external-services'' ''es1''"
  using reconciler_ok_new [of "''external-services''" "''es1''"]
  by (simp_all add: fwd0_def reconciler_ok_def fwd_mine_def NewReconciler_def)

lemma published_due:
  "fwd_needSync map_libs published_forwarder"
  "\<not> isTrueFor map_libs (fwd_Conditions (fwd_Status published_forwarder)) ConditionRuleSyncing"
  "meta_key (fwd_Meta published_forwarder) = \<lparr>nn_Namespace = ''external-services'', nn_Name = ''es1''\<rparr>"
  by (simp_all add: fwd_needSync_def published_forwarder_def map_libs_def)

lemma fwd0_stored:
  "fwd_view_of (ag_env fwd0) \<lparr>nn_Namespace = ''external-services'', nn_Name = ''es1''\<rparr> = Some published_forwarder"
  by (simp add: fwd0_def env0_def es1_key_def)

lemma fwd0_holds: "fwd_agent.holds fwd_view_of fwd_host ''external-services'' ''es1'' fwd0 published_forwarder"
  using fwd0_ok fwd0_stored published_due(3) by (simp add: fwd_agent.holds_def)

lemma published_not_yet: "sv_syncing (fwd_view (\<lambda>c. c) published_forwarder) \<noteq> Some ConditionTrue"
  by (simp add: fwd_view_def published_forwarder_def)

text \<open>What a Forwarder with the published spec looks like after the first pass.\<close>

lemma fwd_marked:
  "\<exists>s y. fwd_Reconcile map_libs (\<lambda>_. rev) fwdR env_ipt ''external-services'' ''es1'' fwd0 = (Inl Conflict, s) \<and>
     fwd_agent.holds fwd_view_of fwd_host ''external-services'' ''es1'' s y \<and>
     fwd_applied env_tv published_forwarder s \<and> fwd_needSync map_libs y \<and>
     sv_syncing (fwd_view (\<lambda>c. c) y) = Some ConditionTrue"
proof -
  from fwd_agent.pass_marks [OF map_libs_laws env_servers(1) fwd0_holds TrueI published_due(1) published_not_yet]
  obtain s y where
    "fwd_Reconcile map_libs (\<lambda>_. rev) fwdR env_ipt ''external-services'' ''es1'' fwd0 = (Inl Conflict, s)"
    "fwd_agent.holds fwd_view_of fwd_host ''external-services'' ''es1'' s y"
    "fwd_applied env_tv published_forwarder s"
    and v: "fwd_view (\<lambda>c. c) y = mark_syncing (fwd_view (\<lambda>c. c) published_forwarder)" by auto
  moreover have "fwd_needSync map_libs y"
    using published_due(1)
    by (auto simp: fwd_sync.needSync [OF map_libs_laws] v sync_due_def mark_syncing_def)
  ultimately show ?thesis by (auto simp: mark_syncing_def)
qed

theorem fwd_syncRule_applies_witness:
  "\<exists>s'. fwd_syncRule (\<lambda>_. rev) env_ipt published_forwarder fwd0 = (Inr (), s') \<and>
     fwd_applied env_tv published_forwarder s' \<and>
     (\<exists>s''. fwd_ruleSynced (\<lambda>_. rev) env_ipt published_forwarder s' = (Inr True, s''))"
proof -
  from fwd_agent.sync_live [OF hosts_ok(1,2) fwd0_ok(1) TrueI, of published_forwarder] obtain s' where
    run: "fwd_syncRule (\<lambda>_. rev) env_ipt published_forwarder fwd0 = (Inr (), s')" by auto
  from fwd_syncRule_applies [of "\<lambda>_. rev", OF range_order_rev env_ipt_laws(1) fwd0_ok(1),
      THEN conjunct2, rule_format, OF run] env_ipt_laws(3) run
  show ?thesis by blast
qed

theorem egress_rule_has_tunnel_witness:
  "\<exists>s' t. fwd_syncRule (\<lambda>_. rev) env_ipt published_forwarder fwd0 = (Inr (), s') \<and>
     t \<in> ran (map_of (f_tunnels (ag_f s'))) \<and> tun_local t = ''10.0.0.3:2049''"
proof -
  from fwd_agent.sync_live [OF hosts_ok(1,2) fwd0_ok(1) TrueI, of published_forwarder] obtain s' where
    run: "fwd_syncRule (\<lambda>_. rev) env_ipt published_forwarder fwd0 = (Inr (), s')" by auto
  have r: "test_egress_rule ''2049'' \<in> set (fwd_EgressRules (fwd_Spec published_forwarder))"
    by (simp add: published_forwarder_def)
  have "\<forall>x \<in> {fwd_ForwarderIP (fwd_Spec published_forwarder), fr_RelayPort (test_egress_rule ''2049''),
      fr_GatewayIP (test_egress_rule ''2049''), fr_DestinationIP (test_egress_rule ''2049''),
      fr_DestinationPort (test_egress_rule ''2049'')}. CHR '':'' \<notin> set x"
    by (simp add: published_forwarder_def test_egress_rule_def)
  from egress_rule_has_tunnel [of "\<lambda>_. rev", OF range_order_rev env_ipt_laws(1) fwd0_ok(1) run r this]
  obtain t where "t \<in> ran (map_of (f_tunnels (ag_f s')))"
    "tun_local t = fwd_ForwarderIP (fwd_Spec published_forwarder) @ '':'' @ fr_RelayPort (test_egress_rule ''2049'')"
    by blast
  then show ?thesis using run
    by (intro exI [of _ s'] exI [of _ t]) (simp add: published_forwarder_def test_egress_rule_def)
qed

theorem fwd_Reconcile_syncs_witness:
  "\<exists>s s' fwd. fwd_Reconcile map_libs (\<lambda>_. rev) fwdR env_ipt ''external-services'' ''es1'' s = (Inr (), s') \<and>
     fwd_needSync map_libs fwd \<and> fwd_applied env_tv fwd s'"
proof -
  from fwd_marked obtain s y where h: "fwd_agent.holds fwd_view_of fwd_host ''external-services'' ''es1'' s y"
    and due: "fwd_needSync map_libs y" and m: "sv_syncing (fwd_view (\<lambda>c. c) y) = Some ConditionTrue" by blast
  from fwd_agent.pass_finishes [OF map_libs_laws env_servers(1) h TrueI due m] obtain s' where
    run: "fwd_Reconcile map_libs (h_ords fwd_host) fwdR (h_ipt fwd_host) ''external-services'' ''es1'' s = (Inr (), s')"
    by auto
  from fwd_agent.read_stored [OF env_servers(1) h] obtain e where
    get: "res_Get fwdR \<lparr>nn_Namespace = ''external-services'', nn_Name = ''es1''\<rparr> (ag_env s) = (Inr y, e)" by blast
  have "writes_quiet (h_tables fwd_host) fwdR" "reads_quiet (h_tables fwd_host) fwdR"
    by (simp_all add: fwdR_laws)
  moreover have "tunnels_ok (ag_f s) (ag_go s)" "fwd_mine (ag_own s) ''external-services'' ''es1''"
    using h by (simp_all add: fwd_agent.holds_def)
  ultimately have "fwd_applied (h_tables fwd_host) y s'"
    using fwd_Reconcile_syncs [OF map_libs_laws fwdR_laws(1) hosts_ok(1) _ _ _ _ get due run] by blast
  with run due show ?thesis by auto
qed

theorem fwd_first_pass_fails_witness:
  "\<exists>err. fst (fwd_Reconcile map_libs (\<lambda>_. rev) fwdR env_ipt ''external-services'' ''es1'' fwd0) = Inl err"
proof -
  from fwd_agent.read_stored [OF env_servers(1) fwd0_holds] obtain e where
    "res_Get fwdR \<lparr>nn_Namespace = ''external-services'', nn_Name = ''es1''\<rparr> (ag_env fwd0) =
       (Inr published_forwarder, e)" by blast
  from fwd_first_pass_fails [OF map_libs_laws fwdR_laws(1,2) hosts_ok(2) fwd0_ok(2) this published_due(1,2)]
  show ?thesis by simp
qed

theorem fwd_agent_converges_witness:
  "\<exists>s1 s2 s3.
     fwd_Reconcile map_libs (\<lambda>_. rev) fwdR env_ipt ''external-services'' ''es1'' fwd0 = (Inl Conflict, s1) \<and>
     fwd_Reconcile map_libs (\<lambda>_. rev) fwdR env_ipt ''external-services'' ''es1'' s1 = (Inr (), s2) \<and>
     fwd_Reconcile map_libs (\<lambda>_. rev) fwdR env_ipt ''external-services'' ''es1'' s2 = (Inr (), s3) \<and>
     fwd_applied env_tv published_forwarder s3"
  using fwd_agent_converges [OF map_libs_laws fwdR_laws(1-3) _ _ hosts_ok(1,2) fwd0_ok published_due(3)
      fwd0_stored published_due(1,2)]
  by (simp add: fwdR_laws) blast

theorem fwd_reachable_tunnels_witness:
  "\<exists>s k t. fwd_reachable map_libs ''external-services'' ''es1'' (s :: env fwd_agent) \<and>
     map_of (f_tunnels (ag_f s)) k = Some t \<and> t \<in> set (go_forwards (ag_go s)) \<and>
     tun_context t \<notin> set (go_cancelled (ag_go s))"
proof -
  from fwd_marked obtain s where
    run: "fwd_Reconcile map_libs (\<lambda>_. rev) fwdR env_ipt ''external-services'' ''es1'' fwd0 = (Inl Conflict, s)"
    and ap: "fwd_applied env_tv published_forwarder s" by blast
  have "fwd_reachable map_libs ''external-services'' ''es1'' fwd0"
    unfolding fwd0_def by (rule fwd_reachable.start)
  from fwd_reachable.pass [OF this range_order_rev run, of "ag_env s"]
  have r: "fwd_reachable map_libs ''external-services'' ''es1'' s" by simp
  from ap have "egress_key published_forwarder (test_egress_rule ''2049'') \<in> dom (map_of (f_tunnels (ag_f s)))"
    by (simp add: fwd_applied_def published_forwarder_def)
  then obtain t where
    "map_of (f_tunnels (ag_f s)) (egress_key published_forwarder (test_egress_rule ''2049'')) = Some t" by blast
  with fwd_reachable_tunnels [OF r] r show ?thesis by blast
qed

section \<open>The gateway's agent\<close>

definition gw0 :: "env gw_agent" where
  "gw0 = \<lparr>ag_own = (gw_NewReconciler ''external-services'', []), ag_env = env0\<rparr>"

definition gw1 :: "test_conds gateway" where
  "gw1 = published_gateway gw_spec1"

definition gw2 :: "test_conds gateway" where
  "gw2 = published_gateway (gw_spec1\<lparr>gw_GatewayIP := dotted 192 168 122 201\<rparr>)"

definition no_gw :: "test_conds gateway" where
  "no_gw = published_gateway (gw_spec1\<lparr>gw_GatewayIP := ''nowhere''\<rparr>)"

lemma gw_ips:
  "gw_GatewayIP (gw_Spec gw1) = dotted 192 168 122 200" "gw_GatewayIP (gw_Spec gw2) = dotted 192 168 122 201"
  "gw_GatewayIP (gw_Spec no_gw) = ''nowhere''" "ipv4_of ''nowhere'' = None"
  by (simp_all add: gw1_def gw2_def no_gw_def published_gateway_def gw_spec1_def ipv4_of_def ParseIP_def)

lemma gw0_ok: "gw_ok env_tv gw0" "g_namespace (ag_g gw0) = ''external-services''" "sshds_ok (ag_own gw0)"
  by (simp_all add: gw_ok_def gw0_def gw_NewReconciler_def sshds_ok_def env_tv_def env0_def)

lemma gw1_due:
  "gw_needSync map_libs gw1"
  "\<not> isTrueFor map_libs (gw_Conditions (gw_Status gw1)) ConditionRuleSyncing"
  "meta_key (gw_Meta gw1) = \<lparr>nn_Namespace = ''external-services'', nn_Name = ''gwrulec0a87ac8''\<rparr>"
  "gw_view_of (ag_env gw0) \<lparr>nn_Namespace = ''external-services'', nn_Name = ''gwrulec0a87ac8''\<rparr> = Some gw1"
  by (simp_all add: gw_needSync_def gw1_def published_gateway_def map_libs_def gw0_def env0_def gw1_key_def)

lemma gw0_holds: "gw_agent.holds gw_view_of gwh ''external-services'' ''gwrulec0a87ac8'' gw0 gw1"
  using gw0_ok gw1_due(3,4) by (simp add: gw_agent.holds_def gw_mine_def)

lemma gw_sync_runs:
  fixes gw :: "test_conds gateway"
  assumes "gw_ok env_tv s" and "ipv4_of (gw_GatewayIP (gw_Spec gw)) \<noteq> None"
  shows "\<exists>s'. gw_syncRule (\<lambda>_. rev) env_ipt gw s = (Inr (), s') \<and> gw_applied env_tv gw s' \<and> gw_ok env_tv s'"
proof -
  from gw_agent.sync_live [OF hosts_ok(3,4), of s gw] assms obtain s' where
    run: "gw_syncRule (\<lambda>_. rev) env_ipt gw s = (Inr (), s')" by auto
  from gw_syncRule_lemma [of "\<lambda>_. rev", OF range_order_rev env_ipt_laws(1) assms(1) run] run
  show ?thesis by blast
qed

theorem gw_sync_isolated_witness:
  "\<exists>s s'. gw_syncRule (\<lambda>_. rev) env_ipt gw1 s = (Inr (), s') \<and>
     gw_applied env_tv gw1 s' \<and> gw_applied env_tv gw2 s'"
proof -
  from gw_sync_runs [OF gw0_ok(1), of gw2] obtain s where s: "gw_applied env_tv gw2 s" "gw_ok env_tv s"
    by (auto simp: gw_ips)
  from gw_sync_runs [OF s(2), of gw1] obtain s' where
    run: "gw_syncRule (\<lambda>_. rev) env_ipt gw1 s = (Inr (), s')" by (auto simp: gw_ips)
  have "ipv4_of (gw_GatewayIP (gw_Spec gw2)) \<noteq> ipv4_of (gw_GatewayIP (gw_Spec gw1))"
    by (simp add: gw_ips)
  from gw_sync_isolated [of "\<lambda>_. rev", OF range_order_rev env_ipt_laws(1) s(2) run s(1) this] run
  show ?thesis by blast
qed

theorem gw_invalid_address_witness:
  "\<exists>s'. gw_syncRule (\<lambda>_. rev) env_ipt no_gw gw0 = (Inl (InvalidIP ''nowhere''), s') \<and>
     sshd_running (ag_own s') ''nowhere''"
proof -
  have none: "ipv4_of (gw_GatewayIP (gw_Spec no_gw)) = None" by (simp add: gw_ips)
  have "GetHexIP ''nowhere'' = Inl (InvalidIP ''nowhere'')" by (simp add: GetHexIP_def ParseIP_def)
  with gw_invalid_address [OF none gw0_ok(3), of "\<lambda>_. rev" env_ipt] show ?thesis
    unfolding gw_ips by auto
qed

theorem gw_Reconcile_syncs_witness:
  "\<exists>s s' gw. gw_Reconcile map_libs (\<lambda>_. rev) gwR env_ipt (gh_dial gwh) (gh_close gwh)
       ''external-services'' ''gwrulec0a87ac8'' s = (Inr (), s') \<and>
     gw_needSync map_libs gw \<and> gw_applied env_tv gw s'"
proof -
  let ?ns = "''external-services''" and ?n = "''gwrulec0a87ac8''"
  have poss: "ipv4_of (gw_GatewayIP (gw_Spec gw1)) \<noteq> None" by (simp add: gw_ips)
  have "sv_syncing (gw_view (\<lambda>c. c) gw1) \<noteq> Some ConditionTrue"
    by (simp add: gw_view_def gw1_def published_gateway_def)
  from gw_agent.pass_marks [OF map_libs_laws env_servers(2) gw0_holds poss gw1_due(1) this]
  obtain s y where h: "gw_agent.holds gw_view_of gwh ?ns ?n s y" and sp: "gw_Spec y = gw_Spec gw1"
    and v: "gw_view (\<lambda>c. c) y = mark_syncing (gw_view (\<lambda>c. c) gw1)" by blast
  have due: "gw_needSync map_libs y"
    using gw1_due(1) by (auto simp: gw_sync.needSync [OF map_libs_laws] v sync_due_def mark_syncing_def)
  have m: "sv_syncing (gw_view (\<lambda>c. c) y) = Some ConditionTrue" by (simp add: v mark_syncing_def)
  have "ipv4_of (gw_GatewayIP (gw_Spec y)) \<noteq> None" using poss sp by simp
  from gw_agent.pass_finishes [OF map_libs_laws env_servers(2) h this due m] obtain s' where
    run: "gw_Reconcile map_libs (h_ords gwh) gwR (h_ipt gwh) (gh_dial gwh) (gh_close gwh) ?ns ?n s = (Inr (), s')"
    by blast
  from gw_agent.read_stored [OF env_servers(2) h] obtain e where
    get: "res_Get gwR \<lparr>nn_Namespace = ?ns, nn_Name = ?n\<rparr> (ag_env s) = (Inr y, e)" by blast
  have "writes_quiet (h_tables gwh) gwR" "reads_quiet (h_tables gwh) gwR" by (simp_all add: gwR_laws)
  moreover have "gw_ok (h_tables gwh) s" "g_namespace (ag_g s) = ?ns"
    using h by (simp_all add: gw_agent.holds_def gw_mine_def)
  ultimately have "gw_applied (h_tables gwh) y s'"
    using gw_Reconcile_syncs [OF map_libs_laws gwR_laws(1) hosts_ok(3) _ _ _ _ get due run] by blast
  with run due show ?thesis by auto
qed

theorem gw_agent_converges_witness:
  "\<exists>s1 s2 s3.
     gw_Reconcile map_libs (\<lambda>_. rev) gwR env_ipt (gh_dial gwh) (gh_close gwh)
       ''external-services'' ''gwrulec0a87ac8'' gw0 = (Inl Conflict, s1) \<and>
     gw_Reconcile map_libs (\<lambda>_. rev) gwR env_ipt (gh_dial gwh) (gh_close gwh)
       ''external-services'' ''gwrulec0a87ac8'' s1 = (Inr (), s2) \<and>
     gw_Reconcile map_libs (\<lambda>_. rev) gwR env_ipt (gh_dial gwh) (gh_close gwh)
       ''external-services'' ''gwrulec0a87ac8'' s2 = (Inr (), s3) \<and>
     gw_applied env_tv gw1 s3"
proof -
  have poss: "ipv4_of (gw_GatewayIP (gw_Spec gw1)) \<noteq> None" by (simp add: gw_ips)
  have q: "writes_quiet (h_tables gwh) gwR" "reads_quiet (h_tables gwh) gwR" by (simp_all add: gwR_laws)
  have ok: "gw_ok (h_tables gwh) gw0" by (simp add: gw0_ok)
  from gw_agent_converges [OF map_libs_laws gwR_laws(1-3) q hosts_ok(3,4) ok gw0_ok(2) gw1_due(3,4) poss
      gw1_due(1,2)]
  show ?thesis by (simp del: Product_Type.split_paired_Ex) blast
qed

end
