(* ===== verification/ControllerRuns.thy ===== *)
theory ControllerRuns
  imports AgentControllers AgentRuns
begin

text \<open>
  The controllers on an in-memory queue, as witnesses of the properties of \<open>Controller\<close> and
  \<open>AgentControllers\<close>. The objects of this controller are the keys of the resources.
\<close>

section \<open>A queue and a controller\<close>

type_synonym mem_queue = "string list \<times> bool"

definition mem_wq :: "mem_queue workqueue" where
  "mem_wq =
     \<lparr>wq_Add = \<lambda>k (ks, shut). if shut \<or> k \<in> set ks then (ks, shut) else (ks @ [k], shut),
      wq_Get = \<lambda>(ks, shut). case ks of [] \<Rightarrow> (OtherItem, shut, (ks, shut)) | k # ks \<Rightarrow> (KeyItem k, False, (ks, shut)),
      wq_Done = \<lambda>_ q. q,
      wq_Forget = \<lambda>_ q. q,
      wq_AddRateLimited = \<lambda>k (ks, shut). if shut \<or> k \<in> set ks then (ks, shut) else (ks @ [k], shut),
      wq_ShutDown = \<lambda>(ks, _). (ks, True)\<rparr>"

lemma mem_wq_eval [simp]:
  "wq_Add mem_wq k (ks, shut) = (if shut \<or> k \<in> set ks then (ks, shut) else (ks @ [k], shut))"
  "wq_Get mem_wq ([], shut) = (OtherItem, shut, ([], shut))"
  "wq_Get mem_wq (k # ks, shut) = (KeyItem k, False, (ks, shut))"
  "wq_Done mem_wq i q = q" "wq_Forget mem_wq i q = q"
  "wq_AddRateLimited mem_wq k (ks, shut) = (if shut \<or> k \<in> set ks then (ks, shut) else (ks @ [k], shut))"
  by (simp_all add: mem_wq_def)

lemma mem_wq_laws: "wq_laws mem_wq (\<lambda>q. set (fst q)) snd"
  unfolding wq_laws_def by (auto simp: mem_wq_def split: list.splits)

lemma mem_wq_hands_out: "hands_out mem_wq (\<lambda>q. set (fst q)) snd"
  unfolding hands_out_def
proof (intro allI impI)
  fix q :: mem_queue and k
  assume q: "\<not> snd q \<and> set (fst q) = {k}"
  obtain ks shut where "q = (ks, shut)" by (cases q)
  with q show "\<exists>q'. wq_Get mem_wq q = (KeyItem k, False, q')" by (cases ks) auto
qed

definition split_key :: "string \<Rightarrow> (string \<times> string) result" where
  "split_key k = (if CHR ''/'' \<in> set k
     then Inr (takeWhile (\<lambda>c. c \<noteq> CHR ''/'') k, tl (dropWhile (\<lambda>c. c \<noteq> CHR ''/'') k)) else Inr ([], k))"

definition mem_controller :: "(string \<Rightarrow> string \<Rightarrow> ('s, unit) io) \<Rightarrow> (nsname, mem_queue, 's) controller" where
  "mem_controller reconcile =
     \<lparr>c_workqueue = mem_wq, c_reconciler = reconcile,
      c_MetaNamespaceKeyFunc = \<lambda>n. if CHR ''/'' \<in> set (nn_Namespace n) then Inl (ApiError ''key'')
         else Inr (nn_Namespace n @ ''/'' @ nn_Name n),
      c_SplitMetaNamespaceKey = split_key,
      c_WaitForCacheSync = \<lambda>s. (True, s)\<rparr>"

lemma mem_controller_sel [simp]:
  "c_workqueue (mem_controller rec) = mem_wq" "c_reconciler (mem_controller rec) = rec"
  "c_SplitMetaNamespaceKey (mem_controller rec) = split_key"
  "c_WaitForCacheSync (mem_controller rec) s = (True, s)"
  by (simp_all add: mem_controller_def)

lemma split_joined: "CHR ''/'' \<notin> set a \<Longrightarrow> split_key (a @ CHR ''/'' # b) = Inr (a, b)"
  by (induction a) (auto simp: split_key_def)

lemma mem_key_laws: "key_laws (mem_controller rec) (\<lambda>n. (nn_Namespace n, nn_Name n))"
  unfolding key_laws_def by (auto simp: mem_controller_def split_joined)

abbreviation es1_item :: string where "es1_item \<equiv> ''external-services/es1''"
abbreviation gw1_item :: string where "gw1_item \<equiv> ''external-services/gwrulec0a87ac8''"

lemma test_items:
  "split_key es1_item = Inr (''external-services'', ''es1'')"
  "split_key gw1_item = Inr (''external-services'', ''gwrulec0a87ac8'')"
  by (simp_all add: split_key_def)

section \<open>Witnesses\<close>

text \<open>A reconciler that counts its calls and always fails.\<close>

definition failing :: "(nsname, mem_queue, nat) controller" where
  "failing = mem_controller (\<lambda>_ _ n. (Inl (ApiError ''down''), Suc n))"

lemma failing_sel [simp]:
  "c_workqueue failing = mem_wq" "c_SplitMetaNamespaceKey failing = split_key"
  "c_reconciler failing = (\<lambda>_ _ n. (Inl (ApiError ''down''), Suc n))"
  "c_MetaNamespaceKeyFunc failing es1_key = Inr es1_item"
  "c_WaitForCacheSync failing s = (True, s)"
  by (simp_all add: failing_def) (simp add: mem_controller_def es1_key_def)

lemma failing_laws: "wq_laws (c_workqueue failing) (\<lambda>q. set (fst q)) snd"
  by (simp add: mem_wq_laws)

definition ctl0 :: "(mem_queue, nat) ctl" where
  "ctl0 = \<lparr>ctl_queue = ([], False), ctl_world = 0\<rparr>"

lemma failing_run:
  "processNext failing (handleEvent failing (AddEvent es1_key) ctl0) =
     (True, \<lparr>ctl_queue = ([es1_item], False), ctl_world = 1\<rparr>)"
  by (simp add: handleEvent_def enqueue_def ctl0_def processNext_def processItem_def test_items)

theorem no_key_lost_witness:
  "\<exists>ph due st. (ctl_step failing)\<^sup>*\<^sup>* (Idle, {}, ctl0) (ph, due, st) \<and>
     es1_item \<in> due \<and> es1_item \<in> set (fst (ctl_queue st))"
proof -
  let ?due = "{} \<union> {k. \<exists>obj. (AddEvent es1_key = AddEvent obj \<or> (\<exists>old. AddEvent es1_key = UpdateEvent old obj) \<or>
      AddEvent es1_key = DeleteEvent obj) \<and> c_MetaNamespaceKeyFunc failing obj = Inr k}"
  have "ctl_step failing (Idle, {}, ctl0) (Idle, ?due, handleEvent failing (AddEvent es1_key) ctl0)"
    by (rule ctl_step.event)
  then have s: "(ctl_step failing)\<^sup>*\<^sup>* (Idle, {}, ctl0)
      (Idle, ?due, handleEvent failing (AddEvent es1_key) ctl0)" by blast
  have "\<not> snd (ctl_queue ctl0)" by (simp add: ctl0_def)
  from no_key_lost [OF failing_laws this s] have
    "?due \<subseteq> set (fst (ctl_queue (handleEvent failing (AddEvent es1_key) ctl0)))" .
  moreover have "es1_item \<in> ?due" by simp
  ultimately show ?thesis using s by blast
qed

theorem Run_never_returns_witness:
  "Run failing ctl0 = None \<and> ctl_world (snd (processNext failing (handleEvent failing (AddEvent es1_key) ctl0))) = 1"
  using Run_never_returns [OF failing_laws, of ctl0] failing_run by (simp add: ctl0_def)

theorem event_is_reconciled_witness:
  "es1_item \<in> set (fst (ctl_queue (handleEvent failing (AddEvent es1_key) ctl0))) \<and>
   (\<exists>st. processNext failing (handleEvent failing (AddEvent es1_key) ctl0) = (True, st) \<and>
      ctl_world st = 1 \<and> es1_item \<in> set (fst (ctl_queue st)))"
proof -
  let ?st = "handleEvent failing (AddEvent es1_key) ctl0"
  have laws: "key_laws failing (\<lambda>n. (nn_Namespace n, nn_Name n))" unfolding failing_def by (rule mem_key_laws)
  have start: "\<not> snd (ctl_queue ctl0)" by (simp add: ctl0_def)
  have k: "c_MetaNamespaceKeyFunc failing es1_key = Inr es1_item" by simp
  have st: "ctl_queue ?st = ([es1_item], False)" "ctl_world ?st = 0"
    by (simp_all add: handleEvent_def enqueue_def ctl0_def)
  have ev: "AddEvent es1_key = AddEvent es1_key \<or> (\<exists>old. AddEvent es1_key = UpdateEvent old es1_key) \<or>
      AddEvent es1_key = DeleteEvent es1_key" by simp
  note E = event_is_reconciled [OF failing_laws laws start ev k]
  from E [THEN conjunct2, THEN conjunct2, rule_format, of ?st "([], False)" "Inl (ApiError ''down'')" 1]
  have "\<exists>st. processNext failing ?st = (True, st) \<and> ctl_world st = 1 \<and> es1_item \<in> set (fst (ctl_queue st))"
    by (simp add: st)
  with E show ?thesis by blast
qed

section \<open>The operator, a controller and an agent\<close>

definition gw_ctl :: "(nsname, mem_queue, env gw_agent) controller" where
  "gw_ctl = mem_controller (gw_Reconcile map_libs (h_ords gwh) gwR (h_ipt gwh) (gh_dial gwh) (gh_close gwh))"

definition gw_start :: "(mem_queue, env gw_agent) ctl" where
  "gw_start = \<lparr>ctl_queue = ([gw1_item], False), ctl_world = gw0\<rparr>"

lemma gw1_generated:
  "gw1 = published_gateway
     \<lparr>gw_EgressRules = genGatewayEgressRules [published_forwarder] old_gateway,
      gw_IngressRules = genGatewayIngressRules [published_forwarder] old_gateway,
      gw_GatewayIP = dotted 192 168 122 200\<rparr>"
  by (simp add: gw1_def gw_spec1_def gen_gateway1)

theorem published_gateway_applied_witness:
  "\<exists>w' z st1 st2. updateRulesForOneGateway map_libs (mem_client []) [published_forwarder] old_gateway
      (dotted 192 168 122 200) gw_world = (Inr (), w') \<and>
     map_of (mem_gws w') gw1_key = Some z \<and>
     processNext gw_ctl gw_start = (True, st1) \<and> processNext gw_ctl st1 = (True, st2) \<and>
     gw_applied env_tv z (ctl_world st2)"
proof -
  have w: "mem_gws gw_world = [(gw1_key, old_gateway)]" by (simp add: gw_world_def)
  note run = run_oneGateway [OF w, of "[published_forwarder]" "dotted 192 168 122 200", folded gw1_generated]
  let ?w' = "gw_world\<lparr>mem_gws := [(gw1_key, gw1)]\<rparr>"
  have k: "gw_key old_gateway = gw1_key" by (simp add: gw_updating_simps)
  have keyed: "gw_key z = n" if "map_of (mem_gws ?w') n = Some z" for n z
    using that by (auto simp: gw_key_def gw1_key_def gw1_due(3) split: if_splits)
  have stored: "map_of (mem_gws gw_world) (gw_key old_gateway) = Some old_gateway" by (simp add: k w)
  have gens: "gw_RuleGeneration (gw_Status old_gateway) + 1 \<noteq> gw_SyncGeneration (gw_Status old_gateway)"
    by (simp add: old_gateway_def)
  have ip: "ipv4_of (dotted 192 168 122 200) \<noteq> None" by simp
  have view: "gw_view_of (ag_env (ctl_world gw_start)) = map_of (mem_gws ?w')"
    by (simp add: gw_start_def gw0_def env0_def gw1_def)
  have ok: "gw_ok (h_tables gwh) (ctl_world gw_start)"
    "g_namespace (ag_g (ctl_world gw_start)) = nn_Namespace (gw_key old_gateway)"
    unfolding k by (simp_all add: gw_start_def gw0_ok gw1_key_def)
  have c: "c_reconciler gw_ctl = gw_Reconcile map_libs (h_ords gwh) gwR (h_ipt gwh) (gh_dial gwh) (gh_close gwh)"
    by (simp add: gw_ctl_def)
  have on: "works_on gw_ctl (\<lambda>q. set (fst q)) snd gw1_item (gw_key old_gateway) (ctl_queue gw_start)"
    unfolding k
    by (simp add: works_on_def gw_ctl_def gw_start_def mem_wq_laws mem_wq_hands_out test_items gw1_key_def)
  from published_gateway_applied [OF mem_api_laws map_libs_laws run stored keyed gens ip env_servers(2) view ok c on]
  obtain st1 st2 z where "processNext gw_ctl gw_start = (True, st1)" "processNext gw_ctl st1 = (True, st2)"
    "map_of (mem_gws ?w') gw1_key = Some z" "gw_applied env_tv z (ctl_world st2)" unfolding k by auto
  with run show ?thesis by blast
qed

definition fwd_ctl :: "(nsname, mem_queue, env fwd_agent) controller" where
  "fwd_ctl = mem_controller (fwd_Reconcile map_libs (h_ords fwd_host) fwdR (h_ipt fwd_host))"

definition fwd_start :: "(mem_queue, env fwd_agent) ctl" where
  "fwd_start = \<lparr>ctl_queue = ([es1_item], False), ctl_world = fwd0\<rparr>"

theorem published_forwarder_applied_witness:
  "\<exists>w' z st1 st2. updateForwarderRules map_libs (\<lambda>_. rev) (\<lambda>_. rev) (mem_client []) test_es world7 = (Inr (), w') \<and>
     map_of (mem_fwds w') es1_key = Some z \<and>
     processNext fwd_ctl fwd_start = (True, st1) \<and> processNext fwd_ctl st1 = (True, st2) \<and>
     fwd_applied env_tv z (ctl_world st2)"
proof -
  let ?w' = "world7\<lparr>mem_fwds := [(es1_key, published_forwarder)]\<rparr>"
  have n: "es1_key = \<lparr>nn_Namespace = ConnectorNamespace, nn_Name = m_Name (es_Meta test_es)\<rparr>"
    by (simp add: es1_key_def ConnectorNamespace_def)
  have get: "res_Get (cl_Forwarders (mem_client [])) es1_key world7 = (Inr old_forwarder, world7)"
    by (simp add: mem_client_sel mem_resource_eval world7_def es1_key_def old_forwarder_def fwd_key_def)
  have stored: "map_of (mem_fwds world7) es1_key = Some old_forwarder" by (simp add: world7_def)
  have keyed: "meta_key (fwd_Meta z) = n" if "map_of (mem_fwds ?w') n = Some z" for n z
    using that by (auto simp: es1_key_def published_due(3) split: if_splits)
  have gens: "fwd_RuleGeneration (fwd_Status old_forwarder) + 1 \<noteq> fwd_SyncGeneration (fwd_Status old_forwarder)"
    by (simp add: old_forwarder_def)
  have view: "fwd_view_of (ag_env (ctl_world fwd_start)) = map_of (mem_fwds ?w')"
    by (simp add: fwd_start_def fwd0_def env0_def)
  have ok: "tunnels_ok (ag_f (ctl_world fwd_start)) (ag_go (ctl_world fwd_start))"
    "fwd_mine (ag_own (ctl_world fwd_start)) (nn_Namespace es1_key) (nn_Name es1_key)"
    using fwd0_ok by (simp_all add: fwd_start_def es1_key_def)
  have c: "c_reconciler fwd_ctl = fwd_Reconcile map_libs (h_ords fwd_host) fwdR (h_ipt fwd_host)"
    by (simp add: fwd_ctl_def)
  have on: "works_on fwd_ctl (\<lambda>q. set (fst q)) snd es1_item es1_key (ctl_queue fwd_start)"
    by (simp add: works_on_def fwd_ctl_def fwd_start_def mem_wq_laws mem_wq_hands_out test_items es1_key_def)
  from published_forwarder_applied [OF mem_api_laws map_libs_laws range_order_rev range_order_rev n
      run_updateForwarderRules get stored keyed gens env_servers(1) view ok c on]
  obtain st1 st2 z where "processNext fwd_ctl fwd_start = (True, st1)" "processNext fwd_ctl st1 = (True, st2)"
    "map_of (mem_fwds ?w') es1_key = Some z" "fwd_applied env_tv z (ctl_world st2)" by auto
  with run_updateForwarderRules show ?thesis by blast
qed

theorem foreign_forwarder_forgotten_witness:
  "processNext fwd_ctl \<lparr>ctl_queue = ([gw1_item], False), ctl_world = fwd0\<rparr> =
     (True, \<lparr>ctl_queue = ([], False), ctl_world = fwd0\<rparr>)"
proof -
  let ?st = "\<lparr>ctl_queue = ([gw1_item], False), ctl_world = fwd0\<rparr> :: (mem_queue, env fwd_agent) ctl"
  have c: "c_reconciler fwd_ctl = fwd_Reconcile map_libs (h_ords fwd_host) fwdR (h_ipt fwd_host)"
    by (simp add: fwd_ctl_def)
  have k: "c_SplitMetaNamespaceKey fwd_ctl gw1_item = Inr (''external-services'', ''gwrulec0a87ac8'')"
    by (simp add: fwd_ctl_def test_items)
  have get: "wq_Get (c_workqueue fwd_ctl) (ctl_queue ?st) = (KeyItem gw1_item, False, ([], False))"
    by (simp add: fwd_ctl_def)
  have "\<not> (f_namespace (ag_f (ctl_world ?st)) = ''external-services'' \<and>
      f_name (ag_f (ctl_world ?st)) = ''gwrulec0a87ac8'')"
    by (simp add: fwd0_def NewReconciler_def)
  from foreign_forwarder_forgotten [OF c k get this] show ?thesis by (simp add: fwd_ctl_def)
qed

text \<open>An API server without Gateways, and an agent with one ssh server.\<close>

definition no_gws :: "(env, test_conds gateway) resource" where
  "no_gws = gwR\<lparr>res_Get := \<lambda>_ w. (Inl NotFound, w)\<rparr>"

definition gone_ctl :: "(nsname, mem_queue, env gw_agent) controller" where
  "gone_ctl = mem_controller (gw_Reconcile map_libs (h_ords gwh) no_gws (h_ipt gwh) (gh_dial gwh) (gh_close gwh))"

theorem deleted_gateway_retried_witness:
  "\<exists>st ph due st'. sshd_running (ag_own (ctl_world st)) (dotted 192 168 122 200) \<and>
     (ctl_step gone_ctl)\<^sup>*\<^sup>* (Idle, {}, st) (ph, due, st') \<and>
     snd (processNext gone_ctl st) = st' \<and> gw1_item \<in> set (fst (ctl_queue st')) \<and>
     sshd_running (ag_own (ctl_world st')) (dotted 192 168 122 200)"
proof -
  let ?A = "{dotted 192 168 122 200}"
  from gw_sync_runs [OF gw0_ok(1), of gw1] obtain s where
    s: "gw_syncRule (\<lambda>_. rev) env_ipt gw1 gw0 = (Inr (), s)" "gw_applied env_tv gw1 s" by (auto simp: gw_ips)
  then have up: "\<forall>ip \<in> ?A. sshd_running (ag_own s) ip" by (simp add: gw_applied_def gw_ips)
  from gw_syncRule_lemma [of "\<lambda>_. rev", OF range_order_rev env_ipt_laws(1) gw0_ok(1) s(1)] have
    ns: "g_namespace (ag_g s) = ''external-services''" by (simp add: gw0_ok)
  let ?st = "\<lparr>ctl_queue = ([gw1_item], False), ctl_world = s\<rparr> :: (mem_queue, env gw_agent) ctl"
  have laws: "wq_laws (c_workqueue gone_ctl) (\<lambda>q. set (fst q)) snd" by (simp add: gone_ctl_def mem_wq_laws)
  have c: "c_reconciler gone_ctl = gw_Reconcile map_libs (h_ords gwh) no_gws (h_ipt gwh) (gh_dial gwh) (gh_close gwh)"
    by (simp add: gone_ctl_def)
  have k: "c_SplitMetaNamespaceKey gone_ctl gw1_item = Inr (''external-services'', ''gwrulec0a87ac8'')"
    by (simp add: gone_ctl_def test_items)
  from processNext_open [OF laws, of ?st] obtain st' where round: "processNext gone_ctl ?st = (True, st')" by auto
  from processNext_steps [OF round] obtain due where
    steps: "(ctl_step gone_ctl)\<^sup>*\<^sup>* (Idle, {}, ?st) (Idle, due, st')" by blast
  from deleted_gateway_retried [OF laws _ c k _ _ _ _ steps, where A = ?A] up ns
  have "gw1_item \<in> set (fst (ctl_queue st')) \<and> sshd_running (ag_own (ctl_world st')) (dotted 192 168 122 200)"
    by (simp add: no_gws_def)
  then show ?thesis using up steps round
    by (intro exI [of _ ?st] exI [of _ Idle] exI [of _ due] exI [of _ st']) simp
qed

end
