(* ===== verification/ClientRuns.thy ===== *)
theory ClientRuns
  imports TypedClients ControllerRuns
begin

text \<open>
  A REST server in front of a resource of the in-memory API server, and the agents' clients on
  it: the witnesses of \<open>TypedClients\<close>.
\<close>

definition answer :: "'a \<Rightarrow> ('w, 'a) io \<Rightarrow> ('w, 'a) goret" where
  "answer z m w = (case m w of (Inr x, w') \<Rightarrow> ((x, None), w') | (Inl e, w') \<Rightarrow> ((z, Some e), w'))"

lemma checked_answer [simp]: "checked (answer z m) = m"
  by (auto simp: checked_def answer_def fun_eq_iff split: prod.split sum.split)

text \<open>\<open>del\<close> deletes the object with a key. Nothing else is served.\<close>

definition rest_of ::
  "string \<Rightarrow> ('w, 'o) resource \<Rightarrow> (nsname \<Rightarrow> ('w, unit) io) \<Rightarrow> ('w, 'o, unit, unit) rest" where
  "rest_of kind R del =
     \<lparr>rest_Into = (\<lambda>verb cs z. answer z
        (if req_kind cs \<noteq> Some kind then fail NotFound
         else case (verb, req_ns cs, req_name cs, req_sub cs) of
             (Get, Some ns, Some n, []) \<Rightarrow> res_Get R \<lparr>nn_Namespace = ns, nn_Name = n\<rparr>
           | (Post, Some ns, None, []) \<Rightarrow>
               (case req_body cs of Some (ObjectBody x) \<Rightarrow> res_Create R x | _ \<Rightarrow> fail NotFound)
           | (Put, Some ns, Some n, sub) \<Rightarrow>
               (case req_body cs of
                  Some (ObjectBody x) \<Rightarrow>
                    if sub = [] then res_Update R x
                    else if sub = [''status''] then res_StatusUpdate R x else fail NotFound
                | _ \<Rightarrow> fail NotFound)
           | _ \<Rightarrow> fail NotFound)),
      rest_IntoList = (\<lambda>verb cs z. answer z
        (if req_kind cs = Some kind \<and> verb = Get \<and> req_ns cs = Some [] \<and> req_name cs = None
         then res_List R else fail NotFound)),
      rest_Error = (\<lambda>verb cs. answer ()
        (if req_kind cs \<noteq> Some kind then fail NotFound
         else case (verb, req_ns cs, req_name cs, req_sub cs) of
             (Delete, Some ns, Some n, []) \<Rightarrow> del \<lparr>nn_Namespace = ns, nn_Name = n\<rparr>
           | _ \<Rightarrow> fail NotFound)),
      rest_Watch = (\<lambda>verb cs. answer () (fail NotFound))\<rparr>"

lemma rest_of_serves:
  assumes "\<And>x. res_Delete R x = del (key x)"
  shows "rest_serves (rest_of kind R del) kind key R"
  unfolding rest_serves_def by (auto simp: rest_of_def assms)

text \<open>The environment's resources behind REST servers.\<close>

definition fwd_rest :: "(env, test_conds forwarder, unit, unit) rest" where
  "fwd_rest = rest_of ''forwarders'' fwdR
     (\<lambda>k. res_Delete fwdR (zero_forwarder map_libs\<lparr>fwd_Meta := meta (nn_Namespace k) (nn_Name k)\<rparr>))"

definition gw_rest :: "(env, test_conds gateway, unit, unit) rest" where
  "gw_rest = rest_of ''gateways'' gwR
     (\<lambda>k. res_Delete gwR (zero_gateway map_libs\<lparr>gw_Meta := meta (nn_Namespace k) (nn_Name k)\<rparr>))"

lemma env_rest_serves:
  "rest_serves fwd_rest ''forwarders'' fwd_key fwdR" "rest_serves gw_rest ''gateways'' gw_key gwR"
  unfolding fwd_rest_def gw_rest_def
  by (rule rest_of_serves; simp add: fwdR_def gwR_def mem_resource_def fwd_key_def gw_key_def fun_eq_iff
      zero_forwarder_def zero_gateway_def split: option.split)+

theorem typed_clients_serve_witness:
  "fwd_rest_resource map_libs fwd_rest () = fwdR \<and> gw_rest_resource map_libs gw_rest () = gwR \<and>
   res_Get (fwd_rest_resource map_libs fwd_rest ()) es1_key env0 = (Inr published_forwarder, env0)"
proof -
  from typed_clients_serve [OF env_rest_serves, of map_libs "()"] have
    eq: "fwd_rest_resource map_libs fwd_rest () = fwdR" "gw_rest_resource map_libs gw_rest () = gwR" by simp_all
  have "res_Get fwdR es1_key env0 = (Inr published_forwarder, env0)"
    using published_due(3)
    by (simp add: fwdR_def mem_resource_def env0_def es1_key_def)
  with eq show ?thesis by simp
qed

end
