(* ===== verification/Informers.thy ===== *)
theory Informers
  imports TypedClients
begin

text \<open>
  The generated informer factory (\<^verbatim>\<open>pkg/client/informers/externalversions\<close>), from which
  each agent takes its informer: it makes one informer for each type, and runs each once.

  The informers themselves are client-go's. \<open>'inf\<close> is the type of informers, and the function
  that makes one from its two calls, its resync period and its indexers is a parameter.
  \<^verbatim>\<open>reflect.TypeOf\<close> is the name of a type. The factory's methods hold its lock, so that
  each is one step.
\<close>

section \<open>The factory\<close>

type_synonym 'q tweak = "'q list_options \<Rightarrow> 'q list_options"

record ('cl, 'inf, 'q) factory =
  fc_client :: 'cl
  fc_namespace :: string
  fc_tweakListOptions :: "'q tweak option"
  fc_defaultResync :: "64 word"
  fc_customResync :: "64 word gomap"
  fc_informers :: "'inf gomap"
  fc_startedInformers :: "bool gomap"

text \<open>A factory, and the informers for which it started a goroutine, with their types.\<close>

type_synonym ('cl, 'inf, 'q) informers = "('cl, 'inf, 'q) factory \<times> (string \<times> 'inf) list"

text \<open>\<open>typeOf\<close> is \<^verbatim>\<open>reflect.TypeOf\<close>; the configuration is listed in the order of its range.\<close>

definition WithCustomResyncConfig ::
  "('o \<Rightarrow> string) \<Rightarrow> ('o \<times> 64 word) list \<Rightarrow> ('cl, 'inf, 'q) factory \<Rightarrow> ('cl, 'inf, 'q) factory" where
  "WithCustomResyncConfig typeOf resyncConfig factory =
     fold (\<lambda>(k, v) factory. factory\<lparr>fc_customResync := gset (typeOf k) v (fc_customResync factory)\<rparr>)
       resyncConfig factory"

definition WithTweakListOptions :: "'q tweak option \<Rightarrow> ('cl, 'inf, 'q) factory \<Rightarrow> ('cl, 'inf, 'q) factory" where
  "WithTweakListOptions tweakListOptions factory = factory\<lparr>fc_tweakListOptions := tweakListOptions\<rparr>"

definition WithNamespace :: "string \<Rightarrow> ('cl, 'inf, 'q) factory \<Rightarrow> ('cl, 'inf, 'q) factory" where
  "WithNamespace namespace factory = factory\<lparr>fc_namespace := namespace\<rparr>"

text \<open>\<^verbatim>\<open>v1.NamespaceAll\<close>\<close>

definition NamespaceAll :: string where
  "NamespaceAll = []"

definition NewSharedInformerFactoryWithOptions ::
  "'cl \<Rightarrow> 64 word \<Rightarrow> (('cl, 'inf, 'q) factory \<Rightarrow> ('cl, 'inf, 'q) factory) list \<Rightarrow> ('cl, 'inf, 'q) factory" where
  "NewSharedInformerFactoryWithOptions client defaultResync options =
     fold (\<lambda>opt factory. opt factory) options
       \<lparr>fc_client = client, fc_namespace = NamespaceAll, fc_tweakListOptions = None,
        fc_defaultResync = defaultResync, fc_customResync = [], fc_informers = [], fc_startedInformers = []\<rparr>"

definition NewSharedInformerFactory :: "'cl \<Rightarrow> 64 word \<Rightarrow> ('cl, 'inf, 'q) factory" where
  "NewSharedInformerFactory client defaultResync = NewSharedInformerFactoryWithOptions client defaultResync []"

definition NewFilteredSharedInformerFactory ::
  "'cl \<Rightarrow> 64 word \<Rightarrow> string \<Rightarrow> 'q tweak option \<Rightarrow> ('cl, 'inf, 'q) factory" where
  "NewFilteredSharedInformerFactory client defaultResync namespace tweakListOptions =
     NewSharedInformerFactoryWithOptions client defaultResync
       [WithNamespace namespace, WithTweakListOptions tweakListOptions]"

text \<open>A missing entry of \<^verbatim>\<open>startedInformers\<close> is read as false.\<close>

definition started :: "('cl, 'inf, 'q) factory \<Rightarrow> string \<Rightarrow> bool" where
  "started f t \<longleftrightarrow> map_of (fc_startedInformers f) t = Some True"

definition startOne :: "string \<times> 'inf \<Rightarrow> ('cl, 'inf, 'q) informers \<Rightarrow> ('cl, 'inf, 'q) informers" where
  "startOne = (\<lambda>(informerType, informer) (f, running).
     if \<not> started f informerType
     then (f\<lparr>fc_startedInformers := gset informerType True (fc_startedInformers f)\<rparr>,
           running @ [(informerType, informer)])
     else (f, running))"

definition Start :: "key_order \<Rightarrow> ('cl, 'inf, 'q) informers \<Rightarrow> ('cl, 'inf, 'q) informers" where
  "Start ord s = fold startOne (grange ord (fc_informers (fst s))) s"

text \<open>\<open>wait\<close> waits for one informer; the result says for each type whether it has synced.\<close>

definition factory_WaitForCacheSync ::
  "key_order \<Rightarrow> key_order \<Rightarrow> ('inf \<Rightarrow> 'w \<Rightarrow> bool \<times> 'w) \<Rightarrow> ('cl, 'inf, 'q) factory \<Rightarrow> 'w \<Rightarrow> bool gomap \<times> 'w" where
  "factory_WaitForCacheSync ord ord2 wait f w =
     (let informers = fold (\<lambda>(informerType, informer) informers.
            if started f informerType then gset informerType informer informers else informers)
          (grange ord (fc_informers f)) []
      in fold (\<lambda>(informType, informer) (res, w).
            (let (synced, w) = wait informer w in (gset informType synced res, w)))
          (grange ord2 informers) ([], w))"

definition InformerFor ::
  "string \<Rightarrow> ('cl \<Rightarrow> 64 word \<Rightarrow> 'inf) \<Rightarrow> ('cl, 'inf, 'q) informers \<Rightarrow> 'inf \<times> ('cl, 'inf, 'q) informers" where
  "InformerFor informerType newFunc = (\<lambda>(f, running).
     case map_of (fc_informers f) informerType of
       Some informer \<Rightarrow> (informer, (f, running))
     | None \<Rightarrow>
         (let resyncPeriod = (case map_of (fc_customResync f) informerType of
                Some d \<Rightarrow> d | None \<Rightarrow> fc_defaultResync f);
              informer = newFunc (fc_client f) resyncPeriod
          in (informer, (f\<lparr>fc_informers := gset informerType informer (fc_informers f)\<rparr>, running))))"

section \<open>The informers of the two resources\<close>

text \<open>\<^verbatim>\<open>cache.NewSharedIndexInformer\<close>, as a function of how to list and to watch.\<close>

type_synonym ('w, 'o, 'q, 'i, 'ix, 'inf) new_informer =
  "('q list_options \<Rightarrow> ('w, 'o list) goret) \<Rightarrow> ('q list_options \<Rightarrow> ('w, 'i) goret)
     \<Rightarrow> 64 word \<Rightarrow> 'ix \<Rightarrow> 'inf"

definition NewFilteredForwarderInformer ::
  "('w, 'c forwarder, 'q, 'i, 'ix, 'inf) new_informer \<Rightarrow> ('w, 'c forwarder, 'q, 'i) rest \<Rightarrow> string \<Rightarrow> 64 word
     \<Rightarrow> 'ix \<Rightarrow> 'q tweak option \<Rightarrow> 'inf" where
  "NewFilteredForwarderInformer mk client namespace resyncPeriod indexers tweakListOptions =
     mk (\<lambda>options.
           let options = (case tweakListOptions of None \<Rightarrow> options | Some tweak \<Rightarrow> tweak options)
           in forwarders_List (newForwarders client namespace) options)
        (\<lambda>options.
           let options = (case tweakListOptions of None \<Rightarrow> options | Some tweak \<Rightarrow> tweak options)
           in forwarders_Watch (newForwarders client namespace) options)
        resyncPeriod indexers"

definition NewForwarderInformer ::
  "('w, 'c forwarder, 'q, 'i, 'ix, 'inf) new_informer \<Rightarrow> ('w, 'c forwarder, 'q, 'i) rest \<Rightarrow> string \<Rightarrow> 64 word
     \<Rightarrow> 'ix \<Rightarrow> 'inf" where
  "NewForwarderInformer mk client namespace resyncPeriod indexers =
     NewFilteredForwarderInformer mk client namespace resyncPeriod indexers None"

record 'q forwarder_informer =
  fwi_tweakListOptions :: "'q tweak option"
  fwi_namespace :: string

text \<open>\<open>byNamespace\<close> is the index of client-go that the code asks for.\<close>

definition fwi_defaultInformer ::
  "('w, 'c forwarder, 'q, 'i, 'ix, 'inf) new_informer \<Rightarrow> 'ix \<Rightarrow> 'q forwarder_informer
     \<Rightarrow> ('w, 'c forwarder, 'q, 'i) rest \<Rightarrow> 64 word \<Rightarrow> 'inf" where
  "fwi_defaultInformer mk byNamespace f client resyncPeriod =
     NewFilteredForwarderInformer mk client (fwi_namespace f) resyncPeriod byNamespace (fwi_tweakListOptions f)"

definition fwi_Informer ::
  "('w, 'c forwarder, 'q, 'i, 'ix, 'inf) new_informer \<Rightarrow> 'ix \<Rightarrow> 'q forwarder_informer
     \<Rightarrow> (('w, 'c forwarder, 'q, 'i) rest, 'inf, 'q) informers
     \<Rightarrow> 'inf \<times> (('w, 'c forwarder, 'q, 'i) rest, 'inf, 'q) informers" where
  "fwi_Informer mk byNamespace f = InformerFor ''Forwarder'' (fwi_defaultInformer mk byNamespace f)"

definition NewFilteredGatewayInformer ::
  "('w, 'c gateway, 'q, 'i, 'ix, 'inf) new_informer \<Rightarrow> ('w, 'c gateway, 'q, 'i) rest \<Rightarrow> string \<Rightarrow> 64 word
     \<Rightarrow> 'ix \<Rightarrow> 'q tweak option \<Rightarrow> 'inf" where
  "NewFilteredGatewayInformer mk client namespace resyncPeriod indexers tweakListOptions =
     mk (\<lambda>options.
           let options = (case tweakListOptions of None \<Rightarrow> options | Some tweak \<Rightarrow> tweak options)
           in gateways_List (newGateways client namespace) options)
        (\<lambda>options.
           let options = (case tweakListOptions of None \<Rightarrow> options | Some tweak \<Rightarrow> tweak options)
           in gateways_Watch (newGateways client namespace) options)
        resyncPeriod indexers"

definition NewGatewayInformer ::
  "('w, 'c gateway, 'q, 'i, 'ix, 'inf) new_informer \<Rightarrow> ('w, 'c gateway, 'q, 'i) rest \<Rightarrow> string \<Rightarrow> 64 word
     \<Rightarrow> 'ix \<Rightarrow> 'inf" where
  "NewGatewayInformer mk client namespace resyncPeriod indexers =
     NewFilteredGatewayInformer mk client namespace resyncPeriod indexers None"

record 'q gateway_informer =
  gwi_tweakListOptions :: "'q tweak option"
  gwi_namespace :: string

text \<open>\<open>byNamespace\<close> is the index of client-go that the code asks for.\<close>

definition gwi_defaultInformer ::
  "('w, 'c gateway, 'q, 'i, 'ix, 'inf) new_informer \<Rightarrow> 'ix \<Rightarrow> 'q gateway_informer
     \<Rightarrow> ('w, 'c gateway, 'q, 'i) rest \<Rightarrow> 64 word \<Rightarrow> 'inf" where
  "gwi_defaultInformer mk byNamespace f client resyncPeriod =
     NewFilteredGatewayInformer mk client (gwi_namespace f) resyncPeriod byNamespace (gwi_tweakListOptions f)"

definition gwi_Informer ::
  "('w, 'c gateway, 'q, 'i, 'ix, 'inf) new_informer \<Rightarrow> 'ix \<Rightarrow> 'q gateway_informer
     \<Rightarrow> (('w, 'c gateway, 'q, 'i) rest, 'inf, 'q) informers
     \<Rightarrow> 'inf \<times> (('w, 'c gateway, 'q, 'i) rest, 'inf, 'q) informers" where
  "gwi_Informer mk byNamespace f = InformerFor ''Gateway'' (gwi_defaultInformer mk byNamespace f)"

section \<open>From the factory to a resource\<close>

text \<open>
  \<^verbatim>\<open>submariner.New\<close> and \<^verbatim>\<open>v1alpha1.New\<close>, which hand the factory's settings on.
  The factory itself, to which they keep a pointer, is the state of the call.
\<close>

record 'q informer_group =
  ig_namespace :: string
  ig_tweakListOptions :: "'q tweak option"

record 'q informer_version =
  iv_namespace :: string
  iv_tweakListOptions :: "'q tweak option"

definition submariner_New :: "string \<Rightarrow> 'q tweak option \<Rightarrow> 'q informer_group" where
  "submariner_New namespace tweakListOptions =
     \<lparr>ig_namespace = namespace, ig_tweakListOptions = tweakListOptions\<rparr>"

definition v1alpha1_New :: "string \<Rightarrow> 'q tweak option \<Rightarrow> 'q informer_version" where
  "v1alpha1_New namespace tweakListOptions =
     \<lparr>iv_namespace = namespace, iv_tweakListOptions = tweakListOptions\<rparr>"

definition group_V1alpha1 :: "'q informer_group \<Rightarrow> 'q informer_version" where
  "group_V1alpha1 g = v1alpha1_New (ig_namespace g) (ig_tweakListOptions g)"

definition version_Forwarders :: "'q informer_version \<Rightarrow> 'q forwarder_informer" where
  "version_Forwarders v = \<lparr>fwi_tweakListOptions = iv_tweakListOptions v, fwi_namespace = iv_namespace v\<rparr>"

definition version_Gateways :: "'q informer_version \<Rightarrow> 'q gateway_informer" where
  "version_Gateways v = \<lparr>gwi_tweakListOptions = iv_tweakListOptions v, gwi_namespace = iv_namespace v\<rparr>"

definition factory_Submariner :: "('cl, 'inf, 'q) factory \<Rightarrow> 'q informer_group" where
  "factory_Submariner f = submariner_New (fc_namespace f) (fc_tweakListOptions f)"

text \<open>\<^verbatim>\<open>factory.Submariner().V1alpha1().Forwarders()\<close> and the same for Gateways.\<close>

definition factory_Forwarders :: "('cl, 'inf, 'q) factory \<Rightarrow> 'q forwarder_informer" where
  "factory_Forwarders f = version_Forwarders (group_V1alpha1 (factory_Submariner f))"

definition factory_Gateways :: "('cl, 'inf, 'q) factory \<Rightarrow> 'q gateway_informer" where
  "factory_Gateways f = version_Gateways (group_V1alpha1 (factory_Submariner f))"

lemma factory_paths:
  "factory_Forwarders f = \<lparr>fwi_tweakListOptions = fc_tweakListOptions f, fwi_namespace = fc_namespace f\<rparr>"
  "factory_Gateways f = \<lparr>gwi_tweakListOptions = fc_tweakListOptions f, gwi_namespace = fc_namespace f\<rparr>"
  by (simp_all add: factory_Forwarders_def factory_Gateways_def version_Forwarders_def version_Gateways_def
      group_V1alpha1_def v1alpha1_New_def factory_Submariner_def submariner_New_def)

section \<open>Each informer runs once\<close>

inductive factory_reachable :: "('cl, 'inf, 'q) informers \<Rightarrow> bool" where
  new: "fc_informers f = [] \<Longrightarrow> fc_startedInformers f = [] \<Longrightarrow> factory_reachable (f, [])"
| request: "factory_reachable s \<Longrightarrow> InformerFor t newFunc s = (informer, s') \<Longrightarrow> factory_reachable s'"
| start: "factory_reachable s \<Longrightarrow> range_order ord \<Longrightarrow> factory_reachable (Start ord s)"

lemma new_factory:
  "fc_informers (NewSharedInformerFactory cl d) = []" "fc_startedInformers (NewSharedInformerFactory cl d) = []"
  by (simp_all add: NewSharedInformerFactory_def NewSharedInformerFactoryWithOptions_def)

text \<open>
  The invariant: the types of the running informers are those marked as started, each once, and
  a running informer is the one that the factory gives out for its type.
\<close>

definition factory_ok :: "('cl, 'inf, 'q) informers \<Rightarrow> bool" where
  "factory_ok = (\<lambda>(f, running). gomap_ok (fc_informers f) \<and> distinct (map fst running) \<and>
     (\<forall>t. started f t \<longleftrightarrow> t \<in> fst ` set running) \<and>
     (\<forall>t i. (t, i) \<in> set running \<longrightarrow> map_of (fc_informers f) t = Some i))"

lemma started_gset [simp]:
  "started (f\<lparr>fc_startedInformers := gset t b (fc_startedInformers f)\<rparr>) u \<longleftrightarrow> (if u = t then b else started f u)"
  by (simp add: started_def)

lemma startOne_ok:
  assumes "factory_ok (f, running)" and "map_of (fc_informers f) t = Some i"
  shows "factory_ok (startOne (t, i) (f, running)) \<and>
    fc_informers (fst (startOne (t, i) (f, running))) = fc_informers f \<and>
    fst ` set (snd (startOne (t, i) (f, running))) = insert t (fst ` set running)"
  using assms by (auto simp: factory_ok_def startOne_def)

lemma startAll_ok:
  assumes "factory_ok s" and "\<forall>(t, i) \<in> set xs. map_of (fc_informers (fst s)) t = Some i"
  shows "factory_ok (fold startOne xs s) \<and> fc_informers (fst (fold startOne xs s)) = fc_informers (fst s) \<and>
    fst ` set (snd (fold startOne xs s)) = fst ` set xs \<union> fst ` set (snd s)"
  using assms
proof (induction xs arbitrary: s)
  case (Cons x xs)
  obtain t i f running where x: "x = (t, i)" and s: "s = (f, running)" by (cases x, cases s)
  with Cons.prems startOne_ok [of f running t i] have one: "factory_ok (startOne x s)"
    "fc_informers (fst (startOne x s)) = fc_informers (fst s)"
    "fst ` set (snd (startOne x s)) = insert t (fst ` set running)" by simp_all
  with Cons.prems(2) have "\<forall>(t, i) \<in> set xs. map_of (fc_informers (fst (startOne x s))) t = Some i" by simp
  from Cons.IH [OF one(1) this] one show ?case by (simp add: x s)
qed simp

lemma Start_ok:
  assumes "factory_ok s" and "range_order ord"
  shows "factory_ok (Start ord s) \<and> fc_informers (fst (Start ord s)) = fc_informers (fst s) \<and>
    fst ` set (snd (Start ord s)) = dom (map_of (fc_informers (fst s)))"
proof -
  have "\<forall>(t, i) \<in> set (grange ord (fc_informers (fst s))). map_of (fc_informers (fst s)) t = Some i"
    by (auto simp: set_grange [OF assms(2)])
  from startAll_ok [OF assms(1) this] have all: "factory_ok (Start ord s)"
    "fc_informers (fst (Start ord s)) = fc_informers (fst s)"
    "fst ` set (snd (Start ord s)) = dom (map_of (fc_informers (fst s))) \<union> fst ` set (snd s)"
    by (simp_all add: Start_def fst_grange_set [OF assms(2)])
  moreover have "fst ` set (snd s) \<subseteq> dom (map_of (fc_informers (fst s)))"
    using assms(1) by (force simp: factory_ok_def split_def)
  ultimately show ?thesis by (simp add: Un_absorb2)
qed

lemma InformerFor_ok:
  assumes "factory_ok (f, running)" and "InformerFor t newFunc (f, running) = (informer, (f', running'))"
  shows "factory_ok (f', running') \<and> map_of (fc_informers f') t = Some informer \<and> running' = running \<and>
    (\<forall>u i. map_of (fc_informers f) u = Some i \<longrightarrow> map_of (fc_informers f') u = Some i)"
  using assms
  by (auto simp: InformerFor_def factory_ok_def started_def Let_def split: option.splits) force+

lemma factory_reachable_ok: "factory_reachable s \<Longrightarrow> factory_ok s"
proof (induction rule: factory_reachable.induct)
  case (new f)
  then show ?case by (simp add: factory_ok_def started_def)
next
  case (request s t newFunc informer s')
  then show ?case using InformerFor_ok [of "fst s" "snd s" t newFunc informer "fst s'" "snd s'"] by simp
next
  case (start s ord)
  then show ?case using Start_ok by blast
qed

text \<open>
  Each informer runs once. However requests for informers and starts of the factory follow
  each other, no type has two running informers, and what runs is what every request for the
  type gets; starting the factory once more leaves exactly the requested types running.
\<close>

theorem informers_run_once:
  assumes "factory_reachable (f, running)"
  shows "distinct (map fst running) \<and>
    (\<forall>t i. (t, i) \<in> set running \<longrightarrow> fst (InformerFor t newFunc (f, running)) = i) \<and>
    (\<forall>ord. range_order ord \<longrightarrow>
       fst ` set (snd (Start ord (f, running))) = dom (map_of (fc_informers f)) \<and>
       distinct (map fst (snd (Start ord (f, running)))))"
proof -
  have ok: "factory_ok (f, running)" using assms by (rule factory_reachable_ok)
  moreover have "fst (InformerFor t newFunc (f, running)) = i" if "(t, i) \<in> set running" for t i
    using ok that by (auto simp: factory_ok_def InformerFor_def)
  moreover have "distinct (map fst (snd (Start ord (f, running))))" if "range_order ord" for ord
    using Start_ok [OF ok that] by (simp add: factory_ok_def split_def)
  ultimately show ?thesis using Start_ok [OF ok] by (auto simp: factory_ok_def)
qed

text \<open>
  The informer of a forwarder's agent lists and watches the Forwarders of all namespaces, with
  the given resync period.
\<close>

lemma agent_informer:
  "fst (fwi_Informer mk byNamespace (factory_Forwarders (NewSharedInformerFactory client d))
      (NewSharedInformerFactory client d, [])) =
    mk (forwarders_List (newForwarders client [])) (forwarders_Watch (newForwarders client [])) d byNamespace"
  by (simp add: fwi_Informer_def InformerFor_def NewSharedInformerFactory_def NewSharedInformerFactoryWithOptions_def
      fwi_defaultInformer_def NewFilteredForwarderInformer_def factory_paths NamespaceAll_def Let_def)

theorem informers_run_once_witness:
  "\<exists>(f :: (unit, nat, unit) factory) running. factory_reachable (f, running) \<and> running = [(''Forwarder'', 1)] \<and>
     fst ` set (snd (Start rev (f, running))) = {''Forwarder''} \<and>
     fst (InformerFor ''Forwarder'' (\<lambda>_ _. 2) (f, running)) = 1"
proof -
  let ?f0 = "NewSharedInformerFactory () 30 :: (unit, nat, unit) factory"
  let ?s = "snd (InformerFor ''Forwarder'' (\<lambda>_ _. 1) (?f0, []))"
  obtain i where "InformerFor ''Forwarder'' (\<lambda>_ _. 1) (?f0, []) = (i, ?s)" by (metis prod.collapse)
  from factory_reachable.request [OF factory_reachable.new [OF new_factory] this]
  have "factory_reachable (Start rev ?s)" by (rule factory_reachable.start) simp
  moreover obtain f running where fr: "Start rev ?s = (f, running)" by (cases "Start rev ?s")
  ultimately have r: "factory_reachable (f, running)" by simp
  from fr have run: "running = [(''Forwarder'', 1)]" and dom: "dom (map_of (fc_informers f)) = {''Forwarder''}"
    by (auto simp: InformerFor_def NewSharedInformerFactory_def NewSharedInformerFactoryWithOptions_def
        Start_def startOne_def started_def grange_def gkeys_def gset_def split: if_splits)
  note once = informers_run_once [OF r, of "\<lambda>_ _. 2"]
  have "fst ` set (snd (Start rev (f, running))) = {''Forwarder''}"
    using once [THEN conjunct2, THEN conjunct2, rule_format, OF range_order_rev] unfolding dom by simp
  moreover have "fst (InformerFor ''Forwarder'' (\<lambda>_ _. 2) (f, running)) = 1"
    by (rule once [THEN conjunct2, THEN conjunct1, rule_format]) (simp add: run)
  ultimately have "factory_reachable (f, running) \<and> running = [(''Forwarder'', 1)] \<and>
      fst ` set (snd (Start rev (f, running))) = {''Forwarder''} \<and>
      fst (InformerFor ''Forwarder'' (\<lambda>_ _. 2) (f, running)) = 1"
    using r run by (intro conjI)
  then show ?thesis by (intro exI)
qed

end
