(* ===== verification/SchemeReg.thy ===== *)
theory SchemeReg
  imports ApiLaws
begin

text \<open>
  How the types of \<^verbatim>\<open>pkg/apis/submariner/v1alpha1\<close> come into a scheme, in which clients
  and watches find them by their kind: the \<^verbatim>\<open>init\<close> functions that register them with
  the package's builder, \<^verbatim>\<open>pkg/apis\<close> for the scheme of the manager, and the schemes of the
  clientset and of its fake (\<^verbatim>\<open>versioned/scheme\<close>, \<^verbatim>\<open>versioned/fake/register.go\<close>).

  Schemes and builders are apimachinery and the controller runtime, the record \<open>scheme_lib\<close>. A
  scheme is a pointer \<open>'sch\<close> into the world.
\<close>

section \<open>Kinds and types\<close>

record group_version =
  gv_Group :: string
  gv_Version :: string

definition SchemeGroupVersion :: group_version where
  "SchemeGroupVersion = \<lparr>gv_Group = ''submariner.io'', gv_Version = ''v1alpha1''\<rparr>"

record group_version_kind =
  gvk_Group :: string
  gvk_Version :: string
  gvk_Kind :: string

text \<open>The Go types that may be registered; \<open>TOther\<close> stands for those of other packages.\<close>

datatype go_type =
    TExternalService | TExternalServiceList
  | TForwarder | TForwarderList
  | TGateway | TGatewayList
  | TOther string

text \<open>\<^verbatim>\<open>reflect.Type.Name\<close>, which is the kind under which a type is registered.\<close>

fun type_Name :: "go_type \<Rightarrow> string" where
  "type_Name TExternalService = ''ExternalService''"
| "type_Name TExternalServiceList = ''ExternalServiceList''"
| "type_Name TForwarder = ''Forwarder''"
| "type_Name TForwarderList = ''ForwarderList''"
| "type_Name TGateway = ''Gateway''"
| "type_Name TGatewayList = ''GatewayList''"
| "type_Name (TOther n) = n"

definition WithKind :: "group_version \<Rightarrow> go_type \<Rightarrow> group_version_kind" where
  "WithKind gv t = \<lparr>gvk_Group = gv_Group gv, gvk_Version = gv_Version gv, gvk_Kind = type_Name t\<rparr>"

section \<open>The code\<close>

text \<open>\<open>'b\<close> is a builder of the controller runtime, \<open>'cod\<close> a codec factory, \<open>'pc\<close> a parameter codec.\<close>

record ('w, 'sch, 'b, 'cod, 'pc) scheme_lib =
  sl_NewScheme :: "'w \<Rightarrow> 'sch \<times> 'w"
  sl_NewCodecFactory :: "'sch \<Rightarrow> 'cod"
  sl_NewParameterCodec :: "'sch \<Rightarrow> 'pc"
  sl_Builder :: "group_version \<Rightarrow> 'b"
  sl_Register :: "go_type list \<Rightarrow> 'b \<Rightarrow> 'b"
  sl_BuilderAddToScheme :: "'b \<Rightarrow> 'sch \<Rightarrow> ('w, unit) io"
  sl_AddToScheme :: "('sch \<Rightarrow> ('w, unit) io) list \<Rightarrow> 'sch \<Rightarrow> ('w, unit) io"
  sl_AddToGroupVersion :: "'sch \<Rightarrow> group_version \<Rightarrow> 'w \<Rightarrow> 'w"
  sl_Must :: "unit result \<Rightarrow> unit result"

subsection \<open>The package of the types\<close>

definition externalservice_types_init :: "('w, 'sch, 'b, 'cod, 'pc) scheme_lib \<Rightarrow> 'b \<Rightarrow> 'b" where
  "externalservice_types_init S b = sl_Register S [TExternalService, TExternalServiceList] b"

definition forwarder_types_init :: "('w, 'sch, 'b, 'cod, 'pc) scheme_lib \<Rightarrow> 'b \<Rightarrow> 'b" where
  "forwarder_types_init S b = sl_Register S [TForwarder, TForwarderList] b"

definition gateway_types_init :: "('w, 'sch, 'b, 'cod, 'pc) scheme_lib \<Rightarrow> 'b \<Rightarrow> 'b" where
  "gateway_types_init S b = sl_Register S [TGateway, TGatewayList] b"

text \<open>
  The builder behind the pointer \<^verbatim>\<open>SchemeBuilder\<close> when the package is initialised: its
  \<^verbatim>\<open>init\<close> functions have run, in the order of the files, before those of every
  importer. The method value \<^verbatim>\<open>AddToScheme\<close> is bound to that pointer.
\<close>

definition v1alpha1_SchemeBuilder :: "('w, 'sch, 'b, 'cod, 'pc) scheme_lib \<Rightarrow> 'b" where
  "v1alpha1_SchemeBuilder S =
     gateway_types_init S (forwarder_types_init S (externalservice_types_init S (sl_Builder S SchemeGroupVersion)))"

definition v1alpha1_AddToScheme :: "('w, 'sch, 'b, 'cod, 'pc) scheme_lib \<Rightarrow> 'sch \<Rightarrow> ('w, unit) io" where
  "v1alpha1_AddToScheme S = sl_BuilderAddToScheme S (v1alpha1_SchemeBuilder S)"

subsection \<open>The scheme of the manager\<close>

definition AddToSchemes :: "('w, 'sch, 'b, 'cod, 'pc) scheme_lib \<Rightarrow> ('sch \<Rightarrow> ('w, unit) io) list" where
  "AddToSchemes S = [] @ [sl_BuilderAddToScheme S (v1alpha1_SchemeBuilder S)]"

definition apis_AddToScheme :: "('w, 'sch, 'b, 'cod, 'pc) scheme_lib \<Rightarrow> 'sch \<Rightarrow> ('w, unit) io" where
  "apis_AddToScheme S s = sl_AddToScheme S (AddToSchemes S) s"

subsection \<open>The schemes of the clientset and of its fake\<close>

text \<open>The variables of such a package after its \<^verbatim>\<open>init\<close>.\<close>

record ('sch, 'cod, 'pc) scheme_vars =
  pkg_Scheme :: 'sch
  pkg_Codecs :: 'cod
  pkg_ParameterCodec :: 'pc

definition localSchemeBuilder :: "('w, 'sch, 'b, 'cod, 'pc) scheme_lib \<Rightarrow> ('sch \<Rightarrow> ('w, unit) io) list" where
  "localSchemeBuilder S = [v1alpha1_AddToScheme S]"

definition scheme_AddToScheme :: "('w, 'sch, 'b, 'cod, 'pc) scheme_lib \<Rightarrow> 'sch \<Rightarrow> ('w, unit) io" where
  "scheme_AddToScheme S = sl_AddToScheme S (localSchemeBuilder S)"

definition scheme_init ::
  "('w, 'sch, 'b, 'cod, 'pc) scheme_lib \<Rightarrow> ('w, ('sch, 'cod, 'pc) scheme_vars) io" where
  "scheme_init S w =
     (let (Scheme, w) = sl_NewScheme S w;
          Codecs = sl_NewCodecFactory S Scheme;
          ParameterCodec = sl_NewParameterCodec S Scheme;
          w = sl_AddToGroupVersion S Scheme \<lparr>gv_Group = [], gv_Version = ''v1''\<rparr> w;
          (r, w) = scheme_AddToScheme S Scheme w
      in (rbind (sl_Must S r) (\<lambda>_. Inr \<lparr>pkg_Scheme = Scheme, pkg_Codecs = Codecs, pkg_ParameterCodec = ParameterCodec\<rparr>),
          w))"

definition fake_localSchemeBuilder :: "('w, 'sch, 'b, 'cod, 'pc) scheme_lib \<Rightarrow> ('sch \<Rightarrow> ('w, unit) io) list" where
  "fake_localSchemeBuilder S = [v1alpha1_AddToScheme S]"

definition fake_AddToScheme :: "('w, 'sch, 'b, 'cod, 'pc) scheme_lib \<Rightarrow> 'sch \<Rightarrow> ('w, unit) io" where
  "fake_AddToScheme S = sl_AddToScheme S (fake_localSchemeBuilder S)"

definition fake_scheme_init ::
  "('w, 'sch, 'b, 'cod, 'pc) scheme_lib \<Rightarrow> ('w, ('sch, 'cod, 'pc) scheme_vars) io" where
  "fake_scheme_init S w =
     (let (scheme, w) = sl_NewScheme S w;
          codecs = sl_NewCodecFactory S scheme;
          parameterCodec = sl_NewParameterCodec S scheme;
          w = sl_AddToGroupVersion S scheme \<lparr>gv_Group = [], gv_Version = ''v1''\<rparr> w;
          (r, w) = fake_AddToScheme S scheme w
      in (rbind (sl_Must S r) (\<lambda>_. Inr \<lparr>pkg_Scheme = scheme, pkg_Codecs = codecs, pkg_ParameterCodec = parameterCodec\<rparr>),
          w))"

section \<open>The library\<close>

text \<open>
  \<open>regs b\<close> is the group and version of a builder and what was registered with it, \<open>kinds w s\<close>
  what a scheme knows. Adding the types of a builder to a scheme that knows nothing of its
  group and version succeeds when its types have different names; \<open>others\<close> is what schemes do not touch.
\<close>

definition unknown :: "(group_version_kind \<rightharpoonup> go_type) \<Rightarrow> group_version \<Rightarrow> bool" where
  "unknown m gv \<longleftrightarrow> (\<forall>k. gvk_Group k = gv_Group gv \<and> gvk_Version k = gv_Version gv \<longrightarrow> m k = None)"

definition scheme_laws ::
  "('w, 'sch, 'b, 'cod, 'pc) scheme_lib \<Rightarrow> ('b \<Rightarrow> group_version \<times> go_type list)
     \<Rightarrow> ('w \<Rightarrow> 'sch \<Rightarrow> group_version_kind \<rightharpoonup> go_type) \<Rightarrow> ('w \<Rightarrow> 'v) \<Rightarrow> bool" where
  "scheme_laws S regs kinds others \<longleftrightarrow>
     (\<forall>gv. regs (sl_Builder S gv) = (gv, [])) \<and>
     (\<forall>ts b. regs (sl_Register S ts b) = (fst (regs b), snd (regs b) @ ts)) \<and>
     (\<forall>w. kinds (snd (sl_NewScheme S w)) (fst (sl_NewScheme S w)) = Map.empty) \<and>
     (\<forall>s gv w k. gvk_Group k \<notin> {gv_Group gv, [], ''meta.k8s.io''} \<longrightarrow>
        kinds (sl_AddToGroupVersion S s gv w) s k = kinds w s k) \<and>
     (\<forall>b s w. unknown (kinds w s) (fst (regs b)) \<and> distinct (map type_Name (snd (regs b))) \<longrightarrow>
        (\<exists>w'. sl_BuilderAddToScheme S b s w = (Inr (), w') \<and> kinds w s \<subseteq>\<^sub>m kinds w' s \<and>
           (\<forall>t \<in> set (snd (regs b)). kinds w' s (WithKind (fst (regs b)) t) = Some t))) \<and>
     (\<forall>b s. quiet others (sl_BuilderAddToScheme S b s)) \<and>
     (\<forall>s. sl_AddToScheme S [] s = ret ()) \<and>
     (\<forall>f fs s. sl_AddToScheme S (f # fs) s = andThen (f s) (\<lambda>_. sl_AddToScheme S fs s)) \<and>
     sl_Must S (Inr ()) = Inr () \<and> (\<forall>e. sl_Must S (Inl e) = Inl GoPanic)"

lemma scheme_lawsD:
  assumes "scheme_laws S regs kinds others"
  shows "regs (sl_Builder S gv) = (gv, [])"
    and "regs (sl_Register S ts b) = (fst (regs b), snd (regs b) @ ts)"
    and "kinds (snd (sl_NewScheme S w)) (fst (sl_NewScheme S w)) = Map.empty"
    and "gvk_Group k \<notin> {gv_Group gv, [], ''meta.k8s.io''} \<Longrightarrow>
      kinds (sl_AddToGroupVersion S s gv w) s k = kinds w s k"
    and "unknown (kinds w s) (fst (regs b)) \<Longrightarrow> distinct (map type_Name (snd (regs b))) \<Longrightarrow>
      \<exists>w'. sl_BuilderAddToScheme S b s w = (Inr (), w') \<and> kinds w s \<subseteq>\<^sub>m kinds w' s \<and>
        (\<forall>t \<in> set (snd (regs b)). kinds w' s (WithKind (fst (regs b)) t) = Some t)"
    and "quiet others (sl_BuilderAddToScheme S b s)"
    and "sl_AddToScheme S [] s = ret ()"
    and "sl_AddToScheme S (f # fs) s = andThen (f s) (\<lambda>_. sl_AddToScheme S fs s)"
    and "sl_Must S (Inr ()) = Inr ()"
  using assms unfolding scheme_laws_def by blast+

section \<open>Registration\<close>

text \<open>All types of the API group are known under their kinds.\<close>

definition api_types :: "go_type list" where
  "api_types = [TExternalService, TExternalServiceList, TForwarder, TForwarderList, TGateway, TGatewayList]"

definition knows_api :: "(group_version_kind \<rightharpoonup> go_type) \<Rightarrow> bool" where
  "knows_api m \<longleftrightarrow> (\<forall>t \<in> set api_types. m (WithKind SchemeGroupVersion t) = Some t)"

lemma one_builder:
  assumes "scheme_laws S regs kinds others"
  shows "sl_AddToScheme S [v1alpha1_AddToScheme S] s = sl_BuilderAddToScheme S (v1alpha1_SchemeBuilder S) s"
  by (simp add: scheme_lawsD(7,8) [OF assms] v1alpha1_AddToScheme_def io_eval fun_eq_iff andThen_def ret_def
      split: prod.split sum.split)

lemma builder_adds:
  assumes laws: "scheme_laws S regs kinds others" and new: "unknown (kinds w s) SchemeGroupVersion"
  shows "\<exists>w'. sl_BuilderAddToScheme S (v1alpha1_SchemeBuilder S) s w = (Inr (), w') \<and> knows_api (kinds w' s)"
proof -
  have "regs (v1alpha1_SchemeBuilder S) = (SchemeGroupVersion, api_types)"
    by (simp add: v1alpha1_SchemeBuilder_def gateway_types_init_def forwarder_types_init_def
        externalservice_types_init_def scheme_lawsD(1,2) [OF laws] api_types_def)
  moreover have "distinct (map type_Name api_types)" by (simp add: api_types_def)
  ultimately show ?thesis
    using scheme_lawsD(5) [OF laws, of w s "v1alpha1_SchemeBuilder S"] new by (auto simp: knows_api_def)
qed

lemma apis_AddToScheme_runs:
  assumes "scheme_laws S regs kinds others"
  shows "unknown (kinds w s) SchemeGroupVersion \<Longrightarrow>
      \<exists>w'. apis_AddToScheme S s w = (Inr (), w') \<and> knows_api (kinds w' s)"
    and "quiet others (apis_AddToScheme S s)"
  using builder_adds [OF assms] scheme_lawsD(6) [OF assms] one_builder [OF assms]
  by (simp_all add: apis_AddToScheme_def AddToSchemes_def v1alpha1_AddToScheme_def)

lemma new_scheme_unknown:
  assumes "scheme_laws S regs kinds others" and "sl_NewScheme S w = (s, w1)"
  shows "unknown (kinds (sl_AddToGroupVersion S s \<lparr>gv_Group = [], gv_Version = ''v1''\<rparr> w1) s) SchemeGroupVersion"
  using scheme_lawsD(3) [OF assms(1), of w] scheme_lawsD(4) [OF assms(1)] assms(2)
  by (simp add: unknown_def SchemeGroupVersion_def)

text \<open>
  C38: Every kind of the API group is known wherever it is looked up: the scheme of the manager
  after \<^verbatim>\<open>apis.AddToScheme\<close>, if it knew nothing of the group before, and the schemes
  of the clientset and of the fake clientset from their \<^verbatim>\<open>init\<close> functions, which do not
  panic. All six types are known there under the kind that has their name.
\<close>

theorem api_registered:
  assumes "scheme_laws S regs kinds others"
  shows "(\<forall>s w. unknown (kinds w s) SchemeGroupVersion \<longrightarrow>
       (\<exists>w'. apis_AddToScheme S s w = (Inr (), w') \<and> knows_api (kinds w' s))) \<and>
     (\<exists>p w'. scheme_init S w = (Inr p, w') \<and> knows_api (kinds w' (pkg_Scheme p)) \<and>
        pkg_Codecs p = sl_NewCodecFactory S (pkg_Scheme p)) \<and>
     (\<exists>p w'. fake_scheme_init S w = (Inr p, w') \<and> knows_api (kinds w' (pkg_Scheme p)) \<and>
        pkg_Codecs p = sl_NewCodecFactory S (pkg_Scheme p))"
proof -
  obtain s w1 where new: "sl_NewScheme S w = (s, w1)" by fastforce
  note old = new_scheme_unknown [OF assms new]
  have "\<exists>w'. sl_BuilderAddToScheme S (v1alpha1_SchemeBuilder S) s
       (sl_AddToGroupVersion S s \<lparr>gv_Group = [], gv_Version = ''v1''\<rparr> w1) = (Inr (), w') \<and> knows_api (kinds w' s)"
    using builder_adds [where kinds = kinds and s = s, OF assms] old by blast
  then show ?thesis
    using apis_AddToScheme_runs(1) [OF assms] scheme_lawsD(9) [OF assms]
    by (auto simp add: scheme_init_def fake_scheme_init_def new scheme_AddToScheme_def fake_AddToScheme_def
        localSchemeBuilder_def fake_localSchemeBuilder_def one_builder [OF assms])
qed

section \<open>A run\<close>

text \<open>A world of schemes: how many there are, and all entries with the number of their scheme.\<close>

type_synonym schemes = "nat \<times> (nat \<times> group_version_kind \<times> go_type) list"

definition kinds_of :: "schemes \<Rightarrow> nat \<Rightarrow> group_version_kind \<rightharpoonup> go_type" where
  "kinds_of w s = map_of (map snd (filter (\<lambda>e. fst e = s) (snd w)))"

definition list_scheme :: "(schemes, nat, group_version \<times> go_type list, nat, nat) scheme_lib" where
  "list_scheme =
     \<lparr>sl_NewScheme = (\<lambda>(n, es). (n, Suc n, filter (\<lambda>e. fst e \<noteq> n) es)), sl_NewCodecFactory = id,
      sl_NewParameterCodec = id, sl_Builder = (\<lambda>gv. (gv, [])), sl_Register = (\<lambda>ts (gv, old). (gv, old @ ts)),
      sl_BuilderAddToScheme = (\<lambda>(gv, ts) s (n, es). (Inr (), n, es @ map (\<lambda>t. (s, WithKind gv t, t)) ts)),
      sl_AddToScheme = (\<lambda>fs s. foldE (\<lambda>f _. f s) fs ()),
      sl_AddToGroupVersion = (\<lambda>s gv w. w),
      sl_Must = (\<lambda>r. case r of Inl _ \<Rightarrow> Inl GoPanic | Inr _ \<Rightarrow> Inr ())\<rparr>"

lemma kinds_of_added:
  assumes "inj_on (WithKind gv) (set ts)" and "t \<in> set ts"
  shows "map_of (map (\<lambda>t. (WithKind gv t, t)) ts) (WithKind gv t) = Some t"
  using assms by (induction ts) (auto simp: inj_on_def)

lemma list_scheme_laws: "scheme_laws list_scheme id kinds_of (\<lambda>_. ())"
  unfolding scheme_laws_def
proof (intro conjI allI impI)
  fix b :: "group_version \<times> go_type list" and s w
  assume *: "unknown (kinds_of w s) (fst (id b)) \<and> distinct (map type_Name (snd (id b)))"
  obtain gv ts n es where b: "b = (gv, ts)" "w = (n, es)" by fastforce
  from * b have inj: "inj_on (WithKind gv) (set ts)" by (auto simp: inj_on_def WithKind_def distinct_map)
  have none: "map_of (map snd (filter (\<lambda>e. fst e = s) es)) (WithKind gv t) = None" for t
    using * b by (simp add: unknown_def kinds_of_def WithKind_def)
  let ?new = "(n, es @ map (\<lambda>t. (s, WithKind gv t, t)) ts)"
  have k: "kinds_of ?new s = map_of (map (\<lambda>t. (WithKind gv t, t)) ts) ++ kinds_of w s"
    by (simp add: kinds_of_def b filter_map o_def)
  show "\<exists>w'. sl_BuilderAddToScheme list_scheme b s w = (Inr (), w') \<and> kinds_of w s \<subseteq>\<^sub>m kinds_of w' s \<and>
      (\<forall>t \<in> set (snd (id b)). kinds_of w' s (WithKind (fst (id b)) t) = Some t)"
    using none kinds_of_added [OF inj]
    by (intro exI [of _ ?new]) (auto simp: k list_scheme_def b map_le_def map_add_def kinds_of_def o_def split: option.split)
qed (auto simp: list_scheme_def kinds_of_def quiet_def split_beta)

theorem api_registered_witness:
  "\<exists>p w'. fake_scheme_init list_scheme (0, []) = (Inr p, w') \<and>
     kinds_of w' (pkg_Scheme p) (WithKind SchemeGroupVersion TGatewayList) = Some TGatewayList"
  using api_registered [OF list_scheme_laws, of "(0, [])"] by (auto simp: knows_api_def api_types_def)

end
