(* ===== verification/Listers.thy ===== *)
theory Listers
  imports Informers SchemeReg
begin

text \<open>
  The generated listers (\<^verbatim>\<open>pkg/client/listers/submariner/v1alpha1\<close>), which read the
  cache of an informer, and \<^verbatim>\<open>ForResource\<close> of the informer factory
  (\<^verbatim>\<open>informers/externalversions/generic.go\<close>), which finds the informer of a resource.

  The cache is client-go's \<^verbatim>\<open>cache.Indexer\<close>, the record \<open>indexer\<close>. It holds
  values of the interface type, which the code asserts to be pointers to the resource's type;
  \<open>'f\<close> and \<open>'g\<close> are the types of pointers to Forwarders and Gateways. A failed assertion
  is a panic.
\<close>

section \<open>Resources\<close>

record group_resource =
  gres_Group :: string
  gres_Resource :: string

record group_version_resource =
  gvr_Group :: string
  gvr_Version :: string
  gvr_Resource :: string

text \<open>\<^verbatim>\<open>GroupVersion.WithResource\<close> and \<^verbatim>\<open>GroupVersionResource.GroupResource\<close>\<close>

definition WithResource :: "group_version \<Rightarrow> string \<Rightarrow> group_version_resource" where
  "WithResource gv resource =
     \<lparr>gvr_Group = gv_Group gv, gvr_Version = gv_Version gv, gvr_Resource = resource\<rparr>"

definition GroupResource :: "group_version_resource \<Rightarrow> group_resource" where
  "GroupResource gvr = \<lparr>gres_Group = gvr_Group gvr, gres_Resource = gvr_Resource gvr\<rparr>"

definition v1alpha1_Resource :: "string \<Rightarrow> group_resource" where
  "v1alpha1_Resource resource = GroupResource (WithResource SchemeGroupVersion resource)"

section \<open>The listers\<close>

datatype ('f, 'g) cached = ForwarderPtr 'f | GatewayPtr 'g | OtherObject

fun as_Forwarder :: "('f, 'g) cached \<Rightarrow> 'f option" where
  "as_Forwarder (ForwarderPtr f) = Some f"
| "as_Forwarder _ = None"

fun as_Gateway :: "('f, 'g) cached \<Rightarrow> 'g option" where
  "as_Gateway (GatewayPtr g) = Some g"
| "as_Gateway _ = None"

text \<open>
  \<open>ix_ListAll\<close> and \<open>ix_ListAllByNamespace\<close> are \<^verbatim>\<open>cache.ListAll\<close> and
  \<^verbatim>\<open>cache.ListAllByNamespace\<close>: the objects on which the given function is called, in the
  order of the calls, and the error. \<open>'s\<close> is the type of label selectors.
\<close>

record ('s, 'f, 'g) indexer =
  ix_ListAll :: "'s \<Rightarrow> ('f, 'g) cached list \<times> go_error option"
  ix_ListAllByNamespace :: "string \<Rightarrow> 's \<Rightarrow> ('f, 'g) cached list \<times> go_error option"
  ix_GetByKey :: "string \<Rightarrow> (('f, 'g) cached \<times> bool) \<times> go_error option"

text \<open>
  A method returns a value and an error, both; a panic is the \<open>Inl\<close> of the result.
  \<^verbatim>\<open>errors.NewNotFound\<close> keeps the resource and the name it was called with.
\<close>

datatype lister_error = ListerError go_error | NewNotFound group_resource string

text \<open>The function \<^verbatim>\<open>func(m interface{}) { ret = append(ret, m.(T)) }\<close>.\<close>

definition append_as :: "(('f, 'g) cached \<Rightarrow> 'p option) \<Rightarrow> ('f, 'g) cached \<Rightarrow> 'p list \<Rightarrow> 'p list result" where
  "append_as as m rets = (case as m of None \<Rightarrow> Inl GoPanic | Some p \<Rightarrow> Inr (rets @ [p]))"

record ('s, 'f, 'g) lister =
  ls_indexer :: "('s, 'f, 'g) indexer"

record ('s, 'f, 'g) ns_lister =
  nl_indexer :: "('s, 'f, 'g) indexer"
  nl_namespace :: string

subsection \<open>Forwarders\<close>

definition NewForwarderLister :: "('s, 'f, 'g) indexer \<Rightarrow> ('s, 'f, 'g) lister" where
  "NewForwarderLister ix = \<lparr>ls_indexer = ix\<rparr>"

definition forwarderLister_List ::
  "('s, 'f, 'g) lister \<Rightarrow> 's \<Rightarrow> ('f list \<times> go_error option) result" where
  "forwarderLister_List s selector =
     (let (ms, err) = ix_ListAll (ls_indexer s) selector
      in rbind (foldR (append_as as_Forwarder) ms []) (\<lambda>rets. Inr (rets, err)))"

definition forwarderLister_Forwarders :: "('s, 'f, 'g) lister \<Rightarrow> string \<Rightarrow> ('s, 'f, 'g) ns_lister" where
  "forwarderLister_Forwarders s namespace = \<lparr>nl_indexer = ls_indexer s, nl_namespace = namespace\<rparr>"

definition forwarderNamespaceLister_List ::
  "('s, 'f, 'g) ns_lister \<Rightarrow> 's \<Rightarrow> ('f list \<times> go_error option) result" where
  "forwarderNamespaceLister_List s selector =
     (let (ms, err) = ix_ListAllByNamespace (nl_indexer s) (nl_namespace s) selector
      in rbind (foldR (append_as as_Forwarder) ms []) (\<lambda>rets. Inr (rets, err)))"

definition forwarderNamespaceLister_Get ::
  "('s, 'f, 'g) ns_lister \<Rightarrow> string \<Rightarrow> ('f option \<times> lister_error option) result" where
  "forwarderNamespaceLister_Get s name =
     (let ((obj, exists), err) = ix_GetByKey (nl_indexer s) (nl_namespace s @ ''/'' @ name)
      in case err of
           Some e \<Rightarrow> Inr (None, Some (ListerError e))
         | None \<Rightarrow>
             if \<not> exists then Inr (None, Some (NewNotFound (v1alpha1_Resource ''forwarder'') name))
             else (case as_Forwarder obj of None \<Rightarrow> Inl GoPanic | Some f \<Rightarrow> Inr (Some f, None)))"

subsection \<open>Gateways\<close>

definition NewGatewayLister :: "('s, 'f, 'g) indexer \<Rightarrow> ('s, 'f, 'g) lister" where
  "NewGatewayLister ix = \<lparr>ls_indexer = ix\<rparr>"

definition gatewayLister_List ::
  "('s, 'f, 'g) lister \<Rightarrow> 's \<Rightarrow> ('g list \<times> go_error option) result" where
  "gatewayLister_List s selector =
     (let (ms, err) = ix_ListAll (ls_indexer s) selector
      in rbind (foldR (append_as as_Gateway) ms []) (\<lambda>rets. Inr (rets, err)))"

definition gatewayLister_Gateways :: "('s, 'f, 'g) lister \<Rightarrow> string \<Rightarrow> ('s, 'f, 'g) ns_lister" where
  "gatewayLister_Gateways s namespace = \<lparr>nl_indexer = ls_indexer s, nl_namespace = namespace\<rparr>"

definition gatewayNamespaceLister_List ::
  "('s, 'f, 'g) ns_lister \<Rightarrow> 's \<Rightarrow> ('g list \<times> go_error option) result" where
  "gatewayNamespaceLister_List s selector =
     (let (ms, err) = ix_ListAllByNamespace (nl_indexer s) (nl_namespace s) selector
      in rbind (foldR (append_as as_Gateway) ms []) (\<lambda>rets. Inr (rets, err)))"

definition gatewayNamespaceLister_Get ::
  "('s, 'f, 'g) ns_lister \<Rightarrow> string \<Rightarrow> ('g option \<times> lister_error option) result" where
  "gatewayNamespaceLister_Get s name =
     (let ((obj, exists), err) = ix_GetByKey (nl_indexer s) (nl_namespace s @ ''/'' @ name)
      in case err of
           Some e \<Rightarrow> Inr (None, Some (ListerError e))
         | None \<Rightarrow>
             if \<not> exists then Inr (None, Some (NewNotFound (v1alpha1_Resource ''gateway'') name))
             else (case as_Gateway obj of None \<Rightarrow> Inl GoPanic | Some g \<Rightarrow> Inr (Some g, None)))"

section \<open>ForResource\<close>

record 'inf generic_informer =
  gi_informer :: 'inf
  gi_resource :: group_resource

text \<open>\<^verbatim>\<open>GetIndexer\<close> and \<^verbatim>\<open>cache.NewGenericLister\<close> are client-go's.\<close>

definition genericInformer_Lister ::
  "('inf \<Rightarrow> 'ind) \<Rightarrow> ('ind \<Rightarrow> group_resource \<Rightarrow> 'gl) \<Rightarrow> 'inf generic_informer \<Rightarrow> 'gl" where
  "genericInformer_Lister getIndexer newGenericLister f =
     newGenericLister (getIndexer (gi_informer f)) (gi_resource f)"

text \<open>
  The factory's clientset is \<open>'cl\<close>; the two arguments make the informers of the two types from
  it (\<open>fwi_defaultInformer\<close> and \<open>gwi_defaultInformer\<close> on the clientset's REST client).
  \<open>None\<close> is the error that there is no informer for the resource.
\<close>

definition ForResource ::
  "('q forwarder_informer \<Rightarrow> 'cl \<Rightarrow> 64 word \<Rightarrow> 'inf) \<Rightarrow> ('q gateway_informer \<Rightarrow> 'cl \<Rightarrow> 64 word \<Rightarrow> 'inf)
     \<Rightarrow> group_version_resource \<Rightarrow> ('cl, 'inf, 'q) informers
     \<Rightarrow> 'inf generic_informer option \<times> ('cl, 'inf, 'q) informers" where
  "ForResource newFwd newGw resource s =
     (if resource = WithResource SchemeGroupVersion ''forwarders''
      then let (informer, s') = InformerFor ''Forwarder'' (newFwd (factory_Forwarders (fst s))) s
           in (Some \<lparr>gi_informer = informer, gi_resource = GroupResource resource\<rparr>, s')
      else if resource = WithResource SchemeGroupVersion ''gateways''
      then let (informer, s') = InformerFor ''Gateway'' (newGw (factory_Gateways (fst s))) s
           in (Some \<lparr>gi_informer = informer, gi_resource = GroupResource resource\<rparr>, s')
      else (None, s))"

section \<open>The cache\<close>

text \<open>
  The documented behaviour of an indexer that holds the objects \<open>objs\<close>, with the namespace
  index that the informers ask for. \<open>nsn\<close> is the namespace and the name of an object, and
  \<open>metaKey\<close> the key that \<^verbatim>\<open>MetaNamespaceKeyFunc\<close> makes from them.
\<close>

definition metaKey :: "string \<times> string \<Rightarrow> string" where
  "metaKey = (\<lambda>(ns, name). if ns = [] then name else ns @ ''/'' @ name)"

definition indexer_laws ::
  "('s, 'f, 'g) indexer \<Rightarrow> (('f, 'g) cached \<Rightarrow> string \<times> string) \<Rightarrow> ('s \<Rightarrow> ('f, 'g) cached \<Rightarrow> bool)
     \<Rightarrow> ('f, 'g) cached list \<Rightarrow> bool" where
  "indexer_laws ix nsn matches objs \<longleftrightarrow>
     (\<forall>sel. snd (ix_ListAll ix sel) = None \<and>
        mset (fst (ix_ListAll ix sel)) = mset (filter (matches sel) objs)) \<and>
     (\<forall>ns sel. snd (ix_ListAllByNamespace ix ns sel) = None \<and>
        mset (fst (ix_ListAllByNamespace ix ns sel)) =
          mset (filter (\<lambda>m. matches sel m \<and> (ns = NamespaceAll \<or> fst (nsn m) = ns)) objs)) \<and>
     (\<forall>k. snd (ix_GetByKey ix k) = None \<and>
        (case find (\<lambda>m. metaKey (nsn m) = k) objs of
           None \<Rightarrow> \<not> snd (fst (ix_GetByKey ix k))
         | Some m \<Rightarrow> fst (ix_GetByKey ix k) = (m, True)))"

text \<open>Keys identify objects: they are distinct, and no namespace has a slash in it.\<close>

definition keys_ok :: "(('f, 'g) cached \<Rightarrow> string \<times> string) \<Rightarrow> ('f, 'g) cached list \<Rightarrow> bool" where
  "keys_ok nsn objs \<longleftrightarrow>
     distinct (map nsn objs) \<and> (\<forall>m\<in>set objs. fst (nsn m) \<noteq> [] \<and> CHR ''/'' \<notin> set (fst (nsn m)))"

lemma append_slash_inject:
  assumes "CHR ''/'' \<notin> set a" and "CHR ''/'' \<notin> set b"
  shows "a @ ''/'' @ x = b @ ''/'' @ y \<longleftrightarrow> a = b \<and> x = y"
  using assms
proof (induction a arbitrary: b)
  case Nil
  then show ?case by (cases b) auto
next
  case (Cons c a)
  then show ?case by (cases b) auto
qed

lemma indexer_set:
  assumes "indexer_laws ix nsn matches objs"
  shows "set (fst (ix_ListAll ix sel)) = {m \<in> set objs. matches sel m}"
    and "ns \<noteq> [] \<Longrightarrow> set (fst (ix_ListAllByNamespace ix ns sel)) =
           {m \<in> set objs. matches sel m \<and> fst (nsn m) = ns}"
    and "snd (ix_ListAll ix sel) = None" and "snd (ix_ListAllByNamespace ix ns sel) = None"
    and "snd (ix_GetByKey ix k) = None"
proof -
  from assms have all: "mset (fst (ix_ListAll ix sel)) = mset (filter (matches sel) objs)"
    and inns: "mset (fst (ix_ListAllByNamespace ix ns sel)) =
        mset (filter (\<lambda>m. matches sel m \<and> (ns = NamespaceAll \<or> fst (nsn m) = ns)) objs)"
    by (simp_all add: indexer_laws_def)
  from mset_eq_setD [OF all] show "set (fst (ix_ListAll ix sel)) = {m \<in> set objs. matches sel m}"
    by simp
  from mset_eq_setD [OF inns]
  show "set (fst (ix_ListAllByNamespace ix ns sel)) = {m \<in> set objs. matches sel m \<and> fst (nsn m) = ns}"
    if "ns \<noteq> []" using that by (simp add: NamespaceAll_def)
qed (use assms in \<open>simp_all add: indexer_laws_def\<close>)

lemma indexer_get:
  assumes laws: "indexer_laws ix nsn matches objs" and keys: "keys_ok nsn objs"
    and ns: "ns \<noteq> []" "CHR ''/'' \<notin> set ns"
  shows "m \<in> set objs \<Longrightarrow> nsn m = (ns, name) \<Longrightarrow>
           fst (ix_GetByKey ix (ns @ ''/'' @ name)) = (m, True)"
    and "(ns, name) \<notin> nsn ` set objs \<Longrightarrow> \<not> snd (fst (ix_GetByKey ix (ns @ ''/'' @ name)))"
proof -
  let ?k = "ns @ ''/'' @ name"
  have key: "metaKey (nsn m) = ?k \<longleftrightarrow> nsn m = (ns, name)" if "m \<in> set objs" for m
    using that keys ns append_slash_inject [of "fst (nsn m)" ns "snd (nsn m)" name]
    by (auto simp: keys_ok_def metaKey_def split_beta prod_eq_iff)
  from laws have find: "case find (\<lambda>m. metaKey (nsn m) = ?k) objs of
      None \<Rightarrow> \<not> snd (fst (ix_GetByKey ix ?k)) | Some m \<Rightarrow> fst (ix_GetByKey ix ?k) = (m, True)"
    unfolding indexer_laws_def by blast
  show "fst (ix_GetByKey ix ?k) = (m, True)" if m: "m \<in> set objs" "nsn m = (ns, name)"
  proof (cases "find (\<lambda>m. metaKey (nsn m) = ?k) objs")
    case None
    with m key show ?thesis by (auto simp: find_None_iff)
  next
    case (Some x)
    then have "x \<in> set objs" "metaKey (nsn x) = ?k" by (auto simp: find_Some_iff)
    with key m have "nsn x = nsn m" by simp
    with keys m \<open>x \<in> set objs\<close> have "x = m" by (metis keys_ok_def distinct_map inj_onD)
    with Some find show ?thesis by simp
  qed
  show "\<not> snd (fst (ix_GetByKey ix ?k))" if "(ns, name) \<notin> nsn ` set objs"
  proof (cases "find (\<lambda>m. metaKey (nsn m) = ?k) objs")
    case None
    with find show ?thesis by simp
  next
    case (Some x)
    then have "x \<in> set objs" "metaKey (nsn x) = ?k" by (auto simp: find_Some_iff)
    with key that show ?thesis by force
  qed
qed

text \<open>
  What the two listers share: the type assertion accepts exactly the pointers of one
  constructor.
\<close>

locale typed_cache =
  fixes as :: "('f, 'g) cached \<Rightarrow> 'p option" and mk :: "'p \<Rightarrow> ('f, 'g) cached"
  assumes as_iff: "as m = Some p \<longleftrightarrow> m = mk p"
begin

lemma as_mk [simp]: "as (mk p) = Some p"
  by (simp add: as_iff)

lemma mk_inject: "mk p = mk q \<longleftrightarrow> p = q"
  by (metis as_mk option.inject)

lemma collect_from:
  "foldR (append_as as) ms rets =
     (if \<forall>m\<in>set ms. as m \<noteq> None then Inr (rets @ map (the \<circ> as) ms) else Inl GoPanic)"
  by (induction ms arbitrary: rets) (auto simp: append_as_def split: option.splits)

lemma collected:
  assumes "set ms \<subseteq> range mk"
  obtains ps where "foldR (append_as as) ms [] = Inr ps" and "set ps = {p. mk p \<in> set ms}"
proof
  from assms show "foldR (append_as as) ms [] = Inr (map (the \<circ> as) ms)"
    by (force simp: collect_from)
  from assms show "set (map (the \<circ> as) ms) = {p. mk p \<in> set ms}"
    by (force simp: mk_inject)
qed

lemma panics: "m \<in> set ms \<Longrightarrow> as m = None \<Longrightarrow> foldR (append_as as) ms [] = Inl GoPanic"
  by (auto simp: collect_from)

end

interpretation forwarders: typed_cache as_Forwarder ForwarderPtr
proof
  show "as_Forwarder m = Some p \<longleftrightarrow> m = ForwarderPtr p" for m :: "('f, 'g) cached" and p
    by (cases m) auto
qed

interpretation gateways: typed_cache as_Gateway GatewayPtr
proof
  show "as_Gateway m = Some p \<longleftrightarrow> m = GatewayPtr p" for m :: "('f, 'g) cached" and p
    by (cases m) auto
qed

section \<open>What the listers answer\<close>

text \<open>
  The lister of Forwarders reads the cache faithfully. When the indexer holds Forwarders
  only, the list of a namespace has exactly the cached Forwarders of that namespace that the
  selector matches, and no error; \<^verbatim>\<open>Get\<close> returns exactly the Forwarder with
  that namespace and name, and a not-found error for the resource \<^verbatim>\<open>forwarder\<close>
  of the group when there is none.
\<close>

theorem forwarder_lister_serves:
  fixes ix :: "('s, 'f, 'g) indexer"
  assumes "indexer_laws ix nsn matches objs" and "keys_ok nsn objs"
    and "set objs \<subseteq> range ForwarderPtr" and "ns \<noteq> []" and "CHR ''/'' \<notin> set ns"
  shows "(\<exists>fs. forwarderNamespaceLister_List (forwarderLister_Forwarders (NewForwarderLister ix) ns) sel
            = Inr (fs, None) \<and>
          set fs = {f. ForwarderPtr f \<in> set objs \<and> matches sel (ForwarderPtr f) \<and>
                       fst (nsn (ForwarderPtr f)) = ns}) \<and>
    (if (ns, name) \<in> nsn ` set objs
     then \<exists>f. ForwarderPtr f \<in> set objs \<and> nsn (ForwarderPtr f) = (ns, name) \<and>
            forwarderNamespaceLister_Get (forwarderLister_Forwarders (NewForwarderLister ix) ns) name
              = Inr (Some f, None)
     else forwarderNamespaceLister_Get (forwarderLister_Forwarders (NewForwarderLister ix) ns) name
            = Inr (None, Some (NewNotFound \<lparr>gres_Group = ''submariner.io'', gres_Resource = ''forwarder''\<rparr> name)))"
proof (rule conjI)
  let ?l = "forwarderLister_Forwarders (NewForwarderLister ix) ns"
  let ?ms = "fst (ix_ListAllByNamespace ix ns sel)"
  note ixs = indexer_set [OF assms(1)]
  from ixs(2) [OF assms(4), of sel] assms(3) have "set ?ms \<subseteq> range ForwarderPtr" by auto
  then obtain fs where "foldR (append_as as_Forwarder) ?ms [] = Inr fs"
    and "set fs = {f. ForwarderPtr f \<in> set ?ms}"
    by (rule forwarders.collected)
  with ixs(2) [OF assms(4), of sel] ixs(4) [of ns sel]
  show "\<exists>fs. forwarderNamespaceLister_List ?l sel = Inr (fs, None) \<and>
      set fs = {f. ForwarderPtr f \<in> set objs \<and> matches sel (ForwarderPtr f) \<and>
                   fst (nsn (ForwarderPtr f)) = ns}"
    by (simp add: forwarderNamespaceLister_List_def forwarderLister_Forwarders_def
        NewForwarderLister_def split_beta)
next
  let ?l = "forwarderLister_Forwarders (NewForwarderLister ix) ns"
  let ?err = "Inr (None, Some (NewNotFound \<lparr>gres_Group = ''submariner.io'', gres_Resource = ''forwarder''\<rparr> name))"
  note ixget = indexer_get [OF assms(1,2,4,5), where name = name]
  note ixerr = indexer_set(5) [OF assms(1), of "ns @ ''/'' @ name"]
  note defs = forwarderNamespaceLister_Get_def forwarderLister_Forwarders_def NewForwarderLister_def
    v1alpha1_Resource_def GroupResource_def WithResource_def SchemeGroupVersion_def
  show "if (ns, name) \<in> nsn ` set objs
     then \<exists>f. ForwarderPtr f \<in> set objs \<and> nsn (ForwarderPtr f) = (ns, name) \<and>
            forwarderNamespaceLister_Get ?l name = Inr (Some f, None)
     else forwarderNamespaceLister_Get ?l name = ?err"
  proof (cases "(ns, name) \<in> nsn ` set objs")
    case True
    with assms(3) obtain f where f: "ForwarderPtr f \<in> set objs" "nsn (ForwarderPtr f) = (ns, name)"
      by force
    from ixget(1) [OF f] ixerr have "forwarderNamespaceLister_Get ?l name = Inr (Some f, None)"
      unfolding defs by (cases "ix_GetByKey ix (ns @ ''/'' @ name)") simp
    with f True show ?thesis by auto
  next
    case False
    from ixget(2) [OF False] ixerr have "forwarderNamespaceLister_Get ?l name = ?err"
      unfolding defs by (cases "ix_GetByKey ix (ns @ ''/'' @ name)") auto
    with False show ?thesis by simp
  qed
qed

text \<open>An indexer that keeps its objects in a list, as an instance of the laws.\<close>

definition list_indexer ::
  "(('f, 'g) cached \<Rightarrow> string \<times> string) \<Rightarrow> ('s \<Rightarrow> ('f, 'g) cached \<Rightarrow> bool) \<Rightarrow> ('f, 'g) cached list
     \<Rightarrow> ('s, 'f, 'g) indexer" where
  "list_indexer nsn matches objs =
     \<lparr>ix_ListAll = (\<lambda>sel. (filter (matches sel) objs, None)),
      ix_ListAllByNamespace = (\<lambda>ns sel.
        (filter (\<lambda>m. matches sel m \<and> (ns = NamespaceAll \<or> fst (nsn m) = ns)) objs, None)),
      ix_GetByKey = (\<lambda>k. (case find (\<lambda>m. metaKey (nsn m) = k) objs of
          None \<Rightarrow> (OtherObject, False) | Some m \<Rightarrow> (m, True), None))\<rparr>"

lemma list_indexer_laws: "indexer_laws (list_indexer nsn matches objs) nsn matches objs"
  by (simp add: indexer_laws_def list_indexer_def split: option.split)

definition sample_nsn :: "(string \<times> string, unit) cached \<Rightarrow> string \<times> string" where
  "sample_nsn m = (case m of ForwarderPtr f \<Rightarrow> f | _ \<Rightarrow> ([], []))"

definition sample_cache :: "(string \<times> string, unit) cached list" where
  "sample_cache = [ForwarderPtr (''ns'', ''a''), ForwarderPtr (''ns'', ''b''), ForwarderPtr (''other'', ''a'')]"

lemma forwarder_lister_serves_witness:
  "forwarderNamespaceLister_Get (forwarderLister_Forwarders
     (NewForwarderLister (list_indexer sample_nsn (\<lambda>(sel :: unit) m. True) sample_cache)) ''ns'') ''b''
   = Inr (Some (''ns'', ''b''), None)"
proof -
  have keys: "keys_ok sample_nsn sample_cache" and cached: "set sample_cache \<subseteq> range ForwarderPtr"
    and there: "(''ns'', ''b'') \<in> sample_nsn ` set sample_cache"
    by (simp_all add: keys_ok_def sample_cache_def sample_nsn_def)
  from forwarder_lister_serves
    [OF list_indexer_laws keys cached, of "''ns''" "\<lambda>(sel :: unit) m. True" "()" "''b''"] there
  obtain f where "sample_nsn (ForwarderPtr f) = (''ns'', ''b'')"
    and "forwarderNamespaceLister_Get (forwarderLister_Forwarders
       (NewForwarderLister (list_indexer sample_nsn (\<lambda>(sel :: unit) m. True) sample_cache)) ''ns'') ''b''
       = Inr (Some f, None)"
    by auto
  then show ?thesis by (simp add: sample_nsn_def)
qed

text \<open>The same for Gateways.\<close>

theorem gateway_lister_gets:
  fixes ix :: "('s, 'f, 'g) indexer"
  assumes "indexer_laws ix nsn matches objs" and "keys_ok nsn objs" and "ns \<noteq> []" and "CHR ''/'' \<notin> set ns"
    and "GatewayPtr g \<in> set objs" and "nsn (GatewayPtr g) = (ns, name)"
  shows "gatewayNamespaceLister_Get (gatewayLister_Gateways (NewGatewayLister ix) ns) name = Inr (Some g, None)"
  using indexer_get(1) [OF assms(1-4,5,6)] indexer_set(5) [OF assms(1), of "ns @ ''/'' @ name"]
  unfolding gatewayNamespaceLister_Get_def gatewayLister_Gateways_def NewGatewayLister_def
  by (cases "ix_GetByKey ix (ns @ ''/'' @ name)") simp

text \<open>A lister on the cache of the other resource panics as soon as it finds something.\<close>

theorem wrong_cache_panics:
  fixes ix :: "('s, 'f, 'g) indexer"
  assumes "indexer_laws ix nsn matches objs" and "GatewayPtr g \<in> set objs" and "matches sel (GatewayPtr g)"
  shows "forwarderLister_List (NewForwarderLister ix) sel = Inl GoPanic"
proof -
  have "GatewayPtr g \<in> set (fst (ix_ListAll ix sel))"
    using assms by (simp add: indexer_set(1) [OF assms(1)])
  then have "foldR (append_as as_Forwarder) (fst (ix_ListAll ix sel)) [] = Inl GoPanic"
    by (rule forwarders.panics) simp
  then show ?thesis by (simp add: forwarderLister_List_def NewForwarderLister_def split_beta)
qed

section \<open>What the factory answers for a resource\<close>

lemma InformerFor_again:
  "InformerFor t newFunc s = (informer, s') \<Longrightarrow> InformerFor t newFunc' s' = (informer, s')"
  by (auto simp: InformerFor_def Let_def split: prod.splits option.splits)

text \<open>
  The generic access to an informer gives the one that every other request for the type gets,
  and an unknown resource is an error that leaves the factory alone.
\<close>

theorem ForResource_shared:
  "ForResource newFwd newGw (WithResource SchemeGroupVersion ''forwarders'') s = (Some gi, s') \<Longrightarrow>
     InformerFor ''Forwarder'' newFunc s' = (gi_informer gi, s') \<and>
     gi_resource gi = v1alpha1_Resource ''forwarders''"
  "ForResource newFwd newGw (WithResource SchemeGroupVersion ''gateways'') s = (Some gi, s') \<Longrightarrow>
     InformerFor ''Gateway'' newFunc s' = (gi_informer gi, s') \<and>
     gi_resource gi = v1alpha1_Resource ''gateways''"
  by (auto simp: ForResource_def v1alpha1_Resource_def WithResource_def split: prod.splits
      dest: InformerFor_again [where newFunc' = newFunc])

lemma ForResource_unknown:
  "resource \<noteq> WithResource SchemeGroupVersion ''forwarders'' \<Longrightarrow>
   resource \<noteq> WithResource SchemeGroupVersion ''gateways'' \<Longrightarrow>
   ForResource newFwd newGw resource s = (None, s)"
  by (simp add: ForResource_def)

end
