(* ===== verification/Clientset.thy ===== *)
theory Clientset
  imports Listers
begin

text \<open>
  How a client is made from a configuration: the clientset of \<^verbatim>\<open>versioned/clientset.go\<close>
  and the client of the API group in \<^verbatim>\<open>submariner_client.go\<close>. The configuration is
  client-go's \<^verbatim>\<open>rest.Config\<close>, of which the code reads and writes the fields below;
  \<open>'rest_rest\<close> stands for the others. The constructors of client-go are the fields of
  \<open>rest_lib\<close>. Both \<^verbatim>\<open>NewForConfig\<close> work on a copy of the caller's configuration.
\<close>

section \<open>The code\<close>

record ('rl, 'qps, 'ser, 'more) rest_config =
  cfg_RateLimiter :: "'rl option"
  cfg_QPS :: 'qps
  cfg_Burst :: int
  cfg_GroupVersion :: "group_version option"
  cfg_APIPath :: string
  cfg_NegotiatedSerializer :: "'ser option"
  cfg_UserAgent :: string
  cfg_more :: 'more

record ('rl, 'qps, 'ser, 'm, 'rc, 'dc) rest_lib =
  lib_RESTClientFor :: "('rl, 'qps, 'ser, 'm) rest_config \<Rightarrow> 'rc result"
  lib_NewDiscoveryClientForConfig :: "('rl, 'qps, 'ser, 'm) rest_config \<Rightarrow> 'dc result"
  lib_NewDiscoveryClient :: "'rc \<Rightarrow> 'dc"
  lib_NewTokenBucketRateLimiter :: "'qps \<Rightarrow> int \<Rightarrow> 'rl"
  lib_DefaultKubernetesUserAgent :: string
  lib_Codecs_WithoutConversion :: 'ser

subsection \<open>The client of the API group\<close>

record 'rc submariner_client =
  smc_restClient :: 'rc

definition setConfigDefaults ::
  "('rl, 'qps, 'ser, 'm, 'rc, 'dc) rest_lib \<Rightarrow> ('rl, 'qps, 'ser, 'm) rest_config
     \<Rightarrow> ('rl, 'qps, 'ser, 'm) rest_config result" where
  "setConfigDefaults lib config =
     (let config = config\<lparr>cfg_GroupVersion := Some SchemeGroupVersion\<rparr>;
          config = config\<lparr>cfg_APIPath := ''/apis''\<rparr>;
          config = config\<lparr>cfg_NegotiatedSerializer := Some (lib_Codecs_WithoutConversion lib)\<rparr>;
          config = (if cfg_UserAgent config = []
                    then config\<lparr>cfg_UserAgent := lib_DefaultKubernetesUserAgent lib\<rparr> else config)
      in Inr config)"

definition submariner_NewForConfig ::
  "('rl, 'qps, 'ser, 'm, 'rc, 'dc) rest_lib \<Rightarrow> ('rl, 'qps, 'ser, 'm) rest_config
     \<Rightarrow> 'rc submariner_client result" where
  "submariner_NewForConfig lib c =
     rbind (setConfigDefaults lib c) (\<lambda>config.
     rbind (lib_RESTClientFor lib config) (\<lambda>client. Inr \<lparr>smc_restClient = client\<rparr>))"

text \<open>A panic is \<open>None\<close>.\<close>

definition submariner_NewForConfigOrDie ::
  "('rl, 'qps, 'ser, 'm, 'rc, 'dc) rest_lib \<Rightarrow> ('rl, 'qps, 'ser, 'm) rest_config
     \<Rightarrow> 'rc submariner_client option" where
  "submariner_NewForConfigOrDie lib c =
     (case submariner_NewForConfig lib c of Inl err \<Rightarrow> None | Inr client \<Rightarrow> Some client)"

definition submariner_New :: "'rc \<Rightarrow> 'rc submariner_client" where
  "submariner_New c = \<lparr>smc_restClient = c\<rparr>"

text \<open>The receiver may be nil.\<close>

definition submariner_RESTClient :: "'rc submariner_client option \<Rightarrow> 'rc option" where
  "submariner_RESTClient c = (case c of None \<Rightarrow> None | Some c \<Rightarrow> Some (smc_restClient c))"

definition submariner_Forwarders ::
  "('w, 'o, 'q, 'i) rest submariner_client \<Rightarrow> string \<Rightarrow> ('w, 'o, 'q, 'i) forwarders" where
  "submariner_Forwarders c namespace = newForwarders (smc_restClient c) namespace"

definition submariner_Gateways ::
  "('w, 'o, 'q, 'i) rest submariner_client \<Rightarrow> string \<Rightarrow> ('w, 'o, 'q, 'i) gateways" where
  "submariner_Gateways c namespace = newGateways (smc_restClient c) namespace"

subsection \<open>The clientset\<close>

record ('rc, 'dc) clientset =
  cs_DiscoveryClient :: 'dc
  cs_submarinerV1alpha1 :: "'rc submariner_client"

definition BurstRequired :: go_error where
  "BurstRequired = ApiError ''Burst is required to be greater than 0 when RateLimiter is not set and QPS is set to greater than 0''"

definition versioned_NewForConfig ::
  "('rl, 'qps::{zero, ord}, 'ser, 'm, 'rc, 'dc) rest_lib \<Rightarrow> ('rl, 'qps, 'ser, 'm) rest_config
     \<Rightarrow> ('rc, 'dc) clientset result" where
  "versioned_NewForConfig lib c =
     (let configShallowCopy = c
      in rbind
          (if cfg_RateLimiter configShallowCopy = None \<and> cfg_QPS configShallowCopy > 0
           then if cfg_Burst configShallowCopy \<le> 0 then Inl BurstRequired
                else Inr (configShallowCopy\<lparr>cfg_RateLimiter :=
                       Some (lib_NewTokenBucketRateLimiter lib (cfg_QPS configShallowCopy)
                               (cfg_Burst configShallowCopy))\<rparr>)
           else Inr configShallowCopy) (\<lambda>configShallowCopy.
         rbind (submariner_NewForConfig lib configShallowCopy) (\<lambda>submarinerV1alpha1.
         rbind (lib_NewDiscoveryClientForConfig lib configShallowCopy) (\<lambda>discovery.
         Inr \<lparr>cs_DiscoveryClient = discovery, cs_submarinerV1alpha1 = submarinerV1alpha1\<rparr>))))"

definition versioned_NewForConfigOrDie ::
  "('rl, 'qps, 'ser, 'm, 'rc, 'dc) rest_lib \<Rightarrow> ('rl, 'qps, 'ser, 'm) rest_config
     \<Rightarrow> ('rc, 'dc) clientset option" where
  "versioned_NewForConfigOrDie lib c =
     (case submariner_NewForConfigOrDie lib c of
        None \<Rightarrow> None
      | Some submarinerV1alpha1 \<Rightarrow>
          (case lib_NewDiscoveryClientForConfig lib c of
             Inl err \<Rightarrow> None
           | Inr discovery \<Rightarrow>
               Some \<lparr>cs_DiscoveryClient = discovery, cs_submarinerV1alpha1 = submarinerV1alpha1\<rparr>))"

definition versioned_New ::
  "('rl, 'qps, 'ser, 'm, 'rc, 'dc) rest_lib \<Rightarrow> 'rc \<Rightarrow> ('rc, 'dc) clientset" where
  "versioned_New lib c =
     \<lparr>cs_DiscoveryClient = lib_NewDiscoveryClient lib c, cs_submarinerV1alpha1 = submariner_New c\<rparr>"

definition clientset_SubmarinerV1alpha1 :: "('rc, 'dc) clientset \<Rightarrow> 'rc submariner_client" where
  "clientset_SubmarinerV1alpha1 c = cs_submarinerV1alpha1 c"

definition clientset_Discovery :: "('rc, 'dc) clientset option \<Rightarrow> 'dc option" where
  "clientset_Discovery c = (case c of None \<Rightarrow> None | Some c \<Rightarrow> Some (cs_DiscoveryClient c))"

section \<open>Which configuration the clients get\<close>

definition rate_limited ::
  "('rl, 'qps::{zero, ord}, 'ser, 'm, 'rc, 'dc) rest_lib \<Rightarrow> ('rl, 'qps, 'ser, 'm) rest_config
     \<Rightarrow> ('rl, 'qps, 'ser, 'm) rest_config" where
  "rate_limited lib c = c\<lparr>cfg_RateLimiter :=
     (if cfg_RateLimiter c = None \<and> cfg_QPS c > 0
      then Some (lib_NewTokenBucketRateLimiter lib (cfg_QPS c) (cfg_Burst c)) else cfg_RateLimiter c)\<rparr>"

definition for_api_group ::
  "('rl, 'qps, 'ser, 'm, 'rc, 'dc) rest_lib \<Rightarrow> ('rl, 'qps, 'ser, 'm) rest_config
     \<Rightarrow> ('rl, 'qps, 'ser, 'm) rest_config" where
  "for_api_group lib c = c\<lparr>
     cfg_GroupVersion := Some \<lparr>gv_Group = ''submariner.io'', gv_Version = ''v1alpha1''\<rparr>,
     cfg_APIPath := ''/apis'',
     cfg_NegotiatedSerializer := Some (lib_Codecs_WithoutConversion lib),
     cfg_UserAgent := (if cfg_UserAgent c = [] then lib_DefaultKubernetesUserAgent lib else cfg_UserAgent c)\<rparr>"

lemma setConfigDefaults_eq: "setConfigDefaults lib c = Inr (for_api_group lib c)"
  by (simp add: setConfigDefaults_def for_api_group_def SchemeGroupVersion_def Let_def)

lemma rate_limited_same: "\<not> (cfg_RateLimiter c = None \<and> cfg_QPS c > 0) \<Longrightarrow> rate_limited lib c = c"
  by (cases c) (auto simp: rate_limited_def)

lemma rbind_assoc: "rbind (rbind r f) g = rbind r (\<lambda>x. rbind (f x) g)"
  by (cases r) simp_all

text \<open>
  The clients of a clientset share one rate limit. \<^verbatim>\<open>NewForConfig\<close> refuses a rate
  without a burst before it makes anything; otherwise the client of the API group and the
  discovery client are made from the same configuration: the caller's, with one rate limiter
  filled in when the caller asks for a rate and gives none. Group, path, serializer and user
  agent are set for the API group's client and do not reach the discovery client. A
  constructor that fails is the error of the call.
\<close>

theorem clientset_rate_limit:
  fixes lib :: "('rl, 'qps::{zero, ord}, 'ser, 'm, 'rc, 'dc) rest_lib"
  shows "versioned_NewForConfig lib c =
    (if cfg_RateLimiter c = None \<and> cfg_QPS c > 0 \<and> cfg_Burst c \<le> 0 then Inl BurstRequired
     else rbind (lib_RESTClientFor lib (for_api_group lib (rate_limited lib c))) (\<lambda>rc.
          rbind (lib_NewDiscoveryClientForConfig lib (rate_limited lib c)) (\<lambda>dc.
          Inr \<lparr>cs_DiscoveryClient = dc, cs_submarinerV1alpha1 = \<lparr>smc_restClient = rc\<rparr>\<rparr>)))"
proof (cases "cfg_RateLimiter c = None \<and> cfg_QPS c > 0")
  case True
  from True show ?thesis
    by (simp add: versioned_NewForConfig_def submariner_NewForConfig_def setConfigDefaults_eq rbind_assoc)
       (simp add: rate_limited_def)
next
  case False
  from False show ?thesis
    by (auto simp: versioned_NewForConfig_def submariner_NewForConfig_def setConfigDefaults_eq rbind_assoc
        rate_limited_same)
qed

end
