(* ===== verification/EntryPoints.thy ===== *)
theory EntryPoints
  imports Clientset AgentControllers
begin

text \<open>
  How the two agents start: \<^verbatim>\<open>NewController\<close> of \<^verbatim>\<open>pkg/util/controller.go\<close>, and
  the \<^verbatim>\<open>init\<close> and \<^verbatim>\<open>main\<close> functions of \<^verbatim>\<open>forwarder/forwarder.go\<close> and
  \<^verbatim>\<open>gateway/gateway.go\<close>. A process that exits (\<^verbatim>\<open>glog.Fatalf\<close>) answers \<open>Inl\<close>.
  Logging is not modelled.
\<close>

section \<open>NewController\<close>

text \<open>
  What is wired to an informer factory, in the order in which it happens: handlers are added to
  informers, and \<^verbatim>\<open>Start\<close> starts those informers that do not run yet.
\<close>

datatype ('inf, 'h) wiring = HandlerAdded 'inf 'h | Started "(string \<times> 'inf) list"

record ('cl, 'inf, 'q, 'h) wired =
  wi_factory :: "('cl, 'inf, 'q) informers"
  wi_calls :: "('inf, 'h) wiring list"

definition AddEventHandler :: "'inf \<Rightarrow> 'h \<Rightarrow> ('cl, 'inf, 'q, 'h) wired \<Rightarrow> ('cl, 'inf, 'q, 'h) wired" where
  "AddEventHandler informer handler st = st\<lparr>wi_calls := wi_calls st @ [HandlerAdded informer handler]\<rparr>"

definition StartFactory :: "key_order \<Rightarrow> ('cl, 'inf, 'q, 'h) wired \<Rightarrow> ('cl, 'inf, 'q, 'h) wired" where
  "StartFactory ord st =
     (let s = Start ord (wi_factory st)
      in st\<lparr>wi_factory := s, wi_calls := wi_calls st @ [Started (drop (length (snd (wi_factory st))) (snd s))]\<rparr>)"

text \<open>What the controller takes from client-go: a new queue, key functions, waiting for an informer.\<close>

record ('obj, 'q, 's, 'inf) cache_lib =
  cl_NewRateLimitingQueue :: "'q workqueue"
  cl_MetaNamespaceKeyFunc :: "'obj \<Rightarrow> string result"
  cl_SplitMetaNamespaceKey :: "string \<Rightarrow> (string \<times> string) result"
  cl_WaitForCacheSync :: "'inf \<Rightarrow> 's \<Rightarrow> bool \<times> 's"

type_synonym ('obj, 'q, 's) handler = "'obj event \<Rightarrow> ('q, 's) ctl \<Rightarrow> ('q, 's) ctl"

definition NewController ::
  "key_order \<Rightarrow> ('obj, 'q, 's, 'inf) cache_lib \<Rightarrow> 'inf \<Rightarrow> (string \<Rightarrow> string \<Rightarrow> ('s, unit) io)
     \<Rightarrow> ('cl, 'inf, 'p, ('obj, 'q, 's) handler) wired
     \<Rightarrow> ('obj, 'q, 's) controller \<times> ('cl, 'inf, 'p, ('obj, 'q, 's) handler) wired" where
  "NewController ord K informer reconciler informerFactory =
     (let wq = cl_NewRateLimitingQueue K;
          controller = \<lparr>c_workqueue = wq, c_reconciler = reconciler,
            c_MetaNamespaceKeyFunc = cl_MetaNamespaceKeyFunc K,
            c_SplitMetaNamespaceKey = cl_SplitMetaNamespaceKey K,
            c_WaitForCacheSync = cl_WaitForCacheSync K informer\<rparr>;
          informerFactory = AddEventHandler informer (handleEvent controller) informerFactory;
          informerFactory = StartFactory ord informerFactory
      in (controller, informerFactory))"

section \<open>The forwarder's agent\<close>

text \<open>
  \<open>getenv\<close> is \<^verbatim>\<open>os.Getenv\<close>, \<open>config\<close> the answer of \<^verbatim>\<open>rest.InClusterConfig\<close>,
  and \<open>q\<close> the empty options of the client's calls.
\<close>

definition FORWARDER_NAMESPACE :: string where
  "FORWARDER_NAMESPACE = ''FORWARDER_NAMESPACE''"

definition FORWARDER_NAME :: string where
  "FORWARDER_NAME = ''FORWARDER_NAME''"

definition EnvRequired :: go_error where
  "EnvRequired = ApiError ''FORWARDER_NAMESPACE and FORWARDER_NAME need to be defined as environment variables''"

definition forwarder_init ::
  "(string \<Rightarrow> string) \<Rightarrow> ('rl, 'qps::{zero, ord}, 'ser, 'm) rest_config result
     \<Rightarrow> ('rl, 'qps, 'ser, 'm, ('w, 'c forwarder, 'p, 'i) rest, 'dc) rest_lib
     \<Rightarrow> ('w, 'c forwarder, 'p, 'i, 'ix, 'inf) new_informer \<Rightarrow> 'ix
     \<Rightarrow> ('obj, 'q, 'w fwd_agent, 'inf) cache_lib \<Rightarrow> key_order
     \<Rightarrow> 'p
     \<Rightarrow> 'c libs \<Rightarrow> (nat \<Rightarrow> key_order) \<Rightarrow> 'w iptables
     \<Rightarrow> (('obj, 'q, 'w fwd_agent) controller \<times> (reconciler \<times> goroutines) \<times>
         ((('w, 'c forwarder, 'p, 'i) rest, 'dc) clientset, 'inf, 'p, ('obj, 'q, 'w fwd_agent) handler) wired) result"
  where
  "forwarder_init getenv config lib mk byNamespace K ord q L ords ipt =
     (let namespace = getenv FORWARDER_NAMESPACE;
          name = getenv FORWARDER_NAME
      in if namespace = [] \<or> name = [] then Inl EnvRequired
         else rbind config (\<lambda>config.
              rbind (submariner_NewForConfig lib config) (\<lambda>cl.
              rbind (versioned_NewForConfig lib config) (\<lambda>vcl.
                let f = NewSharedInformerFactory vcl (Second * 30);
                    (informer, s) = InformerFor ''Forwarder''
                      (\<lambda>vcl. fwi_defaultInformer mk byNamespace (factory_Forwarders f)
                                (smc_restClient (clientset_SubmarinerV1alpha1 vcl))) (f, []);
                    reconciler = NewReconciler namespace name;
                    (fwd, st) = NewController ord K informer (fwd_Reconcile L ords (fwd_rest_resource L (smc_restClient cl) q) ipt)
                                  \<lparr>wi_factory = s, wi_calls = []\<rparr>
                in Inr (fwd, (reconciler, newGoroutines), st)))))"

text \<open>\<open>main\<close>, from the state that \<open>init\<close> leaves, with an empty queue \<open>q\<close> and the environment \<open>e\<close>.\<close>

definition forwarder_main ::
  "('obj, 'q, 'w fwd_agent) controller \<times> (reconciler \<times> goroutines) \<times> 'z \<Rightarrow> 'q \<Rightarrow> 'w
     \<Rightarrow> (('q, 'w fwd_agent) ctl + ('q, 'w fwd_agent) ctl) option" where
  "forwarder_main = (\<lambda>(fwd, own, st) q e.
     Run fwd \<lparr>ctl_queue = q, ctl_world = \<lparr>ag_own = own, ag_env = e\<rparr>\<rparr>)"

section \<open>The gateway's agent\<close>

text \<open>
  \<open>stringFlag name default\<close> is what \<^verbatim>\<open>flag.String\<close> gives after \<^verbatim>\<open>flag.Parse\<close>,
  \<open>join\<close> is \<^verbatim>\<open>filepath.Join\<close> and \<open>buildConfig\<close> is
  \<^verbatim>\<open>clientcmd.BuildConfigFromFlags\<close>.
\<close>

definition gateway_init ::
  "(string \<Rightarrow> string) \<Rightarrow> (string \<Rightarrow> string \<Rightarrow> string) \<Rightarrow> (string list \<Rightarrow> string)
     \<Rightarrow> (string \<Rightarrow> string \<Rightarrow> ('rl, 'qps::{zero, ord}, 'ser, 'm) rest_config result)
     \<Rightarrow> ('rl, 'qps, 'ser, 'm, ('w, 'c gateway, 'p, 'i) rest, 'dc) rest_lib
     \<Rightarrow> ('w, 'c gateway, 'p, 'i, 'ix, 'inf) new_informer \<Rightarrow> 'ix
     \<Rightarrow> ('obj, 'q, 'w gw_agent, 'inf) cache_lib \<Rightarrow> key_order
     \<Rightarrow> 'p
     \<Rightarrow> 'c libs \<Rightarrow> ('w, 'conn) gw_host
     \<Rightarrow> (('obj, 'q, 'w gw_agent) controller \<times> gw_own \<times>
         ((('w, 'c gateway, 'p, 'i) rest, 'dc) clientset, 'inf, 'p, ('obj, 'q, 'w gw_agent) handler) wired) result"
  where
  "gateway_init getenv stringFlag join buildConfig lib mk byNamespace K ord q L host =
     (let namespace = stringFlag ''namespace'' ''external-services'';
          home = getenv ''HOME'';
          kubeconfig = (if home \<noteq> [] then stringFlag ''kubeconfig'' (join [home, ''.kube'', ''config''])
                        else stringFlag ''kubeconfig'' [])
      in rbind (buildConfig [] kubeconfig) (\<lambda>config.
         rbind (submariner_NewForConfig lib config) (\<lambda>cl.
         rbind (versioned_NewForConfig lib config) (\<lambda>vcl.
           let f = NewSharedInformerFactory vcl (Second * 30);
               (informer, s) = InformerFor ''Gateway''
                 (\<lambda>vcl. gwi_defaultInformer mk byNamespace (factory_Gateways f)
                           (smc_restClient (clientset_SubmarinerV1alpha1 vcl))) (f, []);
               reconciler = gw_NewReconciler namespace;
               (g, st) = NewController ord K informer
                           (gw_Reconcile L (h_ords host) (gw_rest_resource L (smc_restClient cl) q) (h_ipt host) (gh_dial host) (gh_close host))
                           \<lparr>wi_factory = s, wi_calls = []\<rparr>
           in Inr (g, (reconciler, []), st)))))"

definition gateway_main ::
  "('obj, 'q, 'w gw_agent) controller \<times> gw_own \<times> 'z \<Rightarrow> 'q \<Rightarrow> 'w
     \<Rightarrow> (('q, 'w gw_agent) ctl + ('q, 'w gw_agent) ctl) option" where
  "gateway_main = (\<lambda>(g, own, st) q e.
     Run g \<lparr>ctl_queue = q, ctl_world = \<lparr>ag_own = own, ag_env = e\<rparr>\<rparr>)"

section \<open>How the agents are wired\<close>

lemma range_order_single: "range_order ord \<Longrightarrow> ord [k] = [k]"
  unfolding range_order_def by (metis mset_single_iff_right mset.simps)

lemma Start_one:
  assumes "range_order ord" and "fc_informers f = [(t, informer)]" and "fc_startedInformers f = []"
  shows "Start ord (f, []) = (f\<lparr>fc_startedInformers := [(t, True)]\<rparr>, [(t, informer)])"
  using assms
  by (simp add: Start_def grange_def gkeys_def range_order_single startOne_def started_def gset_def)

text \<open>A controller on a fresh factory with one informer: its handler is added, then it starts.\<close>

lemma NewController_wired:
  assumes "range_order ord" and "fc_informers f = [(t, informer)]" and "fc_startedInformers f = []"
    and "NewController ord K informer r \<lparr>wi_factory = (f, []), wi_calls = []\<rparr> = (c, st)"
  shows "wi_calls st = [HandlerAdded informer (handleEvent c), Started [(t, informer)]]"
    and "snd (wi_factory st) = [(t, informer)]" and "c_reconciler c = r"
    and "c_workqueue c = cl_NewRateLimitingQueue K"
  using assms(4)
  by (auto simp: NewController_def AddEventHandler_def StartFactory_def Start_one [OF assms(1-3)] Let_def)

lemma new_informer:
  "InformerFor t newFunc (NewSharedInformerFactory cl d, []) =
     (newFunc cl d, ((NewSharedInformerFactory cl d)\<lparr>fc_informers := [(t, newFunc cl d)]\<rparr>, []))"
  by (simp add: InformerFor_def NewSharedInformerFactory_def NewSharedInformerFactoryWithOptions_def
      gset_def Let_def)

text \<open>The environment that a pod gives to its first container; other variables come from the image.\<close>

definition pod_getenv :: "(string \<Rightarrow> string) \<Rightarrow> pod \<Rightarrow> string \<Rightarrow> string" where
  "pod_getenv imgenv p k =
     (case pod_Containers p of
        [] \<Rightarrow> imgenv k
      | ct # _ \<Rightarrow> (case map_of (map (\<lambda>e. (ev_Name e, ev_Value e)) (ct_Env ct)) k of
                     None \<Rightarrow> imgenv k | Some v \<Rightarrow> v))"

lemma pod_getenv_forwarder:
  "pod_getenv imgenv (genForwardPodSpec es) FORWARDER_NAMESPACE = ConnectorNamespace"
  "pod_getenv imgenv (genForwardPodSpec es) FORWARDER_NAME = m_Name (es_Meta es)"
  by (simp_all add: pod_getenv_def genForwardPodSpec_def FORWARDER_NAMESPACE_def FORWARDER_NAME_def Let_def)

text \<open>
  C21: The pod the operator creates starts the right agent. In the environment of the forwarder
  pod of an ExternalService, \<^verbatim>\<open>init\<close> of the forwarder does not exit (when the clients can be
  made): its reconciler starts in the state from which the properties of the agent are proved,
  and acts for exactly one key, the one under which the operator publishes the Forwarder of
  that ExternalService; the only informer that runs is the one for Forwarders, it lists and
  watches every namespace, and the controller's handler was added to it before it started.
\<close>

theorem pod_starts_its_agent:
  fixes lib :: "('rl, 'qps::{zero, ord}, 'ser, 'm, ('w, 'c forwarder, 'p, 'i) rest, 'dc) rest_lib"
    and K :: "('obj, 'q, 'w fwd_agent, 'inf) cache_lib"
  assumes name: "m_Name (es_Meta es) \<noteq> []" and ord: "range_order ord"
    and cl: "submariner_NewForConfig lib config = Inr cl" and vcl: "versioned_NewForConfig lib config = Inr vcl"
  shows "\<exists>fwd own st informer.
    forwarder_init (pod_getenv imgenv (genForwardPodSpec es)) (Inr config) lib mk byNamespace K ord q L ords ipt
      = Inr (fwd, own, st) \<and>
    c_reconciler fwd = fwd_Reconcile L ords (fwd_rest_resource L (smc_restClient cl) q) ipt \<and>
    fwd_reachable L ConnectorNamespace (m_Name (es_Meta es)) \<lparr>ag_own = own, ag_env = e\<rparr> \<and>
    fwd_mine own = (\<lambda>ns n. ns = ConnectorNamespace \<and> n = m_Name (es_Meta es)) \<and>
    wi_calls st = [HandlerAdded informer (handleEvent fwd), Started [(''Forwarder'', informer)]] \<and>
    snd (wi_factory st) = [(''Forwarder'', informer)] \<and>
    informer = NewForwarderInformer mk (smc_restClient (cs_submarinerV1alpha1 vcl)) NamespaceAll (Second * 30) byNamespace"
proof -
  let ?f = "NewSharedInformerFactory vcl (Second * 30) :: (_, 'inf, 'p) factory"
  let ?inf = "NewForwarderInformer mk (smc_restClient (cs_submarinerV1alpha1 vcl)) NamespaceAll (Second * 30) byNamespace"
  let ?own = "(NewReconciler ConnectorNamespace (m_Name (es_Meta es)), newGoroutines)"
  have new: "fwi_defaultInformer mk byNamespace (factory_Forwarders ?f)
      (smc_restClient (cs_submarinerV1alpha1 vcl)) (Second * 30) = ?inf"
    by (simp add: fwi_defaultInformer_def factory_paths NewForwarderInformer_def
        NewSharedInformerFactory_def NewSharedInformerFactoryWithOptions_def)
  obtain fwd st where run: "NewController ord K ?inf (fwd_Reconcile L ords (fwd_rest_resource L (smc_restClient cl) q) ipt)
      \<lparr>wi_factory = (?f\<lparr>fc_informers := [(''Forwarder'', ?inf)]\<rparr>, []), wi_calls = []\<rparr> = (fwd, st)"
    by fastforce
  have "ConnectorNamespace \<noteq> []" by (simp add: ConnectorNamespace_def)
  with name run cl vcl
  have "forwarder_init (pod_getenv imgenv (genForwardPodSpec es)) (Inr config) lib mk byNamespace K ord q L ords ipt
      = Inr (fwd, ?own, st)"
    by (simp add: forwarder_init_def pod_getenv_forwarder new_informer new clientset_SubmarinerV1alpha1_def Let_def)
  moreover have "fwd_mine ?own = (\<lambda>ns n. ns = ConnectorNamespace \<and> n = m_Name (es_Meta es))"
    by (auto simp: fwd_mine_def NewReconciler_def fun_eq_iff)
  moreover have "fwd_reachable L ConnectorNamespace (m_Name (es_Meta es)) \<lparr>ag_own = ?own, ag_env = e\<rparr>"
    by (rule fwd_reachable.start)
  moreover note NewController_wired [OF ord _ _ run]
  ultimately show ?thesis by (fastforce simp: new_factory)
qed

text \<open>
  The gateway's agent acts, without a flag, for the namespace in which the operator publishes,
  and serves no address yet.
\<close>

theorem gateway_starts:
  fixes lib :: "('rl, 'qps::{zero, ord}, 'ser, 'm, ('w, 'c gateway, 'p, 'i) rest, 'dc) rest_lib"
    and K :: "('obj, 'q, 'w gw_agent, 'inf) cache_lib"
  assumes ord: "range_order ord" and flag: "stringFlag ''namespace'' ''external-services'' = ''external-services''"
    and home: "getenv ''HOME'' = []"
    and config: "buildConfig [] (stringFlag ''kubeconfig'' []) = Inr config"
    and cl: "submariner_NewForConfig lib config = Inr cl" and vcl: "versioned_NewForConfig lib config = Inr vcl"
  shows "\<exists>g own st informer.
    gateway_init getenv stringFlag join buildConfig lib mk byNamespace K ord q L host = Inr (g, own, st) \<and>
    gw_mine own = (\<lambda>ns n. ns = ConnectorNamespace) \<and> snd own = [] \<and>
    wi_calls st = [HandlerAdded informer (handleEvent g), Started [(''Gateway'', informer)]] \<and>
    informer = NewGatewayInformer mk (smc_restClient (cs_submarinerV1alpha1 vcl)) NamespaceAll (Second * 30) byNamespace"
proof -
  let ?f = "NewSharedInformerFactory vcl (Second * 30) :: (_, 'inf, 'p) factory"
  let ?inf = "NewGatewayInformer mk (smc_restClient (cs_submarinerV1alpha1 vcl)) NamespaceAll (Second * 30) byNamespace"
  have new: "gwi_defaultInformer mk byNamespace (factory_Gateways ?f)
      (smc_restClient (cs_submarinerV1alpha1 vcl)) (Second * 30) = ?inf"
    by (simp add: gwi_defaultInformer_def factory_paths NewGatewayInformer_def
        NewSharedInformerFactory_def NewSharedInformerFactoryWithOptions_def)
  obtain g st where run: "NewController ord K ?inf
      (gw_Reconcile L (h_ords host) (gw_rest_resource L (smc_restClient cl) q) (h_ipt host) (gh_dial host) (gh_close host))
      \<lparr>wi_factory = (?f\<lparr>fc_informers := [(''Gateway'', ?inf)]\<rparr>, []), wi_calls = []\<rparr> = (g, st)"
    by fastforce
  have "gateway_init getenv stringFlag join buildConfig lib mk byNamespace K ord q L host
      = Inr (g, (gw_NewReconciler ''external-services'', []), st)"
    using run by (simp add: gateway_init_def flag home config cl vcl new_informer new
        clientset_SubmarinerV1alpha1_def Let_def)
  moreover have "gw_mine (gw_NewReconciler ''external-services'', []) = (\<lambda>ns n. ns = ConnectorNamespace)"
    by (auto simp: gw_mine_def gw_NewReconciler_def ConnectorNamespace_def fun_eq_iff)
  moreover note NewController_wired [OF ord _ _ run]
  ultimately show ?thesis by (fastforce simp: new_factory)
qed

end
