(* ===== verification/ManagerMain.thy ===== *)
theory ManagerMain
  imports Operator SchemeReg
begin

text \<open>
  The operator's process: \<^verbatim>\<open>cmd/manager/main.go\<close>, the registration of controllers
  (\<^verbatim>\<open>pkg/controller\<close>; that of types is \<open>SchemeReg\<close>), and the watches that
  \<^verbatim>\<open>add\<close> of \<^verbatim>\<open>externalservice_controller.go\<close> sets up. The operator SDK and
  the controller runtime are the fields of \<open>sdk\<close>; a call that fails returns its error. The
  process ends with \<open>Inl\<close> where the code calls \<^verbatim>\<open>os.Exit(1)\<close>. Flags, logging and
  \<^verbatim>\<open>printVersion\<close> are not modelled.
\<close>

section \<open>Registration\<close>

text \<open>What a watch does with an object of its kind.\<close>

datatype 'w watch_handler =
    EnqueueRequestForObject
  | PodToRequests "pod \<Rightarrow> nsname list"
  | ServiceToRequests "service \<Rightarrow> nsname list"
  | EndpointsToRequests "endpoints \<Rightarrow> ('w, nsname list) io"

record manager_options =
  mo_Namespace :: string
  mo_MetricsBindAddress :: string

text \<open>
  \<open>'mgr\<close>, \<open>'ctl\<close>, \<open>'cfg\<close>, \<open>'gvk\<close> and \<open>'svc\<close> are the manager, a
  controller, the configuration of the API server, the list of kinds and the metrics service.
  \<open>sdk_CreateMetricsService\<close> returns a service, which may be nil, and an error.
\<close>

record ('w, 'cfg, 'mgr, 'ctl, 'gvk, 'svc, 'sch, 'c) sdk =
  sdk_GetWatchNamespace :: "('w, string) io"
  sdk_GetConfig :: "('w, 'cfg) io"
  sdk_Become :: "string \<Rightarrow> ('w, unit) io"
  sdk_NewManager :: "'cfg \<Rightarrow> manager_options \<Rightarrow> ('w, 'mgr) io"
  sdk_GetScheme :: "'mgr \<Rightarrow> 'sch"
  sdk_GetClient :: "'mgr \<Rightarrow> ('w, 'c) client"
  sdk_NewController :: "string \<Rightarrow> 'mgr \<Rightarrow> (nsname \<Rightarrow> ('w, unit) io) \<Rightarrow> ('w, 'ctl) io"
  sdk_Watch :: "'ctl \<Rightarrow> 'w watch_handler \<Rightarrow> ('w, unit) io"
  sdk_Start :: "'mgr \<Rightarrow> ('w, unit) io"
  sdk_GetGVKs :: "('w, 'gvk) io"
  sdk_GetOperatorNamespace :: "('w, string) io"
  sdk_GenerateAndServeCRMetrics :: "'cfg \<Rightarrow> string list \<Rightarrow> 'gvk \<Rightarrow> string \<Rightarrow> 32 word \<Rightarrow> ('w, unit) io"
  sdk_OperatorPortName :: string
  sdk_CRPortName :: string
  sdk_isErrRunLocal :: "go_error \<Rightarrow> bool"
  sdk_CreateMetricsService :: "'cfg \<Rightarrow> service_port list \<Rightarrow> 'w \<Rightarrow> ('svc option \<times> go_error option) \<times> 'w"
  sdk_CreateServiceMonitors :: "'cfg \<Rightarrow> string \<Rightarrow> 'svc option list \<Rightarrow> ('w, unit) io"

definition add ::
  "('w, 'cfg, 'mgr, 'ctl, 'gvk, 'svc, 'sch, 'c) sdk \<Rightarrow> 'mgr \<Rightarrow> (nsname \<Rightarrow> ('w, unit) io) \<Rightarrow> ('w, unit) io" where
  "add S mgr r =
     andThen (sdk_NewController S ''externalservice-controller'' mgr r) (\<lambda>c.
     andThen (sdk_Watch S c EnqueueRequestForObject) (\<lambda>_.
     andThen (sdk_Watch S c (PodToRequests podRequests)) (\<lambda>_.
     andThen (sdk_Watch S c (ServiceToRequests serviceRequests)) (\<lambda>_.
     andThen (sdk_Watch S c (EndpointsToRequests (endpointsRequests (sdk_GetClient S mgr)))) (\<lambda>_.
     ret ())))))"

text \<open>\<^verbatim>\<open>newReconciler\<close> takes the manager's client; the orders are those of the reconciler's ranges.\<close>

definition newReconciler ::
  "('w, 'cfg, 'mgr, 'ctl, 'gvk, 'svc, 'sch, 'c) sdk \<Rightarrow> 'c libs \<Rightarrow> (nat \<Rightarrow> key_order) \<Rightarrow> (nat \<Rightarrow> key_order) \<Rightarrow> key_order
     \<Rightarrow> 'mgr \<Rightarrow> nsname \<Rightarrow> ('w, unit) io" where
  "newReconciler S L eo io go mgr = Reconcile L eo io go (sdk_GetClient S mgr)"

definition Add ::
  "('w, 'cfg, 'mgr, 'ctl, 'gvk, 'svc, 'sch, 'c) sdk \<Rightarrow> 'c libs \<Rightarrow> (nat \<Rightarrow> key_order) \<Rightarrow> (nat \<Rightarrow> key_order) \<Rightarrow> key_order
     \<Rightarrow> 'mgr \<Rightarrow> ('w, unit) io" where
  "Add S L eo io go mgr = add S mgr (newReconciler S L eo io go mgr)"

text \<open>\<^verbatim>\<open>AddToManagerFuncs\<close> after \<^verbatim>\<open>init\<close>, and \<^verbatim>\<open>AddToManager\<close>.\<close>

definition AddToManager :: "('mgr \<Rightarrow> ('w, unit) io) list \<Rightarrow> 'mgr \<Rightarrow> ('w, unit) io" where
  "AddToManager fs m = foldE (\<lambda>f _. f m) fs ()"

definition AddToManagerFuncs ::
  "('w, 'cfg, 'mgr, 'ctl, 'gvk, 'svc, 'sch, 'c) sdk \<Rightarrow> 'c libs \<Rightarrow> (nat \<Rightarrow> key_order) \<Rightarrow> (nat \<Rightarrow> key_order) \<Rightarrow> key_order
     \<Rightarrow> ('mgr \<Rightarrow> ('w, unit) io) list" where
  "AddToManagerFuncs S L eo io go = [Add S L eo io go]"

section \<open>Metrics\<close>

definition metricsHost :: string where "metricsHost = ''0.0.0.0''"

definition metricsPort :: "32 word" where "metricsPort = 8383"

definition operatorMetricsPort :: "32 word" where "operatorMetricsPort = 8686"

definition serveCRMetrics :: "('w, 'cfg, 'mgr, 'ctl, 'gvk, 'svc, 'sch, 'c) sdk \<Rightarrow> 'cfg \<Rightarrow> ('w, unit) io" where
  "serveCRMetrics S cfg =
     andThen (sdk_GetGVKs S) (\<lambda>filteredGVK.
     andThen (sdk_GetOperatorNamespace S) (\<lambda>operatorNs.
     andThen (sdk_GenerateAndServeCRMetrics S cfg [operatorNs] filteredGVK metricsHost operatorMetricsPort) (\<lambda>_.
     ret ())))"

definition servicePorts :: "('w, 'cfg, 'mgr, 'ctl, 'gvk, 'svc, 'sch, 'c) sdk \<Rightarrow> service_port list" where
  "servicePorts S =
     [\<lparr>sp_Name = sdk_OperatorPortName S, sp_Protocol = ''TCP'', sp_Port = metricsPort,
       sp_TargetPort = IntVal metricsPort\<rparr>,
      \<lparr>sp_Name = sdk_CRPortName S, sp_Protocol = ''TCP'', sp_Port = operatorMetricsPort,
       sp_TargetPort = IntVal operatorMetricsPort\<rparr>]"

text \<open>Every error ends in the log; the service is passed on even when it is nil.\<close>

definition addMetrics :: "('w, 'cfg, 'mgr, 'ctl, 'gvk, 'svc, 'sch, 'c) sdk \<Rightarrow> 'cfg \<Rightarrow> string \<Rightarrow> ('w, unit) io" where
  "addMetrics S cfg namespace =
     andThen (attempt (serveCRMetrics S cfg)) (\<lambda>r.
     if (case r of Inl err \<Rightarrow> sdk_isErrRunLocal S err | Inr _ \<Rightarrow> False) then ret ()
     else (\<lambda>w. let ((service, err), w) = sdk_CreateMetricsService S cfg (servicePorts S) w;
                   services = [service]
               in andThen (attempt (sdk_CreateServiceMonitors S cfg namespace services)) (\<lambda>_. ret ()) w))"

section \<open>main\<close>

definition manager_main ::
  "('w, 'cfg, 'mgr, 'ctl, 'gvk, 'svc, 'sch, 'c) sdk \<Rightarrow> ('w, 'sch, 'b, 'cod, 'pc) scheme_lib \<Rightarrow> 'c libs
     \<Rightarrow> (nat \<Rightarrow> key_order) \<Rightarrow> (nat \<Rightarrow> key_order) \<Rightarrow> key_order \<Rightarrow> ('w, unit) io" where
  "manager_main S SL L eo io go =
     andThen (sdk_GetWatchNamespace S) (\<lambda>namespace.
     andThen (sdk_GetConfig S) (\<lambda>cfg.
     andThen (sdk_Become S ''k8s-ext-connector-lock'') (\<lambda>_.
     andThen (sdk_NewManager S cfg
        \<lparr>mo_Namespace = namespace, mo_MetricsBindAddress = metricsHost @ '':'' @ Itoa (sint metricsPort)\<rparr>) (\<lambda>mgr.
     andThen (apis_AddToScheme SL (sdk_GetScheme S mgr)) (\<lambda>_.
     andThen (AddToManager (AddToManagerFuncs S L eo io go) mgr) (\<lambda>_.
     andThen (addMetrics S cfg namespace) (\<lambda>_.
     sdk_Start S mgr)))))))"

section \<open>The operator starts only when it is registered\<close>

definition operator_watches :: "('w, 'c) client \<Rightarrow> 'w watch_handler list" where
  "operator_watches cl =
     [EnqueueRequestForObject, PodToRequests podRequests, ServiceToRequests serviceRequests,
      EndpointsToRequests (endpointsRequests cl)]"

text \<open>
  \<open>watches\<close> sees the watches that were set up, \<open>starts\<close> how often a manager was
  started, and \<open>kinds\<close> what the schemes know. Only \<^verbatim>\<open>Watch\<close> and
  \<^verbatim>\<open>Start\<close> change the first two, and a watch that fails is not set up. The scheme
  of a new manager knows nothing of the API group.
\<close>

definition sdk_laws ::
  "('w, 'cfg, 'mgr, 'ctl, 'gvk, 'svc, 'sch, 'c) sdk \<Rightarrow> ('w \<Rightarrow> 'w watch_handler list) \<Rightarrow> ('w \<Rightarrow> nat)
     \<Rightarrow> ('w \<Rightarrow> 'sch \<Rightarrow> group_version_kind \<rightharpoonup> go_type) \<Rightarrow> bool" where
  "sdk_laws S watches starts kinds \<longleftrightarrow>
     (let v = (\<lambda>w. (watches w, starts w, kinds w)) in
      quiet v (sdk_GetWatchNamespace S) \<and> quiet v (sdk_GetConfig S) \<and> (\<forall>l. quiet v (sdk_Become S l)) \<and>
      (\<forall>cfg opts. quiet (\<lambda>w. (watches w, starts w)) (sdk_NewManager S cfg opts)) \<and>
      (\<forall>cfg opts w mgr w'. sdk_NewManager S cfg opts w = (Inr mgr, w') \<longrightarrow>
         unknown (kinds w' (sdk_GetScheme S mgr)) SchemeGroupVersion) \<and>
      (\<forall>n mgr r. quiet v (sdk_NewController S n mgr r)) \<and>
      quiet v (sdk_GetGVKs S) \<and> quiet v (sdk_GetOperatorNamespace S) \<and>
      (\<forall>cfg ns gvk h p. quiet v (sdk_GenerateAndServeCRMetrics S cfg ns gvk h p)) \<and>
      (\<forall>cfg ps w. v (snd (sdk_CreateMetricsService S cfg ps w)) = v w) \<and>
      (\<forall>cfg ns svcs. quiet v (sdk_CreateServiceMonitors S cfg ns svcs)) \<and>
      (\<forall>c h w r w' mgr. sdk_Watch S c h w = (r, w') \<and> h \<in> set (operator_watches (sdk_GetClient S mgr)) \<longrightarrow>
         starts w' = starts w \<and> kinds w' = kinds w \<and>
         watches w' = (case r of Inl _ \<Rightarrow> watches w | Inr _ \<Rightarrow> watches w @ [h])))"

text \<open>Metrics never stop the operator, nor do they touch what is registered.\<close>

lemma addMetrics_never_fails: "fst (addMetrics S cfg namespace w) = Inr ()"
  by (simp add: addMetrics_def io_eval Let_def split: prod.split sum.split)

lemma wp_quiet_step:
  assumes "quiet v m" and "v w = v w0"
    and "\<And>x w1. v w1 = v w0 \<Longrightarrow> wp (f x) Q E w1" and "\<And>e w1. v w1 = v w0 \<Longrightarrow> E e w1"
  shows "wp (andThen m f) Q E w"
proof -
  have "v (snd (m w)) = v w0" using assms(1,2) by (simp add: quiet_def)
  with assms(3,4) show ?thesis by (cases "m w") (auto simp: wp_def andThen_def split: sum.split)
qed

lemma quiet_addMetrics:
  assumes "sdk_laws S watches starts kinds"
  shows "quiet (\<lambda>w. (watches w, starts w, kinds w)) (addMetrics S cfg ns)"
proof -
  let ?v = "\<lambda>w. (watches w, starts w, kinds w)"
  note laws = assms [unfolded sdk_laws_def Let_def]
  have serve: "quiet ?v (serveCRMetrics S cfg)"
    unfolding serveCRMetrics_def using laws by (intro quiet_andThen quiet_ret) simp_all
  have tail: "quiet ?v (andThen (attempt (sdk_CreateServiceMonitors S cfg ns svcs)) (\<lambda>_. ret ()))" for svcs
    using laws by (intro quiet_andThen quiet_attempt quiet_ret) simp_all
  have create: "?v (snd (sdk_CreateMetricsService S cfg ps w)) = ?v w" for ps w using laws by simp
  have "quiet ?v (\<lambda>w. let ((service, err), w) = sdk_CreateMetricsService S cfg (servicePorts S) w;
      services = [service]
    in andThen (attempt (sdk_CreateServiceMonitors S cfg ns services)) (\<lambda>_. ret ()) w)"
    unfolding quiet_def
  proof
    fix w
    obtain svc err w1 where c: "sdk_CreateMetricsService S cfg (servicePorts S) w = ((svc, err), w1)"
      by (metis prod.exhaust)
    with create [of "servicePorts S" w] have "?v w1 = ?v w" by simp
    moreover have "?v (snd (andThen (attempt (sdk_CreateServiceMonitors S cfg ns [svc])) (\<lambda>_. ret ()) w1)) = ?v w1"
      using tail by (simp add: quiet_def)
    ultimately show "?v (snd (let ((service, err), w) = sdk_CreateMetricsService S cfg (servicePorts S) w;
          services = [service]
        in andThen (attempt (sdk_CreateServiceMonitors S cfg ns services)) (\<lambda>_. ret ()) w)) = ?v w"
      by (simp only: c Let_def prod.case)
  qed
  then show ?thesis
    unfolding addMetrics_def by (intro quiet_andThen quiet_attempt serve) (simp split: if_split)
qed

lemma add_registers:
  assumes laws: "sdk_laws S watches starts kinds"
  shows "wp (add S mgr r)
    (\<lambda>_ w'. starts w' = starts w \<and> kinds w' = kinds w \<and> watches w' = watches w @ operator_watches (sdk_GetClient S mgr))
    (\<lambda>_ w'. starts w' = starts w) w"
proof -
  let ?v = "\<lambda>w. (watches w, starts w, kinds w)"
  have new: "quiet ?v (sdk_NewController S n mgr r)" for n using laws by (simp add: sdk_laws_def Let_def)
  have step: "wp (andThen (sdk_Watch S c h) f) Q (\<lambda>_ w'. starts w' = starts w) w1"
    if "h \<in> set (operator_watches (sdk_GetClient S mgr))" and "starts w1 = starts w" and "kinds w1 = kinds w"
      and "\<And>x w2. starts w2 = starts w \<Longrightarrow> kinds w2 = kinds w \<Longrightarrow> watches w2 = watches w1 @ [h] \<Longrightarrow>
             wp (f x) Q (\<lambda>_ w'. starts w' = starts w) w2"
    for c h f Q and w1 :: 'a
  proof (cases "sdk_Watch S c h w1")
    case (Pair r w2)
    with laws that(1) have "starts w2 = starts w1" and "kinds w2 = kinds w1"
      and "watches w2 = (case r of Inl _ \<Rightarrow> watches w1 | Inr _ \<Rightarrow> watches w1 @ [h])"
      unfolding sdk_laws_def Let_def by blast+
    with Pair that show ?thesis by (simp add: wp_andThen wp_def [of "sdk_Watch S c h"] split: sum.splits)
  qed
  show ?thesis
    unfolding add_def
    by (rule wp_quiet_step [OF new HOL.refl]; (intro step)?)
       (auto simp: wp_ret operator_watches_def)
qed

text \<open>
  C22: The operator starts only when it is registered. Either \<^verbatim>\<open>main\<close> ends as the
  start of the manager does, and before that start exactly four watches were set up, for
  ExternalServices, pods, services and endpoints, with the functions that compute their
  requests, and the manager's scheme knows every type of the API group; or the process exits
  with an error and no manager was started. A failure of the metrics is neither.
\<close>

theorem manager_starts_registered:
  assumes "sdk_laws S watches starts kinds" and "scheme_laws SL regs kinds (\<lambda>w. (watches w, starts w))"
    and "manager_main S SL L eo io go w = (r, w')"
  shows "(\<exists>mgr w1. sdk_Start S mgr w1 = (r, w') \<and> starts w1 = starts w \<and>
            watches w1 = watches w @ [EnqueueRequestForObject, PodToRequests podRequests,
              ServiceToRequests serviceRequests, EndpointsToRequests (endpointsRequests (sdk_GetClient S mgr))] \<and>
            knows_api (kinds w1 (sdk_GetScheme S mgr))) \<or>
         (\<exists>e. r = Inl e) \<and> starts w' = starts w"
proof -
  let ?v = "\<lambda>w. (watches w, starts w, kinds w)" and ?u = "\<lambda>w. (watches w, starts w)"
  let ?done = "\<lambda>mgr w1. starts w1 = starts w \<and> watches w1 = watches w @ operator_watches (sdk_GetClient S mgr) \<and>
      knows_api (kinds w1 (sdk_GetScheme S mgr))"
  let ?E = "\<lambda>e w'. (\<exists>mgr w1. sdk_Start S mgr w1 = (Inl e, w') \<and> ?done mgr w1) \<or> starts w' = starts w"
  let ?Q = "\<lambda>x w'. \<exists>mgr w1. sdk_Start S mgr w1 = (Inr (), w') \<and> ?done mgr w1"
  note laws = assms(1) [unfolded sdk_laws_def Let_def]
  have q: "quiet ?v (sdk_GetWatchNamespace S)" "quiet ?v (sdk_GetConfig S)" "quiet ?v (sdk_Become S l)" for l
    using laws by simp_all
  note metrics = quiet_addMetrics [OF assms(1)]
  have run: "wp (sdk_Start S mgr) ?Q ?E w1" if "?done mgr w1" for mgr w1
    using that unfolding wp_def by (cases "sdk_Start S mgr w1"; cases "fst (sdk_Start S mgr w1)") auto
  have start: "wp (andThen (addMetrics S cfg ns) (\<lambda>_. sdk_Start S mgr)) ?Q ?E w1" if "?done mgr w1" for cfg ns mgr w1
    by (rule wp_quiet_step [OF metrics HOL.refl]) (use that in \<open>simp_all add: run\<close>)
  have reg: "wp (andThen (AddToManager (AddToManagerFuncs S L eo io go) mgr)
      (\<lambda>_. andThen (addMetrics S cfg ns) (\<lambda>_. sdk_Start S mgr))) ?Q ?E w1"
    if "?u w1 = ?u w" and "knows_api (kinds w1 (sdk_GetScheme S mgr))" for cfg ns mgr w1
    using that add_registers [OF assms(1), of mgr "newReconciler S L eo io go mgr" w1]
    by (auto simp: AddToManager_def AddToManagerFuncs_def Add_def wp_andThen [of "andThen _ _"] wp_andThen [of "add _ _ _"]
        wp_ret elim!: wp_mono intro!: start)
  have types: "wp (andThen (apis_AddToScheme SL (sdk_GetScheme S mgr)) (\<lambda>_.
      andThen (AddToManager (AddToManagerFuncs S L eo io go) mgr)
        (\<lambda>_. andThen (addMetrics S cfg ns) (\<lambda>_. sdk_Start S mgr)))) ?Q ?E w1"
    if "?u w1 = ?u w" and "unknown (kinds w1 (sdk_GetScheme S mgr)) SchemeGroupVersion" for cfg ns mgr w1
  proof -
    from apis_AddToScheme_runs(1) [where kinds = kinds and s = "sdk_GetScheme S mgr", OF assms(2) that(2)]
    obtain w2 where w2: "apis_AddToScheme SL (sdk_GetScheme S mgr) w1 = (Inr (), w2)"
      and known: "knows_api (kinds w2 (sdk_GetScheme S mgr))" by blast
    moreover have "?u w2 = ?u w1" using quietD [OF apis_AddToScheme_runs(2) [OF assms(2)] w2] .
    ultimately show ?thesis using reg [of w2 mgr] that(1)
      by (simp add: wp_andThen wp_def [of "apis_AddToScheme SL (sdk_GetScheme S mgr)"])
  qed
  have manager: "wp (andThen (sdk_NewManager S cfg opts) (\<lambda>mgr. andThen (apis_AddToScheme SL (sdk_GetScheme S mgr)) (\<lambda>_.
      andThen (AddToManager (AddToManagerFuncs S L eo io go) mgr)
        (\<lambda>_. andThen (addMetrics S cfg ns) (\<lambda>_. sdk_Start S mgr))))) ?Q ?E w1"
    if "?u w1 = ?u w" for cfg opts ns w1
  proof (cases "sdk_NewManager S cfg opts w1")
    case (Pair r w2)
    have "quiet ?u (sdk_NewManager S cfg opts)" using laws by simp
    from quietD [OF this Pair] that have "?u w2 = ?u w" by simp
    moreover have "unknown (kinds w2 (sdk_GetScheme S mgr)) SchemeGroupVersion" if "r = Inr mgr" for mgr
      using laws Pair that by simp
    ultimately show ?thesis
      using types [of w2] Pair by (auto simp: wp_andThen wp_def [of "sdk_NewManager S cfg opts"] split: sum.split)
  qed
  have "wp (manager_main S SL L eo io go) ?Q ?E w"
    unfolding manager_main_def
    by (rule wp_quiet_step [OF q(1) HOL.refl] wp_quiet_step [OF q(2)] wp_quiet_step [OF q(3)] manager; simp)+ simp_all
  with assms(3) show ?thesis
    by (auto simp: wp_def operator_watches_def split: sum.splits)
qed

end
