(* ===== verification/EntryRuns.thy ===== *)
theory EntryRuns
  imports EntryPoints ManagerMain ClientRuns
begin

text \<open>
  The processes started on concrete libraries: the witnesses of \<open>EntryPoints\<close> and
  \<open>ManagerMain\<close>.
\<close>

section \<open>An agent's process\<close>

text \<open>A library that makes clients of the in-memory server, and informers that are numbers.\<close>

definition env_config :: "(unit, int, unit, unit) rest_config" where
  "env_config =
     \<lparr>cfg_RateLimiter = None, cfg_QPS = 5, cfg_Burst = 10, cfg_GroupVersion = None, cfg_APIPath = [],
      cfg_NegotiatedSerializer = None, cfg_UserAgent = [], cfg_more = ()\<rparr>"

definition env_lib :: "(unit, int, unit, unit, (env, test_conds forwarder, unit, unit) rest, unit) rest_lib" where
  "env_lib =
     \<lparr>lib_RESTClientFor = (\<lambda>c. if cfg_APIPath c = ''/apis'' \<and> cfg_RateLimiter c \<in> {None, Some ()}
        then Inr fwd_rest else Inl NotFound),
      lib_NewDiscoveryClientForConfig = (\<lambda>c. Inr ()), lib_NewDiscoveryClient = (\<lambda>_. ()),
      lib_NewTokenBucketRateLimiter = (\<lambda>_ _. ()), lib_DefaultKubernetesUserAgent = ''agent'',
      lib_Codecs_WithoutConversion = ()\<rparr>"

definition env_cache :: "(nsname, mem_queue, env fwd_agent, nat) cache_lib" where
  "env_cache =
     \<lparr>cl_NewRateLimitingQueue = mem_wq,
      cl_MetaNamespaceKeyFunc = (\<lambda>n. Inr (nn_Namespace n @ ''/'' @ nn_Name n)),
      cl_SplitMetaNamespaceKey = split_key, cl_WaitForCacheSync = (\<lambda>_ s. (True, s))\<rparr>"

theorem pod_starts_its_agent_witness:
  "\<exists>fwd own st. forwarder_init (pod_getenv (\<lambda>_. []) (genForwardPodSpec test_es)) (Inr env_config) env_lib
        (\<lambda>_ _ _ _. 7) () env_cache rev () map_libs (\<lambda>_. rev) env_ipt = Inr (fwd, own, st) \<and>
     fwd_mine own ''external-services'' ''es1'' \<and> snd (wi_factory st) = [(''Forwarder'', 7)] \<and>
     length (wi_calls st) = 2"
proof -
  have name: "m_Name (es_Meta test_es) = ''es1''" by (simp add: test_es_def)
  then have nonempty: "m_Name (es_Meta test_es) \<noteq> []" by simp
  have cl: "submariner_NewForConfig env_lib env_config = Inr \<lparr>smc_restClient = fwd_rest\<rparr>"
    and vcl: "versioned_NewForConfig env_lib env_config =
      Inr \<lparr>cs_DiscoveryClient = (), cs_submarinerV1alpha1 = \<lparr>smc_restClient = fwd_rest\<rparr>\<rparr>"
    by (simp_all add: versioned_NewForConfig_def submariner_NewForConfig_def setConfigDefaults_def
        env_lib_def env_config_def Let_def)
  from pod_starts_its_agent [OF nonempty range_order_rev cl vcl, of "\<lambda>_. []" "\<lambda>_ _ _ _. 7" "()" env_cache
      "()" map_libs "\<lambda>_. rev" env_ipt env0]
  show ?thesis unfolding name ConnectorNamespace_def 
    by (auto simp: fun_eq_iff NewForwarderInformer_def NewFilteredForwarderInformer_def)
qed

section \<open>The operator's process\<close>

text \<open>
  The world counts the starts, and has the numbers of the watches that were set up and the
  schemes; serving metrics and making their service fail.
\<close>

type_synonym op_world = "nat \<times> nat list \<times> schemes"

definition failing_resource :: "(op_world, 'o) resource" where
  "failing_resource =
     \<lparr>res_Get = (\<lambda>_. fail NotFound), res_List = fail NotFound, res_Create = (\<lambda>_. fail NotFound),
      res_Update = (\<lambda>_. fail NotFound), res_StatusUpdate = (\<lambda>_. fail NotFound), res_Delete = (\<lambda>_. fail NotFound)\<rparr>"

definition op_client :: "(op_world, test_conds) client" where
  "op_client =
     \<lparr>cl_ExternalServices = failing_resource, cl_Pods = failing_resource, cl_Services = failing_resource,
      cl_Endpoints = failing_resource, cl_Forwarders = failing_resource, cl_Gateways = failing_resource\<rparr>"

definition watch_number :: "op_world watch_handler \<Rightarrow> nat" where
  "watch_number h =
     (case h of EnqueueRequestForObject \<Rightarrow> 0 | PodToRequests _ \<Rightarrow> 1 | ServiceToRequests _ \<Rightarrow> 2
      | EndpointsToRequests _ \<Rightarrow> 3)"

definition op_watches :: "op_world \<Rightarrow> op_world watch_handler list" where
  "op_watches w = map (\<lambda>n. operator_watches op_client ! n) (fst (snd w))"

definition op_kinds :: "op_world \<Rightarrow> nat \<Rightarrow> group_version_kind \<rightharpoonup> go_type" where
  "op_kinds w = kinds_of (snd (snd w))"

text \<open>The schemes of \<open>list_scheme\<close> as a part of this world.\<close>

definition op_scheme :: "(op_world, nat, group_version \<times> go_type list, nat, nat) scheme_lib" where
  "op_scheme =
     \<lparr>sl_NewScheme = (\<lambda>(n, ws, w). let (s, w) = sl_NewScheme list_scheme w in (s, n, ws, w)),
      sl_NewCodecFactory = id, sl_NewParameterCodec = id,
      sl_Builder = sl_Builder list_scheme, sl_Register = sl_Register list_scheme,
      sl_BuilderAddToScheme = (\<lambda>b s (n, ws, w). let (r, w) = sl_BuilderAddToScheme list_scheme b s w in (r, n, ws, w)),
      sl_AddToScheme = (\<lambda>fs s. foldE (\<lambda>f _. f s) fs ()),
      sl_AddToGroupVersion = (\<lambda>s gv w. w), sl_Must = sl_Must list_scheme\<rparr>"

lemma op_scheme_laws: "scheme_laws op_scheme id op_kinds (\<lambda>w. (op_watches w, fst w))"
  unfolding scheme_laws_def
proof (intro conjI allI impI)
  fix b :: "group_version \<times> go_type list" and s and w :: op_world
  assume *: "unknown (op_kinds w s) (fst (id b)) \<and> distinct (map type_Name (snd (id b)))"
  obtain n ws u where w: "w = (n, ws, u)" by (cases w)
  from * have "unknown (kinds_of u s) (fst (id b))" and "distinct (map type_Name (snd (id b)))"
    by (simp_all add: op_kinds_def w)
  from scheme_lawsD(5) [OF list_scheme_laws this] obtain u' where
    "sl_BuilderAddToScheme list_scheme b s u = (Inr (), u')" "kinds_of u s \<subseteq>\<^sub>m kinds_of u' s"
    "\<forall>t \<in> set (snd (id b)). kinds_of u' s (WithKind (fst (id b)) t) = Some t" by blast
  then show "\<exists>w'. sl_BuilderAddToScheme op_scheme b s w = (Inr (), w') \<and> op_kinds w s \<subseteq>\<^sub>m op_kinds w' s \<and>
      (\<forall>t \<in> set (snd (id b)). op_kinds w' s (WithKind (fst (id b)) t) = Some t)"
    by (intro exI [of _ "(n, ws, u')"]) (simp add: op_scheme_def w op_kinds_def)
qed (auto simp: op_scheme_def op_kinds_def list_scheme_def kinds_of_def quiet_def op_watches_def split_beta)

definition op_sdk :: "(op_world, unit, nat, unit, unit, unit, nat, test_conds) sdk" where
  "op_sdk =
     \<lparr>sdk_GetWatchNamespace = ret [], sdk_GetConfig = ret (), sdk_Become = (\<lambda>_. ret ()),
      sdk_NewManager = (\<lambda>_ _ w. let (s, w) = sl_NewScheme op_scheme w in (Inr s, w)),
      sdk_GetScheme = id, sdk_GetClient = (\<lambda>_. op_client),
      sdk_NewController = (\<lambda>_ _ _. ret ()),
      sdk_Watch = (\<lambda>_ h (n, ws, u). (Inr (), (n, ws @ [watch_number h], u))),
      sdk_Start = (\<lambda>_ (n, w). (Inr (), (Suc n, w))),
      sdk_GetGVKs = ret (), sdk_GetOperatorNamespace = fail NotFound,
      sdk_GenerateAndServeCRMetrics = (\<lambda>_ _ _ _ _. ret ()),
      sdk_OperatorPortName = ''http-metrics'', sdk_CRPortName = ''cr-metrics'', sdk_isErrRunLocal = (\<lambda>_. False),
      sdk_CreateMetricsService = (\<lambda>_ _ w. ((None, Some NotFound), w)),
      sdk_CreateServiceMonitors = (\<lambda>_ _ _. fail NotFound)\<rparr>"

lemma op_sdk_laws: "sdk_laws op_sdk op_watches fst op_kinds"
proof -
  have "operator_watches op_client ! watch_number h = h" if "h \<in> set (operator_watches op_client)" for h
    using that by (auto simp: operator_watches_def watch_number_def)
  moreover have "unknown (op_kinds w' mgr) SchemeGroupVersion"
    if "sdk_NewManager op_sdk cfg opts w = (Inr mgr, w')" for cfg opts w mgr w'
    using scheme_lawsD(3) [OF op_scheme_laws, of w] that
    by (auto simp: op_sdk_def unknown_def Let_def split: prod.splits)
  moreover have "quiet (\<lambda>w. (op_watches w, fst w)) (sdk_NewManager op_sdk cfg opts)" for cfg opts
    by (auto simp: quiet_def op_sdk_def op_scheme_def op_watches_def Let_def split_beta)
  moreover have "sdk_GetScheme op_sdk = id" by (simp add: op_sdk_def)
  ultimately show ?thesis
    unfolding sdk_laws_def Let_def
    by (intro conjI allI impI)
       (auto simp: op_sdk_def quiet_ret quiet_fail op_watches_def op_kinds_def)
qed

theorem manager_starts_registered_witness:
  "\<exists>mgr w1 w'. sdk_Start op_sdk mgr w1 = (Inr (), w') \<and>
     op_watches w1 = [EnqueueRequestForObject, PodToRequests podRequests, ServiceToRequests serviceRequests,
       EndpointsToRequests (endpointsRequests op_client)] \<and>
     op_kinds w1 mgr (WithKind SchemeGroupVersion TExternalService) = Some TExternalService"
proof -
  have run: "\<exists>w'. manager_main op_sdk op_scheme map_libs (\<lambda>_. rev) (\<lambda>_. rev) rev (0, [], (0, [])) = (Inr (), w')"
    by (simp add: manager_main_def op_sdk_def AddToManager_def AddToManagerFuncs_def Add_def add_def
        addMetrics_def serveCRMetrics_def io_eval apis_AddToScheme_def AddToSchemes_def op_scheme_def list_scheme_def
        Let_def split_beta)
  then obtain w' where
    "manager_main op_sdk op_scheme map_libs (\<lambda>_. rev) (\<lambda>_. rev) rev (0, [], (0, [])) = (Inr (), w')" ..
  from manager_starts_registered [OF op_sdk_laws op_scheme_laws this] obtain mgr w1 where
    "sdk_Start op_sdk mgr w1 = (Inr (), w')"
    "op_watches w1 = op_watches (0, [], 0, []) @ [EnqueueRequestForObject, PodToRequests podRequests,
       ServiceToRequests serviceRequests, EndpointsToRequests (endpointsRequests (sdk_GetClient op_sdk mgr))]"
    "knows_api (op_kinds w1 (sdk_GetScheme op_sdk mgr))" by blast
  moreover have "op_watches (0, [], 0, []) = []" "sdk_GetClient op_sdk mgr = op_client" "sdk_GetScheme op_sdk mgr = mgr"
    by (simp_all add: op_watches_def op_sdk_def)
  ultimately show ?thesis
    by (intro exI [of _ mgr] exI [of _ w1] exI [of _ w']) (simp add: knows_api_def api_types_def)
qed

end
