(* ===== verification/TrafficPath.thy ===== *)
theory TrafficPath
  imports AgentControllers
begin

text \<open>
  The way of the traffic, through the rules of both agents: what the operator generated, the
  forwarder and the gateway have applied, and the tunnels between them fit together.

  The two ends of a tunnel meet in the ssh library: \<open>payload laddr raddr\<close> is the request that
  its client sends when \<^verbatim>\<open>DialTCP\<close> is called with these addresses, and
  \<open>payload_laws\<close> is what RFC 4254, section 7.2 makes of it for IPv4 addresses.
\<close>

definition payload_laws :: "(tcp_addr \<Rightarrow> tcp_addr \<Rightarrow> channel_data) \<Rightarrow> bool" where
  "payload_laws payload \<longleftrightarrow>
     (\<forall>a b c d p a' b' c' d' p'.
        payload \<lparr>addr_IP = Some (v4InV6Prefix @ [a, b, c, d]), addr_Port = p\<rparr>
                \<lparr>addr_IP = Some (v4InV6Prefix @ [a', b', c', d']), addr_Port = p'\<rparr> =
          \<lparr>DestAddr = dotted a' b' c' d', DestPort = word_of_int p',
           OriginAddr = dotted a b c d, OriginPort = word_of_int p\<rparr>)"

text \<open>A tunnel whose server and listener are up forwards what it accepts.\<close>

lemma Forward_loop:
  assumes "net_DialServer net (tun_server t) w = (Inr (), w1)" and "net_Listen net (tun_local t) w1 = (Inr (), w2)"
    and "toTCPAddr (tun_server t) True = Inr laddr" and "toTCPAddr (tun_remote t) False = Inr raddr"
  shows "Forward net t w = map_option (\<lambda>(err, w'). (err, net_CloseServer net (net_CloseListener net w')))
    (acceptLoop (net_done net) (net_tick net) (net_Accept net) (net_DialTCP net laddr raddr)
       (net_CloseConn net) (net_serve net) (tun_context t) w2)"
  by (simp add: Forward_def assms option.map_comp comp_def split_def)

lemma RemoteForward_loop:
  assumes "net_DialServer net (tun_server t) w = (Inr (), w1)"
    and "net_ListenRemote net (tun_remote t) w1 = (Inr (), w2)"
  shows "RemoteForward net t w = map_option (\<lambda>(err, w'). (err, net_CloseServer net (net_CloseListener net w')))
    (acceptLoop (net_done net) (net_tick net) (net_Accept net) (net_Dial net (tun_local t))
       (net_CloseConn net) (net_serve net) (tun_context t) w2)"
  by (simp add: RemoteForward_def assms option.map_comp comp_def split_def)

text \<open>The tunnel of a key in a table.\<close>

lemma table_tunnel:
  assumes "tbl_ok tbl go" and "tunnelKey a b c d e f \<in> dom (map_of tbl)"
    and "\<forall>x \<in> {a, b, c, d, e, f}. CHR '':'' \<notin> set x"
  shows "\<exists>t \<in> ran (map_of tbl). tun_local t = a @ '':'' @ b \<and> tun_server t = c @ '':'' @ d \<and>
    tun_remote t = e @ '':'' @ f \<and> tun_context t \<notin> set (go_cancelled go)"
proof -
  from assms(2) obtain t where t: "map_of tbl (tunnelKey a b c d e f) = Some t" by blast
  have "t = NewTunnel (tun_context t) (a @ '':'' @ b) (c @ '':'' @ d) (e @ '':'' @ f)"
    using tbl_okD(2) [OF assms(1) t] toTunnel_key [OF assms(3)] by simp
  then have "tun_local t = a @ '':'' @ b" "tun_server t = c @ '':'' @ d" "tun_remote t = e @ '':'' @ f"
    by (metis NewTunnel_def tunnel.select_convs)+
  moreover have "t \<in> ran (map_of tbl)" using t by (auto simp: ran_def)
  ultimately show ?thesis using tbl_okD(4) [OF assms(1) t] by blast
qed

lemma tunnels_ok_tables:
  "tunnels_ok f g \<Longrightarrow> tbl_ok (f_tunnels f) g \<and> tbl_ok (f_remoteTunnels f) g"
  by (auto simp: tunnels_ok_def tables_ok_def)

lemma ssh_port_plain: "CHR '':'' \<notin> set SSHPort" "CHR ''['' \<notin> set SSHPort" "CHR '']'' \<notin> set SSHPort"
  by (simp_all add: SSHPort_def)

text \<open>
  What the handler of a gateway's server does with a request that the forwarder's tunnel sends
  for a rule: it dials the rule's destination from the gateway's address.
\<close>

lemma handler_dials_from_gateway:
  assumes "payload_laws payload"
  shows "DirectTCPIPHandler ch
     (Inr (payload \<lparr>addr_IP = Some (v4InV6Prefix @ [a, b, c, d]), addr_Port = 0\<rparr>
                   \<lparr>addr_IP = Some (v4InV6Prefix @ [a', b', c', d']), addr_Port = uint (p :: 32 word)\<rparr>))
     (srv_LocalPortForwarding (NewSSHServer addr)) w =
   (case ch_DialContext ch \<lparr>addr_IP = Some (v4InV6Prefix @ [a, b, c, d]), addr_Port = 0\<rparr>
           (JoinHostPort (dotted a' b' c' d') (Itoa (uint p))) w of
      (Inl err, w1) \<Rightarrow> ch_Reject ch (ConnectionFailed (error_text err)) w1
    | (Inr dconn, w1) \<Rightarrow>
        (case ch_Accept ch w1 of
           (Inl _, w2) \<Rightarrow> ch_CloseConn ch dconn w2
         | (Inr _, w2) \<Rightarrow> ch_copy ch dconn w2))"
  using assms toTCPAddr_origin [of "dotted a b c d" 0]
  by (simp add: payload_laws_def DirectTCPIPHandler_def NewSSHServer_def ParseIP_dotted)

text \<open>
  C1: The source address of outgoing traffic. When a forwarder and a gateway have applied their
  objects, the traffic of an egress rule takes this way: the forwarder's iptables send it to the
  endpoint on which a live tunnel listens; that tunnel goes to an ssh server that the gateway's
  agent has started, and asks it for the rule's destination from the gateway's address; the
  server's handler dials the destination from exactly that address.
\<close>

theorem egress_source_address:
  assumes "tunnels_ok (ag_f s) (ag_go s)" and "fwd_applied tv fwd s" and "gw_applied gtv gw g"
    and "payload_laws payload"
    and "r \<in> set (fwd_EgressRules (fwd_Spec fwd))" and "gw_GatewayIP (gw_Spec gw) = fr_GatewayIP r"
    and "fr_GatewayIP r = dotted a b c d" and "fr_DestinationIP r = dotted a' b' c' d'"
    and "fr_DestinationPort r = Itoa (uint (p :: 32 word))"
    and "CHR '':'' \<notin> set (fwd_ForwarderIP (fwd_Spec fwd))" and "CHR '':'' \<notin> set (fr_RelayPort r)"
  shows "\<exists>t srv laddr raddr.
    t \<in> ran (map_of (f_tunnels (ag_f s))) \<and> tun_context t \<notin> set (go_cancelled (ag_go s)) \<and>
    (\<exists>rules. tv (ag_env s) (TableNAT, ChainPrerouting) = Some rules \<and>
       [''-m'', ''tcp'', ''-p'', ''tcp'', ''--dst'', fwd_ForwarderIP (fwd_Spec fwd),
        ''--src'', fr_SourceIP r, ''--dport'', fr_TargetPort r, ''-j'', ''DNAT'',
        ''--to-destination'', tun_local t] \<in> set rules) \<and>
    srv \<in> set (ag_sshds g) \<and> srv_Addr srv = tun_server t \<and>
    (\<forall>(net :: ('n, 'conn) tunnel_net) w w1 w2. net_DialServer net (tun_server t) w = (Inr (), w1) \<and>
         net_Listen net (tun_local t) w1 = (Inr (), w2) \<longrightarrow>
       Forward net t w = map_option (\<lambda>(err, w'). (err, net_CloseServer net (net_CloseListener net w')))
         (acceptLoop (net_done net) (net_tick net) (net_Accept net) (net_DialTCP net laddr raddr)
            (net_CloseConn net) (net_serve net) (tun_context t) w2)) \<and>
    (\<forall>(ch :: ('v, 'dconn) channel) w. DirectTCPIPHandler ch (Inr (payload laddr raddr)) (srv_LocalPortForwarding srv) w =
       (case ch_DialContext ch \<lparr>addr_IP = ParseIP (fr_GatewayIP r), addr_Port = 0\<rparr>
              (JoinHostPort (fr_DestinationIP r) (fr_DestinationPort r)) w of
          (Inl err, w1) \<Rightarrow> ch_Reject ch (ConnectionFailed (error_text err)) w1
        | (Inr dconn, w1) \<Rightarrow>
            (case ch_Accept ch w1 of
               (Inl _, w2) \<Rightarrow> ch_CloseConn ch dconn w2
             | (Inr _, w2) \<Rightarrow> ch_copy ch dconn w2)))"
proof -
  let ?l = "\<lparr>addr_IP = Some (v4InV6Prefix @ [a, b, c, d]), addr_Port = 0\<rparr>"
  let ?r = "\<lparr>addr_IP = Some (v4InV6Prefix @ [a', b', c', d']), addr_Port = uint p\<rparr>"
  let ?srv = "NewSSHServer (fr_GatewayIP r @ '':'' @ SSHPort)"
  have p: "0 \<le> uint p" "uint p < 2 ^ 63" using uint_lt2p [of p] by (simp, simp)
  then have low: "- (2 ^ 63) \<le> uint p" by linarith
  have "CHR '':'' \<notin> set (Itoa (uint p))" using Itoa_nat_no_sign [OF p(1)] by simp
  then have plain: "\<forall>x \<in> {fwd_ForwarderIP (fwd_Spec fwd), fr_RelayPort r, fr_GatewayIP r, SSHPort,
      fr_DestinationIP r, fr_DestinationPort r}. CHR '':'' \<notin> set x"
    using assms(7-11) ssh_port_plain(1) by simp
  from assms(2,5) have "egress_key fwd r \<in> dom (map_of (f_tunnels (ag_f s)))" by (simp add: fwd_applied_def)
  from table_tunnel [OF tunnels_ok_tables [OF assms(1), THEN conjunct1] this [unfolded egress_key_def] plain]
  obtain t where t: "t \<in> ran (map_of (f_tunnels (ag_f s)))" "tun_context t \<notin> set (go_cancelled (ag_go s))"
    "tun_local t = fwd_ForwarderIP (fwd_Spec fwd) @ '':'' @ fr_RelayPort r"
    "tun_server t = fr_GatewayIP r @ '':'' @ SSHPort"
    "tun_remote t = fr_DestinationIP r @ '':'' @ fr_DestinationPort r" by blast
  have l: "toTCPAddr (tun_server t) True = Inr ?l"
    unfolding t(4) assms(7) using ssh_port_plain by (intro toTCPAddr_dotted_any) simp_all
  have rr: "toTCPAddr (tun_remote t) False = Inr ?r"
    unfolding t(5) assms(8,9) by (rule toTCPAddr_dotted [OF low p(2)])
  have dnat: "\<exists>rules. tv (ag_env s) (TableNAT, ChainPrerouting) = Some rules \<and> dnat_of fwd r \<in> set rules"
    using assms(2,5) by (auto simp: fwd_applied_def)
  have srv: "?srv \<in> set (ag_sshds g)" "srv_Addr ?srv = tun_server t"
    using assms(3,6) by (simp_all add: gw_applied_def sshd_running_def t(4) NewSSHServer_def)
  have handler: "DirectTCPIPHandler ch (Inr (payload ?l ?r)) (srv_LocalPortForwarding ?srv) w =
       (case ch_DialContext ch \<lparr>addr_IP = ParseIP (fr_GatewayIP r), addr_Port = 0\<rparr>
              (JoinHostPort (fr_DestinationIP r) (fr_DestinationPort r)) w of
          (Inl err, w1) \<Rightarrow> ch_Reject ch (ConnectionFailed (error_text err)) w1
        | (Inr dconn, w1) \<Rightarrow>
            (case ch_Accept ch w1 of
               (Inl _, w2) \<Rightarrow> ch_CloseConn ch dconn w2
             | (Inr _, w2) \<Rightarrow> ch_copy ch dconn w2))" for ch :: "('v, 'dconn) channel" and w
    unfolding assms(7-9) ParseIP_dotted by (rule handler_dials_from_gateway [OF assms(4)])
  have fw: "Forward net t w = map_option (\<lambda>(err, w'). (err, net_CloseServer net (net_CloseListener net w')))
         (acceptLoop (net_done net) (net_tick net) (net_Accept net) (net_DialTCP net ?l ?r)
            (net_CloseConn net) (net_serve net) (tun_context t) w2)"
    if "net_DialServer net (tun_server t) w = (Inr (), w1)" "net_Listen net (tun_local t) w1 = (Inr (), w2)"
    for net :: "('n, 'conn) tunnel_net" and w w1 w2
    using that l rr by (rule Forward_loop)
  show ?thesis
    using t(1,2) dnat srv fw handler
    unfolding dnat_of_def DNATRuleSpec_def t(3) [symmetric]
    by - (rule exI [of _ t], rule exI [of _ ?srv], rule exI [of _ ?l], rule exI [of _ ?r],
       intro conjI allI impI, simp_all add: t(3))
qed

text \<open>
  C2: The way of incoming traffic. When a forwarder has applied its Forwarder and a gateway a
  Gateway with the rules that the operator generates from a list of Forwarders with it, the
  traffic of an ingress rule takes this way: the gateway's iptables jump to the chain of its
  address, which sends it to the endpoint on which a live remote tunnel listens through the
  ssh server that the gateway's agent has started; the forwarder's end of that tunnel dials
  the rule's destination in the cluster.
\<close>

theorem ingress_path:
  assumes "tunnels_ok (ag_f s) (ag_go s)" and "fwd_applied tv fwd s" and "gw_applied gtv gw g"
    and "r \<in> set (fwd_IngressRules (fwd_Spec fwd))" and "fwd \<in> set fwds" and "forGateway gw r"
    and "gw_IngressRules (gw_Spec gw) = genGatewayIngressRules fwds gw"
    and "gw_GatewayIP (gw_Spec gw) = fr_GatewayIP r"
    and "\<forall>x \<in> {fr_DestinationIP r, fr_DestinationPort r, fr_GatewayIP r, fr_RelayPort r}. CHR '':'' \<notin> set x"
  shows "\<exists>t h.
    t \<in> ran (map_of (f_remoteTunnels (ag_f s))) \<and> tun_context t \<notin> set (go_cancelled (ag_go s)) \<and>
    GetHexIP (fr_GatewayIP r) = Inr h \<and>
    (\<exists>rules. gtv (ag_env g) (TableNAT, ChainPrerouting) = Some rules \<and> [''-j'', ''pre'' @ h] \<in> set rules) \<and>
    (\<exists>rules. gtv (ag_env g) (TableNAT, ''pre'' @ h) = Some rules \<and>
       [''-m'', ''tcp'', ''-p'', ''tcp'', ''--dst'', fr_GatewayIP r, ''--src'', fr_SourceIP r,
        ''--dport'', fr_TargetPort r, ''-j'', ''DNAT'', ''--to-destination'', tun_remote t] \<in> set rules) \<and>
    NewSSHServer (tun_server t) \<in> set (ag_sshds g) \<and>
    (\<forall>(net :: ('n, 'conn) tunnel_net) w w1 w2. net_DialServer net (tun_server t) w = (Inr (), w1) \<and>
         net_ListenRemote net (tun_remote t) w1 = (Inr (), w2) \<longrightarrow>
       RemoteForward net t w = map_option (\<lambda>(err, w'). (err, net_CloseServer net (net_CloseListener net w')))
         (acceptLoop (net_done net) (net_tick net) (net_Accept net)
            (net_Dial net (fr_DestinationIP r @ '':'' @ fr_DestinationPort r))
            (net_CloseConn net) (net_serve net) (tun_context t) w2))"
proof -
  have plain: "\<forall>x \<in> {fr_DestinationIP r, fr_DestinationPort r, fr_GatewayIP r, SSHPort, fr_GatewayIP r, fr_RelayPort r}.
      CHR '':'' \<notin> set x" using assms(9) ssh_port_plain(1) by simp
  from assms(2,4) have "ingress_key r \<in> dom (map_of (f_remoteTunnels (ag_f s)))" by (simp add: fwd_applied_def)
  from table_tunnel [OF tunnels_ok_tables [OF assms(1), THEN conjunct2] this [unfolded ingress_key_def] plain]
  obtain t where t: "t \<in> ran (map_of (f_remoteTunnels (ag_f s)))" "tun_context t \<notin> set (go_cancelled (ag_go s))"
    "tun_local t = fr_DestinationIP r @ '':'' @ fr_DestinationPort r"
    "tun_server t = fr_GatewayIP r @ '':'' @ SSHPort" "tun_remote t = fr_GatewayIP r @ '':'' @ fr_RelayPort r"
    by blast
  from assms(3,8) obtain h where h: "GetHexIP (fr_GatewayIP r) = Inr h"
    and holds: "gw_chains_hold (gtv (ag_env g)) gw h" by (auto simp: gw_applied_def)
  have "gatewayRule fwd r \<in> set (gw_IngressRules (gw_Spec gw))"
    using assms(4-6) by (auto simp: assms(7) genGatewayIngressRules_def)
  with holds obtain rules where "gtv (ag_env g) (TableNAT, ''pre'' @ h) = Some rules"
    and "gw_dnat_of gw (gatewayRule fwd r) \<in> set rules"
    by (auto simp: gw_chains_hold_def prechainPrefix_def)
  then have dnat: "\<exists>rules. gtv (ag_env g) (TableNAT, ''pre'' @ h) = Some rules \<and>
       [''-m'', ''tcp'', ''-p'', ''tcp'', ''--dst'', fr_GatewayIP r, ''--src'', fr_SourceIP r,
        ''--dport'', fr_TargetPort r, ''-j'', ''DNAT'', ''--to-destination'', tun_remote t] \<in> set rules"
    by (auto simp: gw_dnat_of_def DNATRuleSpec_def gatewayRule_def assms(8) t(5))
  have jump: "\<exists>rules. gtv (ag_env g) (TableNAT, ChainPrerouting) = Some rules \<and> [''-j'', ''pre'' @ h] \<in> set rules"
    using holds by (auto simp: gw_chains_hold_def prechainPrefix_def)
  have srv: "NewSSHServer (tun_server t) \<in> set (ag_sshds g)"
    using assms(3,8) by (simp add: gw_applied_def sshd_running_def t(4))
  have rf: "RemoteForward net t w = map_option (\<lambda>(err, w'). (err, net_CloseServer net (net_CloseListener net w')))
         (acceptLoop (net_done net) (net_tick net) (net_Accept net)
            (net_Dial net (fr_DestinationIP r @ '':'' @ fr_DestinationPort r))
            (net_CloseConn net) (net_serve net) (tun_context t) w2)"
    if "net_DialServer net (tun_server t) w = (Inr (), w1)" "net_ListenRemote net (tun_remote t) w1 = (Inr (), w2)"
    for net :: "('n, 'conn) tunnel_net" and w w1 w2
    unfolding t(3) [symmetric] using that by (rule RemoteForward_loop)
  show ?thesis
    using t(1,2) h jump dnat srv rf
    by - (rule exI [of _ t], rule exI [of _ h], intro conjI allI impI, simp_all)
qed

end
