(* ===== verification/TrafficRuns.thy ===== *)
theory TrafficRuns
  imports TrafficPath AgentRuns
begin

text \<open>
  The Forwarder and the Gateway of the repository's unit test, published by the operator and
  applied by both agents: the witnesses of \<open>TrafficPath\<close>.
\<close>

definition ip_text :: "ip option \<Rightarrow> string" where
  "ip_text ip = (case ip of None \<Rightarrow> [] | Some bs \<Rightarrow> dotted (bs ! 12) (bs ! 13) (bs ! 14) (bs ! 15))"

definition test_payload :: "tcp_addr \<Rightarrow> tcp_addr \<Rightarrow> channel_data" where
  "test_payload laddr raddr =
     \<lparr>DestAddr = ip_text (addr_IP raddr), DestPort = word_of_int (addr_Port raddr),
      OriginAddr = ip_text (addr_IP laddr), OriginPort = word_of_int (addr_Port laddr)\<rparr>"

lemma test_payload_laws: "payload_laws test_payload"
  by (simp add: payload_laws_def test_payload_def ip_text_def v4InV6Prefix_def)

lemma both_applied:
  "\<exists>s g. tunnels_ok (ag_f s) (ag_go s) \<and> fwd_applied env_tv published_forwarder s \<and> gw_applied env_tv gw1 g"
proof -
  from fwd_agent.sync_live [OF hosts_ok(1,2) fwd0_ok(1) TrueI, of published_forwarder] obtain s where
    "fwd_syncRule (\<lambda>_. rev) env_ipt published_forwarder fwd0 = (Inr (), s)" by auto
  from fwd_syncRule_lemma [of "\<lambda>_. rev", OF range_order_rev env_ipt_laws(1) fwd0_ok(1) this]
  have "tunnels_ok (ag_f s) (ag_go s) \<and> fwd_applied env_tv published_forwarder s" by simp
  moreover from gw_sync_runs [OF gw0_ok(1), of gw1] obtain g where "gw_applied env_tv gw1 g" by (auto simp: gw_ips)
  ultimately show ?thesis by blast
qed

theorem egress_source_address_witness:
  "\<exists>(s :: env fwd_agent) (g :: env gw_agent) t srv laddr raddr. t \<in> ran (map_of (f_tunnels (ag_f s))) \<and>
     srv \<in> set (ag_sshds g) \<and> srv_Addr srv = tun_server t \<and>
     DirectTCPIPHandler log_channel (Inr (test_payload laddr raddr)) (srv_LocalPortForwarding srv) [] =
       [\<lparr>addr_IP = Some (v4InV6Prefix @ [192, 168, 122, 200]), addr_Port = 0\<rparr>]"
proof -
  let ?r = "test_egress_rule ''2049''"
  from both_applied obtain s g where
    ok: "tunnels_ok (ag_f s) (ag_go s)" and f: "fwd_applied env_tv published_forwarder s"
    and gw: "gw_applied env_tv gw1 g" by blast
  have r: "?r \<in> set (fwd_EgressRules (fwd_Spec published_forwarder))"
    "gw_GatewayIP (gw_Spec gw1) = fr_GatewayIP ?r"
    "fr_GatewayIP ?r = dotted 192 168 122 200" "fr_DestinationIP ?r = dotted 192 168 122 139"
    "fr_DestinationPort ?r = Itoa (uint (80 :: 32 word))"
    "CHR '':'' \<notin> set (fwd_ForwarderIP (fwd_Spec published_forwarder))" "CHR '':'' \<notin> set (fr_RelayPort ?r)"
    by (simp_all add: published_forwarder_def test_egress_rule_def gw_ips Itoa_ports)
  from egress_source_address [where ?'v = "tcp_addr list" and ?'dconn = unit and ?'n = unit and ?'conn = unit,
      OF ok f gw test_payload_laws r] obtain t srv laddr raddr where
    t: "t \<in> ran (map_of (f_tunnels (ag_f s)))" "srv \<in> set (ag_sshds g)" "srv_Addr srv = tun_server t"
    and handler: "\<And>w. DirectTCPIPHandler log_channel (Inr (test_payload laddr raddr)) (srv_LocalPortForwarding srv) w =
       (case ch_DialContext log_channel \<lparr>addr_IP = ParseIP (fr_GatewayIP ?r), addr_Port = 0\<rparr>
              (JoinHostPort (fr_DestinationIP ?r) (fr_DestinationPort ?r)) w of
          (Inl err, w1) \<Rightarrow> ch_Reject log_channel (ConnectionFailed (error_text err)) w1
        | (Inr dconn, w1) \<Rightarrow>
            (case ch_Accept log_channel w1 of
               (Inl _, w2) \<Rightarrow> ch_CloseConn log_channel dconn w2
             | (Inr _, w2) \<Rightarrow> ch_copy log_channel dconn w2))" by blast
  have "DirectTCPIPHandler log_channel (Inr (test_payload laddr raddr)) (srv_LocalPortForwarding srv) [] =
       [\<lparr>addr_IP = Some (v4InV6Prefix @ [192, 168, 122, 200]), addr_Port = 0\<rparr>]"
    unfolding handler r(3) ParseIP_dotted by (simp add: log_channel_def ret_def)
  with t show ?thesis by blast
qed

theorem ingress_path_witness:
  "\<exists>(s :: env fwd_agent) (g :: env gw_agent) t. t \<in> ran (map_of (f_remoteTunnels (ag_f s))) \<and>
     GetHexIP (dotted 192 168 122 200) = Inr ''c0a87ac8'' \<and>
     (\<exists>rules. env_tv (ag_env g) (TableNAT, ''prec0a87ac8'') = Some rules \<and> tun_remote t \<in> last ` set rules)"
proof -
  let ?r = "test_ingress_rule ''2049''"
  from both_applied obtain s g where
    ok: "tunnels_ok (ag_f s) (ag_go s)" and f: "fwd_applied env_tv published_forwarder s"
    and gw: "gw_applied env_tv gw1 g" by blast
  have r: "?r \<in> set (fwd_IngressRules (fwd_Spec published_forwarder))"
    "published_forwarder \<in> set [published_forwarder]" "forGateway gw1 ?r"
    "gw_IngressRules (gw_Spec gw1) = genGatewayIngressRules [published_forwarder] gw1"
    "gw_GatewayIP (gw_Spec gw1) = fr_GatewayIP ?r"
    "\<forall>x \<in> {fr_DestinationIP ?r, fr_DestinationPort ?r, fr_GatewayIP ?r, fr_RelayPort ?r}. CHR '':'' \<notin> set x"
    by (simp_all add: published_forwarder_def test_ingress_rule_def gw_ips forGateway_def gw1_def
        published_gateway_def gw_spec1_def genGatewayIngressRules_def)
  have hex: "GetHexIP (fr_GatewayIP ?r) = Inr ''c0a87ac8''"
  proof -
    have "concat (map hex02 [192, 168, 122, 200]) = ''c0a87ac8''" by code_simp
    then show ?thesis using GetHexIP_ipv4 [of "fr_GatewayIP ?r"] by (simp add: test_ingress_rule_def)
  qed
  from ingress_path [where ?'n = unit and ?'conn = unit, OF ok f gw r] obtain t h where "t \<in> ran (map_of (f_remoteTunnels (ag_f s)))"
    and h: "GetHexIP (fr_GatewayIP ?r) = Inr h"
    and "\<exists>rules. env_tv (ag_env g) (TableNAT, ''pre'' @ h) = Some rules \<and>
       [''-m'', ''tcp'', ''-p'', ''tcp'', ''--dst'', fr_GatewayIP ?r, ''--src'', fr_SourceIP ?r,
        ''--dport'', fr_TargetPort ?r, ''-j'', ''DNAT'', ''--to-destination'', tun_remote t] \<in> set rules" by blast
  then obtain rules where rules: "env_tv (ag_env g) (TableNAT, ''pre'' @ h) = Some rules"
    and rule: "[''-m'', ''tcp'', ''-p'', ''tcp'', ''--dst'', fr_GatewayIP ?r, ''--src'', fr_SourceIP ?r,
        ''--dport'', fr_TargetPort ?r, ''-j'', ''DNAT'', ''--to-destination'', tun_remote t] \<in> set rules" by blast
  have "h = ''c0a87ac8''" using h hex by simp
  moreover have "tun_remote t \<in> last ` set rules" using rule by (rule rev_image_eqI) simp
  ultimately have "\<exists>rules. env_tv (ag_env g) (TableNAT, ''prec0a87ac8'') = Some rules \<and>
      tun_remote t \<in> last ` set rules" using rules by auto
  moreover have "fr_GatewayIP ?r = dotted 192 168 122 200" by (simp add: test_ingress_rule_def)
  ultimately show ?thesis using \<open>t \<in> ran (map_of (f_remoteTunnels (ag_f s)))\<close> hex by metis
qed

end
