(* ===== verification/ConnCopy.thy ===== *)
theory ConnCopy
  imports Tunnels "HOL-Library.Sublist"
begin

text \<open>
  \<^verbatim>\<open>doForward\<close> and \<^verbatim>\<open>doRemoteForward\<close> of \<^verbatim>\<open>pkg/util/ssh.go\<close>: for
  one pair of connections of a tunnel, two goroutines that copy bytes, one in each direction,
  and a wait for both. The two functions, the goroutines, the peers of the connections and the
  cancellation of the tunnel interleave: each is a step of the relation below. A goroutine's
  \<^verbatim>\<open>io.Copy\<close> moves bytes in chunks, and ends at the end of the input or with an error.
\<close>

section \<open>Connections and goroutines\<close>

datatype side = LCon | RCon

fun other :: "side \<Rightarrow> side" where
  "other LCon = RCon"
| "other RCon = LCon"

text \<open>
  A connection: the bytes that its peer has sent, those of them not yet read, whether the peer
  has ended, the bytes written to it, and whether it was closed on this side.
\<close>

record conn =
  cn_got :: "8 word list"
  cn_in :: "8 word list"
  cn_eof :: bool
  cn_out :: "8 word list"
  cn_closed :: bool

datatype outcome = Stopped | Ended | Failed

datatype copier = NotStarted | Ready | Copying | Finished outcome

text \<open>
  Where the function that started the goroutines is: before its first and its second
  \<^verbatim>\<open>wg.Add(1)\<close>, in \<^verbatim>\<open>wg.Wait()\<close>, returned, and after the deferred
  \<^verbatim>\<open>Close\<close> calls of its caller.
\<close>

datatype at_line = AddFirst | AddSecond | Waiting | Returned | Closed

record pump =
  pu_conn :: "side \<Rightarrow> conn"
  pu_copier :: "side \<Rightarrow> copier"
  pu_wg :: nat
  pu_main :: at_line
  pu_cancelled :: bool

definition set_conn :: "side \<Rightarrow> (conn \<Rightarrow> conn) \<Rightarrow> pump \<Rightarrow> pump" where
  "set_conn d f s = s\<lparr>pu_conn := (pu_conn s)(d := f (pu_conn s d))\<rparr>"

definition set_copier :: "side \<Rightarrow> copier \<Rightarrow> pump \<Rightarrow> pump" where
  "set_copier d c s = s\<lparr>pu_copier := (pu_copier s)(d := c)\<rparr>"

section \<open>The code\<close>

text \<open>The end of \<^verbatim>\<open>copyCon\<close>: the deferred \<^verbatim>\<open>wg.Done()\<close>.\<close>

definition wgDone :: "side \<Rightarrow> outcome \<Rightarrow> pump \<Rightarrow> pump" where
  "wgDone d r s = (set_copier d (Finished r) s)\<lparr>pu_wg := pu_wg s - 1\<rparr>"

text \<open>
  \<^verbatim>\<open>copyCon(in, out)\<close> where \<open>in\<close> is the connection \<open>d\<close>: it writes to \<open>d\<close> what it
  reads from the other. The first step looks at the context; \<open>copyChunk\<close> is a round of
  \<^verbatim>\<open>io.Copy\<close> that gets up to \<open>n\<close> bytes, and \<open>copyError\<close> one in which \<open>n\<close> bytes
  were read and \<open>m\<close> written before an error. \<open>None\<close>: the goroutine is not there or waits.
\<close>

definition copyCon :: "side \<Rightarrow> pump \<Rightarrow> pump option" where
  "copyCon d s =
     (if pu_copier s d \<noteq> Ready then None
      else if pu_cancelled s then Some (wgDone d Stopped s)
      else Some (set_copier d Copying s))"

definition copyChunk :: "side \<Rightarrow> nat \<Rightarrow> pump \<Rightarrow> pump option" where
  "copyChunk d n s =
     (if pu_copier s d \<noteq> Copying then None
      else let src = pu_conn s (other d) in
           if cn_closed src \<or> cn_closed (pu_conn s d) then Some (wgDone d Failed s)
           else if cn_in src = [] then if cn_eof src then Some (wgDone d Ended s) else None
           else if n = 0 then None
           else Some (set_conn d (\<lambda>c. c\<lparr>cn_out := cn_out c @ take n (cn_in src)\<rparr>)
                  (set_conn (other d) (\<lambda>c. c\<lparr>cn_in := drop n (cn_in c)\<rparr>) s)))"

definition copyError :: "side \<Rightarrow> nat \<Rightarrow> nat \<Rightarrow> pump \<Rightarrow> pump option" where
  "copyError d n m s =
     (if pu_copier s d \<noteq> Copying \<or> n < m then None
      else Some (wgDone d Failed
             (set_conn d (\<lambda>c. c\<lparr>cn_out := cn_out c @ take m (cn_in (pu_conn s (other d)))\<rparr>)
               (set_conn (other d) (\<lambda>c. c\<lparr>cn_in := drop n (cn_in c)\<rparr>) s))))"

text \<open>
  The function itself, whose first goroutine writes to \<open>first\<close>; then the deferred closing of
  both connections by the goroutine that called it.
\<close>

definition forwardConns :: "side \<Rightarrow> pump \<Rightarrow> pump option" where
  "forwardConns first s =
     (case pu_main s of
        AddFirst \<Rightarrow> Some ((set_copier first Ready s)\<lparr>pu_wg := Suc (pu_wg s), pu_main := AddSecond\<rparr>)
      | AddSecond \<Rightarrow> Some ((set_copier (other first) Ready s)\<lparr>pu_wg := Suc (pu_wg s), pu_main := Waiting\<rparr>)
      | Waiting \<Rightarrow> if pu_wg s = 0 then Some (s\<lparr>pu_main := Returned\<rparr>) else None
      | Returned \<Rightarrow> Some ((set_conn LCon (\<lambda>c. c\<lparr>cn_closed := True\<rparr>)
                           (set_conn RCon (\<lambda>c. c\<lparr>cn_closed := True\<rparr>) s))\<lparr>pu_main := Closed\<rparr>)
      | Closed \<Rightarrow> None)"

text \<open>\<^verbatim>\<open>doForward(lCon, rCon)\<close> and \<^verbatim>\<open>doRemoteForward(rCon, lCon)\<close>\<close>

definition doForward :: "pump \<Rightarrow> pump option" where
  "doForward = forwardConns LCon"

definition doRemoteForward :: "pump \<Rightarrow> pump option" where
  "doRemoteForward = forwardConns RCon"

text \<open>What the others do: bytes arrive, the peer ends, the tunnel is cancelled.\<close>

datatype event = Main | Look side | Chunk side nat | Error side nat nat
  | Arrive side "8 word list" | PeerEnds side | Cancel

definition pump_step :: "(pump \<Rightarrow> pump option) \<Rightarrow> event \<Rightarrow> pump \<Rightarrow> pump option" where
  "pump_step main ev s =
     (case ev of
        Main \<Rightarrow> main s
      | Look d \<Rightarrow> copyCon d s
      | Chunk d n \<Rightarrow> copyChunk d n s
      | Error d n m \<Rightarrow> copyError d n m s
      | Arrive d bs \<Rightarrow>
          if cn_eof (pu_conn s d) then None
          else Some (set_conn d (\<lambda>c. c\<lparr>cn_got := cn_got c @ bs, cn_in := cn_in c @ bs\<rparr>) s)
      | PeerEnds d \<Rightarrow> Some (set_conn d (\<lambda>c. c\<lparr>cn_eof := True\<rparr>) s)
      | Cancel \<Rightarrow> Some (s\<lparr>pu_cancelled := True\<rparr>))"

definition new_conn :: conn where
  "new_conn = \<lparr>cn_got = [], cn_in = [], cn_eof = False, cn_out = [], cn_closed = False\<rparr>"

definition new_pump :: "bool \<Rightarrow> pump" where
  "new_pump cancelled =
     \<lparr>pu_conn = (\<lambda>_. new_conn), pu_copier = (\<lambda>_. NotStarted), pu_wg = 0, pu_main = AddFirst,
      pu_cancelled = cancelled\<rparr>"

inductive pumped :: "(pump \<Rightarrow> pump option) \<Rightarrow> pump \<Rightarrow> bool" for main where
  start: "pumped main (new_pump c)"
| step: "pumped main s \<Longrightarrow> pump_step main ev s = Some s' \<Longrightarrow> pumped main s'"

section \<open>The order of the lines\<close>

fun line_number :: "at_line \<Rightarrow> nat" where
  "line_number AddFirst = 0"
| "line_number AddSecond = 1"
| "line_number Waiting = 2"
| "line_number Returned = 3"
| "line_number Closed = 4"

lemma line_number_inj: "line_number a = line_number b \<longleftrightarrow> a = b"
  by (cases a; cases b) simp_all

instantiation at_line :: linorder
begin

definition less_eq_at_line :: "at_line \<Rightarrow> at_line \<Rightarrow> bool" where
  "less_eq_at_line a b \<longleftrightarrow> line_number a \<le> line_number b"

definition less_at_line :: "at_line \<Rightarrow> at_line \<Rightarrow> bool" where
  "less_at_line a b \<longleftrightarrow> line_number a < line_number b"

instance
  by intro_classes (auto simp: less_eq_at_line_def less_at_line_def line_number_inj)

end

lemma line_order [simp]:
  "AddFirst \<le> l" "l \<le> Closed" "AddSecond \<le> Waiting" "AddSecond \<le> Returned" "Waiting \<le> Returned"
  by (cases l; simp add: less_eq_at_line_def)+

text \<open>The function only goes forward, and nobody else moves it.\<close>

lemma lines_advance:
  assumes "pump_step (forwardConns first) ev s = Some s'"
  shows "pu_main s \<le> pu_main s'"
  using assms
  by (cases ev)
     (auto simp: pump_step_def forwardConns_def copyCon_def copyChunk_def copyError_def wgDone_def
        set_conn_def set_copier_def Let_def split: at_line.splits if_splits)

section \<open>The invariant\<close>

lemma set_simps [simp]:
  "pu_conn (set_conn d f s) = (pu_conn s)(d := f (pu_conn s d))"
  "pu_copier (set_conn d f s) = pu_copier s" "pu_wg (set_conn d f s) = pu_wg s"
  "pu_main (set_conn d f s) = pu_main s" "pu_cancelled (set_conn d f s) = pu_cancelled s"
  "pu_conn (set_copier d c s) = pu_conn s" "pu_copier (set_copier d c s) = (pu_copier s)(d := c)"
  "pu_wg (set_copier d c s) = pu_wg s" "pu_main (set_copier d c s) = pu_main s"
  "pu_cancelled (set_copier d c s) = pu_cancelled s"
  by (simp_all add: set_conn_def set_copier_def)

lemma other_simps [simp]: "other (other d) = d" "other d \<noteq> d" "d \<noteq> other d"
  by (cases d; simp)+

lemma all_sides: "(\<forall>d. P d) \<longleftrightarrow> P e \<and> P (other e)"
  by (metis (full_types) other.simps side.exhaust)

text \<open>Bytes are neither lost nor invented, as long as a copy has not failed.\<close>

definition carried :: "pump \<Rightarrow> side \<Rightarrow> bool" where
  "carried s d \<longleftrightarrow>
     prefix (cn_out (pu_conn s d)) (cn_got (pu_conn s (other d))) \<and>
     (pu_copier s d \<noteq> Finished Failed \<longrightarrow>
        cn_got (pu_conn s (other d)) = cn_out (pu_conn s d) @ cn_in (pu_conn s (other d))) \<and>
     (pu_copier s d = Finished Ended \<longrightarrow> cn_in (pu_conn s (other d)) = [] \<and> cn_eof (pu_conn s (other d)))"

definition running :: "copier \<Rightarrow> nat" where
  "running c = (if c = Ready \<or> c = Copying then 1 else 0)"

text \<open>The wait group counts the goroutines that run; nothing is closed before both are done.\<close>

definition main_ok :: "side \<Rightarrow> pump \<Rightarrow> bool" where
  "main_ok first s \<longleftrightarrow>
     pu_wg s = running (pu_copier s first) + running (pu_copier s (other first)) \<and>
     (pu_main s = AddFirst \<longrightarrow> pu_copier s first = NotStarted \<and> pu_copier s (other first) = NotStarted) \<and>
     (pu_main s = AddSecond \<longrightarrow> pu_copier s first \<noteq> NotStarted \<and> pu_copier s (other first) = NotStarted) \<and>
     (pu_main s = Waiting \<longrightarrow> pu_copier s first \<noteq> NotStarted \<and> pu_copier s (other first) \<noteq> NotStarted) \<and>
     (pu_main s \<in> {Returned, Closed} \<longrightarrow>
        (\<exists>r. pu_copier s first = Finished r) \<and> (\<exists>r. pu_copier s (other first) = Finished r)) \<and>
     (\<forall>d. cn_closed (pu_conn s d) \<longleftrightarrow> pu_main s = Closed)"

lemma carried_cong:
  assumes "carried s d"
    and "cn_out (pu_conn s' d) = cn_out (pu_conn s d)"
    and "cn_got (pu_conn s' (other d)) = cn_got (pu_conn s (other d))"
    and "cn_in (pu_conn s' (other d)) = cn_in (pu_conn s (other d))"
    and "cn_eof (pu_conn s (other d)) \<longrightarrow> cn_eof (pu_conn s' (other d))"
    and "pu_copier s' d = pu_copier s d \<or> pu_copier s d \<noteq> Finished Failed \<and> pu_copier s' d \<noteq> Finished Ended"
  shows "carried s' d"
  using assms by (auto simp: carried_def)

lemma copyChunk_carried:
  assumes step: "copyChunk e n s = Some s'" and both: "\<forall>d. carried s d"
  shows "carried s' d"
proof (cases "e = d")
  case True
  let ?i = "cn_in (pu_conn s (other d))"
  from step True have copying: "pu_copier s d = Copying" by (simp add: copyChunk_def split: if_splits)
  from both have d: "carried s d" by blast
  from step True copying consider "s' = wgDone d Failed s"
    | "s' = wgDone d Ended s" "?i = []" "cn_eof (pu_conn s (other d))"
    | "s' = set_conn d (\<lambda>c. c\<lparr>cn_out := cn_out c @ take n ?i\<rparr>)
              (set_conn (other d) (\<lambda>c. c\<lparr>cn_in := drop n (cn_in c)\<rparr>) s)"
    by (auto simp: copyChunk_def Let_def split: if_splits)
  then show ?thesis
    using d copying by cases (simp_all add: carried_def wgDone_def take_is_prefix)
next
  case False
  then have e: "e = other d" by (metis other.simps side.exhaust)
  from both have d: "carried s d" by blast
  from step show ?thesis
    by (auto simp: copyChunk_def wgDone_def Let_def e split: if_splits intro!: carried_cong [OF d])
qed

lemma copyError_carried:
  assumes step: "copyError e n m s = Some s'" and both: "\<forall>d. carried s d"
  shows "carried s' d"
proof (cases "e = d")
  case True
  from step True have copying: "pu_copier s d = Copying"
    and s': "s' = wgDone d Failed
             (set_conn d (\<lambda>c. c\<lparr>cn_out := cn_out c @ take m (cn_in (pu_conn s (other d)))\<rparr>)
               (set_conn (other d) (\<lambda>c. c\<lparr>cn_in := drop n (cn_in c)\<rparr>) s))"
    by (auto simp: copyError_def split: if_splits)
  from both copying have "cn_got (pu_conn s (other d)) = cn_out (pu_conn s d) @ cn_in (pu_conn s (other d))"
    by (simp add: carried_def)
  then show ?thesis by (simp add: carried_def s' wgDone_def take_is_prefix)
next
  case False
  then have e: "e = other d" by (metis other.simps side.exhaust)
  from both have d: "carried s d" by blast
  from step show ?thesis
    by (auto simp: copyError_def wgDone_def e split: if_splits intro!: carried_cong [OF d])
qed

lemma carried_step:
  assumes step: "pump_step (forwardConns first) ev s = Some s'" and both: "\<forall>d. carried s d"
    and main: "main_ok first s"
  shows "carried s' d"
proof -
  from both have d: "carried s d" by blast
  show ?thesis
  proof (cases ev)
    case Main
    with step main show ?thesis
      by (auto simp: pump_step_def forwardConns_def main_ok_def split: at_line.splits if_splits
          intro!: carried_cong [OF d])
  next
    case (Look e)
    with step show ?thesis
      by (auto simp: pump_step_def copyCon_def wgDone_def split: if_splits intro!: carried_cong [OF d])
  next
    case (Chunk e n)
    with step both show ?thesis by (auto simp: pump_step_def intro: copyChunk_carried)
  next
    case (Error e n m)
    with step both show ?thesis by (auto simp: pump_step_def intro: copyError_carried)
  next
    case (Arrive e bs)
    with step d show ?thesis
      by (cases "e = other d") (auto simp: pump_step_def carried_def split: if_splits)
  next
    case (PeerEnds e)
    with step show ?thesis by (auto simp: pump_step_def intro!: carried_cong [OF d])
  next
    case Cancel
    with step show ?thesis by (auto simp: pump_step_def intro!: carried_cong [OF d])
  qed
qed

text \<open>A copier that runs is one of the two; when it ends, the wait group goes down by one.\<close>

lemma sides: "d = first \<or> d = other first"
  by (metis other.simps side.exhaust)

lemma main_ok_cong:
  assumes "main_ok first s" and "pu_wg s' = pu_wg s" and "pu_copier s' = pu_copier s"
    and "pu_main s' = pu_main s" and "\<And>d. cn_closed (pu_conn s' d) = cn_closed (pu_conn s d)"
  shows "main_ok first s'"
  using assms by (simp add: main_ok_def)

lemma main_ok_done:
  assumes "main_ok first s" and "pu_copier s d = Ready \<or> pu_copier s d = Copying"
  shows "main_ok first (wgDone d r s)"
  using assms sides [of d first] by (auto simp: main_ok_def wgDone_def running_def)

lemma main_ok_conn:
  assumes "main_ok first s" and "\<And>c. cn_closed (f c) = cn_closed c"
  shows "main_ok first (set_conn d f s)"
  using assms(1) by (rule main_ok_cong) (simp_all add: assms(2))

lemma main_ok_copies:
  assumes "main_ok first s" and "pu_copier s d = Ready"
  shows "main_ok first (set_copier d Copying s)"
  using assms sides [of d first] by (auto simp: main_ok_def running_def)

lemma main_ok_step:
  assumes step: "pump_step (forwardConns first) ev s = Some s'" and main: "main_ok first s"
  shows "main_ok first s'"
proof (cases ev)
  case Main
  show ?thesis
  proof (cases "pu_main s")
    case Waiting
    with step Main main show ?thesis
      by (cases "pu_copier s first"; cases "pu_copier s (other first)")
         (auto simp: pump_step_def forwardConns_def main_ok_def running_def split: if_splits)
  next
    case Returned
    with step Main main show ?thesis
      by (auto simp: pump_step_def forwardConns_def main_ok_def all_sides [of _ LCon])
  qed (use step Main main in \<open>auto simp: pump_step_def forwardConns_def main_ok_def running_def\<close>)
next
  case (Look d)
  with step main show ?thesis
    by (auto simp: pump_step_def copyCon_def split: if_splits intro: main_ok_done main_ok_copies)
next
  case (Chunk d n)
  with step main show ?thesis
    by (auto simp: pump_step_def copyChunk_def Let_def split: if_splits
        intro!: main_ok_conn intro: main_ok_done)
next
  case (Error d n m)
  with step main show ?thesis
    by (auto simp: pump_step_def copyError_def split: if_splits intro!: main_ok_done main_ok_conn)
next
  case (Arrive d bs)
  with step main show ?thesis by (auto simp: pump_step_def split: if_splits intro: main_ok_conn)
next
  case (PeerEnds d)
  with step main show ?thesis by (auto simp: pump_step_def intro: main_ok_conn)
next
  case Cancel
  with step main show ?thesis by (auto simp: pump_step_def elim!: main_ok_cong)
qed

lemma pumped_inv:
  assumes "pumped (forwardConns first) s"
  shows "(\<forall>d. carried s d) \<and> main_ok first s"
  using assms
proof induction
  case (start c)
  show ?case by (simp add: new_pump_def new_conn_def carried_def main_ok_def running_def)
next
  case (step s ev s')
  then show ?case by (blast intro: carried_step main_ok_step)
qed

section \<open>What a pair of connections gets\<close>

lemma forward_cases:
  assumes "main = doForward \<or> main = doRemoteForward"
  obtains first where "main = forwardConns first"
  using assms by (auto simp: doForward_def doRemoteForward_def)

text \<open>
  C20: A forwarded pair of connections is transparent. In every interleaving of the function, its
  two goroutines, both peers, errors and cancellation, what was written to one connection is a
  prefix of what the peer of the other has sent, in order; when the copy in a direction has
  ended without an error it is all of it. The function returns, and the connections are closed,
  only when both goroutines are done.
\<close>

theorem pair_forwarded:
  assumes "main = doForward \<or> main = doRemoteForward" and "pumped main s"
  shows "prefix (cn_out (pu_conn s d)) (cn_got (pu_conn s (other d))) \<and>
    (pu_copier s d = Finished Ended \<longrightarrow>
       cn_eof (pu_conn s (other d)) \<and> cn_out (pu_conn s d) = cn_got (pu_conn s (other d))) \<and>
    (pu_main s = Returned \<or> cn_closed (pu_conn s d) \<longrightarrow>
       (\<exists>r1 r2. pu_copier s LCon = Finished r1 \<and> pu_copier s RCon = Finished r2))"
proof -
  from assms obtain first where "pumped (forwardConns first) s" by (metis forward_cases)
  from pumped_inv [OF this] have "carried s d" and "main_ok first s" by blast+
  then show ?thesis by (cases first) (auto simp: carried_def main_ok_def)
qed

text \<open>A run of events.\<close>

primrec pump_run :: "(pump \<Rightarrow> pump option) \<Rightarrow> event list \<Rightarrow> pump \<Rightarrow> pump option" where
  "pump_run main [] s = Some s"
| "pump_run main (ev # evs) s = Option.bind (pump_step main ev s) (pump_run main evs)"

lemma pumped_run: "pumped main s \<Longrightarrow> pump_run main evs s = Some s' \<Longrightarrow> pumped main s'"
proof (induction evs arbitrary: s)
  case (Cons ev evs)
  then obtain s1 where "pump_step main ev s = Some s1" and "pump_run main evs s1 = Some s'"
    by (cases "pump_step main ev s") auto
  with Cons.prems(1) Cons.IH show ?case by (blast intro: pumped.step)
qed simp

lemma run_advances: "pump_run (forwardConns first) evs s = Some s' \<Longrightarrow> pu_main s \<le> pu_main s'"
proof (induction evs arbitrary: s)
  case (Cons ev evs)
  then obtain s1 where s1: "pump_step (forwardConns first) ev s = Some s1"
    and "pump_run (forwardConns first) evs s1 = Some s'"
    by (cases "pump_step (forwardConns first) ev s") auto
  with Cons.IH lines_advance [OF s1] show ?case by fastforce
qed simp

lemma pumped_both_done:
  "pumped (forwardConns first) s \<Longrightarrow> pu_copier s d = Copying \<Longrightarrow> pu_main s \<notin> {Returned, Closed}"
  using pumped_inv [of first s] sides [of d first] by (auto simp: main_ok_def)

text \<open>The events that end the copy into a connection.\<close>

fun ends_copy :: "side \<Rightarrow> event \<Rightarrow> bool" where
  "ends_copy d (PeerEnds e) = (e = other d)"
| "ends_copy d (Error e n m) = (e = d)"
| "ends_copy d ev = False"

lemma copying_step:
  assumes reach: "pumped (forwardConns first) s" and copying: "pu_copier s d = Copying"
    and alive: "\<not> cn_eof (pu_conn s (other d))"
    and step: "pump_step (forwardConns first) ev s = Some s'"
    and ev: "\<not> ends_copy d ev"
  shows "pu_copier s' d = Copying \<and> \<not> cn_eof (pu_conn s' (other d))"
proof -
  have main: "main_ok first s" using pumped_inv [OF reach] by blast
  have lines: "pu_main s \<notin> {Returned, Closed}" by (rule pumped_both_done [OF reach copying])
  with main have "\<not> cn_closed (pu_conn s e)" for e by (simp add: main_ok_def)
  then show ?thesis
    using assms main lines
    by (cases ev)
       (auto simp: pump_step_def forwardConns_def copyCon_def copyChunk_def copyError_def wgDone_def Let_def
          main_ok_def split: at_line.splits if_splits)
qed

text \<open>
  C36: Cancelling a tunnel does not end its connections. The context is looked at once, before a
  copy begins: a direction that is being copied goes on, whatever else happens (a cancellation,
  the end of the other direction), until the peer it reads from ends or an error occurs, and
  until then the function does not return and no connection is closed.
\<close>

theorem cancel_spares_connections:
  assumes "main = doForward \<or> main = doRemoteForward" and "pumped main s"
    and "pu_copier s d = Copying" and "\<not> cn_eof (pu_conn s (other d))"
    and "list_all (\<lambda>ev. \<not> ends_copy d ev) evs" and "pump_run main evs s = Some s'"
  shows "pu_copier s' d = Copying \<and> pu_main s' \<noteq> Returned \<and> \<not> cn_closed (pu_conn s' d)"
proof -
  from assms(1) obtain first where main: "main = forwardConns first" by (rule forward_cases)
  have "pu_copier s' d = Copying"
    using assms(2-6) unfolding main
  proof (induction evs arbitrary: s)
    case (Cons ev evs)
    then obtain s1 where s1: "pump_step (forwardConns first) ev s = Some s1"
      and run: "pump_run (forwardConns first) evs s1 = Some s'"
      by (cases "pump_step (forwardConns first) ev s") auto
    from Cons.prems copying_step [OF _ _ _ s1] have "pu_copier s1 d = Copying" "\<not> cn_eof (pu_conn s1 (other d))"
      by auto
    with Cons.IH [OF pumped.step [OF Cons.prems(1) s1]] run Cons.prems(4) show ?case by simp
  qed simp
  moreover have reach: "pumped (forwardConns first) s'"
    using pumped_run [OF assms(2,6)] by (simp add: main)
  moreover from pumped_inv [OF reach] have "main_ok first s'" by blast
  ultimately show ?thesis using pumped_both_done [OF reach] by (auto simp: main_ok_def)
qed

section \<open>Runs\<close>

text \<open>Two bytes come from the remote side and go to the local one, before the remote side ends.\<close>

theorem pair_forwarded_witness:
  "\<exists>s. pumped doForward s \<and> pu_copier s LCon = Finished Ended \<and>
     cn_out (pu_conn s LCon) = cn_got (pu_conn s RCon) \<and> cn_got (pu_conn s RCon) = [1, 2]"
proof -
  let ?evs = "[Main, Main, Arrive RCon [1, 2], Look LCon, Chunk LCon 9, PeerEnds RCon, Chunk LCon 1]"
  obtain s where run: "pump_run doForward ?evs (new_pump False) = Some s"
    and s: "pu_copier s LCon = Finished Ended" "cn_got (pu_conn s RCon) = [1, 2]"
    by (simp add: pump_step_def doForward_def forwardConns_def copyCon_def copyChunk_def new_pump_def
        new_conn_def wgDone_def Let_def)
  have reach: "pumped doForward s" by (rule pumped_run [OF pumped.start run])
  from pair_forwarded [OF disjI1 [OF HOL.refl] this, of LCon] s reach show ?thesis by auto
qed

theorem cancel_spares_connections_witness:
  "\<exists>s s'. pump_run doForward [Cancel, Arrive RCon [3], Chunk LCon 9] s = Some s' \<and>
     pu_cancelled s' \<and> pu_copier s' LCon = Copying \<and> cn_out (pu_conn s' LCon) = [1, 2, 3]"
proof -
  let ?evs = "[Main, Main, Arrive RCon [1, 2], Look LCon, Chunk LCon 1]"
  let ?more = "[Cancel, Arrive RCon [3], Chunk LCon 9]"
  obtain s where run: "pump_run doForward ?evs (new_pump False) = Some s"
    and s: "pu_copier s LCon = Copying" "\<not> cn_eof (pu_conn s (other LCon))"
    and more: "\<exists>s'. pump_run doForward ?more s = Some s' \<and> pu_cancelled s' \<and> cn_out (pu_conn s' LCon) = [1, 2, 3]"
    by (simp add: pump_step_def doForward_def forwardConns_def copyCon_def copyChunk_def new_pump_def
        new_conn_def wgDone_def Let_def)
  then obtain s' where s': "pump_run doForward ?more s = Some s'" "pu_cancelled s'"
    "cn_out (pu_conn s' LCon) = [1, 2, 3]" by blast
  have "list_all (\<lambda>ev. \<not> ends_copy LCon ev) ?more" by simp
  from cancel_spares_connections [OF disjI1 [OF HOL.refl] pumped_run [OF pumped.start run] s this s'(1)] s'
  show ?thesis by blast
qed

end
