(* ===== verification/HeapViews.thy ===== *)
theory HeapViews
  imports GoHeap
begin

text \<open>
  What a struct in Go's memory means, and the contract of a copy function. A view of a Go type
  gives, for a heap and a struct of the type: whether every reference in it is to an allocated
  cell of the right kind and within its bounds (\<open>v_ok\<close>), the value it stands for
  (\<open>v_val\<close>) and the addresses it reaches (\<open>v_refs\<close>).
\<close>

record ('a, 'v, 'c) view =
  v_ok :: "'c heap \<Rightarrow> 'a \<Rightarrow> bool"
  v_val :: "'c heap \<Rightarrow> 'a \<Rightarrow> 'v"
  v_refs :: "'c heap \<Rightarrow> 'a \<Rightarrow> nat set"

section \<open>The contracts\<close>

text \<open>
  Two heaps that agree on the cells a struct reaches give it the same meaning
  (\<open>same_view\<close>). A copy of a struct \<open>x\<close> is a struct that means the same and
  reaches only cells allocated since (\<open>is_copy\<close>).
\<close>

definition agree_on :: "nat set \<Rightarrow> 'c heap \<Rightarrow> 'c heap \<Rightarrow> bool" where
  "agree_on A h h' \<longleftrightarrow> (\<forall>a\<in>A. h_cells h' a = h_cells h a)"

definition same_view :: "('a, 'v, 'c) view \<Rightarrow> 'c heap \<Rightarrow> 'c heap \<Rightarrow> 'a \<Rightarrow> bool" where
  "same_view V h h' x \<longleftrightarrow>
     v_ok V h' x = v_ok V h x \<and> v_val V h' x = v_val V h x \<and> v_refs V h' x = v_refs V h x"

definition is_copy :: "('a, 'v, 'c) view \<Rightarrow> 'c heap \<Rightarrow> 'a \<Rightarrow> 'c heap \<Rightarrow> 'a \<Rightarrow> bool" where
  "is_copy V h x h' y \<longleftrightarrow>
     heap_extends h h' \<and> v_ok V h' y \<and> v_val V h' y = v_val V h x \<and>
     v_refs V h' y \<subseteq> {h_next h..<h_next h'}"

locale heap_view =
  fixes V :: "('a, 'v, 'c) view"
  assumes refs_alloc: "v_ok V h x \<Longrightarrow> a \<in> v_refs V h x \<Longrightarrow> h_cells h a \<noteq> None"
    and frame: "v_ok V h x \<Longrightarrow> agree_on (v_refs V h x) h h' \<Longrightarrow> same_view V h h' x"
begin

lemma refs_below: "heap_ok h \<Longrightarrow> v_ok V h x \<Longrightarrow> v_refs V h x \<subseteq> {..<h_next h}"
  using refs_alloc by (fastforce dest: heap_okD)

lemma same_ext:
  assumes "heap_ok h" and "v_ok V h x" and "heap_extends h h'"
  shows "same_view V h h' x"
  by (rule frame [OF assms(2)])
     (use refs_below [OF assms(1,2)] assms(3) in \<open>auto simp: agree_on_def heap_extends_def\<close>)

lemma ok_ext: "heap_ok h \<Longrightarrow> v_ok V h x \<Longrightarrow> heap_extends h h' \<Longrightarrow> v_ok V h' x"
  using same_ext by (simp add: same_view_def)

lemma val_ext: "heap_ok h \<Longrightarrow> v_ok V h x \<Longrightarrow> heap_extends h h' \<Longrightarrow> v_val V h' x = v_val V h x"
  using same_ext by (simp add: same_view_def)

text \<open>A copy stays a copy when more is allocated, and a copy made later is a copy.\<close>

lemma copy_later:
  assumes "is_copy V h x h1 y" and "heap_extends h1 h2"
  shows "is_copy V h x h2 y"
proof -
  from assms have ok: "heap_ok h1" "v_ok V h1 y" by (simp_all add: is_copy_def heap_extends_def)
  from same_ext [OF ok assms(2)] have "same_view V h1 h2 y" .
  with assms show ?thesis
    by (fastforce simp: is_copy_def same_view_def heap_extends_def)
qed

lemma copy_earlier:
  assumes "heap_ok h" and "v_ok V h x" and "heap_extends h h1" and "is_copy V h1 x h2 y"
  shows "is_copy V h x h2 y"
proof -
  from same_ext [OF assms(1-3)] have "v_val V h1 x = v_val V h x" by (simp add: same_view_def)
  with assms(3,4) show ?thesis
    by (fastforce simp: is_copy_def heap_extends_def)
qed

text \<open>
  Isolation: whatever is written later to cells that the copy reaches, or allocated, leaves the
  original as it was, and the other way round.
\<close>

lemma copy_isolates_original:
  assumes "heap_ok h" and "v_ok V h x" and "is_copy V h x h' y"
    and "agree_on (- v_refs V h' y) h' h''"
  shows "same_view V h h'' x"
proof -
  have "v_refs V h x \<subseteq> - v_refs V h' y"
    using refs_below [OF assms(1,2)] assms(3) by (force simp: is_copy_def)
  with assms(4) have "agree_on (v_refs V h x) h' h''" by (auto simp: agree_on_def)
  moreover have "same_view V h h' x"
    using assms(1-3) by (intro same_ext) (simp_all add: is_copy_def)
  ultimately show ?thesis
    using frame [of h' x h''] assms(2) by (simp add: same_view_def)
qed

lemma original_isolates_copy:
  assumes "heap_ok h" and "v_ok V h x" and "is_copy V h x h' y"
    and "agree_on (- v_refs V h x) h' h''"
  shows "same_view V h' h'' y"
proof -
  have "v_refs V h' y \<subseteq> - v_refs V h x"
    using refs_below [OF assms(1,2)] assms(3) by (force simp: is_copy_def)
  with assms(4) have "agree_on (v_refs V h' y) h' h''" by (auto simp: agree_on_def)
  with assms(3) show ?thesis by (intro frame) (simp_all add: is_copy_def)
qed

end

text \<open>
  A copy function takes the struct to copy, the struct to write into and the heap, and returns
  the struct written and the heap.
\<close>

type_synonym ('a, 'c) copier = "'a \<Rightarrow> 'a \<Rightarrow> 'c heap \<Rightarrow> 'a \<times> 'c heap"

locale deep_copy = heap_view V for V :: "('a, 'v, 'c) view" +
  fixes cp :: "('a, 'c) copier"
  assumes copies: "heap_ok h \<Longrightarrow> v_ok V h x \<Longrightarrow> cp x out h = (y, h') \<Longrightarrow> is_copy V h x h' y"
begin

lemma copies_fst_snd:
  "heap_ok h \<Longrightarrow> v_ok V h x \<Longrightarrow> is_copy V h x (snd (cp x out h)) (fst (cp x out h))"
  by (rule copies [of h x out]) simp_all

lemma isolated:
  assumes "heap_ok h" and "v_ok V h x" and "cp x out h = (y, h')"
    and "agree_on (- v_refs V h' y) h' h''"
  shows "same_view V h h'' x"
  using assms by (blast intro: copy_isolates_original copies)

end

section \<open>Structs without references\<close>

definition flat_view :: "('a, 'a, 'c) view" where
  "flat_view = \<lparr>v_ok = (\<lambda>_ _. True), v_val = (\<lambda>_ x. x), v_refs = (\<lambda>_ _. {})\<rparr>"

definition assign :: "('a, 'c) copier" where
  "assign inp out h = (inp, h)"

lemma flat_view_simps [simp]:
  "v_ok flat_view h x" "v_val flat_view h x = x" "v_refs flat_view h x = {}"
  by (simp_all add: flat_view_def)

interpretation flat: deep_copy flat_view assign
  by unfold_locales (auto simp: same_view_def is_copy_def assign_def)

section \<open>Slices\<close>

text \<open>
  The value of a slice is the list of its elements' values, or \<open>None\<close> for a nil slice: a
  nil slice and an empty one are told apart, as they are when they are printed as JSON.
\<close>

fun slice_ok :: "('a, 'c) kind \<Rightarrow> ('a, 'v, 'c) view \<Rightarrow> 'c heap \<Rightarrow> 'a slice \<Rightarrow> bool" where
  "slice_ok K V h NilSlice = True"
| "slice_ok K V h (Slice a off n) =
     (case array_at K h a of None \<Rightarrow> False
      | Some xs \<Rightarrow> off + n \<le> length xs \<and> list_all (v_ok V h) (take n (drop off xs)))"

fun slice_val :: "('a, 'c) kind \<Rightarrow> ('a, 'v, 'c) view \<Rightarrow> 'c heap \<Rightarrow> 'a slice \<Rightarrow> 'v list option" where
  "slice_val K V h NilSlice = None"
| "slice_val K V h (Slice a off n) = Some (map (v_val V h) (slice_elems K h (Slice a off n)))"

fun slice_refs :: "('a, 'c) kind \<Rightarrow> ('a, 'v, 'c) view \<Rightarrow> 'c heap \<Rightarrow> 'a slice \<Rightarrow> nat set" where
  "slice_refs K V h NilSlice = {}"
| "slice_refs K V h (Slice a off n) =
     insert a (\<Union>x\<in>set (slice_elems K h (Slice a off n)). v_refs V h x)"

definition slice_view :: "('a, 'c) kind \<Rightarrow> ('a, 'v, 'c) view \<Rightarrow> ('a slice, 'v list option, 'c) view" where
  "slice_view K V =
     \<lparr>v_ok = slice_ok K V, v_val = slice_val K V, v_refs = slice_refs K V\<rparr>"

lemma slice_view_simps [simp]:
  "v_ok (slice_view K V) = slice_ok K V" "v_val (slice_view K V) = slice_val K V"
  "v_refs (slice_view K V) = slice_refs K V"
  by (simp_all add: slice_view_def)

lemma slice_heap_view:
  assumes "heap_view V"
  shows "heap_view (slice_view K V)"
proof
  fix h :: "'c heap" and s :: "'a slice" and a
  assume "v_ok (slice_view K V) h s" and "a \<in> v_refs (slice_view K V) h s"
  then show "h_cells h a \<noteq> None"
    by (cases s)
       (auto split: option.splits simp: list_all_iff
             dest: array_at_SomeD heap_view.refs_alloc [OF assms])
next
  fix h h' :: "'c heap" and s :: "'a slice"
  assume ok: "v_ok (slice_view K V) h s" and agree: "agree_on (v_refs (slice_view K V) h s) h h'"
  show "same_view (slice_view K V) h h' s"
  proof (cases s)
    case NilSlice
    then show ?thesis by (simp add: same_view_def)
  next
    case (Slice a off n)
    from ok Slice obtain xs where xs: "array_at K h a = Some xs" by (auto split: option.splits)
    from agree Slice have "array_at K h' a = array_at K h a"
      by (intro array_at_cong) (simp add: agree_on_def)
    with xs have xs': "array_at K h' a = Some xs" by simp
    have same: "same_view V h h' x" if "x \<in> set (take n (drop off xs))" for x
      by (rule heap_view.frame [OF assms])
         (use ok agree Slice xs that in \<open>auto simp: agree_on_def list_all_iff\<close>)
    then show ?thesis
      by (auto simp: same_view_def Slice xs xs' list_all_iff)
  qed
qed

end
