(* ===== verification/CopyLoops.thy ===== *)
theory CopyLoops
  imports HeapViews
begin

text \<open>
  The blocks the generated copy functions are made of, and their contracts: the copy of a slice
  of plain structs by \<^verbatim>\<open>make\<close> and \<^verbatim>\<open>copy\<close>, the loop that deep-copies the items of
  a list, the loop that fills a new map, and \<^verbatim>\<open>DeepCopy\<close> on a pointer.
\<close>

section \<open>The blocks\<close>

text \<open>\<^verbatim>\<open>*out = make([]T, len(*in)); copy( *out, *in)\<close>\<close>

definition clone_slice :: "('a, 'c) kind \<Rightarrow> 'a slice \<Rightarrow> 'c heap \<Rightarrow> 'a slice \<times> 'c heap" where
  "clone_slice K inp h =
     (let (out, h) = make_slice K (slice_len inp) h in (out, go_copy K out inp h))"

text \<open>
  \<^verbatim>\<open>*out = make([]T, len(*in))\<close>, then for every index
  \<^verbatim>\<open>( *in)[i].DeepCopyInto(&( *out)[i])\<close>
\<close>

definition copy_item ::
  "('a, 'c) kind \<Rightarrow> ('a, 'c) copier \<Rightarrow> 'a slice \<Rightarrow> 'a slice \<Rightarrow> nat \<Rightarrow> 'c heap \<Rightarrow> 'c heap" where
  "copy_item K cp inp out i h =
     (let (v, h) = cp (slice_get K h inp i) (slice_get K h out i) h in slice_put K out i v h)"

definition copy_items ::
  "('a, 'c) kind \<Rightarrow> ('a, 'c) copier \<Rightarrow> 'a slice \<Rightarrow> 'c heap \<Rightarrow> 'a slice \<times> 'c heap" where
  "copy_items K cp inp h =
     (let (out, h) = make_slice K (slice_len inp) h
      in (out, fold (copy_item K cp inp out) [0..<slice_len inp] h))"

text \<open>
  \<^verbatim>\<open>*out = make(M, len(*in))\<close>, then for every entry
  \<^verbatim>\<open>( *out)[key] = *val.DeepCopy()\<close>, in the order in which the range visits the keys
\<close>

definition copy_entry ::
  "(string \<times> 'a, 'c) kind \<Rightarrow> ('a \<Rightarrow> 'c heap \<Rightarrow> 'a \<times> 'c heap) \<Rightarrow> 'a mapref \<Rightarrow> string \<times> 'a \<Rightarrow>
   'c heap \<Rightarrow> 'c heap" where
  "copy_entry K cp out e h = (let (v, h) = cp (snd e) h in map_put K out (fst e) v h)"

definition copy_map ::
  "(string \<times> 'a, 'c) kind \<Rightarrow> ('a \<Rightarrow> 'c heap \<Rightarrow> 'a \<times> 'c heap) \<Rightarrow> key_order \<Rightarrow> 'a mapref \<Rightarrow>
   'c heap \<Rightarrow> 'a mapref \<times> 'c heap" where
  "copy_map K cp ord inp h =
     (let es = grange ord (map_entries K h inp);
          (out, h) = make_map K h
      in (out, fold (copy_entry K cp out) es h))"

text \<open>
  \<^verbatim>\<open>func (in *T) DeepCopy() *T\<close>: nil for nil, otherwise a new struct into which the
  receiver is copied
\<close>

definition ptr_DeepCopy :: "('a, 'c) kind \<Rightarrow> ('a, 'c) copier \<Rightarrow> 'a ptr \<Rightarrow> 'c heap \<Rightarrow> 'a ptr \<times> 'c heap" where
  "ptr_DeepCopy K cp inp h =
     (if inp = NilPtr then (NilPtr, h)
      else let (out, h) = go_new K h;
               (v, h) = cp (load K h inp) (load K h out) h
           in (out, put K out v h))"

section \<open>Cells under construction\<close>

text \<open>
  While a loop fills the cell at the address \<open>n\<close>, the values in it already mean what they
  should and reach only younger cells.
\<close>

definition copied_above ::
  "('a, 'v, 'c) view \<Rightarrow> nat \<Rightarrow> 'v \<Rightarrow> 'c heap \<Rightarrow> 'a \<Rightarrow> bool" where
  "copied_above V n v h y \<longleftrightarrow> v_ok V h y \<and> v_val V h y = v \<and> v_refs V h y \<subseteq> {n<..<h_next h}"

context heap_view
begin

lemma copied_above_keep:
  assumes "copied_above V n v h y" and "h_next h \<le> h_next h'"
    and "\<And>a. n < a \<Longrightarrow> a < h_next h \<Longrightarrow> h_cells h' a = h_cells h a"
  shows "copied_above V n v h' y"
proof -
  have "same_view V h h' y"
    using assms by (intro frame) (auto simp: copied_above_def agree_on_def)
  with assms(1,2) show ?thesis by (fastforce simp: copied_above_def same_view_def)
qed

lemma copied_above_store:
  assumes "copied_above V n v h y"
  shows "copied_above V n v (store_at n c h) y"
  using assms by (rule copied_above_keep) simp_all

lemma copied_above_extends:
  assumes "copied_above V n v h y" and "heap_extends h h'"
  shows "copied_above V n v h' y"
  using assms(1) by (rule copied_above_keep) (use assms(2) in \<open>simp_all add: heap_extends_def\<close>)

lemma copied_above_copy:
  assumes "is_copy V h x h' y" and "n < h_next h"
  shows "copied_above V n (v_val V h x) h' y"
  using assms by (fastforce simp: is_copy_def copied_above_def)

end

text \<open>
  One step of either loop: the value is copied and the cell under construction, which is older
  than the copy, gets it.
\<close>

context deep_copy
begin

lemma build_step:
  assumes "heap_ok h0" and "v_ok V h0 x" and "heap_extends h0 h" and "h_next h0 = n" and "n < h_next h"
    and "cp x out h = (y, h')"
  shows "heap_extends h0 (store_at n c h')" and "n < h_next h'" and "h_cells h' n = h_cells h n"
    and "copied_above V n (v_val V h0 x) (store_at n c h') y"
    and "copied_above V n v h z \<Longrightarrow> copied_above V n v (store_at n c h') z"
proof -
  have ok: "heap_ok h" "v_ok V h x"
    using assms(1-3) by (auto simp: heap_extends_def intro: ok_ext)
  have copy: "is_copy V h x h' y" by (rule copies [OF ok assms(6)])
  then have ext: "heap_extends h h'" by (simp add: is_copy_def)
  show n: "n < h_next h'" using assms(5) ext by (simp add: heap_extends_def)
  show "heap_extends h0 (store_at n c h')"
    using heap_extends_trans [OF assms(3) ext] assms(4) n by (intro heap_extends_store) simp_all
  show "h_cells h' n = h_cells h n" using ext assms(5) by (simp add: heap_extends_def)
  have "copied_above V n (v_val V h x) h' y" by (rule copied_above_copy [OF copy assms(5)])
  moreover have "v_val V h x = v_val V h0 x" by (rule val_ext [OF assms(1-3)])
  ultimately show "copied_above V n (v_val V h0 x) (store_at n c h') y"
    by (simp add: copied_above_store)
  show "copied_above V n v (store_at n c h') z" if "copied_above V n v h z"
    by (rule copied_above_store [OF copied_above_extends [OF that ext]])
qed

end

section \<open>Views of pointers and maps\<close>

text \<open>
  The value of a pointer is the value of the struct it points to, that of a map the lookup
  function of its entries, \<open>None\<close> if it is nil.
\<close>

fun ptr_ok :: "('a, 'c) kind \<Rightarrow> ('a, 'v, 'c) view \<Rightarrow> 'c heap \<Rightarrow> 'a ptr \<Rightarrow> bool" where
  "ptr_ok K V h NilPtr = True"
| "ptr_ok K V h (Ptr a i) =
     (case array_at K h a of None \<Rightarrow> False | Some xs \<Rightarrow> i < length xs \<and> v_ok V h (xs ! i))"

fun ptr_val :: "('a, 'c) kind \<Rightarrow> ('a, 'v, 'c) view \<Rightarrow> 'c heap \<Rightarrow> 'a ptr \<Rightarrow> 'v option" where
  "ptr_val K V h NilPtr = None"
| "ptr_val K V h (Ptr a i) = Some (v_val V h (load K h (Ptr a i)))"

fun ptr_refs :: "('a, 'c) kind \<Rightarrow> ('a, 'v, 'c) view \<Rightarrow> 'c heap \<Rightarrow> 'a ptr \<Rightarrow> nat set" where
  "ptr_refs K V h NilPtr = {}"
| "ptr_refs K V h (Ptr a i) = insert a (v_refs V h (load K h (Ptr a i)))"

definition ptr_view :: "('a, 'c) kind \<Rightarrow> ('a, 'v, 'c) view \<Rightarrow> ('a ptr, 'v option, 'c) view" where
  "ptr_view K V = \<lparr>v_ok = ptr_ok K V, v_val = ptr_val K V, v_refs = ptr_refs K V\<rparr>"

lemma ptr_view_simps [simp]:
  "v_ok (ptr_view K V) = ptr_ok K V" "v_val (ptr_view K V) = ptr_val K V"
  "v_refs (ptr_view K V) = ptr_refs K V"
  by (simp_all add: ptr_view_def)

fun map_ok :: "(string \<times> 'a, 'c) kind \<Rightarrow> ('a, 'v, 'c) view \<Rightarrow> 'c heap \<Rightarrow> 'a mapref \<Rightarrow> bool" where
  "map_ok K V h NilMap = True"
| "map_ok K V h (MapRef a) =
     (case array_at K h a of None \<Rightarrow> False
      | Some m \<Rightarrow> gomap_ok m \<and> list_all (\<lambda>e. v_ok V h (snd e)) m)"

fun map_val ::
  "(string \<times> 'a, 'c) kind \<Rightarrow> ('a, 'v, 'c) view \<Rightarrow> 'c heap \<Rightarrow> 'a mapref \<Rightarrow> (string \<rightharpoonup> 'v) option" where
  "map_val K V h NilMap = None"
| "map_val K V h (MapRef a) =
     Some (\<lambda>k. map_option (v_val V h) (map_of (map_entries K h (MapRef a)) k))"

fun map_refs :: "(string \<times> 'a, 'c) kind \<Rightarrow> ('a, 'v, 'c) view \<Rightarrow> 'c heap \<Rightarrow> 'a mapref \<Rightarrow> nat set" where
  "map_refs K V h NilMap = {}"
| "map_refs K V h (MapRef a) =
     insert a (\<Union>e\<in>set (map_entries K h (MapRef a)). v_refs V h (snd e))"

definition map_view ::
  "(string \<times> 'a, 'c) kind \<Rightarrow> ('a, 'v, 'c) view \<Rightarrow> ('a mapref, (string \<rightharpoonup> 'v) option, 'c) view" where
  "map_view K V = \<lparr>v_ok = map_ok K V, v_val = map_val K V, v_refs = map_refs K V\<rparr>"

lemma map_view_simps [simp]:
  "v_ok (map_view K V) = map_ok K V" "v_val (map_view K V) = map_val K V"
  "v_refs (map_view K V) = map_refs K V"
  by (simp_all add: map_view_def)

section \<open>The contract of each block\<close>

context go_kind
begin

lemma array_at_store [simp]: "array_at K (store_at a (k_arr K xs) h) a = Some xs"
  by (simp add: array_at_def)

lemma make_slice_eq:
  "make_slice K n h =
     (Slice (h_next h) 0 n, snd (alloc (k_arr K (replicate n (k_zero K))) h))"
  by (simp add: make_slice_def Let_def split_beta)

lemma array_at_alloc [simp]: "array_at K (snd (alloc (k_arr K xs) h)) (h_next h) = Some xs"
  by (simp add: array_at_def)

lemma clone_slice_copies:
  assumes ok: "heap_ok h" "slice_ok K flat_view h s" and s: "s \<noteq> NilSlice"
    and eq: "clone_slice K s h = (t, h')"
  shows "is_copy (slice_view K flat_view) h s h' t"
proof -
  from s obtain a off n where s: "s = Slice a off n" by (cases s) auto
  with ok obtain xs where xs: "array_at K h a = Some xs" and len: "off + n \<le> length xs"
    by (auto split: option.splits)
  let ?vs = "take n (drop off xs)"
  let ?h1 = "snd (alloc (k_arr K (replicate n (k_zero K))) h)"
  from xs have "a < h_next h" by (auto dest: array_at_SomeD heap_okD [OF ok(1)])
  then have "array_at K ?h1 a = Some xs" using xs by (simp add: array_at_def)
  with len eq have t: "t = Slice (h_next h) 0 n"
    and h': "h' = store_at (h_next h) (k_arr K ?vs) ?h1"
    by (auto simp: clone_slice_def s make_slice_eq Let_def)
  have "heap_extends h h'"
    unfolding h' by (rule heap_extends_store [OF heap_extends_alloc [OF ok(1)]]) simp_all
  with xs len show ?thesis
    by (auto simp: is_copy_def t s h' list_all_iff)
qed

end

text \<open>The two loops: the kind of the cells and the contract of the elements' copy function.\<close>

locale element_copy = go_kind K + deep_copy V cp
  for K :: "('a, 'c) kind" and V :: "('a, 'v, 'c) view" and cp
begin

lemma copy_items_copies:
  assumes ok: "heap_ok h" "slice_ok K V h s" and s: "s \<noteq> NilSlice"
    and eq: "copy_items K cp s h = (t, h')"
  shows "is_copy (slice_view K V) h s h' t"
proof -
  from s obtain a off n where s: "s = Slice a off n" by (cases s) auto
  with ok obtain xs where xs: "array_at K h a = Some xs" and len: "off + n \<le> length xs"
    and win: "list_all (v_ok V h) (take n (drop off xs))"
    by (auto split: option.splits)
  from xs have below: "a < h_next h" by (auto dest: array_at_SomeD heap_okD [OF ok(1)])
  let ?h1 = "snd (alloc (k_arr K (replicate n (k_zero K))) h)"
  let ?n = "h_next h"
  let ?t = "Slice ?n 0 n :: 'a slice"
  define inv where "inv i g \<longleftrightarrow> heap_extends h g \<and> ?n < h_next g \<and>
    (\<exists>ys. array_at K g ?n = Some ys \<and> length ys = n \<and>
       (\<forall>j<i. copied_above V ?n (v_val V h (xs ! (off + j))) g (ys ! j)))" for i g
  have loop: "i \<le> n \<Longrightarrow> inv i (fold (copy_item K cp s ?t) [0..<i] ?h1)" for i
  proof (induction i)
    case 0
    show ?case by (simp add: inv_def heap_extends_alloc [OF ok(1)])
  next
    case (Suc i)
    let ?g = "fold (copy_item K cp s ?t) [0..<i] ?h1"
    from Suc obtain ys where ext: "heap_extends h ?g" and n: "?n < h_next ?g"
      and ys: "array_at K ?g ?n = Some ys" and ly: "length ys = n"
      and each: "\<forall>j<i. copied_above V ?n (v_val V h (xs ! (off + j))) ?g (ys ! j)"
      by (auto simp: inv_def)
    have i: "i < n" using Suc.prems by simp
    have "array_at K ?g a = Some xs"
      using xs below ext by (simp add: array_at_def heap_extends_def)
    with i len have get: "slice_get K ?g s i = xs ! (off + i)"
      by (simp add: slice_get_def s nth_append)
    obtain y g where cpy: "cp (xs ! (off + i)) (slice_get K ?g ?t i) ?g = (y, g)"
      by (cases "cp (xs ! (off + i)) (slice_get K ?g ?t i) ?g")
    have okx: "v_ok V h (xs ! (off + i))"
      using win i len by (auto simp: list_all_length)
    note step = build_step [OF ok(1) okx ext refl n cpy]
    have "array_at K g ?n = Some ys" using step(3) ys by (simp add: array_at_def)
    then have g: "fold (copy_item K cp s ?t) [0..<Suc i] ?h1 = store_at ?n (k_arr K (ys[i := y])) g"
      by (simp add: copy_item_def get cpy)
    have "\<forall>j<Suc i. copied_above V ?n (v_val V h (xs ! (off + j)))
             (store_at ?n (k_arr K (ys[i := y])) g) (ys[i := y] ! j)"
      using step(4,5) each ly i by (auto simp: nth_list_update less_Suc_eq)
    with step(1,2) ly show ?case
      unfolding inv_def g by simp
  qed
  from eq have t: "t = ?t" and h': "h' = fold (copy_item K cp s ?t) [0..<n] ?h1"
    by (auto simp: copy_items_def make_slice_eq s Let_def)
  from loop [of n] obtain ys where fin: "heap_extends h h'" "?n < h_next h'"
    "array_at K h' ?n = Some ys" "length ys = n"
    and each: "\<forall>j<n. copied_above V ?n (v_val V h (xs ! (off + j))) h' (ys ! j)"
    by (auto simp: inv_def h')
  have "map (v_val V h') ys = map (v_val V h) (take n (drop off xs))"
    using each fin(4) len by (auto intro!: nth_equalityI simp: copied_above_def)
  moreover have "list_all (v_ok V h') ys" and "\<forall>y\<in>set ys. v_refs V h' y \<subseteq> {?n<..<h_next h'}"
    using each fin(4) by (fastforce simp: list_all_length copied_above_def in_set_conv_nth)+
  ultimately show ?thesis
    using fin xs by (fastforce simp: is_copy_def t s)
qed

text \<open>\<^verbatim>\<open>DeepCopy\<close> on a pointer.\<close>

lemma ptr_copies:
  assumes ok: "heap_ok h" "ptr_ok K V h p" and eq: "ptr_DeepCopy K cp p h = (q, h')"
  shows "is_copy (ptr_view K V) h p h' q"
proof (cases p)
  case NilPtr
  with ok eq show ?thesis by (auto simp: is_copy_def ptr_DeepCopy_def)
next
  case (Ptr a i)
  with ok obtain xs where xs: "array_at K h a = Some xs" and i: "i < length xs"
    and okx: "v_ok V h (xs ! i)"
    by (auto split: option.splits)
  from xs have below: "a < h_next h" by (auto dest: array_at_SomeD heap_okD [OF ok(1)])
  let ?h1 = "snd (alloc (k_arr K [k_zero K]) h)"
  let ?n = "h_next h"
  have ext: "heap_extends h ?h1" by (rule heap_extends_alloc [OF ok(1)])
  have "array_at K ?h1 a = Some xs" using xs below by (simp add: array_at_def)
  with i have load: "load K ?h1 (Ptr a i) = xs ! i" by simp
  obtain y g where cpy: "cp (xs ! i) (load K ?h1 (Ptr ?n 0)) ?h1 = (y, g)"
    by (cases "cp (xs ! i) (load K ?h1 (Ptr ?n 0)) ?h1")
  have n: "?n < h_next ?h1" by simp
  note step = build_step [OF ok(1) okx ext refl n cpy]
  have "array_at K g ?n = Some [k_zero K]" using step(3) by (simp add: array_at_def)
  moreover have "ptr_DeepCopy K cp p h = (Ptr ?n 0, put K (Ptr ?n 0) y g)"
    using load cpy by (simp add: ptr_DeepCopy_def go_new_def Ptr Let_def split_beta del: load.simps
      split: option.split)
  ultimately have q: "q = Ptr ?n 0" and h': "h' = store_at ?n (k_arr K [y]) g"
    using eq by simp_all
  from step(4) have "v_ok V h' y" "v_val V h' y = v_val V h (xs ! i)"
    "v_refs V h' y \<subseteq> {?n<..<h_next h'}"
    by (simp_all add: copied_above_def h')
  moreover have "heap_extends h h'" "?n < h_next h'" using step(1,2) by (simp_all add: h')
  moreover have "array_at K h' ?n = Some [y]" by (simp add: h')
  ultimately show ?thesis using xs i by (fastforce simp: is_copy_def q Ptr)
qed

end

subsection \<open>The loop over the entries of a map\<close>

locale entry_copy = go_kind K + deep_copy V "\<lambda>x out. cp x"
  for K :: "(string \<times> 'a, 'c) kind" and V :: "('a, 'v, 'c) view" and cp
begin

text \<open>
  The entries written so far, key by key: the value is a copy of the one the loop read.
\<close>

definition filled :: "'c heap \<Rightarrow> (string \<times> 'a) list \<Rightarrow> 'c heap \<Rightarrow> bool" where
  "filled h es g \<longleftrightarrow>
     heap_extends h g \<and> h_next h < h_next g \<and>
     (\<exists>m. array_at K g (h_next h) = Some m \<and> gomap_ok m \<and>
        (\<forall>k. rel_option (\<lambda>x y. copied_above V (h_next h) (v_val V h x) g y) (map_of es k) (map_of m k)))"

lemma filled_step:
  assumes ok: "heap_ok h" and x: "v_ok V h x" and k: "k \<notin> fst ` set es" and inv: "filled h es g"
  shows "filled h (es @ [(k, x)]) (copy_entry K cp (MapRef (h_next h)) (k, x) g)"
proof -
  let ?n = "h_next h"
  from inv obtain m where ext: "heap_extends h g" and n: "?n < h_next g"
    and m: "array_at K g ?n = Some m" and okm: "gomap_ok m"
    and each: "rel_option (\<lambda>x y. copied_above V ?n (v_val V h x) g y) (map_of es j) (map_of m j)" for j
    by (auto simp: filled_def)
  obtain y g' where cpy: "cp x g = (y, g')" by (cases "cp x g")
  note step = build_step [OF ok x ext refl n cpy]
  have "array_at K g' ?n = Some m" using step(3) m by (simp add: array_at_def)
  then have g: "copy_entry K cp (MapRef ?n) (k, x) g = store_at ?n (k_arr K (gset k y m)) g'"
    by (simp add: copy_entry_def cpy)
  let ?g = "store_at ?n (k_arr K (gset k y m)) g'"
  have "rel_option (\<lambda>u. copied_above V ?n (v_val V h u) ?g)
          (map_of (es @ [(k, x)]) j) (map_of (gset k y m) j)" for j
  proof (cases "j = k")
    case True
    with k step(4) show ?thesis by (simp add: map_add_def map_of_eq_None_iff [THEN iffD2])
  next
    case False
    with each [of j] step(5) show ?thesis
      by (auto simp: map_add_def split: option.split elim!: option.rel_mono_strong)
  qed
  then have "\<exists>m'. array_at K ?g ?n = Some m' \<and> gomap_ok m' \<and>
      (\<forall>j. rel_option (\<lambda>u. copied_above V ?n (v_val V h u) ?g)
         (map_of (es @ [(k, x)]) j) (map_of m' j))"
    using okm by (intro exI [of _ "gset k y m"] conjI allI) simp_all
  with step(1,2) show ?thesis unfolding filled_def g by simp
qed

lemma filled_loop:
  assumes ok: "heap_ok h"
  shows "distinct (map fst es) \<Longrightarrow> list_all (\<lambda>e. v_ok V h (snd e)) es \<Longrightarrow>
    filled h es (fold (copy_entry K cp (MapRef (h_next h))) es (snd (alloc (k_arr K []) h)))"
proof (induction es rule: rev_induct)
  case Nil
  show ?case by (simp add: filled_def heap_extends_alloc [OF ok])
next
  case (snoc e es)
  then show ?case by (cases e) (simp add: filled_step [OF ok])
qed

lemma copy_map_copies:
  assumes ok: "heap_ok h" "map_ok K V h r" and r: "r \<noteq> NilMap" and ord: "range_order ord"
    and eq: "copy_map K cp ord r h = (t, h')"
  shows "is_copy (map_view K V) h r h' t"
proof -
  from r obtain a where r: "r = MapRef a" by (cases r) auto
  with ok obtain m where m: "array_at K h a = Some m" and okm: "gomap_ok m"
    and vals: "list_all (\<lambda>e. v_ok V h (snd e)) m"
    by (auto split: option.splits)
  let ?n = "h_next h" and ?es = "grange ord m"
  from eq m have t: "t = MapRef ?n"
    and h': "h' = fold (copy_entry K cp (MapRef ?n)) ?es (snd (alloc (k_arr K []) h))"
    by (auto simp: copy_map_def make_map_def r Let_def split_beta)
  have "list_all (\<lambda>e. v_ok V h (snd e)) ?es"
    using vals okm ord by (auto simp: list_all_iff set_grange gomap_ok_def gkeys_def)
  then have "filled h ?es h'"
    unfolding h' by (rule filled_loop [OF ok(1) distinct_grange [OF ord okm]])
  then obtain m' where ext: "heap_extends h h'" and n: "?n < h_next h'"
    and m': "array_at K h' ?n = Some m'" and okm': "gomap_ok m'"
    and each: "\<And>k. rel_option (\<lambda>x y. copied_above V ?n (v_val V h x) h' y) (map_of m k) (map_of m' k)"
    by (auto simp: filled_def map_of_grange [OF ord okm])
  have new: "v_ok V h' y \<and> v_refs V h' y \<subseteq> {?n<..<h_next h'}" if "(k, y) \<in> set m'" for k y
  proof -
    from that okm' have "map_of m' k = Some y" by (simp add: gomap_ok_def gkeys_def)
    with each [of k] show ?thesis by (auto simp: option_rel_Some2 copied_above_def)
  qed
  have "map_option (v_val V h') (map_of m' k) = map_option (v_val V h) (map_of m k)" for k
    using each [of k] by (cases "map_of m k") (auto simp: option_rel_Some1 copied_above_def)
  moreover have "list_all (\<lambda>e. v_ok V h' (snd e)) m'"
    and "(\<Union>e\<in>set m'. v_refs V h' (snd e)) \<subseteq> {?n<..<h_next h'}"
    using new by (fastforce simp: list_all_iff)+
  ultimately show ?thesis
    using ext n m m' okm' by (auto simp: is_copy_def t r)
qed

end

end
