(* ===== verification/DeepCopy.thy ===== *)
theory DeepCopy
  imports Types CopyLoops
begin

text \<open>
  The generated copy functions of \<^verbatim>\<open>zz_generated.deepcopy.go\<close>, over the memory of
  GoHeap: the structs of \<^verbatim>\<open>pkg/apis/submariner/v1alpha1\<close> as they lie in memory, the
  cells they are stored in, and for every type \<^verbatim>\<open>T\<close> the function
  \<^verbatim>\<open>T.DeepCopyInto\<close> (from a struct, the struct to overwrite and the heap to the struct
  written and the heap), \<^verbatim>\<open>T.DeepCopy\<close> on pointers and
  \<^verbatim>\<open>T.DeepCopyObject\<close>.

  The structs of the API machinery and of the operator SDK (\<^verbatim>\<open>ObjectMeta\<close>,
  \<^verbatim>\<open>ListMeta\<close>, \<^verbatim>\<open>Condition\<close>) are values of a type \<open>'x\<close> and the cells
  they refer to of a type \<open>'k\<close>; their copy functions are fields of \<open>copylib\<close>.
\<close>

section \<open>The structs in memory\<close>

text \<open>
  Structs that have the same fields share a record: an object of the API (TypeMeta, ObjectMeta,
  Spec, Status), a list of objects, the spec of a Forwarder or a Gateway and its status. Their
  type parameters are the types of the fields that hold references, so that the same record
  serves for the struct in memory and for its value.
\<close>

record type_meta =
  tm_Kind :: string
  tm_APIVersion :: string

record ('m, 'sp, 'st) kobject =
  ko_TypeMeta :: type_meta
  ko_ObjectMeta :: 'm
  ko_Spec :: 'sp
  ko_Status :: 'st

record ('m, 'i) klist =
  kl_TypeMeta :: type_meta
  kl_ListMeta :: 'm
  kl_Items :: 'i

record ('ss, 'ps) es_fields =
  ef_TargetIP :: string
  ef_Sources :: 'ss
  ef_Ports :: 'ps

record 'rs rule_fields =
  rf_EgressRules :: 'rs
  rf_IngressRules :: 'rs
  rf_IP :: string

record 'cs status_fields =
  sf_Conditions :: 'cs
  sf_RuleGeneration :: "64 word"
  sf_SyncGeneration :: "64 word"

type_synonym es_spec_mem = "(source slice, service_port slice) es_fields"
type_synonym fwd_spec_mem = "forwarder_rule slice rule_fields"
type_synonym gw_spec_mem = "gateway_rule slice rule_fields"
type_synonym 'x status_mem = "'x mapref status_fields"
type_synonym 'x es_mem = "('x, es_spec_mem, unit) kobject"
type_synonym 'x fwd_mem = "('x, fwd_spec_mem, 'x status_mem) kobject"
type_synonym 'x gw_mem = "('x, gw_spec_mem, 'x status_mem) kobject"
type_synonym 'x es_list_mem = "('x, 'x es_mem slice) klist"
type_synonym 'x fwd_list_mem = "('x, 'x fwd_mem slice) klist"
type_synonym 'x gw_list_mem = "('x, 'x gw_mem slice) klist"

datatype ('x, 'k) cell =
    SourceArr "source list"
  | ServicePortArr "service_port list"
  | ServiceRefArr "service_ref list"
  | ExternalServiceSpecArr "es_spec_mem list"
  | ExternalServiceStatusArr "unit list"
  | ExternalServiceArr "'x es_mem list"
  | ExternalServiceListArr "'x es_list_mem list"
  | GatewayRefArr "gateway_ref list"
  | ForwarderRuleArr "forwarder_rule list"
  | ForwarderSpecArr "fwd_spec_mem list"
  | ForwarderStatusArr "'x status_mem list"
  | ForwarderArr "'x fwd_mem list"
  | ForwarderListArr "'x fwd_list_mem list"
  | ForwarderRefArr "forwarder_ref list"
  | GatewayRuleArr "gateway_rule list"
  | GatewaySpecArr "gw_spec_mem list"
  | GatewayStatusArr "'x status_mem list"
  | GatewayArr "'x gw_mem list"
  | GatewayListArr "'x gw_list_mem list"
  | ConditionsMap "'x gomap"
  | LibraryCell 'k

type_synonym ('x, 'k) mem = "('x, 'k) cell heap"

text \<open>
  The library's copy functions. \<open>lc_Condition\<close> is \<^verbatim>\<open>*val.DeepCopy()\<close>;
  \<open>lc_zero\<close> is the zero value of the library's structs and \<open>lc_order\<close> the order in
  which a range visits a map.
\<close>

record ('x, 'k) copylib =
  lc_ObjectMeta :: "('x, ('x, 'k) cell) copier"
  lc_ListMeta :: "('x, ('x, 'k) cell) copier"
  lc_Condition :: "'x \<Rightarrow> ('x, 'k) mem \<Rightarrow> 'x \<times> ('x, 'k) mem"
  lc_zero :: 'x
  lc_order :: key_order

definition copylib_laws :: "('x, 'k) copylib \<Rightarrow> ('x, 'v, ('x, 'k) cell) view \<Rightarrow> bool" where
  "copylib_laws L X \<longleftrightarrow>
     deep_copy X (lc_ObjectMeta L) \<and> deep_copy X (lc_ListMeta L) \<and>
     deep_copy X (\<lambda>x out. lc_Condition L x) \<and> range_order (lc_order L)"

section \<open>Kinds\<close>

definition zero_type_meta :: type_meta where
  "zero_type_meta = \<lparr>tm_Kind = [], tm_APIVersion = []\<rparr>"

definition zero_object :: "'m \<Rightarrow> 'sp \<Rightarrow> 'st \<Rightarrow> ('m, 'sp, 'st) kobject" where
  "zero_object m sp st =
     \<lparr>ko_TypeMeta = zero_type_meta, ko_ObjectMeta = m, ko_Spec = sp, ko_Status = st\<rparr>"

definition zero_list :: "'m \<Rightarrow> ('m, 'i slice) klist" where
  "zero_list m = \<lparr>kl_TypeMeta = zero_type_meta, kl_ListMeta = m, kl_Items = NilSlice\<rparr>"

definition zero_rules :: "'r slice rule_fields" where
  "zero_rules = \<lparr>rf_EgressRules = NilSlice, rf_IngressRules = NilSlice, rf_IP = []\<rparr>"

definition zero_status :: "'x status_mem" where
  "zero_status = \<lparr>sf_Conditions = NilMap, sf_RuleGeneration = 0, sf_SyncGeneration = 0\<rparr>"

definition zero_es_spec :: es_spec_mem where
  "zero_es_spec = \<lparr>ef_TargetIP = [], ef_Sources = NilSlice, ef_Ports = NilSlice\<rparr>"

definition SourceKind :: "(source, ('x, 'k) cell) kind" where
  "SourceKind =
     \<lparr>k_arr = SourceArr,
      k_elems = (\<lambda>c. case c of SourceArr xs \<Rightarrow> Some xs | _ \<Rightarrow> None),
      k_zero = \<lparr>src_Service = \<lparr>sref_Namespace = [], sref_Name = []\<rparr>, src_SourceIP = []\<rparr>\<rparr>"

definition ServicePortKind :: "(service_port, ('x, 'k) cell) kind" where
  "ServicePortKind =
     \<lparr>k_arr = ServicePortArr,
      k_elems = (\<lambda>c. case c of ServicePortArr xs \<Rightarrow> Some xs | _ \<Rightarrow> None),
      k_zero = \<lparr>sp_Name = [], sp_Protocol = [], sp_Port = 0, sp_TargetPort = IntVal 0\<rparr>\<rparr>"

definition ServiceRefKind :: "(service_ref, ('x, 'k) cell) kind" where
  "ServiceRefKind =
     \<lparr>k_arr = ServiceRefArr,
      k_elems = (\<lambda>c. case c of ServiceRefArr xs \<Rightarrow> Some xs | _ \<Rightarrow> None),
      k_zero = \<lparr>sref_Namespace = [], sref_Name = []\<rparr>\<rparr>"

definition ExternalServiceSpecKind :: "(es_spec_mem, ('x, 'k) cell) kind" where
  "ExternalServiceSpecKind =
     \<lparr>k_arr = ExternalServiceSpecArr,
      k_elems = (\<lambda>c. case c of ExternalServiceSpecArr xs \<Rightarrow> Some xs | _ \<Rightarrow> None),
      k_zero = zero_es_spec\<rparr>"

definition ExternalServiceStatusKind :: "(unit, ('x, 'k) cell) kind" where
  "ExternalServiceStatusKind =
     \<lparr>k_arr = ExternalServiceStatusArr,
      k_elems = (\<lambda>c. case c of ExternalServiceStatusArr xs \<Rightarrow> Some xs | _ \<Rightarrow> None),
      k_zero = ()\<rparr>"

definition ExternalServiceKind :: "('x, 'k) copylib \<Rightarrow> ('x es_mem, ('x, 'k) cell) kind" where
  "ExternalServiceKind L =
     \<lparr>k_arr = ExternalServiceArr,
      k_elems = (\<lambda>c. case c of ExternalServiceArr xs \<Rightarrow> Some xs | _ \<Rightarrow> None),
      k_zero = zero_object (lc_zero L) zero_es_spec ()\<rparr>"

definition ExternalServiceListKind :: "('x, 'k) copylib \<Rightarrow> ('x es_list_mem, ('x, 'k) cell) kind" where
  "ExternalServiceListKind L =
     \<lparr>k_arr = ExternalServiceListArr,
      k_elems = (\<lambda>c. case c of ExternalServiceListArr xs \<Rightarrow> Some xs | _ \<Rightarrow> None),
      k_zero = zero_list (lc_zero L)\<rparr>"

definition GatewayRefKind :: "(gateway_ref, ('x, 'k) cell) kind" where
  "GatewayRefKind =
     \<lparr>k_arr = GatewayRefArr,
      k_elems = (\<lambda>c. case c of GatewayRefArr xs \<Rightarrow> Some xs | _ \<Rightarrow> None),
      k_zero = \<lparr>gwref_Namespace = [], gwref_Name = []\<rparr>\<rparr>"

definition ForwarderRuleKind :: "(forwarder_rule, ('x, 'k) cell) kind" where
  "ForwarderRuleKind =
     \<lparr>k_arr = ForwarderRuleArr,
      k_elems = (\<lambda>c. case c of ForwarderRuleArr xs \<Rightarrow> Some xs | _ \<Rightarrow> None),
      k_zero = \<lparr>fr_Protocol = [], fr_SourceIP = [], fr_TargetPort = [], fr_DestinationIP = [],
        fr_DestinationPort = [], fr_Gateway = \<lparr>gwref_Namespace = [], gwref_Name = []\<rparr>,
        fr_GatewayIP = [], fr_RelayPort = []\<rparr>\<rparr>"

definition ForwarderSpecKind :: "(fwd_spec_mem, ('x, 'k) cell) kind" where
  "ForwarderSpecKind =
     \<lparr>k_arr = ForwarderSpecArr,
      k_elems = (\<lambda>c. case c of ForwarderSpecArr xs \<Rightarrow> Some xs | _ \<Rightarrow> None),
      k_zero = zero_rules\<rparr>"

definition ForwarderStatusKind :: "('x status_mem, ('x, 'k) cell) kind" where
  "ForwarderStatusKind =
     \<lparr>k_arr = ForwarderStatusArr,
      k_elems = (\<lambda>c. case c of ForwarderStatusArr xs \<Rightarrow> Some xs | _ \<Rightarrow> None),
      k_zero = zero_status\<rparr>"

definition ForwarderKind :: "('x, 'k) copylib \<Rightarrow> ('x fwd_mem, ('x, 'k) cell) kind" where
  "ForwarderKind L =
     \<lparr>k_arr = ForwarderArr,
      k_elems = (\<lambda>c. case c of ForwarderArr xs \<Rightarrow> Some xs | _ \<Rightarrow> None),
      k_zero = zero_object (lc_zero L) zero_rules zero_status\<rparr>"

definition ForwarderListKind :: "('x, 'k) copylib \<Rightarrow> ('x fwd_list_mem, ('x, 'k) cell) kind" where
  "ForwarderListKind L =
     \<lparr>k_arr = ForwarderListArr,
      k_elems = (\<lambda>c. case c of ForwarderListArr xs \<Rightarrow> Some xs | _ \<Rightarrow> None),
      k_zero = zero_list (lc_zero L)\<rparr>"

definition ForwarderRefKind :: "(forwarder_ref, ('x, 'k) cell) kind" where
  "ForwarderRefKind =
     \<lparr>k_arr = ForwarderRefArr,
      k_elems = (\<lambda>c. case c of ForwarderRefArr xs \<Rightarrow> Some xs | _ \<Rightarrow> None),
      k_zero = \<lparr>fwdref_Namespace = [], fwdref_Name = []\<rparr>\<rparr>"

definition GatewayRuleKind :: "(gateway_rule, ('x, 'k) cell) kind" where
  "GatewayRuleKind =
     \<lparr>k_arr = GatewayRuleArr,
      k_elems = (\<lambda>c. case c of GatewayRuleArr xs \<Rightarrow> Some xs | _ \<Rightarrow> None),
      k_zero = \<lparr>gr_Protocol = [], gr_SourceIP = [], gr_TargetPort = [], gr_DestinationPort = [],
        gr_DestinationIP = [], gr_Forwarder = \<lparr>fwdref_Namespace = [], fwdref_Name = []\<rparr>,
        gr_ForwarderIP = [], gr_RelayPort = []\<rparr>\<rparr>"

definition GatewaySpecKind :: "(gw_spec_mem, ('x, 'k) cell) kind" where
  "GatewaySpecKind =
     \<lparr>k_arr = GatewaySpecArr,
      k_elems = (\<lambda>c. case c of GatewaySpecArr xs \<Rightarrow> Some xs | _ \<Rightarrow> None),
      k_zero = zero_rules\<rparr>"

definition GatewayStatusKind :: "('x status_mem, ('x, 'k) cell) kind" where
  "GatewayStatusKind =
     \<lparr>k_arr = GatewayStatusArr,
      k_elems = (\<lambda>c. case c of GatewayStatusArr xs \<Rightarrow> Some xs | _ \<Rightarrow> None),
      k_zero = zero_status\<rparr>"

definition GatewayKind :: "('x, 'k) copylib \<Rightarrow> ('x gw_mem, ('x, 'k) cell) kind" where
  "GatewayKind L =
     \<lparr>k_arr = GatewayArr,
      k_elems = (\<lambda>c. case c of GatewayArr xs \<Rightarrow> Some xs | _ \<Rightarrow> None),
      k_zero = zero_object (lc_zero L) zero_rules zero_status\<rparr>"

definition GatewayListKind :: "('x, 'k) copylib \<Rightarrow> ('x gw_list_mem, ('x, 'k) cell) kind" where
  "GatewayListKind L =
     \<lparr>k_arr = GatewayListArr,
      k_elems = (\<lambda>c. case c of GatewayListArr xs \<Rightarrow> Some xs | _ \<Rightarrow> None),
      k_zero = zero_list (lc_zero L)\<rparr>"

definition ConditionsKind :: "('x, 'k) copylib \<Rightarrow> (string \<times> 'x, ('x, 'k) cell) kind" where
  "ConditionsKind L =
     \<lparr>k_arr = ConditionsMap,
      k_elems = (\<lambda>c. case c of ConditionsMap m \<Rightarrow> Some m | _ \<Rightarrow> None),
      k_zero = ([], lc_zero L)\<rparr>"

lemmas kind_defs =
  SourceKind_def
  ServicePortKind_def
  ServiceRefKind_def
  ExternalServiceSpecKind_def
  ExternalServiceStatusKind_def
  ExternalServiceKind_def
  ExternalServiceListKind_def
  GatewayRefKind_def
  ForwarderRuleKind_def
  ForwarderSpecKind_def
  ForwarderStatusKind_def
  ForwarderKind_def
  ForwarderListKind_def
  ForwarderRefKind_def
  GatewayRuleKind_def
  GatewaySpecKind_def
  GatewayStatusKind_def
  GatewayKind_def
  GatewayListKind_def
  ConditionsKind_def

interpretation SourceKind: go_kind "SourceKind :: (_, ('x, 'k) cell) kind"
  by unfold_locales (simp add: SourceKind_def)

interpretation ServicePortKind: go_kind "ServicePortKind :: (_, ('x, 'k) cell) kind"
  by unfold_locales (simp add: ServicePortKind_def)

interpretation ServiceRefKind: go_kind "ServiceRefKind :: (_, ('x, 'k) cell) kind"
  by unfold_locales (simp add: ServiceRefKind_def)

interpretation ExternalServiceSpecKind: go_kind "ExternalServiceSpecKind :: (_, ('x, 'k) cell) kind"
  by unfold_locales (simp add: ExternalServiceSpecKind_def)

interpretation ExternalServiceStatusKind: go_kind "ExternalServiceStatusKind :: (_, ('x, 'k) cell) kind"
  by unfold_locales (simp add: ExternalServiceStatusKind_def)

interpretation ExternalServiceKind: go_kind "ExternalServiceKind L" for L :: "('x, 'k) copylib"
  by unfold_locales (simp add: ExternalServiceKind_def)

interpretation ExternalServiceListKind: go_kind "ExternalServiceListKind L" for L :: "('x, 'k) copylib"
  by unfold_locales (simp add: ExternalServiceListKind_def)

interpretation GatewayRefKind: go_kind "GatewayRefKind :: (_, ('x, 'k) cell) kind"
  by unfold_locales (simp add: GatewayRefKind_def)

interpretation ForwarderRuleKind: go_kind "ForwarderRuleKind :: (_, ('x, 'k) cell) kind"
  by unfold_locales (simp add: ForwarderRuleKind_def)

interpretation ForwarderSpecKind: go_kind "ForwarderSpecKind :: (_, ('x, 'k) cell) kind"
  by unfold_locales (simp add: ForwarderSpecKind_def)

interpretation ForwarderStatusKind: go_kind "ForwarderStatusKind :: (_, ('x, 'k) cell) kind"
  by unfold_locales (simp add: ForwarderStatusKind_def)

interpretation ForwarderKind: go_kind "ForwarderKind L" for L :: "('x, 'k) copylib"
  by unfold_locales (simp add: ForwarderKind_def)

interpretation ForwarderListKind: go_kind "ForwarderListKind L" for L :: "('x, 'k) copylib"
  by unfold_locales (simp add: ForwarderListKind_def)

interpretation ForwarderRefKind: go_kind "ForwarderRefKind :: (_, ('x, 'k) cell) kind"
  by unfold_locales (simp add: ForwarderRefKind_def)

interpretation GatewayRuleKind: go_kind "GatewayRuleKind :: (_, ('x, 'k) cell) kind"
  by unfold_locales (simp add: GatewayRuleKind_def)

interpretation GatewaySpecKind: go_kind "GatewaySpecKind :: (_, ('x, 'k) cell) kind"
  by unfold_locales (simp add: GatewaySpecKind_def)

interpretation GatewayStatusKind: go_kind "GatewayStatusKind :: (_, ('x, 'k) cell) kind"
  by unfold_locales (simp add: GatewayStatusKind_def)

interpretation GatewayKind: go_kind "GatewayKind L" for L :: "('x, 'k) copylib"
  by unfold_locales (simp add: GatewayKind_def)

interpretation GatewayListKind: go_kind "GatewayListKind L" for L :: "('x, 'k) copylib"
  by unfold_locales (simp add: GatewayListKind_def)

interpretation ConditionsKind: go_kind "ConditionsKind L" for L :: "('x, 'k) copylib"
  by unfold_locales (simp add: ConditionsKind_def)

section \<open>DeepCopyInto\<close>

subsection \<open>Structs without references\<close>

text \<open>
  \<^verbatim>\<open>*out = *in\<close>, and for some the assignment of a struct-valued field, which is
  already equal.
\<close>

definition ServiceRef_DeepCopyInto :: "(service_ref, ('x, 'k) cell) copier" where
  "ServiceRef_DeepCopyInto inp out h =
     (let out = inp in (out, h))"

definition GatewayRef_DeepCopyInto :: "(gateway_ref, ('x, 'k) cell) copier" where
  "GatewayRef_DeepCopyInto inp out h =
     (let out = inp in (out, h))"

definition ForwarderRef_DeepCopyInto :: "(forwarder_ref, ('x, 'k) cell) copier" where
  "ForwarderRef_DeepCopyInto inp out h =
     (let out = inp in (out, h))"

definition ExternalServiceStatus_DeepCopyInto :: "(unit, ('x, 'k) cell) copier" where
  "ExternalServiceStatus_DeepCopyInto inp out h =
     (let out = inp in (out, h))"

definition Source_DeepCopyInto :: "(source, ('x, 'k) cell) copier" where
  "Source_DeepCopyInto inp out h =
     (let out = inp;
          out = out\<lparr>src_Service := src_Service inp\<rparr>
      in (out, h))"

definition ForwarderRule_DeepCopyInto :: "(forwarder_rule, ('x, 'k) cell) copier" where
  "ForwarderRule_DeepCopyInto inp out h =
     (let out = inp;
          out = out\<lparr>fr_Gateway := fr_Gateway inp\<rparr>
      in (out, h))"

definition GatewayRule_DeepCopyInto :: "(gateway_rule, ('x, 'k) cell) copier" where
  "GatewayRule_DeepCopyInto inp out h =
     (let out = inp;
          out = out\<lparr>gr_Forwarder := gr_Forwarder inp\<rparr>
      in (out, h))"

subsection \<open>Specs\<close>

definition ExternalServiceSpec_DeepCopyInto :: "(es_spec_mem, ('x, 'k) cell) copier" where
  "ExternalServiceSpec_DeepCopyInto inp out h =
     (let out = inp;
          (out, h) = (if ef_Sources inp \<noteq> NilSlice
                      then let (xs, h) = clone_slice SourceKind (ef_Sources inp) h
                           in (out\<lparr>ef_Sources := xs\<rparr>, h)
                      else (out, h));
          (out, h) = (if ef_Ports inp \<noteq> NilSlice
                      then let (xs, h) = clone_slice ServicePortKind (ef_Ports inp) h
                           in (out\<lparr>ef_Ports := xs\<rparr>, h)
                      else (out, h))
      in (out, h))"

definition ForwarderSpec_DeepCopyInto :: "(fwd_spec_mem, ('x, 'k) cell) copier" where
  "ForwarderSpec_DeepCopyInto inp out h =
     (let out = inp;
          (out, h) = (if rf_EgressRules inp \<noteq> NilSlice
                      then let (xs, h) = clone_slice ForwarderRuleKind (rf_EgressRules inp) h
                           in (out\<lparr>rf_EgressRules := xs\<rparr>, h)
                      else (out, h));
          (out, h) = (if rf_IngressRules inp \<noteq> NilSlice
                      then let (xs, h) = clone_slice ForwarderRuleKind (rf_IngressRules inp) h
                           in (out\<lparr>rf_IngressRules := xs\<rparr>, h)
                      else (out, h))
      in (out, h))"

definition GatewaySpec_DeepCopyInto :: "(gw_spec_mem, ('x, 'k) cell) copier" where
  "GatewaySpec_DeepCopyInto inp out h =
     (let out = inp;
          (out, h) = (if rf_EgressRules inp \<noteq> NilSlice
                      then let (xs, h) = clone_slice GatewayRuleKind (rf_EgressRules inp) h
                           in (out\<lparr>rf_EgressRules := xs\<rparr>, h)
                      else (out, h));
          (out, h) = (if rf_IngressRules inp \<noteq> NilSlice
                      then let (xs, h) = clone_slice GatewayRuleKind (rf_IngressRules inp) h
                           in (out\<lparr>rf_IngressRules := xs\<rparr>, h)
                      else (out, h))
      in (out, h))"

subsection \<open>Statuses\<close>

text \<open>The conditions are copied into a new map, entry by entry.\<close>

definition ForwarderStatus_DeepCopyInto :: "('x, 'k) copylib \<Rightarrow> ('x status_mem, ('x, 'k) cell) copier" where
  "ForwarderStatus_DeepCopyInto L inp out h =
     (let out = inp;
          (out, h) = (if sf_Conditions inp \<noteq> NilMap
                      then let (m, h) = copy_map (ConditionsKind L) (lc_Condition L) (lc_order L)
                                          (sf_Conditions inp) h
                           in (out\<lparr>sf_Conditions := m\<rparr>, h)
                      else (out, h))
      in (out, h))"

definition GatewayStatus_DeepCopyInto :: "('x, 'k) copylib \<Rightarrow> ('x status_mem, ('x, 'k) cell) copier" where
  "GatewayStatus_DeepCopyInto L inp out h =
     (let out = inp;
          (out, h) = (if sf_Conditions inp \<noteq> NilMap
                      then let (m, h) = copy_map (ConditionsKind L) (lc_Condition L) (lc_order L)
                                          (sf_Conditions inp) h
                           in (out\<lparr>sf_Conditions := m\<rparr>, h)
                      else (out, h))
      in (out, h))"

subsection \<open>Objects\<close>

definition ExternalService_DeepCopyInto :: "('x, 'k) copylib \<Rightarrow> ('x es_mem, ('x, 'k) cell) copier" where
  "ExternalService_DeepCopyInto L inp out h =
     (let out = inp;
          out = out\<lparr>ko_TypeMeta := ko_TypeMeta inp\<rparr>;
          (m, h) = lc_ObjectMeta L (ko_ObjectMeta inp) (ko_ObjectMeta out) h;
          out = out\<lparr>ko_ObjectMeta := m\<rparr>;
          (sp, h) = ExternalServiceSpec_DeepCopyInto (ko_Spec inp) (ko_Spec out) h;
          out = out\<lparr>ko_Spec := sp\<rparr>;
          out = out\<lparr>ko_Status := ko_Status inp\<rparr>
      in (out, h))"

definition Forwarder_DeepCopyInto :: "('x, 'k) copylib \<Rightarrow> ('x fwd_mem, ('x, 'k) cell) copier" where
  "Forwarder_DeepCopyInto L inp out h =
     (let out = inp;
          out = out\<lparr>ko_TypeMeta := ko_TypeMeta inp\<rparr>;
          (m, h) = lc_ObjectMeta L (ko_ObjectMeta inp) (ko_ObjectMeta out) h;
          out = out\<lparr>ko_ObjectMeta := m\<rparr>;
          (sp, h) = ForwarderSpec_DeepCopyInto (ko_Spec inp) (ko_Spec out) h;
          out = out\<lparr>ko_Spec := sp\<rparr>;
          (st, h) = ForwarderStatus_DeepCopyInto L (ko_Status inp) (ko_Status out) h;
          out = out\<lparr>ko_Status := st\<rparr>
      in (out, h))"

definition Gateway_DeepCopyInto :: "('x, 'k) copylib \<Rightarrow> ('x gw_mem, ('x, 'k) cell) copier" where
  "Gateway_DeepCopyInto L inp out h =
     (let out = inp;
          out = out\<lparr>ko_TypeMeta := ko_TypeMeta inp\<rparr>;
          (m, h) = lc_ObjectMeta L (ko_ObjectMeta inp) (ko_ObjectMeta out) h;
          out = out\<lparr>ko_ObjectMeta := m\<rparr>;
          (sp, h) = GatewaySpec_DeepCopyInto (ko_Spec inp) (ko_Spec out) h;
          out = out\<lparr>ko_Spec := sp\<rparr>;
          (st, h) = GatewayStatus_DeepCopyInto L (ko_Status inp) (ko_Status out) h;
          out = out\<lparr>ko_Status := st\<rparr>
      in (out, h))"

subsection \<open>Lists\<close>

definition ExternalServiceList_DeepCopyInto :: "('x, 'k) copylib \<Rightarrow> ('x es_list_mem, ('x, 'k) cell) copier" where
  "ExternalServiceList_DeepCopyInto L inp out h =
     (let out = inp;
          out = out\<lparr>kl_TypeMeta := kl_TypeMeta inp\<rparr>;
          (m, h) = lc_ListMeta L (kl_ListMeta inp) (kl_ListMeta out) h;
          out = out\<lparr>kl_ListMeta := m\<rparr>;
          (out, h) = (if kl_Items inp \<noteq> NilSlice
                      then let (xs, h) = copy_items (ExternalServiceKind L) (ExternalService_DeepCopyInto L)
                                           (kl_Items inp) h
                           in (out\<lparr>kl_Items := xs\<rparr>, h)
                      else (out, h))
      in (out, h))"

definition ForwarderList_DeepCopyInto :: "('x, 'k) copylib \<Rightarrow> ('x fwd_list_mem, ('x, 'k) cell) copier" where
  "ForwarderList_DeepCopyInto L inp out h =
     (let out = inp;
          out = out\<lparr>kl_TypeMeta := kl_TypeMeta inp\<rparr>;
          (m, h) = lc_ListMeta L (kl_ListMeta inp) (kl_ListMeta out) h;
          out = out\<lparr>kl_ListMeta := m\<rparr>;
          (out, h) = (if kl_Items inp \<noteq> NilSlice
                      then let (xs, h) = copy_items (ForwarderKind L) (Forwarder_DeepCopyInto L)
                                           (kl_Items inp) h
                           in (out\<lparr>kl_Items := xs\<rparr>, h)
                      else (out, h))
      in (out, h))"

definition GatewayList_DeepCopyInto :: "('x, 'k) copylib \<Rightarrow> ('x gw_list_mem, ('x, 'k) cell) copier" where
  "GatewayList_DeepCopyInto L inp out h =
     (let out = inp;
          out = out\<lparr>kl_TypeMeta := kl_TypeMeta inp\<rparr>;
          (m, h) = lc_ListMeta L (kl_ListMeta inp) (kl_ListMeta out) h;
          out = out\<lparr>kl_ListMeta := m\<rparr>;
          (out, h) = (if kl_Items inp \<noteq> NilSlice
                      then let (xs, h) = copy_items (GatewayKind L) (Gateway_DeepCopyInto L)
                                           (kl_Items inp) h
                           in (out\<lparr>kl_Items := xs\<rparr>, h)
                      else (out, h))
      in (out, h))"

section \<open>DeepCopy\<close>

definition ServiceRef_DeepCopy :: "service_ref ptr \<Rightarrow> ('x, 'k) mem \<Rightarrow> service_ref ptr \<times> ('x, 'k) mem" where
  "ServiceRef_DeepCopy = ptr_DeepCopy ServiceRefKind ServiceRef_DeepCopyInto"

definition Source_DeepCopy :: "source ptr \<Rightarrow> ('x, 'k) mem \<Rightarrow> source ptr \<times> ('x, 'k) mem" where
  "Source_DeepCopy = ptr_DeepCopy SourceKind Source_DeepCopyInto"

definition ExternalServiceSpec_DeepCopy :: "es_spec_mem ptr \<Rightarrow> ('x, 'k) mem \<Rightarrow> es_spec_mem ptr \<times> ('x, 'k) mem" where
  "ExternalServiceSpec_DeepCopy = ptr_DeepCopy ExternalServiceSpecKind ExternalServiceSpec_DeepCopyInto"

definition ExternalServiceStatus_DeepCopy :: "unit ptr \<Rightarrow> ('x, 'k) mem \<Rightarrow> unit ptr \<times> ('x, 'k) mem" where
  "ExternalServiceStatus_DeepCopy = ptr_DeepCopy ExternalServiceStatusKind ExternalServiceStatus_DeepCopyInto"

definition ExternalService_DeepCopy :: "('x, 'k) copylib \<Rightarrow> 'x es_mem ptr \<Rightarrow> ('x, 'k) mem \<Rightarrow> 'x es_mem ptr \<times> ('x, 'k) mem" where
  "ExternalService_DeepCopy L = ptr_DeepCopy (ExternalServiceKind L) (ExternalService_DeepCopyInto L)"

definition ExternalServiceList_DeepCopy :: "('x, 'k) copylib \<Rightarrow> 'x es_list_mem ptr \<Rightarrow> ('x, 'k) mem \<Rightarrow> 'x es_list_mem ptr \<times> ('x, 'k) mem" where
  "ExternalServiceList_DeepCopy L = ptr_DeepCopy (ExternalServiceListKind L) (ExternalServiceList_DeepCopyInto L)"

definition GatewayRef_DeepCopy :: "gateway_ref ptr \<Rightarrow> ('x, 'k) mem \<Rightarrow> gateway_ref ptr \<times> ('x, 'k) mem" where
  "GatewayRef_DeepCopy = ptr_DeepCopy GatewayRefKind GatewayRef_DeepCopyInto"

definition ForwarderRule_DeepCopy :: "forwarder_rule ptr \<Rightarrow> ('x, 'k) mem \<Rightarrow> forwarder_rule ptr \<times> ('x, 'k) mem" where
  "ForwarderRule_DeepCopy = ptr_DeepCopy ForwarderRuleKind ForwarderRule_DeepCopyInto"

definition ForwarderSpec_DeepCopy :: "fwd_spec_mem ptr \<Rightarrow> ('x, 'k) mem \<Rightarrow> fwd_spec_mem ptr \<times> ('x, 'k) mem" where
  "ForwarderSpec_DeepCopy = ptr_DeepCopy ForwarderSpecKind ForwarderSpec_DeepCopyInto"

definition ForwarderStatus_DeepCopy :: "('x, 'k) copylib \<Rightarrow> 'x status_mem ptr \<Rightarrow> ('x, 'k) mem \<Rightarrow> 'x status_mem ptr \<times> ('x, 'k) mem" where
  "ForwarderStatus_DeepCopy L = ptr_DeepCopy ForwarderStatusKind (ForwarderStatus_DeepCopyInto L)"

definition Forwarder_DeepCopy :: "('x, 'k) copylib \<Rightarrow> 'x fwd_mem ptr \<Rightarrow> ('x, 'k) mem \<Rightarrow> 'x fwd_mem ptr \<times> ('x, 'k) mem" where
  "Forwarder_DeepCopy L = ptr_DeepCopy (ForwarderKind L) (Forwarder_DeepCopyInto L)"

definition ForwarderList_DeepCopy :: "('x, 'k) copylib \<Rightarrow> 'x fwd_list_mem ptr \<Rightarrow> ('x, 'k) mem \<Rightarrow> 'x fwd_list_mem ptr \<times> ('x, 'k) mem" where
  "ForwarderList_DeepCopy L = ptr_DeepCopy (ForwarderListKind L) (ForwarderList_DeepCopyInto L)"

definition ForwarderRef_DeepCopy :: "forwarder_ref ptr \<Rightarrow> ('x, 'k) mem \<Rightarrow> forwarder_ref ptr \<times> ('x, 'k) mem" where
  "ForwarderRef_DeepCopy = ptr_DeepCopy ForwarderRefKind ForwarderRef_DeepCopyInto"

definition GatewayRule_DeepCopy :: "gateway_rule ptr \<Rightarrow> ('x, 'k) mem \<Rightarrow> gateway_rule ptr \<times> ('x, 'k) mem" where
  "GatewayRule_DeepCopy = ptr_DeepCopy GatewayRuleKind GatewayRule_DeepCopyInto"

definition GatewaySpec_DeepCopy :: "gw_spec_mem ptr \<Rightarrow> ('x, 'k) mem \<Rightarrow> gw_spec_mem ptr \<times> ('x, 'k) mem" where
  "GatewaySpec_DeepCopy = ptr_DeepCopy GatewaySpecKind GatewaySpec_DeepCopyInto"

definition GatewayStatus_DeepCopy :: "('x, 'k) copylib \<Rightarrow> 'x status_mem ptr \<Rightarrow> ('x, 'k) mem \<Rightarrow> 'x status_mem ptr \<times> ('x, 'k) mem" where
  "GatewayStatus_DeepCopy L = ptr_DeepCopy GatewayStatusKind (GatewayStatus_DeepCopyInto L)"

definition Gateway_DeepCopy :: "('x, 'k) copylib \<Rightarrow> 'x gw_mem ptr \<Rightarrow> ('x, 'k) mem \<Rightarrow> 'x gw_mem ptr \<times> ('x, 'k) mem" where
  "Gateway_DeepCopy L = ptr_DeepCopy (GatewayKind L) (Gateway_DeepCopyInto L)"

definition GatewayList_DeepCopy :: "('x, 'k) copylib \<Rightarrow> 'x gw_list_mem ptr \<Rightarrow> ('x, 'k) mem \<Rightarrow> 'x gw_list_mem ptr \<times> ('x, 'k) mem" where
  "GatewayList_DeepCopy L = ptr_DeepCopy (GatewayListKind L) (GatewayList_DeepCopyInto L)"

section \<open>DeepCopyObject\<close>

text \<open>
  A value of the interface \<^verbatim>\<open>runtime.Object\<close> is nil or a pointer with its type. An
  interface that holds a nil pointer is not nil in Go, which is why the generated functions
  test the pointer first.
\<close>

datatype 'x runtime_object =
    NilObject
  | ExternalServiceObject "'x es_mem ptr"
  | ExternalServiceListObject "'x es_list_mem ptr"
  | ForwarderObject "'x fwd_mem ptr"
  | ForwarderListObject "'x fwd_list_mem ptr"
  | GatewayObject "'x gw_mem ptr"
  | GatewayListObject "'x gw_list_mem ptr"

definition ExternalService_DeepCopyObject ::
  "('x, 'k) copylib \<Rightarrow> 'x es_mem ptr \<Rightarrow> ('x, 'k) mem \<Rightarrow> 'x runtime_object \<times> ('x, 'k) mem" where
  "ExternalService_DeepCopyObject L inp h =
     (let (c, h) = ExternalService_DeepCopy L inp h
      in if c \<noteq> NilPtr then (ExternalServiceObject c, h) else (NilObject, h))"

definition ExternalServiceList_DeepCopyObject ::
  "('x, 'k) copylib \<Rightarrow> 'x es_list_mem ptr \<Rightarrow> ('x, 'k) mem \<Rightarrow> 'x runtime_object \<times> ('x, 'k) mem" where
  "ExternalServiceList_DeepCopyObject L inp h =
     (let (c, h) = ExternalServiceList_DeepCopy L inp h
      in if c \<noteq> NilPtr then (ExternalServiceListObject c, h) else (NilObject, h))"

definition Forwarder_DeepCopyObject ::
  "('x, 'k) copylib \<Rightarrow> 'x fwd_mem ptr \<Rightarrow> ('x, 'k) mem \<Rightarrow> 'x runtime_object \<times> ('x, 'k) mem" where
  "Forwarder_DeepCopyObject L inp h =
     (let (c, h) = Forwarder_DeepCopy L inp h
      in if c \<noteq> NilPtr then (ForwarderObject c, h) else (NilObject, h))"

definition ForwarderList_DeepCopyObject ::
  "('x, 'k) copylib \<Rightarrow> 'x fwd_list_mem ptr \<Rightarrow> ('x, 'k) mem \<Rightarrow> 'x runtime_object \<times> ('x, 'k) mem" where
  "ForwarderList_DeepCopyObject L inp h =
     (let (c, h) = ForwarderList_DeepCopy L inp h
      in if c \<noteq> NilPtr then (ForwarderListObject c, h) else (NilObject, h))"

definition Gateway_DeepCopyObject ::
  "('x, 'k) copylib \<Rightarrow> 'x gw_mem ptr \<Rightarrow> ('x, 'k) mem \<Rightarrow> 'x runtime_object \<times> ('x, 'k) mem" where
  "Gateway_DeepCopyObject L inp h =
     (let (c, h) = Gateway_DeepCopy L inp h
      in if c \<noteq> NilPtr then (GatewayObject c, h) else (NilObject, h))"

definition GatewayList_DeepCopyObject ::
  "('x, 'k) copylib \<Rightarrow> 'x gw_list_mem ptr \<Rightarrow> ('x, 'k) mem \<Rightarrow> 'x runtime_object \<times> ('x, 'k) mem" where
  "GatewayList_DeepCopyObject L inp h =
     (let (c, h) = GatewayList_DeepCopy L inp h
      in if c \<noteq> NilPtr then (GatewayListObject c, h) else (NilObject, h))"

end
