(* ===== verification/DeepCopyLaws.thy ===== *)
theory DeepCopyLaws
  imports DeepCopy
begin

text \<open>
  Every generated copy function keeps the contract \<open>deep_copy\<close>: the view of each struct
  is built from the views of its fields, and the contract of its copy function from theirs.
\<close>

section \<open>One field after another\<close>

context deep_copy
begin

lemma copy_field:
  assumes "heap_ok h" and "v_ok V h x" and "heap_extends h h1" and "cp x out h1 = (y, h2)"
  shows "is_copy V h x h2 y" and "heap_extends h1 h2" and "heap_extends h h2"
proof -
  have copy: "is_copy V h1 x h2 y"
    using assms by (blast intro: copies ok_ext heap_extendsD(1))
  show "is_copy V h x h2 y" by (rule copy_earlier [OF assms(1-3) copy])
  show ext: "heap_extends h1 h2" using copy by (simp add: is_copy_def)
  show "heap_extends h h2" by (rule heap_extends_trans [OF assms(3) ext])
qed

end

section \<open>Optional slices and maps\<close>

definition slice_field ::
  "('a slice \<Rightarrow> 'c heap \<Rightarrow> 'a slice \<times> 'c heap) \<Rightarrow> ('a slice, 'c) copier" where
  "slice_field cp s out h = (if s \<noteq> NilSlice then cp s h else (s, h))"

definition map_field ::
  "('a mapref \<Rightarrow> 'c heap \<Rightarrow> 'a mapref \<times> 'c heap) \<Rightarrow> ('a mapref, 'c) copier" where
  "map_field cp m out h = (if m \<noteq> NilMap then cp m h else (m, h))"

lemma nil_slice_copy: "heap_ok h \<Longrightarrow> is_copy (slice_view K V) h NilSlice h NilSlice"
  by (auto simp: is_copy_def)

lemma nil_map_copy: "heap_ok h \<Longrightarrow> is_copy (map_view K V) h NilMap h NilMap"
  by (auto simp: is_copy_def)

lemma map_heap_view:
  assumes "heap_view V"
  shows "heap_view (map_view K V)"
proof
  fix h :: "'c heap" and r :: "'a mapref" and a
  assume "v_ok (map_view K V) h r" and "a \<in> v_refs (map_view K V) h r"
  then show "h_cells h a \<noteq> None"
    using heap_view.refs_alloc [OF assms]
    by (cases r) (fastforce split: option.splits simp: list_all_iff dest: array_at_SomeD)+
next
  fix h h' :: "'c heap" and r :: "'a mapref"
  assume ok: "v_ok (map_view K V) h r" and agree: "agree_on (v_refs (map_view K V) h r) h h'"
  show "same_view (map_view K V) h h' r"
  proof (cases r)
    case NilMap
    then show ?thesis by (simp add: same_view_def)
  next
    case (MapRef a)
    from ok MapRef obtain m where m: "array_at K h a = Some m" by (auto split: option.splits)
    from agree MapRef have "array_at K h' a = array_at K h a"
      by (intro array_at_cong) (simp add: agree_on_def)
    with m have m': "array_at K h' a = Some m" by simp
    have same: "same_view V h h' x" if "(k, x) \<in> set m" for k x
      by (rule heap_view.frame [OF assms])
         (use ok agree MapRef m that in \<open>force simp: agree_on_def list_all_iff\<close>)+
    have "map_option (v_val V h') (map_of m k) = map_option (v_val V h) (map_of m k)" for k
      using same by (cases "map_of m k") (auto simp: same_view_def dest: map_of_SomeD)
    with same show ?thesis
      by (auto simp: same_view_def MapRef m m' list_all_iff fun_eq_iff)
  qed
qed

context go_kind
begin

lemma clone_deep_copy: "deep_copy (slice_view K flat_view) (slice_field (clone_slice K))"
proof (intro deep_copy.intro deep_copy_axioms.intro slice_heap_view flat.heap_view_axioms)
  fix h s out t h'
  assume "heap_ok h" and "v_ok (slice_view K flat_view) h s"
    and "slice_field (clone_slice K) s out h = (t, h')"
  then show "is_copy (slice_view K flat_view) h s h' t"
    by (cases "s = NilSlice") (auto simp: slice_field_def intro: nil_slice_copy clone_slice_copies)
qed

end

context element_copy
begin

lemma items_deep_copy: "deep_copy (slice_view K V) (slice_field (copy_items K cp))"
proof (intro deep_copy.intro deep_copy_axioms.intro slice_heap_view heap_view_axioms)
  fix h s out t h'
  assume "heap_ok h" and "v_ok (slice_view K V) h s"
    and "slice_field (copy_items K cp) s out h = (t, h')"
  then show "is_copy (slice_view K V) h s h' t"
    by (cases "s = NilSlice") (auto simp: slice_field_def intro: nil_slice_copy copy_items_copies)
qed

end

context entry_copy
begin

lemma entries_deep_copy:
  assumes "range_order ord"
  shows "deep_copy (map_view K V) (map_field (copy_map K cp ord))"
proof (intro deep_copy.intro deep_copy_axioms.intro map_heap_view heap_view_axioms)
  fix h r out t h'
  assume "heap_ok h" and "v_ok (map_view K V) h r"
    and "map_field (copy_map K cp ord) r out h = (t, h')"
  then show "is_copy (map_view K V) h r h' t"
    by (cases "r = NilMap") (auto simp: map_field_def intro: nil_map_copy copy_map_copies assms)
qed

end

section \<open>Views of the structs\<close>

definition rules_view ::
  "('r, 'c) kind \<Rightarrow> ('r slice rule_fields, 'r list option rule_fields, 'c) view" where
  "rules_view K =
     \<lparr>v_ok = (\<lambda>h s. slice_ok K flat_view h (rf_EgressRules s) \<and>
                     slice_ok K flat_view h (rf_IngressRules s)),
      v_val = (\<lambda>h s. \<lparr>rf_EgressRules = slice_val K flat_view h (rf_EgressRules s),
                      rf_IngressRules = slice_val K flat_view h (rf_IngressRules s),
                      rf_IP = rf_IP s\<rparr>),
      v_refs = (\<lambda>h s. slice_refs K flat_view h (rf_EgressRules s) \<union>
                       slice_refs K flat_view h (rf_IngressRules s))\<rparr>"

definition es_spec_view ::
  "(es_spec_mem, (source list option, service_port list option) es_fields, ('x, 'k) cell) view" where
  "es_spec_view =
     \<lparr>v_ok = (\<lambda>h s. slice_ok SourceKind flat_view h (ef_Sources s) \<and>
                     slice_ok ServicePortKind flat_view h (ef_Ports s)),
      v_val = (\<lambda>h s. \<lparr>ef_TargetIP = ef_TargetIP s,
                      ef_Sources = slice_val SourceKind flat_view h (ef_Sources s),
                      ef_Ports = slice_val ServicePortKind flat_view h (ef_Ports s)\<rparr>),
      v_refs = (\<lambda>h s. slice_refs SourceKind flat_view h (ef_Sources s) \<union>
                       slice_refs ServicePortKind flat_view h (ef_Ports s))\<rparr>"

definition status_view ::
  "(string \<times> 'x, 'c) kind \<Rightarrow> ('x, 'v, 'c) view \<Rightarrow>
   ('x status_mem, (string \<rightharpoonup> 'v) option status_fields, 'c) view" where
  "status_view K X =
     \<lparr>v_ok = (\<lambda>h s. map_ok K X h (sf_Conditions s)),
      v_val = (\<lambda>h s. \<lparr>sf_Conditions = map_val K X h (sf_Conditions s),
                      sf_RuleGeneration = sf_RuleGeneration s,
                      sf_SyncGeneration = sf_SyncGeneration s\<rparr>),
      v_refs = (\<lambda>h s. map_refs K X h (sf_Conditions s))\<rparr>"

definition object_view ::
  "('m, 'v, 'c) view \<Rightarrow> ('sp, 'spv, 'c) view \<Rightarrow> ('st, 'stv, 'c) view \<Rightarrow>
   (('m, 'sp, 'st) kobject, ('v, 'spv, 'stv) kobject, 'c) view" where
  "object_view M S T =
     \<lparr>v_ok = (\<lambda>h x. v_ok M h (ko_ObjectMeta x) \<and> v_ok S h (ko_Spec x) \<and> v_ok T h (ko_Status x)),
      v_val = (\<lambda>h x. \<lparr>ko_TypeMeta = ko_TypeMeta x, ko_ObjectMeta = v_val M h (ko_ObjectMeta x),
                      ko_Spec = v_val S h (ko_Spec x), ko_Status = v_val T h (ko_Status x)\<rparr>),
      v_refs = (\<lambda>h x. v_refs M h (ko_ObjectMeta x) \<union> v_refs S h (ko_Spec x) \<union>
                       v_refs T h (ko_Status x))\<rparr>"

definition list_view ::
  "('m, 'v, 'c) view \<Rightarrow> ('i, 'iv, 'c) view \<Rightarrow> (('m, 'i) klist, ('v, 'iv) klist, 'c) view" where
  "list_view M I =
     \<lparr>v_ok = (\<lambda>h x. v_ok M h (kl_ListMeta x) \<and> v_ok I h (kl_Items x)),
      v_val = (\<lambda>h x. \<lparr>kl_TypeMeta = kl_TypeMeta x, kl_ListMeta = v_val M h (kl_ListMeta x),
                      kl_Items = v_val I h (kl_Items x)\<rparr>),
      v_refs = (\<lambda>h x. v_refs M h (kl_ListMeta x) \<union> v_refs I h (kl_Items x))\<rparr>"

lemmas view_defs = rules_view_def es_spec_view_def status_view_def object_view_def list_view_def

text \<open>A struct view joins the views of its fields.\<close>

lemma heap_view_join:
  assumes V: "heap_view V" and W: "heap_view W"
  shows "heap_view
     \<lparr>v_ok = (\<lambda>h x. v_ok V h (f x) \<and> v_ok W h (g x)),
      v_val = (\<lambda>h x. mk x (v_val V h (f x)) (v_val W h (g x))),
      v_refs = (\<lambda>h x. v_refs V h (f x) \<union> v_refs W h (g x))\<rparr>" (is "heap_view ?J")
proof
  show "h_cells h a \<noteq> None" if "v_ok ?J h x" and "a \<in> v_refs ?J h x" for h x a
    using that heap_view.refs_alloc [OF V, of h "f x" a] heap_view.refs_alloc [OF W, of h "g x" a]
    by auto
  show "same_view ?J h h' x" if "v_ok ?J h x" and "agree_on (v_refs ?J h x) h h'" for h h' x
    using that heap_view.frame [OF V, of h "f x" h'] heap_view.frame [OF W, of h "g x" h']
    by (simp add: agree_on_def same_view_def)
qed

lemma heap_view_field:
  assumes V: "heap_view V"
  shows "heap_view
     \<lparr>v_ok = (\<lambda>h x. v_ok V h (f x)), v_val = (\<lambda>h x. mk x (v_val V h (f x))),
      v_refs = (\<lambda>h x. v_refs V h (f x))\<rparr>" (is "heap_view ?J")
proof
  show "h_cells h a \<noteq> None" if "v_ok ?J h x" and "a \<in> v_refs ?J h x" for h x a
    using that heap_view.refs_alloc [OF V, of h "f x" a] by auto
  show "same_view ?J h h' x" if "v_ok ?J h x" and "agree_on (v_refs ?J h x) h h'" for h h' x
    using that heap_view.frame [OF V, of h "f x" h'] by (simp add: same_view_def)
qed

lemma rules_heap_view: "heap_view (rules_view K)"
  unfolding rules_view_def slice_view_simps [symmetric]
  by (rule heap_view_join [where mk = "\<lambda>s e i. \<lparr>rf_EgressRules = e, rf_IngressRules = i, rf_IP = rf_IP s\<rparr>"])
     (rule slice_heap_view flat.heap_view_axioms)+

lemma es_spec_heap_view: "heap_view es_spec_view"
  unfolding es_spec_view_def slice_view_simps [symmetric]
  by (rule heap_view_join [where mk = "\<lambda>s ss ps. \<lparr>ef_TargetIP = ef_TargetIP s, ef_Sources = ss, ef_Ports = ps\<rparr>"])
     (rule slice_heap_view flat.heap_view_axioms)+

lemma status_heap_view: "heap_view X \<Longrightarrow> heap_view (status_view K X)"
  unfolding status_view_def map_view_simps [symmetric]
  by (rule heap_view_field [where mk = "\<lambda>s m. \<lparr>sf_Conditions = m,
        sf_RuleGeneration = sf_RuleGeneration s, sf_SyncGeneration = sf_SyncGeneration s\<rparr>"])
     (rule map_heap_view)

lemma list_heap_view: "heap_view M \<Longrightarrow> heap_view I \<Longrightarrow> heap_view (list_view M I)"
  unfolding list_view_def
  by (rule heap_view_join [where mk = "\<lambda>x m i. \<lparr>kl_TypeMeta = kl_TypeMeta x, kl_ListMeta = m, kl_Items = i\<rparr>"])

lemma object_heap_view:
  assumes "heap_view M" and "heap_view S" and "heap_view T"
  shows "heap_view (object_view M S T)"
  unfolding object_view_def
  using heap_view_join [OF assms(1) heap_view_join [OF assms(2,3), of ko_Spec ko_Status "\<lambda>_. Pair"],
      of ko_ObjectMeta "\<lambda>x. x"
      "\<lambda>x m st. \<lparr>ko_TypeMeta = ko_TypeMeta x, ko_ObjectMeta = m, ko_Spec = fst st, ko_Status = snd st\<rparr>"]
  by (simp add: Un_assoc)

section \<open>Every copy function keeps the contract\<close>

lemma is_copy_flat [simp]: "is_copy flat_view h x h' y \<longleftrightarrow> heap_extends h h' \<and> y = x"
  by (auto simp: is_copy_def)

lemma deep_copyI:
  assumes "heap_view V"
    and "\<And>h x out y h'. heap_ok h \<Longrightarrow> v_ok V h x \<Longrightarrow> cp x out h = (y, h') \<Longrightarrow> is_copy V h x h' y"
  shows "deep_copy V cp"
  using assms by (intro deep_copy.intro deep_copy_axioms.intro)

subsection \<open>Structs without references\<close>

lemma flat_copies:
  "deep_copy flat_view (ServiceRef_DeepCopyInto :: (_, ('x, 'k) cell) copier)"
  "deep_copy flat_view (GatewayRef_DeepCopyInto :: (_, ('x, 'k) cell) copier)"
  "deep_copy flat_view (ForwarderRef_DeepCopyInto :: (_, ('x, 'k) cell) copier)"
  "deep_copy flat_view (ExternalServiceStatus_DeepCopyInto :: (_, ('x, 'k) cell) copier)"
  "deep_copy flat_view (Source_DeepCopyInto :: (_, ('x, 'k) cell) copier)"
  "deep_copy flat_view (ForwarderRule_DeepCopyInto :: (_, ('x, 'k) cell) copier)"
  "deep_copy flat_view (GatewayRule_DeepCopyInto :: (_, ('x, 'k) cell) copier)"
  by (rule deep_copyI [OF flat.heap_view_axioms];
      auto simp: ServiceRef_DeepCopyInto_def GatewayRef_DeepCopyInto_def ForwarderRef_DeepCopyInto_def
        ExternalServiceStatus_DeepCopyInto_def Source_DeepCopyInto_def ForwarderRule_DeepCopyInto_def
        GatewayRule_DeepCopyInto_def Let_def)+

subsection \<open>Two and three fields\<close>

lemma copy_two_fields:
  assumes V: "deep_copy V cv" and W: "deep_copy W cw"
    and ok: "heap_ok h" "v_ok V h a" "v_ok W h b"
    and run: "cv a oa h = (a', h1)" "cw b ob h1 = (b', h2)"
  shows "is_copy V h a h2 a'" and "is_copy W h b h2 b'" and "heap_extends h h2"
proof -
  note first = deep_copy.copy_field [OF V ok(1,2) heap_extends_refl [OF ok(1)] run(1)]
  note second = deep_copy.copy_field [OF W ok(1,3) first(2) run(2)]
  have "heap_view V" using V by (simp add: deep_copy_def)
  then show "is_copy V h a h2 a'" by (rule heap_view.copy_later [OF _ first(1) second(2)])
  show "is_copy W h b h2 b'" and "heap_extends h h2" by (rule second(1), rule second(3))
qed

lemma copy_three_fields:
  assumes V: "deep_copy V cv" and W: "deep_copy W cw" and U: "deep_copy U cu"
    and ok: "heap_ok h" "v_ok V h a" "v_ok W h b" "v_ok U h c"
    and run: "cv a oa h = (a', h1)" "cw b ob h1 = (b', h2)" "cu c oc h2 = (c', h3)"
  shows "is_copy V h a h3 a'" and "is_copy W h b h3 b'" and "is_copy U h c h3 c'"
proof -
  note first = copy_two_fields [OF V W ok(1-3) run(1,2)]
  note third = deep_copy.copy_field [OF U ok(1,4) first(3) run(3)]
  have "heap_view V" "heap_view W" using V W by (simp_all add: deep_copy_def)
  then show "is_copy V h a h3 a'" and "is_copy W h b h3 b'"
    by (auto intro: heap_view.copy_later first(1,2) third(2))
  show "is_copy U h c h3 c'" by (rule third(1))
qed

subsection \<open>Specs\<close>

lemma rules_copies:
  assumes "deep_copy (slice_view K flat_view) (slice_field ce)"
    and eq: "\<And>inp out h. cp inp out h =
      (let (e, h) = slice_field ce (rf_EgressRules inp) (rf_EgressRules inp) h;
           (i, h) = slice_field ce (rf_IngressRules inp) (rf_IngressRules inp) h
       in (inp\<lparr>rf_EgressRules := e, rf_IngressRules := i\<rparr>, h))"
  shows "deep_copy (rules_view K) cp"
proof (rule deep_copyI [OF rules_heap_view])
  fix h s out t h'
  assume ok: "heap_ok h" "v_ok (rules_view K) h s" and run: "cp s out h = (t, h')"
  obtain e h1 where e: "slice_field ce (rf_EgressRules s) (rf_EgressRules s) h = (e, h1)" by fastforce
  obtain i h2 where i: "slice_field ce (rf_IngressRules s) (rf_IngressRules s) h1 = (i, h2)" by fastforce
  from run e i have t: "t = s\<lparr>rf_EgressRules := e, rf_IngressRules := i\<rparr>" "h' = h2"
    by (auto simp: eq)
  from copy_two_fields [OF assms(1,1) ok(1) _ _ e i] ok(2)
  show "is_copy (rules_view K) h s h' t"
    by (simp add: is_copy_def rules_view_def t)
qed

lemma ForwarderSpec_copies:
  "deep_copy (rules_view ForwarderRuleKind) (ForwarderSpec_DeepCopyInto :: (_, ('x, 'k) cell) copier)"
  by (rule rules_copies [OF ForwarderRuleKind.clone_deep_copy])
     (auto simp: ForwarderSpec_DeepCopyInto_def slice_field_def Let_def split: prod.splits)

lemma GatewaySpec_copies:
  "deep_copy (rules_view GatewayRuleKind) (GatewaySpec_DeepCopyInto :: (_, ('x, 'k) cell) copier)"
  by (rule rules_copies [OF GatewayRuleKind.clone_deep_copy])
     (auto simp: GatewaySpec_DeepCopyInto_def slice_field_def Let_def split: prod.splits)

lemma ExternalServiceSpec_copies:
  "deep_copy es_spec_view (ExternalServiceSpec_DeepCopyInto :: (_, ('x, 'k) cell) copier)"
proof (rule deep_copyI [OF es_spec_heap_view])
  fix h :: "('x, 'k) mem" and s out t h'
  assume ok: "heap_ok h" "v_ok es_spec_view h s"
    and run: "ExternalServiceSpec_DeepCopyInto s out h = (t, h')"
  let ?cs = "slice_field (clone_slice SourceKind)" and ?cp = "slice_field (clone_slice ServicePortKind)"
  obtain a h1 where a: "?cs (ef_Sources s) (ef_Sources s) h = (a, h1)" by fastforce
  obtain b h2 where b: "?cp (ef_Ports s) (ef_Ports s) h1 = (b, h2)" by fastforce
  from run a b have t: "t = s\<lparr>ef_Sources := a, ef_Ports := b\<rparr>" "h' = h2"
    by (auto simp: ExternalServiceSpec_DeepCopyInto_def slice_field_def Let_def split: prod.splits if_splits)
  from copy_two_fields [OF SourceKind.clone_deep_copy ServicePortKind.clone_deep_copy ok(1) _ _ a b] ok(2)
  show "is_copy es_spec_view h s h' t"
    by (simp add: is_copy_def es_spec_view_def t)
qed

subsection \<open>Statuses\<close>

lemma copylib_lawsD:
  assumes "copylib_laws L X"
  shows "deep_copy X (lc_ObjectMeta L)" and "deep_copy X (lc_ListMeta L)"
    and "deep_copy X (\<lambda>x out. lc_Condition L x)" and "range_order (lc_order L)" and "heap_view X"
  using assms by (auto simp: copylib_laws_def deep_copy_def)

lemma status_copies:
  assumes laws: "copylib_laws L X"
    and eq: "\<And>inp out h. cp inp out h =
      (let (m, h) = map_field (copy_map (ConditionsKind L) (lc_Condition L) (lc_order L))
                      (sf_Conditions inp) (sf_Conditions inp) h
       in (inp\<lparr>sf_Conditions := m\<rparr>, h))"
  shows "deep_copy (status_view (ConditionsKind L) X) cp"
proof (rule deep_copyI [OF status_heap_view [OF copylib_lawsD(5) [OF laws]]])
  fix h s out t h'
  assume ok: "heap_ok h" "v_ok (status_view (ConditionsKind L) X) h s" and run: "cp s out h = (t, h')"
  let ?cm = "map_field (copy_map (ConditionsKind L) (lc_Condition L) (lc_order L))"
  obtain m h1 where m: "?cm (sf_Conditions s) (sf_Conditions s) h = (m, h1)" by fastforce
  from run m have t: "t = s\<lparr>sf_Conditions := m\<rparr>" "h' = h1" by (auto simp: eq)
  have "deep_copy (map_view (ConditionsKind L) X) ?cm"
    using copylib_lawsD(3,4) [OF laws]
    by (intro entry_copy.entries_deep_copy entry_copy.intro ConditionsKind.go_kind_axioms)
  from deep_copy.copies [OF this ok(1) _ m] ok(2)
  show "is_copy (status_view (ConditionsKind L) X) h s h' t"
    by (simp add: is_copy_def status_view_def t)
qed

lemma ForwarderStatus_copies:
  "copylib_laws L X \<Longrightarrow> deep_copy (status_view (ConditionsKind L) X) (ForwarderStatus_DeepCopyInto L)"
  by (erule status_copies)
     (auto simp: ForwarderStatus_DeepCopyInto_def map_field_def Let_def split: prod.splits)

lemma GatewayStatus_copies:
  "copylib_laws L X \<Longrightarrow> deep_copy (status_view (ConditionsKind L) X) (GatewayStatus_DeepCopyInto L)"
  by (erule status_copies)
     (auto simp: GatewayStatus_DeepCopyInto_def map_field_def Let_def split: prod.splits)

subsection \<open>Objects\<close>

lemma object_copies:
  assumes M: "deep_copy M cm" and S: "deep_copy S cs" and T: "deep_copy T ct"
    and eq: "\<And>inp out h. cp inp out h =
      (let (m, h) = cm (ko_ObjectMeta inp) (ko_ObjectMeta inp) h;
           (sp, h) = cs (ko_Spec inp) (ko_Spec inp) h;
           (st, h) = ct (ko_Status inp) (ko_Status inp) h
       in (inp\<lparr>ko_ObjectMeta := m, ko_Spec := sp, ko_Status := st\<rparr>, h))"
  shows "deep_copy (object_view M S T) cp"
proof (rule deep_copyI)
  show "heap_view (object_view M S T)"
    using M S T by (simp add: object_heap_view deep_copy_def)
next
  fix h x out y h'
  assume ok: "heap_ok h" "v_ok (object_view M S T) h x" and run: "cp x out h = (y, h')"
  obtain m h1 where m: "cm (ko_ObjectMeta x) (ko_ObjectMeta x) h = (m, h1)" by fastforce
  obtain sp h2 where sp: "cs (ko_Spec x) (ko_Spec x) h1 = (sp, h2)" by fastforce
  obtain st h3 where st: "ct (ko_Status x) (ko_Status x) h2 = (st, h3)" by fastforce
  from run m sp st have y: "y = x\<lparr>ko_ObjectMeta := m, ko_Spec := sp, ko_Status := st\<rparr>" "h' = h3"
    by (auto simp: eq)
  from copy_three_fields [OF M S T ok(1) _ _ _ m sp st] ok(2)
  show "is_copy (object_view M S T) h x h' y"
    by (simp add: is_copy_def object_view_def y)
qed

definition es_view ::
  "('x, 'v, ('x, 'k) cell) view \<Rightarrow>
   ('x es_mem, ('v, (source list option, service_port list option) es_fields, unit) kobject, ('x, 'k) cell) view"
  where "es_view X = object_view X es_spec_view flat_view"

definition fwd_view ::
  "('x, 'k) copylib \<Rightarrow> ('x, 'v, ('x, 'k) cell) view \<Rightarrow>
   ('x fwd_mem, ('v, forwarder_rule list option rule_fields, (string \<rightharpoonup> 'v) option status_fields) kobject,
    ('x, 'k) cell) view"
  where "fwd_view L X = object_view X (rules_view ForwarderRuleKind) (status_view (ConditionsKind L) X)"

definition gw_view ::
  "('x, 'k) copylib \<Rightarrow> ('x, 'v, ('x, 'k) cell) view \<Rightarrow>
   ('x gw_mem, ('v, gateway_rule list option rule_fields, (string \<rightharpoonup> 'v) option status_fields) kobject,
    ('x, 'k) cell) view"
  where "gw_view L X = object_view X (rules_view GatewayRuleKind) (status_view (ConditionsKind L) X)"

lemma ExternalService_copies:
  assumes "copylib_laws L X"
  shows "deep_copy (es_view X) (ExternalService_DeepCopyInto L)"
  unfolding es_view_def
  by (rule object_copies [OF copylib_lawsD(1) [OF assms] ExternalServiceSpec_copies flat.deep_copy_axioms])
     (auto simp: ExternalService_DeepCopyInto_def assign_def Let_def split: prod.splits)

lemma Forwarder_copies:
  assumes "copylib_laws L X"
  shows "deep_copy (fwd_view L X) (Forwarder_DeepCopyInto L)"
  unfolding fwd_view_def
  by (rule object_copies [OF copylib_lawsD(1) [OF assms] ForwarderSpec_copies ForwarderStatus_copies [OF assms]])
     (auto simp: Forwarder_DeepCopyInto_def Let_def split: prod.splits)

lemma Gateway_copies:
  assumes "copylib_laws L X"
  shows "deep_copy (gw_view L X) (Gateway_DeepCopyInto L)"
  unfolding gw_view_def
  by (rule object_copies [OF copylib_lawsD(1) [OF assms] GatewaySpec_copies GatewayStatus_copies [OF assms]])
     (auto simp: Gateway_DeepCopyInto_def Let_def split: prod.splits)

subsection \<open>Lists\<close>

lemma list_copies:
  assumes M: "deep_copy M cm" and I: "deep_copy (slice_view K V) (slice_field ci)"
    and eq: "\<And>inp out h. cp inp out h =
      (let (m, h) = cm (kl_ListMeta inp) (kl_ListMeta inp) h;
           (xs, h) = slice_field ci (kl_Items inp) (kl_Items inp) h
       in (inp\<lparr>kl_ListMeta := m, kl_Items := xs\<rparr>, h))"
  shows "deep_copy (list_view M (slice_view K V)) cp"
proof (rule deep_copyI)
  show "heap_view (list_view M (slice_view K V))"
    using M I by (simp add: list_heap_view deep_copy_def)
next
  fix h x out y h'
  assume ok: "heap_ok h" "v_ok (list_view M (slice_view K V)) h x" and run: "cp x out h = (y, h')"
  obtain m h1 where m: "cm (kl_ListMeta x) (kl_ListMeta x) h = (m, h1)" by fastforce
  obtain xs h2 where xs: "slice_field ci (kl_Items x) (kl_Items x) h1 = (xs, h2)" by fastforce
  from run m xs have y: "y = x\<lparr>kl_ListMeta := m, kl_Items := xs\<rparr>" "h' = h2" by (auto simp: eq)
  from copy_two_fields [OF M I ok(1) _ _ m xs] ok(2)
  show "is_copy (list_view M (slice_view K V)) h x h' y"
    by (simp add: is_copy_def list_view_def y)
qed

abbreviation es_list_view where
  "es_list_view L X \<equiv> list_view X (slice_view (ExternalServiceKind L) (es_view X))"

abbreviation fwd_list_view where
  "fwd_list_view L X \<equiv> list_view X (slice_view (ForwarderKind L) (fwd_view L X))"

abbreviation gw_list_view where
  "gw_list_view L X \<equiv> list_view X (slice_view (GatewayKind L) (gw_view L X))"

lemmas items_copies = element_copy.items_deep_copy [OF element_copy.intro]

lemma ExternalServiceList_copies:
  assumes "copylib_laws L X"
  shows "deep_copy (es_list_view L X)
           (ExternalServiceList_DeepCopyInto L)"
  by (rule list_copies [OF copylib_lawsD(2) [OF assms]
        items_copies [OF ExternalServiceKind.go_kind_axioms ExternalService_copies [OF assms]]])
     (auto simp: ExternalServiceList_DeepCopyInto_def slice_field_def Let_def split: prod.splits)

lemma ForwarderList_copies:
  assumes "copylib_laws L X"
  shows "deep_copy (fwd_list_view L X)
           (ForwarderList_DeepCopyInto L)"
  by (rule list_copies [OF copylib_lawsD(2) [OF assms]
        items_copies [OF ForwarderKind.go_kind_axioms Forwarder_copies [OF assms]]])
     (auto simp: ForwarderList_DeepCopyInto_def slice_field_def Let_def split: prod.splits)

lemma GatewayList_copies:
  assumes "copylib_laws L X"
  shows "deep_copy (gw_list_view L X)
           (GatewayList_DeepCopyInto L)"
  by (rule list_copies [OF copylib_lawsD(2) [OF assms]
        items_copies [OF GatewayKind.go_kind_axioms Gateway_copies [OF assms]]])
     (auto simp: GatewayList_DeepCopyInto_def slice_field_def Let_def split: prod.splits)

subsection \<open>Pointers\<close>

lemma ptr_heap_view:
  assumes "heap_view V"
  shows "heap_view (ptr_view K V)"
proof
  fix h :: "'c heap" and p :: "'a ptr" and a
  assume "v_ok (ptr_view K V) h p" and "a \<in> v_refs (ptr_view K V) h p"
  then show "h_cells h a \<noteq> None"
    using heap_view.refs_alloc [OF assms]
    by (cases p) (fastforce split: option.splits dest: array_at_SomeD)+
next
  fix h h' :: "'c heap" and p :: "'a ptr"
  assume ok: "v_ok (ptr_view K V) h p" and agree: "agree_on (v_refs (ptr_view K V) h p) h h'"
  show "same_view (ptr_view K V) h h' p"
  proof (cases p)
    case NilPtr
    then show ?thesis by (simp add: same_view_def)
  next
    case (Ptr a i)
    from ok Ptr obtain xs where xs: "array_at K h a = Some xs" "i < length xs" "v_ok V h (xs ! i)"
      by (auto split: option.splits)
    from agree Ptr have "array_at K h' a = array_at K h a"
      by (intro array_at_cong) (simp add: agree_on_def)
    with xs have xs': "array_at K h' a = Some xs" by simp
    have "same_view V h h' (xs ! i)"
      by (rule heap_view.frame [OF assms xs(3)]) (use agree Ptr xs in \<open>simp add: agree_on_def\<close>)
    with xs xs' show ?thesis by (simp add: same_view_def Ptr)
  qed
qed

lemma ptr_deep_copy:
  assumes "go_kind K" and "deep_copy V cp"
  shows "deep_copy (ptr_view K V) (\<lambda>p out. ptr_DeepCopy K cp p)"
proof (rule deep_copyI)
  show "heap_view (ptr_view K V)" using assms(2) by (simp add: ptr_heap_view deep_copy_def)
  show "is_copy (ptr_view K V) h p h' q"
    if "heap_ok h" "v_ok (ptr_view K V) h p" "ptr_DeepCopy K cp p h = (q, h')" for h p out q h'
    using that by (auto intro: element_copy.ptr_copies [OF element_copy.intro [OF assms]])
qed

text \<open>The plain structs, the specs and the statuses.\<close>

interpretation service_ref: element_copy ServiceRefKind flat_view "ServiceRef_DeepCopyInto :: (_, ('x, 'k) cell) copier"
  by (intro element_copy.intro ServiceRefKind.go_kind_axioms flat_copies)

interpretation gateway_ref: element_copy GatewayRefKind flat_view "GatewayRef_DeepCopyInto :: (_, ('x, 'k) cell) copier"
  by (intro element_copy.intro GatewayRefKind.go_kind_axioms flat_copies)

interpretation forwarder_ref: element_copy ForwarderRefKind flat_view "ForwarderRef_DeepCopyInto :: (_, ('x, 'k) cell) copier"
  by (intro element_copy.intro ForwarderRefKind.go_kind_axioms flat_copies)

interpretation es_status: element_copy ExternalServiceStatusKind flat_view
    "ExternalServiceStatus_DeepCopyInto :: (_, ('x, 'k) cell) copier"
  by (intro element_copy.intro ExternalServiceStatusKind.go_kind_axioms flat_copies)

interpretation source: element_copy SourceKind flat_view "Source_DeepCopyInto :: (_, ('x, 'k) cell) copier"
  by (intro element_copy.intro SourceKind.go_kind_axioms flat_copies)

interpretation forwarder_rule: element_copy ForwarderRuleKind flat_view
    "ForwarderRule_DeepCopyInto :: (_, ('x, 'k) cell) copier"
  by (intro element_copy.intro ForwarderRuleKind.go_kind_axioms flat_copies)

interpretation gateway_rule: element_copy GatewayRuleKind flat_view
    "GatewayRule_DeepCopyInto :: (_, ('x, 'k) cell) copier"
  by (intro element_copy.intro GatewayRuleKind.go_kind_axioms flat_copies)

interpretation es_spec: element_copy ExternalServiceSpecKind es_spec_view
    "ExternalServiceSpec_DeepCopyInto :: (_, ('x, 'k) cell) copier"
  by (intro element_copy.intro ExternalServiceSpecKind.go_kind_axioms ExternalServiceSpec_copies)

interpretation fwd_spec: element_copy ForwarderSpecKind "rules_view ForwarderRuleKind"
    "ForwarderSpec_DeepCopyInto :: (_, ('x, 'k) cell) copier"
  by (intro element_copy.intro ForwarderSpecKind.go_kind_axioms ForwarderSpec_copies)

interpretation gw_spec: element_copy GatewaySpecKind "rules_view GatewayRuleKind"
    "GatewaySpec_DeepCopyInto :: (_, ('x, 'k) cell) copier"
  by (intro element_copy.intro GatewaySpecKind.go_kind_axioms GatewaySpec_copies)

text \<open>Conditions that hold no reference are copied by assignment.\<close>

interpretation plain_conditions: entry_copy "ConditionsKind L" flat_view "\<lambda>x h. (x, h)"
  for L :: "('x, 'k) copylib"
proof (intro entry_copy.intro ConditionsKind.go_kind_axioms)
  show "deep_copy flat_view (\<lambda>(x :: 'x) out (h :: ('x, 'k) mem). (x, h))"
    using flat.deep_copy_axioms by (simp add: assign_def [abs_def])
qed

text \<open>The pointers to the structs that depend on the library.\<close>

lemma library_ptr_copies:
  assumes "copylib_laws L X"
  shows "deep_copy (ptr_view ForwarderStatusKind (status_view (ConditionsKind L) X))
           (\<lambda>p out. ForwarderStatus_DeepCopy L p)"
    and "deep_copy (ptr_view GatewayStatusKind (status_view (ConditionsKind L) X))
           (\<lambda>p out. GatewayStatus_DeepCopy L p)"
    and "deep_copy (ptr_view (ExternalServiceKind L) (es_view X)) (\<lambda>p out. ExternalService_DeepCopy L p)"
    and "deep_copy (ptr_view (ForwarderKind L) (fwd_view L X)) (\<lambda>p out. Forwarder_DeepCopy L p)"
    and "deep_copy (ptr_view (GatewayKind L) (gw_view L X)) (\<lambda>p out. Gateway_DeepCopy L p)"
    and "deep_copy (ptr_view (ExternalServiceListKind L)
                      (es_list_view L X))
           (\<lambda>p out. ExternalServiceList_DeepCopy L p)"
    and "deep_copy (ptr_view (ForwarderListKind L)
                      (fwd_list_view L X))
           (\<lambda>p out. ForwarderList_DeepCopy L p)"
    and "deep_copy (ptr_view (GatewayListKind L)
                      (gw_list_view L X))
           (\<lambda>p out. GatewayList_DeepCopy L p)"
  unfolding ForwarderStatus_DeepCopy_def GatewayStatus_DeepCopy_def ExternalService_DeepCopy_def
    Forwarder_DeepCopy_def Gateway_DeepCopy_def ExternalServiceList_DeepCopy_def
    ForwarderList_DeepCopy_def GatewayList_DeepCopy_def
  by (intro ptr_deep_copy ForwarderStatusKind.go_kind_axioms GatewayStatusKind.go_kind_axioms
      ExternalServiceKind.go_kind_axioms ForwarderKind.go_kind_axioms GatewayKind.go_kind_axioms
      ExternalServiceListKind.go_kind_axioms ForwarderListKind.go_kind_axioms
      GatewayListKind.go_kind_axioms ForwarderStatus_copies GatewayStatus_copies
      ExternalService_copies Forwarder_copies Gateway_copies ExternalServiceList_copies
      ForwarderList_copies GatewayList_copies assms)+

end
