(* ===== verification/DeepCopyRuns.thy ===== *)
theory DeepCopyRuns
  imports DeepCopyLaws
begin

text \<open>
  What the generated copies are for: a consumer of a shared cache copies an object before it
  changes it. The theorems say that the copy means the same, that it is well typed and reaches
  only cells that did not exist before, and that later writes through either of the two are
  not seen through the other; then runs of the copy functions on a sample heap, with a library
  whose structs refer to one cell each.
\<close>

lemma agree_on_store: "a \<in> A \<Longrightarrow> agree_on (- A) h (store_at a c h)"
  by (simp add: agree_on_def)

section \<open>A sample library and heap\<close>

definition lib_copy :: "(nat, (nat, string) cell) copier" where
  "lib_copy a out h =
     (case h_cells h a of Some (LibraryCell k) \<Rightarrow> alloc (LibraryCell k) h | _ \<Rightarrow> (a, h))"

definition lib_view :: "(nat, string, (nat, string) cell) view" where
  "lib_view =
     \<lparr>v_ok = (\<lambda>h a. case h_cells h a of Some (LibraryCell k) \<Rightarrow> True | _ \<Rightarrow> False),
      v_val = (\<lambda>h a. case h_cells h a of Some (LibraryCell k) \<Rightarrow> k | _ \<Rightarrow> []),
      v_refs = (\<lambda>h a. {a})\<rparr>"

definition sample_lib :: "(nat, string) copylib" where
  "sample_lib =
     \<lparr>lc_ObjectMeta = lib_copy, lc_ListMeta = lib_copy, lc_Condition = (\<lambda>x. lib_copy x x),
      lc_zero = 0, lc_order = rev\<rparr>"

lemma lib_copies: "deep_copy lib_view lib_copy"
  by unfold_locales
     (auto simp: lib_view_def lib_copy_def same_view_def agree_on_def is_copy_def alloc_def
        heap_extends_def heap_ok_def split: option.splits cell.splits)

lemma sample_lib_laws: "copylib_laws sample_lib lib_view"
proof -
  have "deep_copy lib_view (\<lambda>x out. lib_copy x x)"
    using lib_copies by (simp add: deep_copy_def deep_copy_axioms_def)
  then show ?thesis by (simp add: copylib_laws_def sample_lib_def lib_copies)
qed

text \<open>
  A Forwarder with one egress rule, no ingress rules and one condition, and a list of two
  Gateways; the first of them uses one array for its egress and its ingress rules.
\<close>

definition sample_fwd_rule :: forwarder_rule where
  "sample_fwd_rule =
     \<lparr>fr_Protocol = ''TCP'', fr_SourceIP = ''10.0.0.1'', fr_TargetPort = ''80'',
      fr_DestinationIP = ''10.0.0.2'', fr_DestinationPort = ''80'',
      fr_Gateway = \<lparr>gwref_Namespace = ''ns'', gwref_Name = ''gw''\<rparr>, fr_GatewayIP = ''10.0.0.3'',
      fr_RelayPort = ''2049''\<rparr>"

definition sample_gw_rule :: gateway_rule where
  "sample_gw_rule =
     \<lparr>gr_Protocol = ''TCP'', gr_SourceIP = ''10.0.0.1'', gr_TargetPort = ''80'',
      gr_DestinationPort = ''80'', gr_DestinationIP = ''10.0.0.2'',
      gr_Forwarder = \<lparr>fwdref_Namespace = ''ns'', fwdref_Name = ''fwd''\<rparr>,
      gr_ForwarderIP = ''10.0.0.4'', gr_RelayPort = ''2049''\<rparr>"

definition sample_mem :: "(nat, string) mem" where
  "sample_mem =
     \<lparr>h_next = 9,
      h_cells = map_of
        [(0, ForwarderArr
               [\<lparr>ko_TypeMeta = zero_type_meta, ko_ObjectMeta = 1,
                 ko_Spec = \<lparr>rf_EgressRules = Slice 2 0 1, rf_IngressRules = NilSlice, rf_IP = ''10.0.0.4''\<rparr>,
                 ko_Status = \<lparr>sf_Conditions = MapRef 3, sf_RuleGeneration = 2, sf_SyncGeneration = 1\<rparr>\<rparr>]),
         (1, LibraryCell ''meta''),
         (2, ForwarderRuleArr [sample_fwd_rule]),
         (3, ConditionsMap [(ConditionRuleUpdating, 4)]),
         (4, LibraryCell ''False''),
         (5, GatewayListArr
               [\<lparr>kl_TypeMeta = zero_type_meta, kl_ListMeta = 1, kl_Items = Slice 6 0 2\<rparr>]),
         (6, GatewayArr
               [\<lparr>ko_TypeMeta = zero_type_meta, ko_ObjectMeta = 7,
                 ko_Spec = \<lparr>rf_EgressRules = Slice 8 0 1, rf_IngressRules = Slice 8 0 1, rf_IP = ''10.0.0.3''\<rparr>,
                 ko_Status = zero_status\<rparr>,
                \<lparr>ko_TypeMeta = zero_type_meta, ko_ObjectMeta = 7, ko_Spec = zero_rules,
                 ko_Status = \<lparr>sf_Conditions = MapRef 3, sf_RuleGeneration = 1, sf_SyncGeneration = 1\<rparr>\<rparr>]),
         (7, LibraryCell ''meta''),
         (8, GatewayRuleArr [sample_gw_rule])]\<rparr>"

lemma sample_mem_ok: "heap_ok sample_mem"
  by (auto simp: heap_ok_def sample_mem_def split: if_splits)

lemmas sample_eval = sample_mem_def sample_lib_def lib_copy_def lib_view_def kind_defs array_at_def
  fwd_view_def gw_view_def view_defs

lemma sample_pointers_ok:
  "ptr_ok (ForwarderKind sample_lib) (fwd_view sample_lib lib_view) sample_mem (Ptr 0 0)"
  "ptr_ok (GatewayListKind sample_lib)
     (list_view lib_view (slice_view (GatewayKind sample_lib) (gw_view sample_lib lib_view)))
     sample_mem (Ptr 5 0)"
  by (simp_all add: sample_eval zero_status_def zero_rules_def gomap_ok_def gkeys_def)

section \<open>The copies\<close>

text \<open>
  C24: Type safety of the copies. From a well-formed heap and a well-typed pointer to a
  Forwarder, \<^verbatim>\<open>Forwarder.DeepCopy\<close> reaches a well-formed heap in which both the
  receiver and the result are well typed, stand for the same value (rules, nil-ness of every
  slice and map, conditions, metadata), and the result reaches only cells that were allocated
  by the call, while every older cell is as it was.
\<close>

theorem Forwarder_DeepCopy_well_typed:
  assumes "copylib_laws L X" and "heap_ok h"
    and "ptr_ok (ForwarderKind L) (fwd_view L X) h p"
    and "Forwarder_DeepCopy L p h = (q, h')"
  shows "heap_ok h' \<and>
    ptr_ok (ForwarderKind L) (fwd_view L X) h' p \<and>
    ptr_ok (ForwarderKind L) (fwd_view L X) h' q \<and>
    ptr_val (ForwarderKind L) (fwd_view L X) h' q = ptr_val (ForwarderKind L) (fwd_view L X) h p \<and>
    ptr_refs (ForwarderKind L) (fwd_view L X) h' q \<subseteq> {h_next h..<h_next h'} \<and>
    (\<forall>a. a < h_next h \<longrightarrow> h_cells h' a = h_cells h a)"
proof -
  note copier = library_ptr_copies(4) [OF assms(1)]
  have view: "heap_view (ptr_view (ForwarderKind L) (fwd_view L X))"
    using copier by (simp add: deep_copy_def)
  from deep_copy.copies [OF copier assms(2) _ assms(4)] assms(3)
  have copy: "is_copy (ptr_view (ForwarderKind L) (fwd_view L X)) h p h' q" by simp
  then have "ptr_ok (ForwarderKind L) (fwd_view L X) h' p"
    using heap_view.ok_ext [OF view assms(2), of p h'] assms(3) by (simp add: is_copy_def)
  with copy show ?thesis by (simp add: is_copy_def heap_extends_def)
qed

lemma Forwarder_DeepCopy_well_typed_witness:
  "ptr_ok (ForwarderKind sample_lib) (fwd_view sample_lib lib_view)
     (snd (Forwarder_DeepCopy sample_lib (Ptr 0 0) sample_mem))
     (fst (Forwarder_DeepCopy sample_lib (Ptr 0 0) sample_mem))"
  using Forwarder_DeepCopy_well_typed
    [OF sample_lib_laws sample_mem_ok sample_pointers_ok(1) surjective_pairing] by simp

text \<open>
  C23: Isolation. After \<^verbatim>\<open>GatewayList.DeepCopy\<close>, whatever is written to cells that
  the copy reaches (or to cells allocated later) leaves every Gateway of the original list as
  it was, and whatever is written to cells that the original reaches leaves the copy as it was:
  no array of rules, no map of conditions and no metadata is shared.
\<close>

theorem GatewayList_DeepCopy_isolated:
  assumes "copylib_laws L X" and "heap_ok h" and "ptr_ok (GatewayListKind L) (gw_list_view L X) h p"
    and "GatewayList_DeepCopy L p h = (q, h')"
  shows "(agree_on (- ptr_refs (GatewayListKind L) (gw_list_view L X) h' q) h' h1 \<longrightarrow>
            ptr_ok (GatewayListKind L) (gw_list_view L X) h1 p \<and>
            ptr_val (GatewayListKind L) (gw_list_view L X) h1 p = ptr_val (GatewayListKind L) (gw_list_view L X) h p) \<and>
         (agree_on (- ptr_refs (GatewayListKind L) (gw_list_view L X) h p) h' h2 \<longrightarrow>
            ptr_ok (GatewayListKind L) (gw_list_view L X) h2 q \<and>
            ptr_val (GatewayListKind L) (gw_list_view L X) h2 q = ptr_val (GatewayListKind L) (gw_list_view L X) h p)"
proof -
  note copier = library_ptr_copies(8) [OF assms(1)]
  have view: "heap_view (ptr_view (GatewayListKind L) (gw_list_view L X))"
    using copier by (simp add: deep_copy_def)
  have ok: "v_ok (ptr_view (GatewayListKind L) (gw_list_view L X)) h p" using assms(3) by simp
  note copy = deep_copy.copies [OF copier assms(2) ok assms(4)]
  from heap_view.copy_isolates_original [OF view assms(2) ok copy, of h1]
    heap_view.original_isolates_copy [OF view assms(2) ok copy, of h2] copy assms(3)
  show ?thesis by (simp add: same_view_def is_copy_def)
qed

text \<open>Emptying the original's array of rules leaves the copied list alone.\<close>

lemma GatewayList_DeepCopy_isolated_witness:
  "ptr_val (GatewayListKind sample_lib) (gw_list_view sample_lib lib_view)
     (store_at 8 (GatewayRuleArr []) (snd (GatewayList_DeepCopy sample_lib (Ptr 5 0) sample_mem)))
     (fst (GatewayList_DeepCopy sample_lib (Ptr 5 0) sample_mem)) =
   ptr_val (GatewayListKind sample_lib) (gw_list_view sample_lib lib_view) sample_mem (Ptr 5 0)"
proof -
  have "8 \<in> ptr_refs (GatewayListKind sample_lib) (gw_list_view sample_lib lib_view) sample_mem (Ptr 5 0)"
    by (simp add: sample_eval)
  from agree_on_store [OF this]
  have "agree_on (- ptr_refs (GatewayListKind sample_lib) (gw_list_view sample_lib lib_view) sample_mem (Ptr 5 0))
    (snd (GatewayList_DeepCopy sample_lib (Ptr 5 0) sample_mem))
    (store_at 8 (GatewayRuleArr []) (snd (GatewayList_DeepCopy sample_lib (Ptr 5 0) sample_mem)))" .
  from GatewayList_DeepCopy_isolated
      [OF sample_lib_laws sample_mem_ok sample_pointers_ok(2) surjective_pairing,
       THEN conjunct2, rule_format, OF this]
  show ?thesis by (rule conjunct2)
qed

text \<open>
  \<^verbatim>\<open>DeepCopyObject\<close> answers the nil interface, never an interface that holds a
  nil pointer, exactly when it is called on a nil pointer; otherwise the interface holds the
  type of the receiver and a pointer to a new struct.
\<close>

theorem DeepCopyObject_nil:
  "ExternalService_DeepCopyObject L NilPtr h = (NilObject, h) \<and>
   ForwarderList_DeepCopyObject L NilPtr h = (NilObject, h) \<and>
   Gateway_DeepCopyObject L NilPtr h = (NilObject, h) \<and>
   fst (ExternalService_DeepCopyObject L (Ptr a i) h) = ExternalServiceObject (Ptr (h_next h) 0) \<and>
   fst (ForwarderList_DeepCopyObject L (Ptr a i) h) = ForwarderListObject (Ptr (h_next h) 0) \<and>
   fst (Gateway_DeepCopyObject L (Ptr a i) h) = GatewayObject (Ptr (h_next h) 0)"
  by (simp add: ExternalService_DeepCopyObject_def ForwarderList_DeepCopyObject_def
      Gateway_DeepCopyObject_def ExternalService_DeepCopy_def ForwarderList_DeepCopy_def
      Gateway_DeepCopy_def ptr_DeepCopy_def go_new_def Let_def split_beta)

end
