(* ===== verification/FakeClients.thy ===== *)
theory FakeClients
  imports Clientset AgentRuns
begin

text \<open>
  The generated fake clients (\<^verbatim>\<open>typed/submariner/v1alpha1/fake\<close>), on which unit tests
  run in place of the generated clients. Each method builds an action and gives it to
  client-go's \<^verbatim>\<open>testing.Fake\<close>, the record \<open>fake\<close>. With an object tracker behind it,
  which is how \<^verbatim>\<open>NewSimpleClientset\<close> sets it up, the objects are processed
  \<^emph>\<open>as they are, without any validation\<close>: \<open>tracks\<close> is that comment as a hypothesis. An
  agent on a fake client is compared with one on an API server.
\<close>

section \<open>The code\<close>

text \<open>A runtime object that is not nil. \<open>'m\<close> is the metadata of a list.\<close>

datatype ('c, 'm) fake_object =
    FakeForwarder "'c forwarder"
  | FakeForwarderList 'm "'c forwarder list"
  | FakeGateway "'c gateway"
  | FakeGatewayList 'm "'c gateway list"

fun is_Forwarder :: "('c, 'm) fake_object \<Rightarrow> 'c forwarder option" where
  "is_Forwarder (FakeForwarder x) = Some x"
| "is_Forwarder _ = None"

fun is_ForwarderList :: "('c, 'm) fake_object \<Rightarrow> ('m \<times> 'c forwarder list) option" where
  "is_ForwarderList (FakeForwarderList m xs) = Some (m, xs)"
| "is_ForwarderList _ = None"

fun is_Gateway :: "('c, 'm) fake_object \<Rightarrow> 'c gateway option" where
  "is_Gateway (FakeGateway x) = Some x"
| "is_Gateway _ = None"

fun is_GatewayList :: "('c, 'm) fake_object \<Rightarrow> ('m \<times> 'c gateway list) option" where
  "is_GatewayList (FakeGatewayList m xs) = Some (m, xs)"
| "is_GatewayList _ = None"

text \<open>The actions of \<^verbatim>\<open>client-go/testing\<close>, by their constructors.\<close>

datatype ('c, 'm, 'q) action =
    GetAction group_version_resource string string
  | ListAction group_version_resource group_version_kind string "'q list_options"
  | WatchAction group_version_resource string "'q list_options"
  | CreateAction group_version_resource string "('c, 'm) fake_object"
  | UpdateAction group_version_resource string "('c, 'm) fake_object"
  | UpdateSubresourceAction group_version_resource string string "('c, 'm) fake_object"
  | DeleteAction group_version_resource string string
  | DeleteCollectionAction group_version_resource string "'q list_options"
  | PatchSubresourceAction group_version_resource string string string string "string list"

text \<open>
  \<open>fk_Invokes\<close> answers an object, which may be nil, and an error. \<open>fk_ExtractFromListOptions\<close>
  gives the label selector of the options, \<open>fk_Matches\<close> decides on the labels of an object, and
  \<open>fk_ListMeta\<close> is the zero value of a list's metadata.
\<close>

record ('w, 'c, 'm, 'q, 'i, 'l) fake =
  fk_Invokes :: "('c, 'm, 'q) action \<Rightarrow> ('c, 'm) fake_object
     \<Rightarrow> 'w \<Rightarrow> (('c, 'm) fake_object option \<times> go_error option) \<times> 'w"
  fk_InvokesWatch :: "('c, 'm, 'q) action \<Rightarrow> ('w, 'i option) goret"
  fk_ExtractFromListOptions :: "'q list_options \<Rightarrow> 'l option"
  fk_Everything :: 'l
  fk_Matches :: "'l \<Rightarrow> string gomap \<Rightarrow> bool"
  fk_ListMeta :: 'm

text \<open>A value that may be nil and an error, or a panic.\<close>

type_synonym ('w, 'a) fakeret = "'w \<Rightarrow> ('a option \<times> go_error option) result \<times> 'w"

text \<open>\<^verbatim>\<open>if obj == nil { return nil, err }; return obj.(*T), err\<close>\<close>

definition asserted ::
  "('o \<Rightarrow> 'a option) \<Rightarrow> ('w \<Rightarrow> ('o option \<times> go_error option) \<times> 'w) \<Rightarrow> ('w, 'a) fakeret" where
  "asserted is m w =
     (let ((obj, err), w) = m w
      in (case obj of
            None \<Rightarrow> Inr (None, err)
          | Some obj \<Rightarrow> (case is obj of None \<Rightarrow> Inl GoPanic | Some x \<Rightarrow> Inr (Some x, err)), w))"

text \<open>\<^verbatim>\<open>_, err := m; return err\<close>\<close>

definition error_of :: "('w \<Rightarrow> ('a \<times> go_error option) \<times> 'w) \<Rightarrow> 'w \<Rightarrow> go_error option \<times> 'w" where
  "error_of m w = (let ((obj, err), w) = m w in (err, w))"

text \<open>The loop that keeps the items whose labels the selector of the options matches.\<close>

definition selected ::
  "('w, 'c, 'm, 'q, 'i, 'l) fake \<Rightarrow> 'q list_options \<Rightarrow> ('o \<Rightarrow> object_meta) \<Rightarrow> 'o list \<Rightarrow> 'o list" where
  "selected F opts meta_of items =
     (let label = (case fk_ExtractFromListOptions F opts of None \<Rightarrow> fk_Everything F | Some l \<Rightarrow> l)
      in fold (\<lambda>item xs. if fk_Matches F label (m_Labels (meta_of item)) then xs @ [item] else xs) items [])"

subsection \<open>Forwarders\<close>

record ('w, 'c, 'm, 'q, 'i, 'l) fake_forwarders =
  ff_Fake :: "('w, 'c, 'm, 'q, 'i, 'l) fake"
  ff_ns :: string

definition fake_Forwarders ::
  "('w, 'c, 'm, 'q, 'i, 'l) fake \<Rightarrow> string \<Rightarrow> ('w, 'c, 'm, 'q, 'i, 'l) fake_forwarders" where
  "fake_Forwarders c namespace = \<lparr>ff_Fake = c, ff_ns = namespace\<rparr>"

definition forwardersResource :: group_version_resource where
  "forwardersResource = \<lparr>gvr_Group = ''submariner.io'', gvr_Version = ''v1alpha1'', gvr_Resource = ''forwarders''\<rparr>"

definition forwardersKind :: group_version_kind where
  "forwardersKind = \<lparr>gvk_Group = ''submariner.io'', gvk_Version = ''v1alpha1'', gvk_Kind = ''Forwarder''\<rparr>"

definition FakeForwarders_Get ::
  "'c libs \<Rightarrow> ('w, 'c, 'm, 'q, 'i, 'l) fake_forwarders \<Rightarrow> string \<Rightarrow> 'q \<Rightarrow> ('w, 'c forwarder) fakeret" where
  "FakeForwarders_Get L c name options =
     asserted is_Forwarder (fk_Invokes (ff_Fake c) (GetAction forwardersResource (ff_ns c) name)
       (FakeForwarder (zero_forwarder L)))"

definition FakeForwarders_List ::
  "('w, 'c, 'm, 'q, 'i, 'l) fake_forwarders \<Rightarrow> 'q list_options \<Rightarrow> ('w, 'm \<times> 'c forwarder list) fakeret" where
  "FakeForwarders_List c opts w =
     (let (r, w) = asserted is_ForwarderList (fk_Invokes (ff_Fake c)
                     (ListAction forwardersResource forwardersKind (ff_ns c) opts)
                     (FakeForwarderList (fk_ListMeta (ff_Fake c)) [])) w
      in (rbind r (\<lambda>(obj, err). case obj of
            None \<Rightarrow> Inr (None, err)
          | Some (m, items) \<Rightarrow> Inr (Some (m, selected (ff_Fake c) opts fwd_Meta items), err)), w))"

definition FakeForwarders_Watch ::
  "('w, 'c, 'm, 'q, 'i, 'l) fake_forwarders \<Rightarrow> 'q list_options \<Rightarrow> ('w, 'i option) goret" where
  "FakeForwarders_Watch c opts =
     fk_InvokesWatch (ff_Fake c) (WatchAction forwardersResource (ff_ns c) opts)"

definition FakeForwarders_Create ::
  "'c libs \<Rightarrow> ('w, 'c, 'm, 'q, 'i, 'l) fake_forwarders \<Rightarrow> 'c forwarder \<Rightarrow> ('w, 'c forwarder) fakeret" where
  "FakeForwarders_Create L c x =
     asserted is_Forwarder (fk_Invokes (ff_Fake c) (CreateAction forwardersResource (ff_ns c) (FakeForwarder x))
       (FakeForwarder (zero_forwarder L)))"

definition FakeForwarders_Update ::
  "'c libs \<Rightarrow> ('w, 'c, 'm, 'q, 'i, 'l) fake_forwarders \<Rightarrow> 'c forwarder \<Rightarrow> ('w, 'c forwarder) fakeret" where
  "FakeForwarders_Update L c x =
     asserted is_Forwarder (fk_Invokes (ff_Fake c) (UpdateAction forwardersResource (ff_ns c) (FakeForwarder x))
       (FakeForwarder (zero_forwarder L)))"

definition FakeForwarders_UpdateStatus ::
  "'c libs \<Rightarrow> ('w, 'c, 'm, 'q, 'i, 'l) fake_forwarders \<Rightarrow> 'c forwarder \<Rightarrow> ('w, 'c forwarder) fakeret" where
  "FakeForwarders_UpdateStatus L c x =
     asserted is_Forwarder (fk_Invokes (ff_Fake c)
       (UpdateSubresourceAction forwardersResource ''status'' (ff_ns c) (FakeForwarder x))
       (FakeForwarder (zero_forwarder L)))"

definition FakeForwarders_Delete ::
  "'c libs \<Rightarrow> ('w, 'c, 'm, 'q, 'i, 'l) fake_forwarders \<Rightarrow> string \<Rightarrow> 'q \<Rightarrow> 'w \<Rightarrow> go_error option \<times> 'w" where
  "FakeForwarders_Delete L c name options =
     error_of (fk_Invokes (ff_Fake c) (DeleteAction forwardersResource (ff_ns c) name)
       (FakeForwarder (zero_forwarder L)))"

definition FakeForwarders_DeleteCollection ::
  "('w, 'c, 'm, 'q, 'i, 'l) fake_forwarders \<Rightarrow> 'q \<Rightarrow> 'q list_options \<Rightarrow> 'w \<Rightarrow> go_error option \<times> 'w" where
  "FakeForwarders_DeleteCollection c options listOptions =
     (let action = DeleteCollectionAction forwardersResource (ff_ns c) listOptions
      in error_of (fk_Invokes (ff_Fake c) action (FakeForwarderList (fk_ListMeta (ff_Fake c)) [])))"

definition FakeForwarders_Patch ::
  "'c libs \<Rightarrow> ('w, 'c, 'm, 'q, 'i, 'l) fake_forwarders \<Rightarrow> string \<Rightarrow> string \<Rightarrow> string \<Rightarrow> string list
     \<Rightarrow> ('w, 'c forwarder) fakeret" where
  "FakeForwarders_Patch L c name pt data subresources =
     asserted is_Forwarder (fk_Invokes (ff_Fake c)
       (PatchSubresourceAction forwardersResource (ff_ns c) name pt data subresources)
       (FakeForwarder (zero_forwarder L)))"

subsection \<open>Gateways\<close>

record ('w, 'c, 'm, 'q, 'i, 'l) fake_gateways =
  fg_Fake :: "('w, 'c, 'm, 'q, 'i, 'l) fake"
  fg_ns :: string

definition fake_Gateways ::
  "('w, 'c, 'm, 'q, 'i, 'l) fake \<Rightarrow> string \<Rightarrow> ('w, 'c, 'm, 'q, 'i, 'l) fake_gateways" where
  "fake_Gateways c namespace = \<lparr>fg_Fake = c, fg_ns = namespace\<rparr>"

definition gatewaysResource :: group_version_resource where
  "gatewaysResource = \<lparr>gvr_Group = ''submariner.io'', gvr_Version = ''v1alpha1'', gvr_Resource = ''gateways''\<rparr>"

definition gatewaysKind :: group_version_kind where
  "gatewaysKind = \<lparr>gvk_Group = ''submariner.io'', gvk_Version = ''v1alpha1'', gvk_Kind = ''Gateway''\<rparr>"

definition FakeGateways_Get ::
  "'c libs \<Rightarrow> ('w, 'c, 'm, 'q, 'i, 'l) fake_gateways \<Rightarrow> string \<Rightarrow> 'q \<Rightarrow> ('w, 'c gateway) fakeret" where
  "FakeGateways_Get L c name options =
     asserted is_Gateway (fk_Invokes (fg_Fake c) (GetAction gatewaysResource (fg_ns c) name)
       (FakeGateway (zero_gateway L)))"

definition FakeGateways_List ::
  "('w, 'c, 'm, 'q, 'i, 'l) fake_gateways \<Rightarrow> 'q list_options \<Rightarrow> ('w, 'm \<times> 'c gateway list) fakeret" where
  "FakeGateways_List c opts w =
     (let (r, w) = asserted is_GatewayList (fk_Invokes (fg_Fake c)
                     (ListAction gatewaysResource gatewaysKind (fg_ns c) opts)
                     (FakeGatewayList (fk_ListMeta (fg_Fake c)) [])) w
      in (rbind r (\<lambda>(obj, err). case obj of
            None \<Rightarrow> Inr (None, err)
          | Some (m, items) \<Rightarrow> Inr (Some (m, selected (fg_Fake c) opts gw_Meta items), err)), w))"

definition FakeGateways_Watch ::
  "('w, 'c, 'm, 'q, 'i, 'l) fake_gateways \<Rightarrow> 'q list_options \<Rightarrow> ('w, 'i option) goret" where
  "FakeGateways_Watch c opts =
     fk_InvokesWatch (fg_Fake c) (WatchAction gatewaysResource (fg_ns c) opts)"

definition FakeGateways_Create ::
  "'c libs \<Rightarrow> ('w, 'c, 'm, 'q, 'i, 'l) fake_gateways \<Rightarrow> 'c gateway \<Rightarrow> ('w, 'c gateway) fakeret" where
  "FakeGateways_Create L c x =
     asserted is_Gateway (fk_Invokes (fg_Fake c) (CreateAction gatewaysResource (fg_ns c) (FakeGateway x))
       (FakeGateway (zero_gateway L)))"

definition FakeGateways_Update ::
  "'c libs \<Rightarrow> ('w, 'c, 'm, 'q, 'i, 'l) fake_gateways \<Rightarrow> 'c gateway \<Rightarrow> ('w, 'c gateway) fakeret" where
  "FakeGateways_Update L c x =
     asserted is_Gateway (fk_Invokes (fg_Fake c) (UpdateAction gatewaysResource (fg_ns c) (FakeGateway x))
       (FakeGateway (zero_gateway L)))"

definition FakeGateways_UpdateStatus ::
  "'c libs \<Rightarrow> ('w, 'c, 'm, 'q, 'i, 'l) fake_gateways \<Rightarrow> 'c gateway \<Rightarrow> ('w, 'c gateway) fakeret" where
  "FakeGateways_UpdateStatus L c x =
     asserted is_Gateway (fk_Invokes (fg_Fake c)
       (UpdateSubresourceAction gatewaysResource ''status'' (fg_ns c) (FakeGateway x))
       (FakeGateway (zero_gateway L)))"

definition FakeGateways_Delete ::
  "'c libs \<Rightarrow> ('w, 'c, 'm, 'q, 'i, 'l) fake_gateways \<Rightarrow> string \<Rightarrow> 'q \<Rightarrow> 'w \<Rightarrow> go_error option \<times> 'w" where
  "FakeGateways_Delete L c name options =
     error_of (fk_Invokes (fg_Fake c) (DeleteAction gatewaysResource (fg_ns c) name)
       (FakeGateway (zero_gateway L)))"

definition FakeGateways_DeleteCollection ::
  "('w, 'c, 'm, 'q, 'i, 'l) fake_gateways \<Rightarrow> 'q \<Rightarrow> 'q list_options \<Rightarrow> 'w \<Rightarrow> go_error option \<times> 'w" where
  "FakeGateways_DeleteCollection c options listOptions =
     (let action = DeleteCollectionAction gatewaysResource (fg_ns c) listOptions
      in error_of (fk_Invokes (fg_Fake c) action (FakeGatewayList (fk_ListMeta (fg_Fake c)) [])))"

definition FakeGateways_Patch ::
  "'c libs \<Rightarrow> ('w, 'c, 'm, 'q, 'i, 'l) fake_gateways \<Rightarrow> string \<Rightarrow> string \<Rightarrow> string \<Rightarrow> string list
     \<Rightarrow> ('w, 'c gateway) fakeret" where
  "FakeGateways_Patch L c name pt data subresources =
     asserted is_Gateway (fk_Invokes (fg_Fake c)
       (PatchSubresourceAction gatewaysResource (fg_ns c) name pt data subresources)
       (FakeGateway (zero_gateway L)))"

section \<open>Objects as they are\<close>

lemma selected_eq:
  fixes items :: "'o list"
  shows "selected F opts meta_of items =
     filter (\<lambda>x. fk_Matches F (case fk_ExtractFromListOptions F opts of None \<Rightarrow> fk_Everything F | Some l \<Rightarrow> l)
        (m_Labels (meta_of x))) items"
proof -
  have "fold (\<lambda>x xs. if P x then xs @ [x] else xs) items ys = ys @ filter P items" for P :: "'o \<Rightarrow> bool" and ys
    by (induction items arbitrary: ys) simp_all
  then show ?thesis by (simp add: selected_def Let_def)
qed

text \<open>
  A tracker behind the fake, as far as the agents use it: \<open>v\<close> are the tracked objects of one
  resource. A read finds what is stored; an update, of the object or of its status, replaces
  the stored object by the submitted one.
\<close>

definition tracks ::
  "('w, 'c, 'm, 'q, 'i, 'l) fake \<Rightarrow> group_version_resource \<Rightarrow> ('o \<Rightarrow> ('c, 'm) fake_object)
     \<Rightarrow> ('o \<Rightarrow> object_meta) \<Rightarrow> ('w \<Rightarrow> nsname \<rightharpoonup> 'o) \<Rightarrow> bool" where
  "tracks F res obj meta_of v \<longleftrightarrow>
     (\<forall>n d w. \<exists>w'. v w' = v w \<and>
        fk_Invokes F (GetAction res (nn_Namespace n) (nn_Name n)) d w =
          (case v w n of None \<Rightarrow> (None, Some NotFound) | Some x \<Rightarrow> (Some (obj x), None), w')) \<and>
     (\<forall>a x d w.
        a = UpdateAction res (m_Namespace (meta_of x)) (obj x) \<or>
        a = UpdateSubresourceAction res ''status'' (m_Namespace (meta_of x)) (obj x) \<longrightarrow>
        (\<exists>w'. if v w (meta_key (meta_of x)) = None
              then fk_Invokes F a d w = ((None, Some NotFound), w') \<and> v w' = v w
              else fk_Invokes F a d w = ((Some (obj x), None), w') \<and>
                   v w' = (v w)(meta_key (meta_of x) \<mapsto> x)))"

definition fake_quiet :: "('w \<Rightarrow> 'v) \<Rightarrow> ('w, 'c, 'm, 'q, 'i, 'l) fake \<Rightarrow> bool" where
  "fake_quiet v F \<longleftrightarrow> (\<forall>a d w. v (snd (fk_Invokes F a d w)) = v w)"

text \<open>A caller looks at the error first and then at fields of the object, where nil panics.\<close>

definition deref :: "('w, 'a) fakeret \<Rightarrow> ('w, 'a) io" where
  "deref m w =
     (case m w of
        (Inl e, w') \<Rightarrow> (Inl e, w')
      | (Inr (_, Some e), w') \<Rightarrow> (Inl e, w')
      | (Inr (None, None), w') \<Rightarrow> (Inl GoPanic, w')
      | (Inr (Some x, None), w') \<Rightarrow> (Inr x, w'))"

definition deleted :: "('w \<Rightarrow> go_error option \<times> 'w) \<Rightarrow> ('w, unit) io" where
  "deleted m w = (case m w of (None, w') \<Rightarrow> (Inr (), w') | (Some e, w') \<Rightarrow> (Inl e, w'))"

text \<open>The fake clients as the agents see them.\<close>

definition fwd_fake_resource ::
  "'c libs \<Rightarrow> ('w, 'c, 'm, 'q, 'i, 'l) fake \<Rightarrow> 'q \<Rightarrow> ('w, 'c forwarder) resource" where
  "fwd_fake_resource L F q =
     (let at = (\<lambda>x. fake_Forwarders F (m_Namespace (fwd_Meta x))) in
     \<lparr>res_Get = (\<lambda>n. deref (FakeForwarders_Get L (fake_Forwarders F (nn_Namespace n)) (nn_Name n) q)),
      res_List = andThen (deref (FakeForwarders_List (fake_Forwarders F [])
        \<lparr>lo_TimeoutSeconds = None, lo_Watch = False, lo_others = q\<rparr>)) (\<lambda>(m, xs). ret xs),
      res_Create = (\<lambda>x. deref (FakeForwarders_Create L (at x) x)),
      res_Update = (\<lambda>x. deref (FakeForwarders_Update L (at x) x)),
      res_StatusUpdate = (\<lambda>x. deref (FakeForwarders_UpdateStatus L (at x) x)),
      res_Delete = (\<lambda>x. deleted (FakeForwarders_Delete L (at x) (m_Name (fwd_Meta x)) q))\<rparr>)"

definition gw_fake_resource ::
  "'c libs \<Rightarrow> ('w, 'c, 'm, 'q, 'i, 'l) fake \<Rightarrow> 'q \<Rightarrow> ('w, 'c gateway) resource" where
  "gw_fake_resource L F q =
     (let at = (\<lambda>x. fake_Gateways F (m_Namespace (gw_Meta x))) in
     \<lparr>res_Get = (\<lambda>n. deref (FakeGateways_Get L (fake_Gateways F (nn_Namespace n)) (nn_Name n) q)),
      res_List = andThen (deref (FakeGateways_List (fake_Gateways F [])
        \<lparr>lo_TimeoutSeconds = None, lo_Watch = False, lo_others = q\<rparr>)) (\<lambda>(m, xs). ret xs),
      res_Create = (\<lambda>x. deref (FakeGateways_Create L (at x) x)),
      res_Update = (\<lambda>x. deref (FakeGateways_Update L (at x) x)),
      res_StatusUpdate = (\<lambda>x. deref (FakeGateways_UpdateStatus L (at x) x)),
      res_Delete = (\<lambda>x. deleted (FakeGateways_Delete L (at x) (m_Name (gw_Meta x)) q))\<rparr>)"

text \<open>A resource that stores what it gets, without a look at its version.\<close>

definition as_is :: "('w \<Rightarrow> nsname \<rightharpoonup> 'o) \<Rightarrow> ('o \<Rightarrow> object_meta) \<Rightarrow> ('w, 'o) resource \<Rightarrow> bool" where
  "as_is v meta_of R \<longleftrightarrow>
     (\<forall>k x w. v w k = Some x \<longrightarrow> (\<exists>w'. res_Get R k w = (Inr x, w') \<and> v w' = v w)) \<and>
     (\<forall>x w. v w (meta_key (meta_of x)) \<noteq> None \<longrightarrow>
        (\<exists>w'. res_Update R x w = (Inr x, w') \<and> v w' = (v w)(meta_key (meta_of x) \<mapsto> x)) \<and>
        (\<exists>w'. res_StatusUpdate R x w = (Inr x, w') \<and> v w' = (v w)(meta_key (meta_of x) \<mapsto> x)))"

text \<open>What both fake clients have to do with the actions.\<close>

locale fake_client =
  fixes res :: group_version_resource and obj :: "'o \<Rightarrow> ('c, 'm) fake_object"
    and is_obj :: "('c, 'm) fake_object \<Rightarrow> 'o option" and meta_of :: "'o \<Rightarrow> object_meta"
    and client :: "('w, 'c, 'm, 'q, 'i, 'l) fake \<Rightarrow> 'q \<Rightarrow> ('w, 'o) resource"
  assumes is_obj: "is_obj (obj x) = Some x"
    and get: "\<exists>d. res_Get (client F q) n =
      deref (asserted is_obj (fk_Invokes F (GetAction res (nn_Namespace n) (nn_Name n)) d))"
    and update: "\<exists>d. res_Update (client F q) x =
      deref (asserted is_obj (fk_Invokes F (UpdateAction res (m_Namespace (meta_of x)) (obj x)) d))"
    and status: "\<exists>d. res_StatusUpdate (client F q) x =
      deref (asserted is_obj (fk_Invokes F
        (UpdateSubresourceAction res ''status'' (m_Namespace (meta_of x)) (obj x)) d))"
begin

lemma answered:
  "fk_Invokes F a d w = ((Some (obj x), None), w') \<Longrightarrow> deref (asserted is_obj (fk_Invokes F a d)) w = (Inr x, w')"
  by (simp add: deref_def asserted_def is_obj)

lemma tracked:
  assumes "tracks F res obj meta_of v"
  shows "as_is v meta_of (client F q)"
  unfolding as_is_def
proof (intro conjI allI impI)
  fix k x w
  assume stored: "v w k = Some x"
  from get [of F q k] obtain d where
    eq: "res_Get (client F q) k = deref (asserted is_obj (fk_Invokes F (GetAction res (nn_Namespace k) (nn_Name k)) d))" ..
  from assms stored obtain w' where "v w' = v w"
    and "fk_Invokes F (GetAction res (nn_Namespace k) (nn_Name k)) d w = ((Some (obj x), None), w')"
    unfolding tracks_def by (metis option.simps(5))
  then show "\<exists>w'. res_Get (client F q) k w = (Inr x, w') \<and> v w' = v w"
    by (simp add: eq answered)
next
  fix x w
  assume "v w (meta_key (meta_of x)) \<noteq> None"
  then have stores: "\<exists>w'. fk_Invokes F a d w = ((Some (obj x), None), w') \<and> v w' = (v w)(meta_key (meta_of x) \<mapsto> x)"
    if "a = UpdateAction res (m_Namespace (meta_of x)) (obj x) \<or>
        a = UpdateSubresourceAction res ''status'' (m_Namespace (meta_of x)) (obj x)" for a d
    using assms that unfolding tracks_def by metis
  obtain d where up: "res_Update (client F q) x =
      deref (asserted is_obj (fk_Invokes F (UpdateAction res (m_Namespace (meta_of x)) (obj x)) d))"
    using update by blast
  from stores [OF disjI1 [OF HOL.refl], of d] obtain w' where
    "fk_Invokes F (UpdateAction res (m_Namespace (meta_of x)) (obj x)) d w = ((Some (obj x), None), w')"
    "v w' = (v w)(meta_key (meta_of x) \<mapsto> x)" by blast
  then show "\<exists>w'. res_Update (client F q) x w = (Inr x, w') \<and> v w' = (v w)(meta_key (meta_of x) \<mapsto> x)"
    by (simp add: up answered)
  obtain d' where st: "res_StatusUpdate (client F q) x = deref (asserted is_obj (fk_Invokes F
      (UpdateSubresourceAction res ''status'' (m_Namespace (meta_of x)) (obj x)) d'))"
    using status by blast
  from stores [OF disjI2 [OF HOL.refl], of d'] obtain w'' where
    "fk_Invokes F (UpdateSubresourceAction res ''status'' (m_Namespace (meta_of x)) (obj x)) d' w =
       ((Some (obj x), None), w'')"
    "v w'' = (v w)(meta_key (meta_of x) \<mapsto> x)" by blast
  then show "\<exists>w'. res_StatusUpdate (client F q) x w = (Inr x, w') \<and> v w' = (v w)(meta_key (meta_of x) \<mapsto> x)"
    by (simp add: st answered)
qed

end

text \<open>What the world is afterwards is up to the fake.\<close>

lemma fake_worlds:
  "snd (asserted is m w) = snd (m w)" "snd (error_of m w) = snd (m w)"
  by (simp_all add: asserted_def error_of_def Let_def split_beta)

lemma snd_deref: "snd (deref f w) = snd (f w)"
proof (cases "f w")
  case (Pair r w')
  then show ?thesis
    by (cases r rule: sum.exhaust) (simp_all add: deref_def split: prod.split option.split)
qed

lemma snd_deleted: "snd (deleted g w) = snd (g w)"
  by (cases "g w") (simp add: deleted_def split: option.split)

lemma quiet_fake:
  assumes "fake_quiet tv F"
  shows "quiet tv (deref (asserted is (fk_Invokes F a d)))" "quiet tv (deleted (error_of (fk_Invokes F a d)))"
  using assms by (simp_all add: quiet_def fake_worlds snd_deref snd_deleted fake_quiet_def)

section \<open>Both fake clients\<close>

lemma fwd_fake_actions:
  "res_Get (fwd_fake_resource L F q) n = deref (asserted is_Forwarder (fk_Invokes F
     (GetAction forwardersResource (nn_Namespace n) (nn_Name n)) (FakeForwarder (zero_forwarder L))))"
  "res_Create (fwd_fake_resource L F q) x = deref (asserted is_Forwarder (fk_Invokes F
     (CreateAction forwardersResource (m_Namespace (fwd_Meta x)) (FakeForwarder x)) (FakeForwarder (zero_forwarder L))))"
  "res_Update (fwd_fake_resource L F q) x = deref (asserted is_Forwarder (fk_Invokes F
     (UpdateAction forwardersResource (m_Namespace (fwd_Meta x)) (FakeForwarder x)) (FakeForwarder (zero_forwarder L))))"
  "res_StatusUpdate (fwd_fake_resource L F q) x = deref (asserted is_Forwarder (fk_Invokes F
     (UpdateSubresourceAction forwardersResource ''status'' (m_Namespace (fwd_Meta x)) (FakeForwarder x))
     (FakeForwarder (zero_forwarder L))))"
  "res_Delete (fwd_fake_resource L F q) x = deleted (error_of (fk_Invokes F
     (DeleteAction forwardersResource (m_Namespace (fwd_Meta x)) (m_Name (fwd_Meta x))) (FakeForwarder (zero_forwarder L))))"
  by (simp_all add: fwd_fake_resource_def Let_def fake_Forwarders_def FakeForwarders_Get_def FakeForwarders_Create_def
      FakeForwarders_Update_def FakeForwarders_UpdateStatus_def FakeForwarders_Delete_def)

lemma snd_FakeForwarders_List:
  "snd (FakeForwarders_List c opts w) = snd (fk_Invokes (ff_Fake c)
     (ListAction forwardersResource forwardersKind (ff_ns c) opts) (FakeForwarderList (fk_ListMeta (ff_Fake c)) []) w)"
  by (simp add: FakeForwarders_List_def split_beta fake_worlds)

lemma fwd_fake_list: "fake_quiet tv F \<Longrightarrow> quiet tv (res_List (fwd_fake_resource L F q))"
  unfolding fwd_fake_resource_def Let_def resource.simps
  by (rule quiet_andThen) (auto simp: quiet_def fake_quiet_def snd_deref snd_FakeForwarders_List fake_Forwarders_def ret_def)

interpretation fwd_fake: fake_client forwardersResource FakeForwarder is_Forwarder fwd_Meta
  "fwd_fake_resource L" for L
  by unfold_locales
     (auto simp: fwd_fake_actions)

lemma fwd_fake_calls:
  assumes "fake_quiet tv F"
  shows "writes_quiet tv (fwd_fake_resource L F q)" "reads_quiet tv (fwd_fake_resource L F q)"
  using assms by (simp_all add: fwd_fake_actions reads_quiet_def writes_quiet_def fwd_fake_list quiet_fake)

lemma gw_fake_actions:
  "res_Get (gw_fake_resource L F q) n = deref (asserted is_Gateway (fk_Invokes F
     (GetAction gatewaysResource (nn_Namespace n) (nn_Name n)) (FakeGateway (zero_gateway L))))"
  "res_Create (gw_fake_resource L F q) x = deref (asserted is_Gateway (fk_Invokes F
     (CreateAction gatewaysResource (m_Namespace (gw_Meta x)) (FakeGateway x)) (FakeGateway (zero_gateway L))))"
  "res_Update (gw_fake_resource L F q) x = deref (asserted is_Gateway (fk_Invokes F
     (UpdateAction gatewaysResource (m_Namespace (gw_Meta x)) (FakeGateway x)) (FakeGateway (zero_gateway L))))"
  "res_StatusUpdate (gw_fake_resource L F q) x = deref (asserted is_Gateway (fk_Invokes F
     (UpdateSubresourceAction gatewaysResource ''status'' (m_Namespace (gw_Meta x)) (FakeGateway x))
     (FakeGateway (zero_gateway L))))"
  "res_Delete (gw_fake_resource L F q) x = deleted (error_of (fk_Invokes F
     (DeleteAction gatewaysResource (m_Namespace (gw_Meta x)) (m_Name (gw_Meta x))) (FakeGateway (zero_gateway L))))"
  by (simp_all add: gw_fake_resource_def Let_def fake_Gateways_def FakeGateways_Get_def FakeGateways_Create_def
      FakeGateways_Update_def FakeGateways_UpdateStatus_def FakeGateways_Delete_def)

lemma snd_FakeGateways_List:
  "snd (FakeGateways_List c opts w) = snd (fk_Invokes (fg_Fake c)
     (ListAction gatewaysResource gatewaysKind (fg_ns c) opts) (FakeGatewayList (fk_ListMeta (fg_Fake c)) []) w)"
  by (simp add: FakeGateways_List_def split_beta fake_worlds)

lemma gw_fake_list: "fake_quiet tv F \<Longrightarrow> quiet tv (res_List (gw_fake_resource L F q))"
  unfolding gw_fake_resource_def Let_def resource.simps
  by (rule quiet_andThen) (auto simp: quiet_def fake_quiet_def snd_deref snd_FakeGateways_List fake_Gateways_def ret_def)

interpretation gw_fake: fake_client gatewaysResource FakeGateway is_Gateway gw_Meta
  "gw_fake_resource L" for L
  by unfold_locales
     (auto simp: gw_fake_actions)

lemma gw_fake_calls:
  assumes "fake_quiet tv F"
  shows "writes_quiet tv (gw_fake_resource L F q)" "reads_quiet tv (gw_fake_resource L F q)"
  using assms by (simp_all add: gw_fake_actions reads_quiet_def writes_quiet_def gw_fake_list quiet_fake)

section \<open>An agent on a fake client\<close>

context sync_agent
begin

text \<open>A pass over a resource that is stored as it is: nothing is refused, one pass is enough.\<close>

lemma as_is_pass:
  assumes C: "conditions_laws L look" and R: "as_is v meta_of R"
    and quiet: "writes_quiet (tables_of p) R" "reads_quiet (tables_of p) R"
    and p: "laws p" "works p v" and x: "holds v p namespace name s x"
    and poss: "possible x" and due: "needSync L x"
  shows "\<exists>s' y. reconcile L p R namespace name s = (Inr (), s') \<and>
    holds v p namespace name s' y \<and> applied p x s' \<and> spec y = spec x \<and> meta_of y = meta_of x \<and>
    check_due (view look y) \<and> sv_rule (view look y) = sv_rule (view look x)"
proof -
  let ?k = "\<lparr>nn_Namespace = namespace, nn_Name = name\<rparr>"
  from x have mine: "mine (ag_own s) namespace name" and key: "meta_key (meta_of x) = ?k"
    and st: "v (ag_env s) ?k = Some x" and ok: "ok p s" by (simp_all add: holds_def)
  from R st obtain e where get: "res_Get R ?k (ag_env s) = (Inr x, e)" and ve: "v e = v (ag_env s)"
    unfolding as_is_def by blast
  have stores: "\<exists>e'. res_StatusUpdate R z e0 = (Inr z, e') \<and> v e' = (v e0)(?k \<mapsto> z)"
    if "meta_of z = meta_of x" and "v e0 ?k \<noteq> None" for z e0
    using R that key unfolding as_is_def by metis
  from setSyncing [OF C, of x R] obtain y where
    y: "view look y = mark_syncing (view look x)" "meta_of y = meta_of x" "spec y = spec x"
    and one: "setSyncing L R x = (if sv_syncing (view look x) = Some ConditionTrue then ret y
       else andThen (res_StatusUpdate R y) (\<lambda>_. ret y))" by blast
  have "\<exists>e1. setSyncing L R x e = (Inr y, e1) \<and> v e1 ?k \<noteq> None"
    using stores [OF y(2), of e] st ve by (auto simp: one io_eval)
  then obtain e1 where run1: "setSyncing L R x e = (Inr y, e1)" and v1: "v e1 ?k \<noteq> None" by blast
  from setSyncing_keeps(3) [OF C run1 quiet(1)] reads_quietD(1) [OF quiet(2) get]
  have ok1: "ok p (s\<lparr>ag_env := e1\<rparr>)" using ok by (simp add: env_ok)
  have "possible y" using spec_only(2) [OF y(3)] poss by simp
  from sync_live [OF p ok1 this] obtain s2 where mid: "syncRule p y (s\<lparr>ag_env := e1\<rparr>) = (Inr (), s2)" by auto
  from sync_safe [OF p(1) ok1 mid] have ap: "applied p y s2" "ok p s2" "mine (ag_own s2) = mine (ag_own s)"
    by simp_all
  have "env_view v s2 = env_view v (s\<lparr>ag_env := e1\<rparr>)" using sync_quiet [OF p(2)] mid by (rule quietD)
  then have v2: "v (ag_env s2) = v e1" by (simp add: env_view_def)
  have "sv_syncing (view look y) \<noteq> Some ConditionFalse" by (simp add: y mark_syncing_def)
  with setSynced [OF C, of y R] obtain y' where
    y': "view look y' = mark_synced (view look y)" "meta_of y' = meta_of y" "spec y' = spec y"
    and two: "setSynced L R y = andThen (res_StatusUpdate R y') (\<lambda>_. ret y')" by auto
  from stores [of y' "ag_env s2"] y' y v1 v2 obtain e3 where
    up: "res_StatusUpdate R y' (ag_env s2) = (Inr y', e3)" and v3: "v e3 ?k = Some y'" by auto
  have tv3: "tables_of p e3 = tables_of p (ag_env s2)" by (rule writes_quietD(3) [OF quiet(1) up])
  have "reconcile L p R namespace name s = (Inr (), s2\<lparr>ag_env := e3\<rparr>)"
    by (simp add: reconcile_mine [OF mine get] due io_eval onEnv_def run1 mid two up)
  moreover have "holds v p namespace name (s2\<lparr>ag_env := e3\<rparr>) y'"
    using mine ap v3 key by (simp add: holds_def env_ok [OF tv3] y y')
  moreover have "applied p x (s2\<lparr>ag_env := e3\<rparr>)"
    using ap(1) spec_only(1) [OF y(3)] by (simp add: env_applied [OF tv3])
  moreover have "sync_due (view look x)" using due by (simp add: needSync [OF C])
  then have "check_due (view look y')" and "sv_rule (view look y') = sv_rule (view look x)"
    by (auto simp: y y' sync_due_def check_due_def mark_syncing_def mark_synced_def)
  moreover have "spec y' = spec x" and "meta_of y' = meta_of x" by (simp_all add: y y')
  ultimately show ?thesis by blast
qed

end

text \<open>
  C37: The fake clients do not show what the API server refuses. Take a Forwarder that needs a
  sync, once in a tracker behind the fake client and once on a server with optimistic
  concurrency, and an agent in the same state at both. On the fake client one pass succeeds: the
  rules are applied, the tracked Forwarder is recorded as synced at its rule generation, and its
  resource version has not changed. On the server the pass applies the rules too, but it is
  refused with a conflict exactly when the Forwarder is not yet marked as syncing, and succeeds
  otherwise. So the conflict of a first pass never shows on the fake client.
\<close>

theorem fake_hides_conflict:
  assumes "conditions_laws L look" and "tracks F forwardersResource FakeForwarder fwd_Meta v"
    and "fake_quiet (h_tables h) F" and "host_laws h" and "host_works h v"
    and "fwd_agent.server_laws v' h' R"
    and "tunnels_ok (ag_f s) (ag_go s)" and "fwd_mine (ag_own s) namespace name" and "ag_own t = ag_own s"
    and "meta_key (fwd_Meta fwd) = \<lparr>nn_Namespace = namespace, nn_Name = name\<rparr>"
    and "v (ag_env s) \<lparr>nn_Namespace = namespace, nn_Name = name\<rparr> = Some fwd"
    and "v' (ag_env t) \<lparr>nn_Namespace = namespace, nn_Name = name\<rparr> = Some fwd"
    and "fwd_needSync L fwd"
  shows "(\<exists>s' stored.
      fwd_Reconcile L (h_ords h) (fwd_fake_resource L F q) (h_ipt h) namespace name s = (Inr (), s') \<and>
      fwd_applied (h_tables h) fwd s' \<and>
      v (ag_env s') \<lparr>nn_Namespace = namespace, nn_Name = name\<rparr> = Some stored \<and>
      fwd_Meta stored = fwd_Meta fwd \<and> fwd_Spec stored = fwd_Spec fwd \<and> fwd_needCheckSync L stored \<and>
      fwd_SyncGeneration (fwd_Status stored) = fwd_RuleGeneration (fwd_Status fwd)) \<and>
    (\<exists>t'. fwd_Reconcile L (h_ords h') R (h_ipt h') namespace name t =
        (if look (fwd_Conditions (fwd_Status fwd)) ConditionRuleSyncing = Some ConditionTrue
         then Inr () else Inl Conflict, t') \<and>
      fwd_applied (h_tables h') fwd t')"
proof
  have H: "fwd_agent.holds v h namespace name s fwd" using assms(7,8,10,11) by (simp add: fwd_agent.holds_def)
  from fwd_agent.as_is_pass [OF assms(1) fwd_fake.tracked [OF assms(2)] fwd_fake_calls [OF assms(3)]
      assms(4,5) H TrueI assms(13)] obtain s' y where
    "fwd_Reconcile L (h_ords h) (fwd_fake_resource L F q) (h_ipt h) namespace name s = (Inr (), s')"
    "fwd_agent.holds v h namespace name s' y" "fwd_applied (h_tables h) fwd s'"
    "fwd_Spec y = fwd_Spec fwd" "fwd_Meta y = fwd_Meta fwd"
    and "check_due (fwd_view look y)" "sv_rule (fwd_view look y) = sv_rule (fwd_view look fwd)" by blast
  moreover from this have "fwd_needCheckSync L y" by (simp add: fwd_sync.needCheckSync [OF assms(1)])
  moreover from calculation have "fwd_SyncGeneration (fwd_Status y) = fwd_RuleGeneration (fwd_Status fwd)"
    by (simp add: check_due_def fwd_view_def)
  ultimately show "\<exists>s' stored.
      fwd_Reconcile L (h_ords h) (fwd_fake_resource L F q) (h_ipt h) namespace name s = (Inr (), s') \<and>
      fwd_applied (h_tables h) fwd s' \<and>
      v (ag_env s') \<lparr>nn_Namespace = namespace, nn_Name = name\<rparr> = Some stored \<and>
      fwd_Meta stored = fwd_Meta fwd \<and> fwd_Spec stored = fwd_Spec fwd \<and> fwd_needCheckSync L stored \<and>
      fwd_SyncGeneration (fwd_Status stored) = fwd_RuleGeneration (fwd_Status fwd)"
    unfolding fwd_agent.holds_def by blast
next
  have H: "fwd_agent.holds v' h' namespace name t fwd"
    using assms(7-10,12) by (simp add: fwd_agent.holds_def)
  have marked: "sv_syncing (fwd_view look fwd) = look (fwd_Conditions (fwd_Status fwd)) ConditionRuleSyncing"
    by (simp add: fwd_view_def)
  show "\<exists>t'. fwd_Reconcile L (h_ords h') R (h_ipt h') namespace name t =
        (if look (fwd_Conditions (fwd_Status fwd)) ConditionRuleSyncing = Some ConditionTrue
         then Inr () else Inl Conflict, t') \<and> fwd_applied (h_tables h') fwd t'"
  proof (cases "look (fwd_Conditions (fwd_Status fwd)) ConditionRuleSyncing = Some ConditionTrue")
    case True
    with fwd_agent.pass_finishes [OF assms(1,6) H TrueI assms(13)] show ?thesis by (auto simp: marked)
  next
    case False
    with fwd_agent.pass_marks [OF assms(1,6) H TrueI assms(13)] show ?thesis by (auto simp: marked)
  qed
qed

section \<open>A run\<close>

text \<open>A tracker of Forwarders in the environment of the agents' runs.\<close>

definition env_fake :: "(env, test_conds, unit, unit, unit, unit) fake" where
  "env_fake =
     \<lparr>fk_Invokes = (\<lambda>a d w. case a of
          GetAction res ns n \<Rightarrow>
            (case map_of (env_fwds w) \<lparr>nn_Namespace = ns, nn_Name = n\<rparr> of
               None \<Rightarrow> (None, Some NotFound) | Some x \<Rightarrow> (Some (FakeForwarder x), None), w)
        | UpdateAction res ns (FakeForwarder x) \<Rightarrow>
            (if map_of (env_fwds w) (meta_key (fwd_Meta x)) = None then ((None, Some NotFound), w)
             else ((Some (FakeForwarder x), None), w\<lparr>env_fwds := AList.update (meta_key (fwd_Meta x)) x (env_fwds w)\<rparr>))
        | UpdateSubresourceAction res sub ns (FakeForwarder x) \<Rightarrow>
            (if map_of (env_fwds w) (meta_key (fwd_Meta x)) = None then ((None, Some NotFound), w)
             else ((Some (FakeForwarder x), None), w\<lparr>env_fwds := AList.update (meta_key (fwd_Meta x)) x (env_fwds w)\<rparr>))
        | _ \<Rightarrow> ((None, Some NotFound), w)),
      fk_InvokesWatch = (\<lambda>_ w. ((None, None), w)), fk_ExtractFromListOptions = (\<lambda>_. None),
      fk_Everything = (), fk_Matches = (\<lambda>_ _. True), fk_ListMeta = ()\<rparr>"

lemma env_fake_tracks: "tracks env_fake forwardersResource FakeForwarder fwd_Meta fwd_view_of"
  by (auto simp: tracks_def env_fake_def update_conv')

lemma env_fake_quiet: "fake_quiet env_tv env_fake"
  by (auto simp: fake_quiet_def env_fake_def env_tv_def split: action.split fake_object.split)

theorem fake_hides_conflict_witness:
  "(\<exists>s'. fwd_Reconcile map_libs (\<lambda>_. rev) (fwd_fake_resource map_libs env_fake ()) env_ipt
      ''external-services'' ''es1'' fwd0 = (Inr (), s') \<and> fwd_applied env_tv published_forwarder s') \<and>
   (\<exists>t'. fwd_Reconcile map_libs (\<lambda>_. rev) fwdR env_ipt ''external-services'' ''es1'' fwd0 = (Inl Conflict, t'))"
proof -
  have "fake_quiet (h_tables fwd_host) env_fake" by (simp add: env_fake_quiet)
  from fake_hides_conflict [OF map_libs_laws env_fake_tracks this hosts_ok(1,2) env_servers(1) fwd0_ok HOL.refl
      published_due(3) fwd0_stored fwd0_stored published_due(1), of "()"]
  show ?thesis by (auto simp: published_forwarder_def)
qed

end
