(* ===== verification/FakeSet.thy ===== *)
theory FakeSet
  imports FakeClients
begin

text \<open>
  The fake clientset (\<^verbatim>\<open>versioned/fake/clientset_generated.go\<close>): a tracker of the given
  objects, and a fake whose reactors answer from it. The tracker, the fake and its chain of
  reactors are client-go's \<^verbatim>\<open>testing\<close> package, the record \<open>testing_lib\<close>; a tracker \<open>'t\<close>
  is a pointer into the world, \<open>'f\<close> is a \<^verbatim>\<open>testing.Fake\<close>. The objects are those of the
  API group's types.
\<close>

section \<open>The code\<close>

text \<open>A reactor says whether it handled the action, and answers an object and an error.\<close>

type_synonym ('w, 'c, 'm, 'q) reaction =
  "('c, 'm, 'q) action \<Rightarrow> 'w \<Rightarrow> (bool \<times> ('c, 'm) fake_object option \<times> go_error option) \<times> 'w"

type_synonym ('w, 'c, 'm, 'q, 'i) watch_reaction =
  "('c, 'm, 'q) action \<Rightarrow> 'w \<Rightarrow> (bool \<times> 'i option \<times> go_error option) \<times> 'w"

record ('w, 'c, 'm, 'q, 'i, 'l, 'sch, 'cod, 'dec, 't, 'f) testing_lib =
  tl_UniversalDecoder :: "'cod \<Rightarrow> 'dec"
  tl_NewObjectTracker :: "'sch \<Rightarrow> 'dec \<Rightarrow> 'w \<Rightarrow> 't \<times> 'w"
  tl_Add :: "'t \<Rightarrow> ('c, 'm) fake_object \<Rightarrow> ('w, unit) io"
  tl_ObjectReaction :: "'t \<Rightarrow> ('w, 'c, 'm, 'q) reaction"
  tl_Watch :: "'t \<Rightarrow> group_version_resource \<Rightarrow> string \<Rightarrow> ('w, 'i option) goret"
  tl_Fake :: 'f
  tl_AddReactor :: "string \<Rightarrow> string \<Rightarrow> ('w, 'c, 'm, 'q) reaction \<Rightarrow> 'f \<Rightarrow> 'f"
  tl_AddWatchReactor :: "string \<Rightarrow> ('w, 'c, 'm, 'q, 'i) watch_reaction \<Rightarrow> 'f \<Rightarrow> 'f"
  tl_Invokes :: "'f \<Rightarrow> ('c, 'm, 'q) action \<Rightarrow> ('c, 'm) fake_object
     \<Rightarrow> 'w \<Rightarrow> (('c, 'm) fake_object option \<times> go_error option) \<times> 'w"
  tl_InvokesWatch :: "'f \<Rightarrow> ('c, 'm, 'q) action \<Rightarrow> ('w, 'i option) goret"
  tl_ExtractFromListOptions :: "'q list_options \<Rightarrow> 'l option"
  tl_Everything :: 'l
  tl_Matches :: "'l \<Rightarrow> string gomap \<Rightarrow> bool"
  tl_ListMeta :: 'm

fun GetResource :: "('c, 'm, 'q) action \<Rightarrow> group_version_resource" where
  "GetResource (GetAction r _ _) = r"
| "GetResource (ListAction r _ _ _) = r"
| "GetResource (WatchAction r _ _) = r"
| "GetResource (CreateAction r _ _) = r"
| "GetResource (UpdateAction r _ _) = r"
| "GetResource (UpdateSubresourceAction r _ _ _) = r"
| "GetResource (DeleteAction r _ _) = r"
| "GetResource (DeleteCollectionAction r _ _) = r"
| "GetResource (PatchSubresourceAction r _ _ _ _ _) = r"

fun GetNamespace :: "('c, 'm, 'q) action \<Rightarrow> string" where
  "GetNamespace (GetAction _ ns _) = ns"
| "GetNamespace (ListAction _ _ ns _) = ns"
| "GetNamespace (WatchAction _ ns _) = ns"
| "GetNamespace (CreateAction _ ns _) = ns"
| "GetNamespace (UpdateAction _ ns _) = ns"
| "GetNamespace (UpdateSubresourceAction _ _ ns _) = ns"
| "GetNamespace (DeleteAction _ ns _) = ns"
| "GetNamespace (DeleteCollectionAction _ ns _) = ns"
| "GetNamespace (PatchSubresourceAction _ ns _ _ _ _) = ns"

text \<open>The discovery client holds a pointer to the embedded fake and nothing else.\<close>

record ('t, 'f) fake_clientset =
  fcs_Fake :: 'f
  fcs_tracker :: 't

definition watchReaction ::
  "('w, 'c, 'm, 'q, 'i, 'l, 'sch, 'cod, 'dec, 't, 'f) testing_lib \<Rightarrow> 't \<Rightarrow> ('w, 'c, 'm, 'q, 'i) watch_reaction" where
  "watchReaction T ot action w =
     (let gvr = GetResource action;
          ns = GetNamespace action;
          ((watch, err), w) = tl_Watch T ot gvr ns w
      in case err of
           Some err \<Rightarrow> ((False, None, Some err), w)
         | None \<Rightarrow> ((True, watch, None), w))"

definition NewSimpleClientset ::
  "('w, 'c, 'm, 'q, 'i, 'l, 'sch, 'cod, 'dec, 't, 'f) testing_lib \<Rightarrow> ('sch, 'cod, 'pc) scheme_vars
     \<Rightarrow> ('c, 'm) fake_object list \<Rightarrow> ('w, ('t, 'f) fake_clientset) io" where
  "NewSimpleClientset T pkg objects w =
     (let (ot, w) = tl_NewObjectTracker T (pkg_Scheme pkg) (tl_UniversalDecoder T (pkg_Codecs pkg)) w
      in case foldE (\<lambda>obj _. tl_Add T ot obj) objects () w of
           (Inl err, w) \<Rightarrow> (Inl GoPanic, w)
         | (Inr _, w) \<Rightarrow>
             (let cs = \<lparr>fcs_Fake = tl_Fake T, fcs_tracker = ot\<rparr>;
                  cs = cs\<lparr>fcs_Fake := tl_AddReactor T ''*'' ''*'' (tl_ObjectReaction T ot) (fcs_Fake cs)\<rparr>;
                  cs = cs\<lparr>fcs_Fake := tl_AddWatchReactor T ''*'' (watchReaction T ot) (fcs_Fake cs)\<rparr>
              in (Inr cs, w)))"

definition fake_Discovery :: "('t, 'f) fake_clientset \<Rightarrow> 'f" where
  "fake_Discovery c = fcs_Fake c"

definition fake_Tracker :: "('t, 'f) fake_clientset \<Rightarrow> 't" where
  "fake_Tracker c = fcs_tracker c"

definition fake_SubmarinerV1alpha1 ::
  "('w, 'c, 'm, 'q, 'i, 'l, 'sch, 'cod, 'dec, 't, 'f) testing_lib \<Rightarrow> ('t, 'f) fake_clientset
     \<Rightarrow> ('w, 'c, 'm, 'q, 'i, 'l) fake" where
  "fake_SubmarinerV1alpha1 T c =
     \<lparr>fk_Invokes = tl_Invokes T (fcs_Fake c), fk_InvokesWatch = tl_InvokesWatch T (fcs_Fake c),
      fk_ExtractFromListOptions = tl_ExtractFromListOptions T, fk_Everything = tl_Everything T,
      fk_Matches = tl_Matches T, fk_ListMeta = tl_ListMeta T\<rparr>"

text \<open>\<^verbatim>\<open>var ret *rest.RESTClient; return ret\<close>: a nil pointer.\<close>

definition fake_RESTClient :: "('w, 'c, 'm, 'q, 'i, 'l) fake \<Rightarrow> 'rest option" where
  "fake_RESTClient c = (let ret = None in ret)"

section \<open>The library\<close>

text \<open>What a tracker answers: the contents \<open>v\<close> of one resource are read and replaced as they are.\<close>

definition reaction_tracks ::
  "('w, 'c, 'm, 'q) reaction \<Rightarrow> group_version_resource \<Rightarrow> ('o \<Rightarrow> ('c, 'm) fake_object)
     \<Rightarrow> ('o \<Rightarrow> object_meta) \<Rightarrow> ('w \<Rightarrow> nsname \<rightharpoonup> 'o) \<Rightarrow> bool" where
  "reaction_tracks re res obj meta_of v \<longleftrightarrow>
     (\<forall>n w. \<exists>w'. v w' = v w \<and>
        re (GetAction res (nn_Namespace n) (nn_Name n)) w =
          ((True, case v w n of None \<Rightarrow> (None, Some NotFound) | Some x \<Rightarrow> (Some (obj x), None)), w')) \<and>
     (\<forall>a x w.
        a = UpdateAction res (m_Namespace (meta_of x)) (obj x) \<or>
        a = UpdateSubresourceAction res ''status'' (m_Namespace (meta_of x)) (obj x) \<longrightarrow>
        (\<exists>w'. if v w (meta_key (meta_of x)) = None
              then re a w = ((True, None, Some NotFound), w') \<and> v w' = v w
              else re a w = ((True, Some (obj x), None), w') \<and> v w' = (v w)(meta_key (meta_of x) \<mapsto> x)))"

fun forwarders_of :: "('c, 'm) fake_object \<Rightarrow> 'c forwarder list" where
  "forwarders_of (FakeForwarder x) = [x]"
| "forwarders_of (FakeForwarderList m xs) = xs"
| "forwarders_of _ = []"

fun gateways_of :: "('c, 'm) fake_object \<Rightarrow> 'c gateway list" where
  "gateways_of (FakeGateway x) = [x]"
| "gateways_of (FakeGatewayList m xs) = xs"
| "gateways_of _ = []"

definition stored :: "('o \<Rightarrow> object_meta) \<Rightarrow> 'o list \<Rightarrow> (nsname \<rightharpoonup> 'o) \<Rightarrow> nsname \<rightharpoonup> 'o" where
  "stored meta_of xs m = fold (\<lambda>x m. m(meta_key (meta_of x) \<mapsto> x)) xs m"

text \<open>
  \<open>fwds t\<close> and \<open>gws t\<close> are what the tracker \<open>t\<close> holds (\<open>v\<close> sees all of it), \<open>reactors f\<close> and \<open>watchers f\<close> the chains of
  a fake. A new tracker is empty, and an object that could be added is there, in place of an
  older one with its key. A fake answers what the first reactor of its chain handles; that
  changes no tracker any further.
\<close>

definition tracker_laws ::
  "('w, 'c, 'm, 'q, 'i, 'l, 'sch, 'cod, 'dec, 't, 'f) testing_lib
     \<Rightarrow> ('t \<Rightarrow> 'w \<Rightarrow> nsname \<rightharpoonup> 'c forwarder) \<Rightarrow> ('t \<Rightarrow> 'w \<Rightarrow> nsname \<rightharpoonup> 'c gateway) \<Rightarrow> bool" where
  "tracker_laws T fwds gws \<longleftrightarrow>
     (\<forall>s d w t w'. tl_NewObjectTracker T s d w = (t, w') \<longrightarrow> fwds t w' = Map.empty \<and> gws t w' = Map.empty) \<and>
     (\<forall>t obj w w'. tl_Add T t obj w = (Inr (), w') \<longrightarrow>
        fwds t w' = stored fwd_Meta (forwarders_of obj) (fwds t w) \<and>
        gws t w' = stored gw_Meta (gateways_of obj) (gws t w)) \<and>
     (\<forall>t. reaction_tracks (tl_ObjectReaction T t) forwardersResource FakeForwarder fwd_Meta (fwds t)) \<and>
     (\<forall>t. reaction_tracks (tl_ObjectReaction T t) gatewaysResource FakeGateway gw_Meta (gws t))"

definition reactor_laws ::
  "('w, 'c, 'm, 'q, 'i, 'l, 'sch, 'cod, 'dec, 't, 'f) testing_lib
     \<Rightarrow> ('w \<Rightarrow> 'v) \<Rightarrow> ('f \<Rightarrow> (string \<times> string \<times> ('w, 'c, 'm, 'q) reaction) list)
     \<Rightarrow> ('f \<Rightarrow> (string \<times> ('w, 'c, 'm, 'q, 'i) watch_reaction) list) \<Rightarrow> bool" where
  "reactor_laws T v reactors watchers \<longleftrightarrow>
     reactors (tl_Fake T) = [] \<and> watchers (tl_Fake T) = [] \<and>
     (\<forall>verb r re f. reactors (tl_AddReactor T verb r re f) = reactors f @ [(verb, r, re)] \<and>
        watchers (tl_AddReactor T verb r re f) = watchers f) \<and>
     (\<forall>r re f. watchers (tl_AddWatchReactor T r re f) = watchers f @ [(r, re)] \<and>
        reactors (tl_AddWatchReactor T r re f) = reactors f) \<and>
     (\<forall>f re rs a d w r w'. reactors f = (''*'', ''*'', re) # rs \<longrightarrow> re a w = (r, w') \<longrightarrow> fst r \<longrightarrow>
        (\<exists>w''. tl_Invokes T f a d w = (snd r, w'') \<and> v w'' = v w')) \<and>
     (\<forall>f re rs a w r w'. watchers f = (''*'', re) # rs \<longrightarrow> re a w = (r, w') \<longrightarrow> fst r \<longrightarrow>
        (\<exists>w''. tl_InvokesWatch T f a w = (snd r, w'')))"

lemma tracker_lawsD:
  assumes "tracker_laws T fwds gws"
  shows "tl_NewObjectTracker T s d w = (t, w') \<Longrightarrow> fwds t w' = Map.empty \<and> gws t w' = Map.empty"
    and "tl_Add T t obj w = (Inr (), w') \<Longrightarrow> fwds t w' = stored fwd_Meta (forwarders_of obj) (fwds t w) \<and>
      gws t w' = stored gw_Meta (gateways_of obj) (gws t w)"
    and "reaction_tracks (tl_ObjectReaction T t) forwardersResource FakeForwarder fwd_Meta (fwds t)"
    and "reaction_tracks (tl_ObjectReaction T t) gatewaysResource FakeGateway gw_Meta (gws t)"
  using assms unfolding tracker_laws_def by blast+

lemma reactor_lawsD:
  assumes "reactor_laws T v reactors watchers"
    and f: "f = tl_AddWatchReactor T ''*'' wre (tl_AddReactor T ''*'' ''*'' re (tl_Fake T))"
  shows "re a w = (r, w') \<Longrightarrow> fst r \<Longrightarrow> \<exists>w''. tl_Invokes T f a d w = (snd r, w'') \<and> v w'' = v w'"
    and "wre a w = (s, w') \<Longrightarrow> fst s \<Longrightarrow> \<exists>w''. tl_InvokesWatch T f a w = (snd s, w'')"
proof -
  have "reactors f = [(''*'', ''*'', re)]" "watchers f = [(''*'', wre)]"
    using assms(1) by (simp_all add: f reactor_laws_def)
  then show "re a w = (r, w') \<Longrightarrow> fst r \<Longrightarrow> \<exists>w''. tl_Invokes T f a d w = (snd r, w'') \<and> v w'' = v w'"
    "wre a w = (s, w') \<Longrightarrow> fst s \<Longrightarrow> \<exists>w''. tl_InvokesWatch T f a w = (snd s, w'')"
    using assms(1) unfolding reactor_laws_def by blast+
qed

section \<open>What the fake clientset holds\<close>

lemma stored_simps [simp]:
  "stored meta_of [] m = m"
  "stored meta_of (xs @ ys) m = stored meta_of ys (stored meta_of xs m)"
  by (simp_all add: stored_def)

text \<open>The last object of a key is the one that is stored.\<close>

lemma stored_last:
  assumes "k = meta_key (meta_of x)" and "\<forall>y \<in> set post. meta_key (meta_of y) \<noteq> k"
  shows "stored meta_of (pre @ x # post) m k = Some x"
proof -
  have "stored meta_of post m' k = m' k" for m'
    using assms(2) by (induction post arbitrary: m') (auto simp: stored_def)
  then show ?thesis by (simp add: assms(1)) (simp add: stored_def)
qed

lemma add_all:
  assumes laws: "tracker_laws T fwds gws"
    and run: "foldE (\<lambda>obj _. tl_Add T t obj) objects () w = (Inr (), w')"
  shows "fwds t w' = stored fwd_Meta (concat (map forwarders_of objects)) (fwds t w) \<and>
    gws t w' = stored gw_Meta (concat (map gateways_of objects)) (gws t w)"
  using run
proof (induction objects arbitrary: w)
  case (Cons obj objects)
  from Cons.prems obtain w1 where one: "tl_Add T t obj w = (Inr (), w1)"
    and rest: "foldE (\<lambda>obj _. tl_Add T t obj) objects () w1 = (Inr (), w')" by (auto simp: run_Inr)
  from Cons.IH [OF rest] tracker_lawsD(2) [OF laws one] show ?case by simp
qed (simp add: ret_def)

text \<open>A reaction in front of the chain decides what the fake tracks.\<close>

lemma reaction_fake:
  fixes F :: "('w, 'c, 'm, 'q, 'i, 'l) fake"
  assumes re: "reaction_tracks re res obj meta_of v"
    and F: "\<And>a d w r w'. re a w = (r, w') \<Longrightarrow> fst r \<Longrightarrow> \<exists>w''. fk_Invokes F a d w = (snd r, w'') \<and> v w'' = v w'"
  shows "tracks F res obj meta_of v"
  unfolding tracks_def
proof (intro conjI allI impI)
  fix n d w
  from re obtain w' where "v w' = v w"
    "re (GetAction res (nn_Namespace n) (nn_Name n)) w =
       ((True, case v w n of None \<Rightarrow> (None, Some NotFound) | Some x \<Rightarrow> (Some (obj x), None)), w')"
    unfolding reaction_tracks_def by blast
  with F [OF this(2), of d] show "\<exists>w'. v w' = v w \<and> fk_Invokes F (GetAction res (nn_Namespace n) (nn_Name n)) d w =
      (case v w n of None \<Rightarrow> (None, Some NotFound) | Some x \<Rightarrow> (Some (obj x), None), w')"
    by auto
next
  fix a :: "('c, 'm, 'q) action" and x d w
  assume "a = UpdateAction res (m_Namespace (meta_of x)) (obj x) \<or>
    a = UpdateSubresourceAction res ''status'' (m_Namespace (meta_of x)) (obj x)"
  with re obtain w' where w': "if v w (meta_key (meta_of x)) = None
      then re a w = ((True, None, Some NotFound), w') \<and> v w' = v w
      else re a w = ((True, Some (obj x), None), w') \<and> v w' = (v w)(meta_key (meta_of x) \<mapsto> x)"
    unfolding reaction_tracks_def by blast
  from F [of a w "fst (re a w)" "snd (re a w)" d] w'
  show "\<exists>w'. if v w (meta_key (meta_of x)) = None
      then fk_Invokes F a d w = ((None, Some NotFound), w') \<and> v w' = v w
      else fk_Invokes F a d w = ((Some (obj x), None), w') \<and> v w' = (v w)(meta_key (meta_of x) \<mapsto> x)"
    by (cases "v w (meta_key (meta_of x)) = None") auto
qed

lemma NewSimpleClientset_cases:
  assumes "NewSimpleClientset T pkg objects w = (r, w')"
  obtains (panic) t w1 err where
    "tl_NewObjectTracker T (pkg_Scheme pkg) (tl_UniversalDecoder T (pkg_Codecs pkg)) w = (t, w1)"
    "foldE (\<lambda>obj _. tl_Add T t obj) objects () w1 = (Inl err, w')" "r = Inl GoPanic"
  | (made) t w1 where
    "tl_NewObjectTracker T (pkg_Scheme pkg) (tl_UniversalDecoder T (pkg_Codecs pkg)) w = (t, w1)"
    "foldE (\<lambda>obj _. tl_Add T t obj) objects () w1 = (Inr (), w')"
    "r = Inr \<lparr>fcs_Fake = tl_AddWatchReactor T ''*'' (watchReaction T t)
       (tl_AddReactor T ''*'' ''*'' (tl_ObjectReaction T t) (tl_Fake T)), fcs_tracker = t\<rparr>"
proof -
  obtain t w1 where new: "tl_NewObjectTracker T (pkg_Scheme pkg) (tl_UniversalDecoder T (pkg_Codecs pkg)) w = (t, w1)"
    by fastforce
  obtain q w2 where adds: "foldE (\<lambda>obj _. tl_Add T t obj) objects () w1 = (q, w2)" by fastforce
  show ?thesis
  proof (cases q)
    case (Inl err)
    with assms new adds show ?thesis by (intro panic [of t w1 err]) (simp_all add: NewSimpleClientset_def)
  next
    case (Inr u)
    with assms new adds show ?thesis by (intro made [of t w1]) (simp_all add: NewSimpleClientset_def)
  qed
qed

text \<open>
  C39: The fake clientset gives back what it was made of. \<^verbatim>\<open>NewSimpleClientset\<close> panics
  exactly when the tracker refuses one of the objects. Otherwise its clients process objects as
  they are on the tracker; a Get finds each given Forwarder and each given Gateway unless a
  later one has the same key; and a watch is that of the tracker on the same resource and
  namespace.
\<close>

theorem fake_clientset_holds:
  assumes "tracker_laws T fwds gws" and "reactor_laws T (\<lambda>w t. (fwds t w, gws t w)) reactors watchers"
    and "NewSimpleClientset T pkg objects w = (r, w')"
  shows "(\<forall>e. r = Inl e \<longrightarrow> e = GoPanic \<and>
      (\<exists>t obj w1 w2 err. obj \<in> set objects \<and> tl_Add T t obj w1 = (Inl err, w2))) \<and>
    (\<forall>cs. r = Inr cs \<longrightarrow>
      tracks (fake_SubmarinerV1alpha1 T cs) forwardersResource FakeForwarder fwd_Meta (fwds (fake_Tracker cs)) \<and>
      tracks (fake_SubmarinerV1alpha1 T cs) gatewaysResource FakeGateway gw_Meta (gws (fake_Tracker cs)) \<and>
      (\<forall>pre x post. concat (map forwarders_of objects) = pre @ x # post \<and>
         (\<forall>y \<in> set post. meta_key (fwd_Meta y) \<noteq> meta_key (fwd_Meta x)) \<longrightarrow>
         (\<exists>w2. res_Get (fwd_fake_resource L (fake_SubmarinerV1alpha1 T cs) q) (meta_key (fwd_Meta x)) w' = (Inr x, w2))) \<and>
      (\<forall>pre x post. concat (map gateways_of objects) = pre @ x # post \<and>
         (\<forall>y \<in> set post. meta_key (gw_Meta y) \<noteq> meta_key (gw_Meta x)) \<longrightarrow>
         (\<exists>w2. res_Get (gw_fake_resource L (fake_SubmarinerV1alpha1 T cs) q) (meta_key (gw_Meta x)) w' = (Inr x, w2))) \<and>
      (\<forall>ns opts w1 i w2. tl_Watch T (fake_Tracker cs) forwardersResource ns w1 = ((i, None), w2) \<longrightarrow>
         (\<exists>w3. FakeForwarders_Watch (fake_Forwarders (fake_SubmarinerV1alpha1 T cs) ns) opts w1 = ((i, None), w3))))"
  using assms(3)
proof (cases rule: NewSimpleClientset_cases)
  case (panic t w1 err)
  have "\<exists>obj \<in> set objects. \<exists>w1 w2 err. tl_Add T t obj w1 = (Inl err, w2)"
    if "foldE (\<lambda>obj _. tl_Add T t obj) objects () w = (Inl err, w')" for w
    using that
  proof (induction objects arbitrary: w)
    case (Cons obj objects)
    then show ?case
      by (cases "tl_Add T t obj w"; cases "fst (tl_Add T t obj w)") (auto simp: andThen_def)
  qed (simp add: ret_def)
  from this [OF panic(2)] panic(3) show ?thesis by (simp, blast)
next
  case (made t w1)
  let ?f = "tl_AddWatchReactor T ''*'' (watchReaction T t) (tl_AddReactor T ''*'' ''*'' (tl_ObjectReaction T t) (tl_Fake T))"
  let ?cs = "\<lparr>fcs_Fake = ?f, fcs_tracker = t\<rparr>"
  let ?F = "fake_SubmarinerV1alpha1 T ?cs"
  note first = reactor_lawsD [OF assms(2) HOL.refl, where re = "tl_ObjectReaction T t" and wre = "watchReaction T t"]
  have F: "\<exists>w''. fk_Invokes ?F a d w = (snd r, w'') \<and> fwds t w'' = fwds t w' \<and> gws t w'' = gws t w'"
    if "tl_ObjectReaction T t a w = (r, w')" "fst r" for a d w r w'
    using first(1) [OF that, of d] by (auto simp: fake_SubmarinerV1alpha1_def fun_eq_iff)
  have tf: "tracks ?F forwardersResource FakeForwarder fwd_Meta (fwds t)"
    by (rule reaction_fake [OF tracker_lawsD(3) [OF assms(1)]]) (use F in blast)
  have tg: "tracks ?F gatewaysResource FakeGateway gw_Meta (gws t)"
    by (rule reaction_fake [OF tracker_lawsD(4) [OF assms(1)]]) (use F in blast)
  from tracker_lawsD(1) [OF assms(1) made(1)] add_all [OF assms(1) made(2)]
  have held: "fwds t w' = stored fwd_Meta (concat (map forwarders_of objects)) Map.empty"
    "gws t w' = stored gw_Meta (concat (map gateways_of objects)) Map.empty" by simp_all
  have "\<exists>w2. res_Get (fwd_fake_resource L ?F q) (meta_key (fwd_Meta x)) w' = (Inr x, w2)"
    if "concat (map forwarders_of objects) = pre @ x # post"
      "\<forall>y \<in> set post. meta_key (fwd_Meta y) \<noteq> meta_key (fwd_Meta x)" for pre x post
    using fwd_fake.tracked [OF tf, of L q] stored_last [OF HOL.refl that(2)] held(1) that(1)
    unfolding as_is_def by metis
  moreover have "\<exists>w2. res_Get (gw_fake_resource L ?F q) (meta_key (gw_Meta x)) w' = (Inr x, w2)"
    if "concat (map gateways_of objects) = pre @ x # post"
      "\<forall>y \<in> set post. meta_key (gw_Meta y) \<noteq> meta_key (gw_Meta x)" for pre x post
    using gw_fake.tracked [OF tg, of L q] stored_last [OF HOL.refl that(2)] held(2) that(1)
    unfolding as_is_def by metis
  moreover have "\<exists>w3. FakeForwarders_Watch (fake_Forwarders ?F ns) opts w1 = ((i, None), w3)"
    if "tl_Watch T t forwardersResource ns w1 = ((i, None), w2)" for ns opts w1 i w2
    using first(2) [of "WatchAction forwardersResource ns opts" w1 "(True, i, None)" w2] that
    by (simp add: watchReaction_def FakeForwarders_Watch_def fake_Forwarders_def fake_SubmarinerV1alpha1_def)
  ultimately show ?thesis using made(3) tf tg by (simp add: fake_Tracker_def) blast
qed

section \<open>A run\<close>

text \<open>One tracker, in the environment of the agents' runs; the chains of a fake are lists.\<close>

fun env_add :: "(test_conds, unit) fake_object \<Rightarrow> (env, unit) io" where
  "env_add (FakeForwarder x) w = (Inr (), w\<lparr>env_fwds := (meta_key (fwd_Meta x), x) # env_fwds w\<rparr>)"
| "env_add (FakeGateway x) w = (Inr (), w\<lparr>env_gws := (meta_key (gw_Meta x), x) # env_gws w\<rparr>)"
| "env_add _ w = (Inl Conflict, w)"

fun env_reaction :: "(env, test_conds, unit, unit) reaction" where
  "env_reaction (GetAction r ns n) w =
     (if r = forwardersResource
      then ((True, case map_of (env_fwds w) \<lparr>nn_Namespace = ns, nn_Name = n\<rparr> of
               None \<Rightarrow> (None, Some NotFound) | Some x \<Rightarrow> (Some (FakeForwarder x), None)), w)
      else ((True, case map_of (env_gws w) \<lparr>nn_Namespace = ns, nn_Name = n\<rparr> of
               None \<Rightarrow> (None, Some NotFound) | Some x \<Rightarrow> (Some (FakeGateway x), None)), w))"
| "env_reaction (UpdateAction r ns (FakeForwarder x)) w =
     (if map_of (env_fwds w) (meta_key (fwd_Meta x)) = None then ((True, None, Some NotFound), w)
      else ((True, Some (FakeForwarder x), None), w\<lparr>env_fwds := (meta_key (fwd_Meta x), x) # env_fwds w\<rparr>))"
| "env_reaction (UpdateSubresourceAction r sub ns (FakeForwarder x)) w =
     (if map_of (env_fwds w) (meta_key (fwd_Meta x)) = None then ((True, None, Some NotFound), w)
      else ((True, Some (FakeForwarder x), None), w\<lparr>env_fwds := (meta_key (fwd_Meta x), x) # env_fwds w\<rparr>))"
| "env_reaction (UpdateAction r ns (FakeGateway x)) w =
     (if map_of (env_gws w) (meta_key (gw_Meta x)) = None then ((True, None, Some NotFound), w)
      else ((True, Some (FakeGateway x), None), w\<lparr>env_gws := (meta_key (gw_Meta x), x) # env_gws w\<rparr>))"
| "env_reaction (UpdateSubresourceAction r sub ns (FakeGateway x)) w =
     (if map_of (env_gws w) (meta_key (gw_Meta x)) = None then ((True, None, Some NotFound), w)
      else ((True, Some (FakeGateway x), None), w\<lparr>env_gws := (meta_key (gw_Meta x), x) # env_gws w\<rparr>))"
| "env_reaction _ w = ((False, None, None), w)"

type_synonym env_chains =
  "(string \<times> string \<times> (env, test_conds, unit, unit) reaction) list \<times>
   (string \<times> (env, test_conds, unit, unit, nat) watch_reaction) list"

definition env_testing ::
  "(env, test_conds, unit, unit, nat, unit, nat, nat, nat, unit, env_chains) testing_lib" where
  "env_testing =
     \<lparr>tl_UniversalDecoder = id, tl_NewObjectTracker = (\<lambda>_ _ w. ((), w\<lparr>env_fwds := [], env_gws := []\<rparr>)),
      tl_Add = (\<lambda>_. env_add), tl_ObjectReaction = (\<lambda>_. env_reaction),
      tl_Watch = (\<lambda>_ _ _ w. ((Some 1, None), w)), tl_Fake = ([], []),
      tl_AddReactor = (\<lambda>v r re (rs, ws). (rs @ [(v, r, re)], ws)),
      tl_AddWatchReactor = (\<lambda>r re (rs, ws). (rs, ws @ [(r, re)])),
      tl_Invokes = (\<lambda>(rs, ws) a d w. case rs of
          (_, _, re) # _ \<Rightarrow> (let (r, w) = re a w in (snd r, w)) | [] \<Rightarrow> ((Some d, None), w)),
      tl_InvokesWatch = (\<lambda>(rs, ws) a w. case ws of
          (_, re) # _ \<Rightarrow> (let (r, w) = re a w in (snd r, w)) | [] \<Rightarrow> ((None, Some NotFound), w)),
      tl_ExtractFromListOptions = (\<lambda>_. None), tl_Everything = (), tl_Matches = (\<lambda>_ _. True), tl_ListMeta = ()\<rparr>"

lemma env_add_stores:
  "env_add obj w = (Inr (), w') \<Longrightarrow>
     map_of (env_fwds w') = stored fwd_Meta (forwarders_of obj) (map_of (env_fwds w)) \<and>
     map_of (env_gws w') = stored gw_Meta (gateways_of obj) (map_of (env_gws w))"
  by (cases obj) (auto simp: stored_def)

lemma env_testing_laws:
  "tracker_laws env_testing (\<lambda>_. fwd_view_of) (\<lambda>_. gw_view_of)"
  "reactor_laws env_testing (\<lambda>w (t :: unit). (fwd_view_of w, gw_view_of w)) fst snd"
proof -
  have "forwardersResource \<noteq> gatewaysResource" by (simp add: forwardersResource_def gatewaysResource_def)
  then show "tracker_laws env_testing (\<lambda>_. fwd_view_of) (\<lambda>_. gw_view_of)"
    using env_add_stores
    by (auto simp: tracker_laws_def env_testing_def reaction_tracks_def)
  show "reactor_laws env_testing (\<lambda>w (t :: unit). (fwd_view_of w, gw_view_of w)) fst snd"
    by (simp add: reactor_laws_def env_testing_def split_beta)
qed

theorem fake_clientset_holds_witness:
  "\<exists>cs w' w2. NewSimpleClientset env_testing \<lparr>pkg_Scheme = 0, pkg_Codecs = 0, pkg_ParameterCodec = ()\<rparr>
       [FakeForwarder published_forwarder, FakeGateway gw1] env0 = (Inr cs, w') \<and>
     res_Get (gw_fake_resource map_libs (fake_SubmarinerV1alpha1 env_testing cs) ()) (meta_key (gw_Meta gw1)) w' =
       (Inr gw1, w2)"
proof -
  obtain cs w' where run: "NewSimpleClientset env_testing \<lparr>pkg_Scheme = 0, pkg_Codecs = 0, pkg_ParameterCodec = ()\<rparr>
      [FakeForwarder published_forwarder, FakeGateway gw1] env0 = (Inr cs, w')"
    by (simp add: NewSimpleClientset_def env_testing_def io_eval)
  from fake_clientset_holds [OF env_testing_laws run, THEN conjunct2, rule_format, OF HOL.refl, of map_libs "()"]
  have "\<exists>w2. res_Get (gw_fake_resource map_libs (fake_SubmarinerV1alpha1 env_testing cs) ()) (meta_key (gw_Meta gw1)) w' =
       (Inr gw1, w2)"
    by (elim conjE allE [of _ "[]"] allE [of _ gw1]) simp
  with run show ?thesis by blast
qed

end
