(* ===== verification/Unrepaired.thy ===== *)
theory Unrepaired
  imports AgentRuns
begin

text \<open>
  What the passes of the agents do not repair. Tunnels and ssh servers run in goroutines, which
  retry with exponential backoff and give up after a time. The agents look into their tables
  only: an entry is never started a second time. A forwarder whose tunnel has ended still finds
  its rules synced; a gateway whose server has ended finds that out and records its rules as
  synced again, in turns, without starting the server.
\<close>

section \<open>Goroutines that give up\<close>

text \<open>
  The goroutine of \<^verbatim>\<open>ForwardNB\<close> and \<^verbatim>\<open>RemoteForwardNB\<close>. \<open>retry\<close> is the library's
  \<^verbatim>\<open>backoff.RetryNotify\<close> with the tunnel's backoff; not returning is \<open>None\<close>. The
  operation's error is nil or the error of the forwarding function, which never returns nil.
\<close>

type_synonym 'w attempt = "'w \<Rightarrow> (go_error option \<times> 'w) option"

definition ForwardNB_run ::
  "('w attempt \<Rightarrow> 'w attempt) \<Rightarrow> ('w, 'conn) tunnel_net \<Rightarrow> tunnel \<Rightarrow> 'w attempt" where
  "ForwardNB_run retry net t = retry (\<lambda>w. map_option (\<lambda>(err, w'). (Some err, w')) (Forward net t w))"

definition RemoteForwardNB_run ::
  "('w attempt \<Rightarrow> 'w attempt) \<Rightarrow> ('w, 'conn) tunnel_net \<Rightarrow> tunnel \<Rightarrow> 'w attempt" where
  "RemoteForwardNB_run retry net t = retry (\<lambda>w. map_option (\<lambda>(err, w'). (Some err, w')) (RemoteForward net t w))"

text \<open>
  Exponential backoff stops when more than its maximal time has passed since the first attempt
  began: an operation that ran for longer and then failed is not tried again, and its error
  ends the goroutine.
\<close>

definition gives_up :: "('w attempt \<Rightarrow> 'w attempt) \<Rightarrow> ('w \<Rightarrow> nat) \<Rightarrow> nat \<Rightarrow> bool" where
  "gives_up retry clock limit \<longleftrightarrow>
     (\<forall>op w e w'. op w = Some (Some e, w') \<and> clock w + limit < clock w' \<longrightarrow> retry op w = Some (Some e, w'))"

lemma goroutine_ends:
  assumes "gives_up retry clock limit" and "clock w + limit < clock w'"
  shows "Forward net t w = Some (e, w') \<Longrightarrow> ForwardNB_run retry net t w = Some (Some e, w')"
    and "RemoteForward net t w = Some (e, w') \<Longrightarrow> RemoteForwardNB_run retry net t w = Some (Some e, w')"
  using assms by (simp_all add: gives_up_def ForwardNB_run_def RemoteForwardNB_run_def)

section \<open>An entry of the table is not started again\<close>

lemma grange_Nil: "range_order ord \<Longrightarrow> grange ord [] = []"
  using set_grange [of ord "[]"] by simp

lemma deleteUnused_none:
  assumes "range_order ord" and "dom (map_of tbl) \<subseteq> dom (map_of expected)"
  shows "deleteUnused ord expected (tbl, g) = (tbl, g)"
proof -
  have "filter (\<lambda>x. map_of expected (fst x) = None) (grange ord tbl) = []"
    using assms(2) by (auto simp: filter_empty_conv set_grange [OF assms(1)])
  then show ?thesis by (simp add: deleteUnused_def delete_fold)
qed

lemma ensureTunnels_none:
  assumes "range_order ord1" and "range_order ord2"
    and "dom (map_of expected) \<subseteq> dom (map_of tbl)"
  shows "ensureTunnels ord1 ord2 start expected (tbl, g) = Inr (tbl, g)"
proof -
  have "foldR (ensureStep start tbl) ks ([], g) = Inr ([], g)" if "set ks \<subseteq> dom (map_of tbl)" for ks
    using that by (induction ks) (auto simp: ensureStep_app)
  moreover have "set (map fst (grange ord1 expected)) \<subseteq> dom (map_of tbl)"
    using assms(3) by (auto simp: set_grange [OF assms(1)])
  ultimately show ?thesis by (simp add: ensureTunnels_def grange_Nil [OF assms(2)])
qed

lemma update_none:
  assumes "range_order o1" and "range_order o2" and "range_order o3"
  shows "dom (map_of (f_tunnels f)) = dom (map_of expected) \<Longrightarrow>
      updateSSHTunnel o1 o2 o3 expected (f, g) = Inr (f, g)"
    and "dom (map_of (f_remoteTunnels f)) = dom (map_of expected) \<Longrightarrow>
      updateRemoteSSHTunnel o1 o2 o3 expected (f, g) = Inr (f, g)"
  using assms
  by (simp_all add: updateSSHTunnel_def deleteUnusedSSHTunnel_def ensureSSHTunnel_def
      updateRemoteSSHTunnel_def deleteUnusedRemoteSSHTunnel_def ensureRemoteSSHTunnel_def
      deleteUnused_none ensureTunnels_none)

text \<open>Applying rules whose tunnels are in the tables changes nothing of the agent's own.\<close>

lemma fwd_sync_again:
  assumes "\<And>n. range_order (ords n)" and "isTunnelRunning (ag_f s) x"
    and "dom (map_of (f_tunnels (ag_f s))) \<subseteq> egress_key x ` set (fwd_EgressRules (fwd_Spec x))"
    and "dom (map_of (f_remoteTunnels (ag_f s))) \<subseteq> ingress_key ` set (fwd_IngressRules (fwd_Spec x))"
  shows "ag_own (snd (fwd_syncRule ords ipt x s)) = ag_own s"
proof -
  have "dom (map_of (f_tunnels (ag_f s))) = dom (map_of (getExpectedSSHTunnel x))"
    and "dom (map_of (f_remoteTunnels (ag_f s))) = dom (map_of (getExpectedRemoteSSHTunnel x))"
    using assms(2-4) by (auto simp: isTunnelRunning_def list_all_iff set_gkeys expected_tunnels)
  note own = update_none(1) [OF assms(1) assms(1) assms(1), of "ag_f s", OF this(1)]
    update_none(2) [OF assms(1) assms(1) assms(1), of "ag_f s", OF this(2)]
  have "onOwn (updateSSHTunnel (ords 0) (ords 1) (ords 2) (getExpectedSSHTunnel x)) s = (Inr (), s)"
    "onOwn (updateRemoteSSHTunnel (ords 3) (ords 4) (ords 5) (getExpectedRemoteSSHTunnel x)) s = (Inr (), s)"
    using own [of _ _ _ "ag_go s"] by (simp_all add: onOwn_def)
  then show ?thesis by (simp add: fwd_syncRule_def io_eval onEnv_def split: prod.split)
qed

lemma fwd_check_again: "ag_own (snd (fwd_ruleSynced ords ipt x s)) = ag_own s"
  by (simp add: fwd_ruleSynced_cases onEnv_def split: prod.split)

section \<open>Passes that leave an agent's own state alone\<close>

context sync_agent
begin

lemma pass_keeps_own:
  assumes C: "conditions_laws L look" and mine: "mine (ag_own s) namespace name"
    and get: "res_Get R \<lparr>nn_Namespace = namespace, nn_Name = name\<rparr> (ag_env s) = (Inr x, e)"
    and syncs: "\<And>y t. spec y = spec x \<Longrightarrow> ag_own t = ag_own s \<Longrightarrow> ag_own (snd (syncRule p y t)) = ag_own s"
    and checks: "\<And>t. ag_own t = ag_own s \<Longrightarrow> ag_own (snd (ruleSynced p x t)) = ag_own s"
  shows "ag_own (snd (reconcile L p R namespace name s)) = ag_own s"
proof (cases "needSync L x")
  case True
  let ?s = "s\<lparr>ag_env := e\<rparr>"
  have "ag_own (snd (andThen (syncRule p y) (\<lambda>_. andThen (onEnv (setSynced L R y)) (\<lambda>_. ret ())) t)) = ag_own s"
    if "spec y = spec x" "ag_own t = ag_own s" for y t
    using syncs [OF that] by (cases "syncRule p y t")
      (simp add: andThen_def ret_def onEnv_def split: prod.split sum.split)
  moreover have "spec y = spec x" if "setSyncing L R x w = (Inr y, w')" for y w w'
    using setSyncing [OF C, of x R] that by (auto simp: run_Inr split: if_splits)
  moreover obtain r e1 where "setSyncing L R x e = (r, e1)" by fastforce
  then have "onEnv (setSyncing L R x) ?s = (r, s\<lparr>ag_env := e1\<rparr>)" by (simp add: onEnv_def)
  ultimately show ?thesis using \<open>setSyncing L R x e = (r, e1)\<close>
    by (cases r) (simp_all add: reconcile_mine [OF mine get] True andThen_def [of "onEnv (setSyncing L R x)"])
next
  case False
  show ?thesis
  proof (cases "needCheckSync L x")
    case True
    have "ag_own (snd (andThen (ruleSynced p x) (\<lambda>synced.
        if \<not> synced then andThen (onEnv (setSyncing L R x)) (\<lambda>_. ret ()) else ret ()) (s\<lparr>ag_env := e\<rparr>))) = ag_own s"
      using checks [of "s\<lparr>ag_env := e\<rparr>"]
      by (cases "ruleSynced p x (s\<lparr>ag_env := e\<rparr>)") (simp add: andThen_def ret_def onEnv_def split: prod.split sum.split)
    with True False show ?thesis by (simp add: reconcile_mine [OF mine get])
  qed (use False in \<open>simp add: reconcile_mine [OF mine get] ret_def\<close>)
qed

text \<open>
  A pass over a recorded resource whose check fails. The check may be that of another host
  than the one whose laws are known.
\<close>

lemma pass_flags:
  assumes C: "conditions_laws L look" and S: "server_laws v p R" and x: "holds v p namespace name s x"
    and due: "check_due (view look x)"
    and fails: "\<And>t. \<exists>t'. ruleSynced q x t = (Inr False, t') \<and> ag_own t' = ag_own t \<and>
       v (ag_env t') = v (ag_env t) \<and> tables_of p (ag_env t') = tables_of p (ag_env t)"
  shows "\<exists>s' y. reconcile L q R namespace name s = (Inr (), s') \<and>
    holds v p namespace name s' y \<and> spec y = spec x \<and> view look y = mark_syncing (view look x) \<and>
    ag_own s' = ag_own s"
proof -
  let ?k = "\<lparr>nn_Namespace = namespace, nn_Name = name\<rparr>"
  from x have mine: "mine (ag_own s) namespace name" by (simp add: holds_def)
  from read_stored [OF S x] obtain e where get: "res_Get R ?k (ag_env s) = (Inr x, e)"
    and xe: "holds v p namespace name (s\<lparr>ag_env := e\<rparr>) x" by blast
  have check: "needCheckSync L x" using due by (simp add: needCheckSync [OF C])
  with not_both [OF C] have no: "\<not> needSync L x" by blast
  from fails [of "s\<lparr>ag_env := e\<rparr>"] obtain t where
    run: "ruleSynced q x (s\<lparr>ag_env := e\<rparr>) = (Inr False, t)" and own: "ag_own t = ag_own s"
    and vt: "v (ag_env t) = v e" and tt: "tables_of p (ag_env t) = tables_of p e" by auto
  have key: "meta_key (meta_of x) = ?k" and st: "v (ag_env t) ?k = Some x" and ok: "ok p t"
    using xe frame [of p t "s\<lparr>ag_env := e\<rparr>"] own tt vt by (simp_all add: holds_def)
  from setSyncing [OF C, of x R] due obtain y where
    y: "view look y = mark_syncing (view look x)" "meta_of y = meta_of x" "spec y = spec x"
    and one: "setSyncing L R x = andThen (res_StatusUpdate R y) (\<lambda>_. ret y)"
    by (auto simp: check_due_def)
  from status_update [OF S, of "ag_env t" y x] obtain x' e1 rv where
    up: "res_StatusUpdate R y (ag_env t) = (Inr x', e1)" and x': "x' = put_status rv y x"
    and v1: "v e1 = (v (ag_env t))(?k \<mapsto> x')" and tv1: "tables_of p e1 = tables_of p (ag_env t)"
    using st by (auto simp: y key)
  have "reconcile L q R namespace name s = (Inr (), t\<lparr>ag_env := e1\<rparr>)"
    by (simp add: reconcile_mine [OF mine get] no check io_eval run one onEnv_def up)
  moreover have "holds v p namespace name (t\<lparr>ag_env := e1\<rparr>) x'"
    using mine ok v1 by (simp add: holds_def env_ok [OF tv1] own x' put_status key)
  moreover have "spec x' = spec x" "view look x' = mark_syncing (view look x)"
    by (simp_all add: x' put_status y)
  ultimately show ?thesis using own by fastforce
qed

text \<open>
  A failing check and the pass after it, which applies the rules and records them again. If
  applying leaves the agent's own state alone, nothing but the environment has changed.
\<close>

lemma flap_cycle:
  assumes C: "conditions_laws L look" and S: "server_laws v p R" and x: "holds v p namespace name s x"
    and due: "check_due (view look x)" and poss: "possible x"
    and fails: "\<And>t. \<exists>t'. ruleSynced q x t = (Inr False, t') \<and> ag_own t' = ag_own t \<and>
       v (ag_env t') = v (ag_env t) \<and> tables_of p (ag_env t') = tables_of p (ag_env t)"
    and same: "syncRule q = syncRule p"
    and syncs: "\<And>y t. spec y = spec x \<Longrightarrow> ag_own t = ag_own s \<Longrightarrow> ag_own (snd (syncRule p y t)) = ag_own s"
  shows "\<exists>s1 s2 y z. reconcile L q R namespace name s = (Inr (), s1) \<and>
    reconcile L q R namespace name s1 = (Inr (), s2) \<and>
    holds v p namespace name s1 y \<and> view look y = mark_syncing (view look x) \<and>
    holds v p namespace name s2 z \<and> check_due (view look z) \<and> sv_rule (view look z) = sv_rule (view look x) \<and>
    spec z = spec x \<and> ag_own s1 = ag_own s \<and> ag_own s2 = ag_own s"
proof -
  let ?k = "\<lparr>nn_Namespace = namespace, nn_Name = name\<rparr>"
  from pass_flags [where q = q, OF C S x due fails] obtain s1 y where
    one: "reconcile L q R namespace name s = (Inr (), s1)" and y: "holds v p namespace name s1 y"
    and sp: "spec y = spec x" and vy: "view look y = mark_syncing (view look x)" and own1: "ag_own s1 = ag_own s"
    by blast
  have need: "needSync L y"
    using due by (auto simp: needSync [OF C] vy sync_due_def mark_syncing_def check_due_def)
  moreover have "possible y" using poss spec_only(2) [OF sp] by simp
  moreover have "sv_syncing (view look y) = Some ConditionTrue" by (simp add: vy mark_syncing_def)
  ultimately obtain s2 z where two: "reconcile L p R namespace name s1 = (Inr (), s2)"
    and z: "holds v p namespace name s2 z" "spec z = spec y" "check_due (view look z)"
      "sv_rule (view look z) = sv_rule (view look y)"
    using pass_finishes [OF C S y] by blast
  from y have mine: "mine (ag_own s1) namespace name" by (simp add: holds_def)
  from read_stored [OF S y] obtain e where get: "res_Get R ?k (ag_env s1) = (Inr y, e)" by blast
  have "reconcile L q R namespace name s1 = reconcile L p R namespace name s1"
    by (simp add: reconcile_mine [OF mine get] need same)
  moreover have "andThen (onEnv (setSyncing L R y)) (\<lambda>y. andThen (syncRule p y) (\<lambda>_.
      andThen (onEnv (setSynced L R y)) (\<lambda>_. ret ()))) (s1\<lparr>ag_env := e\<rparr>) = (Inr (), s2)"
    using two by (simp add: reconcile_mine [OF mine get] need)
  then have "ag_own s2 = ag_own s"
  proof -
    assume run: "andThen (onEnv (setSyncing L R y)) (\<lambda>y. andThen (syncRule p y) (\<lambda>_.
      andThen (onEnv (setSynced L R y)) (\<lambda>_. ret ()))) (s1\<lparr>ag_env := e\<rparr>) = (Inr (), s2)"
    then obtain y' e1 t where set: "setSyncing L R y e = (Inr y', e1)"
      and mid: "syncRule p y' (s1\<lparr>ag_env := e1\<rparr>) = (Inr (), t)" and own: "ag_own s2 = ag_own t"
      by (auto simp: agent_run)
    from setSyncing [OF C, of y R] set have "spec y' = spec x"
      using sp by (auto simp: run_Inr split: if_splits)
    from syncs [OF this, of "s1\<lparr>ag_env := e1\<rparr>"] mid own1 own show ?thesis by simp
  qed
  ultimately show ?thesis
    using one two y z sp vy own1 by (intro exI [of _ s1] exI [of _ s2] exI [of _ y] exI [of _ z])
      (simp add: mark_syncing_def)
qed

lemma flaps:
  assumes C: "conditions_laws L look" and S: "server_laws v p R" and x: "holds v p namespace name s x"
    and due: "check_due (view look x)" and poss: "possible x"
    and fails: "\<And>y t. \<exists>t'. ruleSynced q y t = (Inr False, t') \<and> ag_own t' = ag_own t \<and>
       v (ag_env t') = v (ag_env t) \<and> tables_of p (ag_env t') = tables_of p (ag_env t)"
    and same: "syncRule q = syncRule p"
    and syncs: "\<And>y t. spec y = spec x \<Longrightarrow> ag_own t = ag_own s \<Longrightarrow> ag_own (snd (syncRule p y t)) = ag_own s"
  defines "P \<equiv> \<lambda>i. ((\<lambda>s. snd (reconcile L q R namespace name s)) ^^ i) s"
  shows "\<exists>z y. holds v p namespace name (P (2 * n)) z \<and> holds v p namespace name (P (Suc (2 * n))) y \<and>
    check_due (view look z) \<and> view look y = mark_syncing (view look z) \<and>
    sv_rule (view look z) = sv_rule (view look x) \<and>
    (\<forall>i \<in> {2 * n, Suc (2 * n)}. ag_own (P i) = ag_own s \<and>
       fst (reconcile L q R namespace name (P i)) = Inr ())"
proof -
  let ?Q = "\<lambda>t z. holds v p namespace name t z \<and> check_due (view look z) \<and>
    sv_rule (view look z) = sv_rule (view look x) \<and> spec z = spec x \<and> ag_own t = ag_own s"
  have cycle: "\<exists>s1 s2 y z'. reconcile L q R namespace name t = (Inr (), s1) \<and>
      reconcile L q R namespace name s1 = (Inr (), s2) \<and>
      holds v p namespace name s1 y \<and> view look y = mark_syncing (view look z) \<and>
      ag_own s1 = ag_own s \<and> ?Q s2 z'" if "?Q t z" for t z
  proof -
    have "possible z" using poss spec_only(2) [of z x] that by simp
    moreover have "ag_own (snd (syncRule p y t')) = ag_own t" if "spec y = spec z" "ag_own t' = ag_own t" for y t'
      using syncs [of y t'] that \<open>?Q t z\<close> by simp
    ultimately show ?thesis
      using flap_cycle [where q = q and s = t and x = z, OF C S _ _ _ fails same] that by (metis (no_types, lifting))
  qed
  have step: "P (Suc i) = snd (reconcile L q R namespace name (P i))" for i by (simp add: P_def)
  have "\<exists>z. ?Q (P (2 * n)) z" for n
  proof (induction n)
    case 0
    then show ?case using x due by (auto simp: P_def)
  next
    case (Suc n)
    then obtain z where "?Q (P (2 * n)) z" by blast
    from cycle [OF this] step [of "2 * n"] step [of "Suc (2 * n)"] show ?case by auto
  qed
  then obtain z where z: "?Q (P (2 * n)) z" by blast
  from cycle [OF z] obtain s1 s2 y where
    "reconcile L q R namespace name (P (2 * n)) = (Inr (), s1)" "reconcile L q R namespace name s1 = (Inr (), s2)"
    "holds v p namespace name s1 y" "view look y = mark_syncing (view look z)" "ag_own s1 = ag_own s" by blast
  with z step [of "2 * n"] show ?thesis by (intro exI [of _ z] exI [of _ y]) simp
qed

end

section \<open>Tunnels that are lost\<close>

text \<open>
  C17: A tunnel that ends late is never replaced. When the function of a tunnel returns its
  error after the maximal time of the backoff, the goroutine of the tunnel has ended; no pass
  over the Forwarder, whatever the environment answers, starts a tunnel or cancels one, and
  the check of the tunnels still finds them all running.
\<close>

theorem lost_tunnel_stays_lost:
  assumes "gives_up retry clock limit" and "clock w + limit < clock w'"
    and "conditions_laws L look" and "\<And>n. range_order (ords n)" and "fwd_applied tv fwd s"
    and "f_namespace (ag_f s) = namespace" and "f_name (ag_f s) = name"
    and "res_Get R \<lparr>nn_Namespace = namespace, nn_Name = name\<rparr> (ag_env s) = (Inr stored, e)"
    and "fwd_Spec stored = fwd_Spec fwd"
  shows "(\<forall>t err. t \<in> ran (map_of (f_tunnels (ag_f s))) \<and> Forward net t w = Some (err, w') \<longrightarrow>
      ForwardNB_run retry net t w = Some (Some err, w')) \<and>
    (\<forall>t err. t \<in> ran (map_of (f_remoteTunnels (ag_f s))) \<and> RemoteForward net t w = Some (err, w') \<longrightarrow>
      RemoteForwardNB_run retry net t w = Some (Some err, w')) \<and>
    ag_own (snd (fwd_Reconcile L ords R ipt namespace name s)) = ag_own s \<and>
    isTunnelRunning (ag_f s) stored"
proof -
  have ap: "fwd_applied tv stored s" using assms(5,9) expected_spec_only by blast
  let ?h = "\<lparr>h_ords = ords, h_ipt = ipt, h_tables = tv\<rparr>"
  have running: "isTunnelRunning (ag_f s) y \<and>
      dom (map_of (f_tunnels (ag_f s))) \<subseteq> egress_key y ` set (fwd_EgressRules (fwd_Spec y)) \<and>
      dom (map_of (f_remoteTunnels (ag_f s))) \<subseteq> ingress_key ` set (fwd_IngressRules (fwd_Spec y))"
    if "fwd_Spec y = fwd_Spec stored" for y
  proof -
    have "fwd_applied tv y s" using ap that expected_spec_only by blast
    then show ?thesis by (auto simp: isTunnelRunning_def list_all_iff set_gkeys fwd_applied_def expected_tunnels)
  qed
  have "ag_own (snd (fwd_syncRule ords ipt y t)) = ag_own s"
    if "fwd_Spec y = fwd_Spec stored" "ag_own t = ag_own s" for y t
    using fwd_sync_again [of ords t y ipt, OF assms(4)] running [OF that(1)] that(2) by simp
  then have "ag_own (snd (fwd_Reconcile L (h_ords ?h) R (h_ipt ?h) namespace name s)) = ag_own s"
    using assms(6,7)
    by (intro fwd_agent.pass_keeps_own [where p = ?h, OF assms(3) _ assms(8)])
       (simp_all add: fwd_mine_def fwd_check_again)
  then show ?thesis using goroutine_ends [OF assms(1,2)] running [of stored] by (simp, blast)
qed

text \<open>
  A run of it: the clock counts seconds, and the first connection for the ingress tunnel comes
  after 1,000 of them and finds the workload's port closed.
\<close>

definition clock_net :: "(nat, unit) tunnel_net" where
  "clock_net = \<lparr>net_DialServer = \<lambda>_. ret (), net_CloseServer = \<lambda>w. w, net_Listen = \<lambda>_. ret (),
     net_ListenRemote = \<lambda>_. ret (), net_CloseListener = \<lambda>w. w, net_Accept = (\<lambda>w. (Inr (), w + 1000)),
     net_DialTCP = \<lambda>_ _. fail (ApiError ''refused''), net_Dial = \<lambda>_. fail (ApiError ''refused''),
     net_CloseConn = \<lambda>_ w. w, net_serve = \<lambda>_ _ w. w, net_done = \<lambda>_ _. False, net_tick = \<lambda>w. w\<rparr>"

definition retry_15min :: "nat attempt \<Rightarrow> nat attempt" where
  "retry_15min op w = (case op w of
       Some (Some e, w') \<Rightarrow> if w + 900 < w' then Some (Some e, w') else None
     | r \<Rightarrow> r)"

lemma clock_run:
  "gives_up retry_15min id 900" "RemoteForward clock_net t 0 = Some (ApiError ''refused'', 1000)"
  by (simp_all add: gives_up_def retry_15min_def RemoteForward_def clock_net_def ret_def fail_def acceptLoop_def
      forever.simps acceptRound_def)

theorem lost_tunnel_stays_lost_witness:
  "\<exists>s t. t \<in> ran (map_of (f_remoteTunnels (ag_f s))) \<and>
     RemoteForwardNB_run retry_15min clock_net t 0 = Some (Some (ApiError ''refused''), 1000) \<and>
     ag_own (snd (fwd_Reconcile map_libs (\<lambda>_. rev) fwdR env_ipt ''external-services'' ''es1'' s)) = ag_own s"
proof -
  from fwd_agent.pass_marks [OF map_libs_laws env_servers(1) fwd0_holds TrueI published_due(1) published_not_yet]
  obtain s y where h: "fwd_agent.holds fwd_view_of fwd_host ''external-services'' ''es1'' s y"
    and ap: "fwd_applied env_tv published_forwarder s" and sp: "fwd_Spec y = fwd_Spec published_forwarder"
    by auto
  from fwd_agent.read_stored [OF env_servers(1) h] obtain e where
    get: "res_Get fwdR \<lparr>nn_Namespace = ''external-services'', nn_Name = ''es1''\<rparr> (ag_env s) = (Inr y, e)" by blast
  from h have mine: "f_namespace (ag_f s) = ''external-services''" "f_name (ag_f s) = ''es1''"
    by (simp_all add: fwd_agent.holds_def fwd_mine_def)
  from ap have "ingress_key (test_ingress_rule ''2049'') \<in> dom (map_of (f_remoteTunnels (ag_f s)))"
    by (simp add: fwd_applied_def published_forwarder_def)
  then obtain t where t: "t \<in> ran (map_of (f_remoteTunnels (ag_f s)))" by (auto simp: ran_def)
  have "id 0 + 900 < id (1000::nat)" by simp
  from lost_tunnel_stays_lost [where ords = "\<lambda>_. rev" and net = clock_net and ipt = env_ipt,
      OF clock_run(1) this map_libs_laws range_order_rev ap mine get sp] t clock_run(2)
  show ?thesis by blast
qed

section \<open>Servers that are lost\<close>

definition sshd_closed :: "('w, 'conn) gw_host \<Rightarrow> bool" where
  "sshd_closed h \<longleftrightarrow> (\<forall>ip w conn. fst (gh_dial h (JoinHostPort ip SSHPort) w) \<noteq> Inr (Some conn))"

lemma checkSshd_closed:
  assumes "sshd_closed h"
  shows "\<exists>w'. checkSshdRunning (gh_dial h) (gh_close h) ip w = (Inr False, w')"
proof -
  obtain r w' where dial: "gh_dial h (JoinHostPort ip SSHPort) w = (r, w')" by fastforce
  with assms have "r \<noteq> Inr (Some conn)" for conn by (metis fst_conv sshd_closed_def)
  with dial show ?thesis
    by (cases r; cases "projr r") (auto simp: checkSshdRunning_def IsPortOpen_def split: option.split)
qed

lemma gw_check_closed:
  assumes "sshd_closed h" and "dial_quiet v h" and "dial_quiet (h_tables h) h"
  shows "\<exists>t'. gw_check h gw t = (Inr False, t') \<and> ag_own t' = ag_own t \<and>
    v (ag_env t') = v (ag_env t) \<and> h_tables h (ag_env t') = h_tables h (ag_env t)"
proof -
  from checkSshd_closed [OF assms(1)] obtain w' where
    run: "checkSshdRunning (gh_dial h) (gh_close h) (gw_GatewayIP (gw_Spec gw)) (ag_env t) = (Inr False, w')" by blast
  from quietD [OF checkSshd_quiet [OF assms(2)] run] quietD [OF checkSshd_quiet [OF assms(3)] run] run
  show ?thesis by (simp add: gw_check_def gw_ruleSynced_def io_eval onEnv_def)
qed

lemma gw_sync_again:
  assumes "map_of (g_ssh (ag_g t)) (gw_GatewayIP (gw_Spec y)) \<noteq> None"
  shows "ag_own (snd (gw_syncRule ords ipt y t)) = ag_own t"
proof -
  have "ensureSshdRunning (gw_GatewayIP (gw_Spec y)) (ag_own t) = Inr (ag_own t)"
    using assms by (cases "ag_own t") (simp add: ensureSshdRunning_def)
  with gw_syncRule_runs [of y t ords ipt] show ?thesis by (auto simp: onEnv_def split: prod.split)
qed

text \<open>The state after \<open>i\<close> passes over a Gateway.\<close>

definition gw_passes ::
  "'c libs \<Rightarrow> ('w, 'conn) gw_host \<Rightarrow> ('w, 'c gateway) resource \<Rightarrow> string \<Rightarrow> string \<Rightarrow> nat \<Rightarrow> 'w gw_agent \<Rightarrow> 'w gw_agent" where
  "gw_passes L h R namespace name i s =
     ((\<lambda>s. snd (gw_Reconcile L (h_ords h) R (h_ipt h) (gh_dial h) (gh_close h) namespace name s)) ^^ i) s"

text \<open>
  C18: A lost ssh server is never replaced either. While nothing listens on the ssh port of a
  Gateway that is in the agent's table and recorded as synced, the passes alternate for ever:
  one finds the server gone and marks the Gateway as syncing, the next records it as synced at
  the same generation. All of them succeed, and none starts a server.
\<close>

theorem gateway_flaps:
  assumes "conditions_laws L look" and "resource_laws v (\<lambda>x. meta_key (gw_Meta x)) put_gw_status R"
    and "versioned v gw_Meta R" and "available v gw_Meta R"
    and "writes_quiet (h_tables h) R" and "reads_quiet (h_tables h) R"
    and "gw_laws h" and "host_works h v" and "dial_quiet v h" and "sshd_closed h"
    and "gw_ok (h_tables h) s" and "g_namespace (ag_g s) = namespace"
    and "meta_key (gw_Meta gw) = \<lparr>nn_Namespace = namespace, nn_Name = name\<rparr>"
    and "v (ag_env s) \<lparr>nn_Namespace = namespace, nn_Name = name\<rparr> = Some gw"
    and "ipv4_of (gw_GatewayIP (gw_Spec gw)) \<noteq> None" and "gw_needCheckSync L gw"
    and "map_of (g_ssh (ag_g s)) (gw_GatewayIP (gw_Spec gw)) \<noteq> None"
  shows "\<exists>synced syncing.
    v (ag_env (gw_passes L h R namespace name (2 * n) s)) \<lparr>nn_Namespace = namespace, nn_Name = name\<rparr> = Some synced \<and>
    v (ag_env (gw_passes L h R namespace name (Suc (2 * n)) s)) \<lparr>nn_Namespace = namespace, nn_Name = name\<rparr> =
      Some syncing \<and>
    gw_needCheckSync L synced \<and> gw_needSync L syncing \<and>
    gw_SyncGeneration (gw_Status synced) = gw_RuleGeneration (gw_Status gw) \<and>
    (\<forall>i \<in> {2 * n, Suc (2 * n)}. ag_own (gw_passes L h R namespace name i s) = ag_own s \<and>
       fst (gw_Reconcile L (h_ords h) R (h_ipt h) (gh_dial h) (gh_close h) namespace name
         (gw_passes L h R namespace name i s)) = Inr ())"
proof -
  let ?p = "h\<lparr>gh_dial := \<lambda>_. ret (Some undefined)\<rparr>"
  have p: "h_ords ?p = h_ords h" "h_ipt ?p = h_ipt h" "h_tables ?p = h_tables h" by simp_all
  have "gw_laws ?p" using assms(7) by (simp add: gw_laws_def host_laws_def dial_quiet_def)
  moreover have "gw_works ?p v" using assms(8,9)
    by (simp add: gw_works_def host_works_def dial_quiet_def sshd_open_def ret_def quiet_def)
  ultimately have S: "gw_agent.server_laws v ?p R" using assms(2-6) by (simp add: gw_agent.server_laws_def)
  have H: "gw_agent.holds v ?p namespace name s gw" using assms(11-14)
    by (simp add: gw_agent.holds_def gw_mine_def)
  have due: "check_due (gw_view look gw)" using assms(16) by (simp add: gw_sync.needCheckSync [OF assms(1)])
  have closed: "\<exists>t'. gw_check h y t = (Inr False, t') \<and> ag_own t' = ag_own t \<and>
      v (ag_env t') = v (ag_env t) \<and> h_tables ?p (ag_env t') = h_tables ?p (ag_env t)" for y :: "'a gateway" and t
    using gw_check_closed [OF assms(10,9)] assms(7) by (simp add: gw_laws_def)
  have again: "ag_own (snd (gw_syncRule (h_ords ?p) (h_ipt ?p) y t)) = ag_own s"
    if "gw_Spec y = gw_Spec gw" "ag_own t = ag_own s" for y t
    using gw_sync_again [of t y] that assms(17) by simp
  have same: "gw_syncRule (h_ords h) (h_ipt h) = gw_syncRule (h_ords ?p) (h_ipt ?p)" by simp
  from gw_agent.flaps [where q = h and n = n, OF assms(1) S H due assms(15) closed same again,
      folded gw_passes_def] obtain z y where
    "gw_agent.holds v ?p namespace name (gw_passes L h R namespace name (2 * n) s) z"
    "gw_agent.holds v ?p namespace name (gw_passes L h R namespace name (Suc (2 * n)) s) y"
    and z: "check_due (gw_view look z)" "sv_rule (gw_view look z) = sv_rule (gw_view look gw)"
    and y: "gw_view look y = mark_syncing (gw_view look z)"
    and runs: "\<forall>i \<in> {2 * n, Suc (2 * n)}. ag_own (gw_passes L h R namespace name i s) = ag_own s \<and>
       fst (gw_Reconcile L (h_ords h) R (h_ipt h) (gh_dial h) (gh_close h) namespace name
         (gw_passes L h R namespace name i s)) = Inr ()"
    by blast
  then have "v (ag_env (gw_passes L h R namespace name (2 * n) s)) \<lparr>nn_Namespace = namespace, nn_Name = name\<rparr> = Some z"
    "v (ag_env (gw_passes L h R namespace name (Suc (2 * n)) s)) \<lparr>nn_Namespace = namespace, nn_Name = name\<rparr> = Some y"
    by (simp_all add: gw_agent.holds_def)
  moreover have "gw_needSync L y"
    using z(1) by (auto simp: gw_sync.needSync [OF assms(1)] y sync_due_def mark_syncing_def check_due_def)
  moreover have "gw_needCheckSync L z" using z(1) by (simp add: gw_sync.needCheckSync [OF assms(1)])
  moreover have "gw_SyncGeneration (gw_Status z) = gw_RuleGeneration (gw_Status gw)"
    using z by (simp add: check_due_def gw_view_def)
  ultimately show ?thesis using runs by blast
qed

text \<open>A gateway with a recorded Gateway and a closed port.\<close>

definition gw_recorded :: "test_conds gateway" where
  "gw_recorded = gw1\<lparr>gw_Status := (gw_Status gw1)
     \<lparr>gw_Conditions := [ConditionRuleUpdating \<mapsto> ConditionFalse, ConditionRuleSyncing \<mapsto> ConditionFalse],
      gw_SyncGeneration := 8\<rparr>\<rparr>"

definition gw_lost :: "env gw_agent" where
  "gw_lost =
     (let ip = gw_GatewayIP (gw_Spec gw1); srv = NewSSHServer (ip @ '':'' @ SSHPort)
      in \<lparr>ag_own = (\<lparr>g_namespace = ''external-services'', g_ssh = [(ip, srv)]\<rparr>, [srv]),
          ag_env = env0\<lparr>env_gws := [(gw1_key, gw_recorded)]\<rparr>\<rparr>)"

definition gwh_closed :: "(env, unit) gw_host" where
  "gwh_closed = gwh\<lparr>gh_dial := \<lambda>_. ret None\<rparr>"

lemma gw_lost_ok:
  "gw_ok env_tv gw_lost" "g_namespace (ag_g gw_lost) = ''external-services''"
  "meta_key (gw_Meta gw_recorded) = \<lparr>nn_Namespace = ''external-services'', nn_Name = ''gwrulec0a87ac8''\<rparr>"
  "gw_view_of (ag_env gw_lost) \<lparr>nn_Namespace = ''external-services'', nn_Name = ''gwrulec0a87ac8''\<rparr> = Some gw_recorded"
  "ipv4_of (gw_GatewayIP (gw_Spec gw_recorded)) \<noteq> None" "gw_needCheckSync map_libs gw_recorded"
  "map_of (g_ssh (ag_g gw_lost)) (gw_GatewayIP (gw_Spec gw_recorded)) \<noteq> None"
proof -
  have st: "gw_RuleGeneration (gw_Status gw1) = 8" by (simp add: gw1_def published_gateway_def)
  show "gw_ok env_tv gw_lost" "g_namespace (ag_g gw_lost) = ''external-services''"
    "gw_view_of (ag_env gw_lost) \<lparr>nn_Namespace = ''external-services'', nn_Name = ''gwrulec0a87ac8''\<rparr> = Some gw_recorded"
    "map_of (g_ssh (ag_g gw_lost)) (gw_GatewayIP (gw_Spec gw_recorded)) \<noteq> None"
    by (auto simp: gw_lost_def gw_recorded_def gw_ok_def sshds_ok_def sshd_running_def env_tv_def env0_def
        Let_def gw1_key_def)
  show "meta_key (gw_Meta gw_recorded) = \<lparr>nn_Namespace = ''external-services'', nn_Name = ''gwrulec0a87ac8''\<rparr>"
    "ipv4_of (gw_GatewayIP (gw_Spec gw_recorded)) \<noteq> None" "gw_needCheckSync map_libs gw_recorded"
    by (simp_all add: gw_recorded_def gw1_due(3) gw_ips gw_needCheckSync_def map_libs_def st)
qed

lemma gwh_closed_ok:
  "gw_laws gwh_closed" "host_works gwh_closed gw_view_of" "dial_quiet gw_view_of gwh_closed" "sshd_closed gwh_closed"
  "h_tables gwh_closed = env_tv"
  using hosts_ok(3,4)
  by (simp_all add: gwh_closed_def gw_laws_def gw_works_def host_laws_def host_works_def dial_quiet_def sshd_closed_def ret_def quiet_def)

theorem gateway_flaps_witness:
  "\<exists>synced. gw_view_of (ag_env (gw_passes map_libs gwh_closed gwR ''external-services'' ''gwrulec0a87ac8'' 6 gw_lost))
       \<lparr>nn_Namespace = ''external-services'', nn_Name = ''gwrulec0a87ac8''\<rparr> = Some synced \<and>
     gw_needCheckSync map_libs synced \<and>
     ag_own (gw_passes map_libs gwh_closed gwR ''external-services'' ''gwrulec0a87ac8'' 6 gw_lost) = ag_own gw_lost"
proof -
  have q: "writes_quiet (h_tables gwh_closed) gwR" "reads_quiet (h_tables gwh_closed) gwR"
    by (simp_all add: gwR_laws gwh_closed_ok)
  have ok: "gw_ok (h_tables gwh_closed) gw_lost" by (simp add: gw_lost_ok gwh_closed_ok)
  from gateway_flaps [where n = 3, OF map_libs_laws gwR_laws(1-3) q gwh_closed_ok(1-4) ok gw_lost_ok(2-)]
  show ?thesis by auto
qed

end
