(* ===== verification/MockIptables.thy ===== *)
theory MockIptables
  imports Iptables
begin

text \<open>
  The generated mock of the iptables interface (\<^verbatim>\<open>pkg/util/mock_util/mock_util.go\<close>), on
  which the unit tests run \<^verbatim>\<open>appendChains\<close> and \<^verbatim>\<open>checkChainsExist\<close>. The
  controller behind it is the library gomock, the record \<open>gomock\<close>: it records expected calls
  and answers calls from them.
\<close>

section \<open>The code\<close>

text \<open>A value of the empty interface, as far as the mock looks at it.\<close>

datatype iface = INil | IString string | IBool bool | IError go_error | IOther nat

text \<open>\<^verbatim>\<open>v, _ := x.(T)\<close>: the zero value when \<^verbatim>\<open>x\<close> is not a \<^verbatim>\<open>T\<close>.\<close>

fun as_error :: "iface \<Rightarrow> go_error option" where
  "as_error (IError e) = Some e"
| "as_error _ = None"

fun as_bool :: "iface \<Rightarrow> bool" where
  "as_bool (IBool b) = b"
| "as_bool _ = False"

text \<open>\<^verbatim>\<open>xs[i]\<close>, which panics out of range.\<close>

definition at_index :: "'a list \<Rightarrow> nat \<Rightarrow> ('w, 'a) io" where
  "at_index xs i = (if i < length xs then ret (xs ! i) else fail GoPanic)"

text \<open>
  A call that nothing expects ends the test (\<^verbatim>\<open>T.Fatalf\<close>), here \<open>Inl\<close>. The type of a
  method (\<^verbatim>\<open>reflect.TypeOf\<close>) is \<open>'mt\<close>, a recorded call \<open>'call\<close>.
\<close>

record ('w, 'mt, 'call) gomock =
  gm_Helper :: "'w \<Rightarrow> 'w"
  gm_Call :: "string \<Rightarrow> iface list \<Rightarrow> ('w, iface list) io"
  gm_TypeOf :: "string \<Rightarrow> 'mt"
  gm_RecordCallWithMethodType :: "string \<Rightarrow> 'mt \<Rightarrow> iface list \<Rightarrow> 'w \<Rightarrow> 'call \<times> 'w"

text \<open>A mock and its recorder point to each other; both have the controller and nothing else.\<close>

record ('w, 'mt, 'call) mock_iptables =
  mi_ctrl :: "('w, 'mt, 'call) gomock"

record ('w, 'mt, 'call) mock_recorder =
  mr_mock :: "('w, 'mt, 'call) mock_iptables"

definition NewMockIptables :: "('w, 'mt, 'call) gomock \<Rightarrow> ('w, 'mt, 'call) mock_iptables" where
  "NewMockIptables ctrl = \<lparr>mi_ctrl = ctrl\<rparr>"

definition EXPECT :: "('w, 'mt, 'call) mock_iptables \<Rightarrow> ('w, 'mt, 'call) mock_recorder" where
  "EXPECT m = \<lparr>mr_mock = m\<rparr>"

definition Mock_ClearChain ::
  "('w, 'mt, 'call) mock_iptables \<Rightarrow> string \<Rightarrow> string \<Rightarrow> 'w \<Rightarrow> go_error option result \<times> 'w" where
  "Mock_ClearChain m table chain w =
     (let w = gm_Helper (mi_ctrl m) w
      in andThen (gm_Call (mi_ctrl m) ''ClearChain'' [IString table, IString chain]) (\<lambda>rets.
         andThen (at_index rets 0) (\<lambda>ret0.
         ret (as_error ret0))) w)"

definition Recorder_ClearChain ::
  "('w, 'mt, 'call) mock_recorder \<Rightarrow> iface \<Rightarrow> iface \<Rightarrow> 'w \<Rightarrow> 'call \<times> 'w" where
  "Recorder_ClearChain mr table chain w =
     (let ctrl = mi_ctrl (mr_mock mr);
          w = gm_Helper ctrl w
      in gm_RecordCallWithMethodType ctrl ''ClearChain'' (gm_TypeOf ctrl ''ClearChain'') [table, chain] w)"

definition Mock_AppendUnique ::
  "('w, 'mt, 'call) mock_iptables \<Rightarrow> string \<Rightarrow> string \<Rightarrow> string list \<Rightarrow> 'w \<Rightarrow> go_error option result \<times> 'w" where
  "Mock_AppendUnique m table chain rule w =
     (let w = gm_Helper (mi_ctrl m) w;
          varargs = fold (\<lambda>a varargs. varargs @ [IString a]) rule [IString table, IString chain]
      in andThen (gm_Call (mi_ctrl m) ''AppendUnique'' varargs) (\<lambda>rets.
         andThen (at_index rets 0) (\<lambda>ret0.
         ret (as_error ret0))) w)"

definition Recorder_AppendUnique ::
  "('w, 'mt, 'call) mock_recorder \<Rightarrow> iface \<Rightarrow> iface \<Rightarrow> iface list \<Rightarrow> 'w \<Rightarrow> 'call \<times> 'w" where
  "Recorder_AppendUnique mr table chain rule w =
     (let ctrl = mi_ctrl (mr_mock mr);
          w = gm_Helper ctrl w;
          varargs = [table, chain] @ rule
      in gm_RecordCallWithMethodType ctrl ''AppendUnique'' (gm_TypeOf ctrl ''AppendUnique'') varargs w)"

definition Mock_Exists ::
  "('w, 'mt, 'call) mock_iptables \<Rightarrow> string \<Rightarrow> string \<Rightarrow> string list
     \<Rightarrow> 'w \<Rightarrow> (bool \<times> go_error option) result \<times> 'w" where
  "Mock_Exists m table chain rule w =
     (let w = gm_Helper (mi_ctrl m) w;
          varargs = fold (\<lambda>a varargs. varargs @ [IString a]) rule [IString table, IString chain]
      in andThen (gm_Call (mi_ctrl m) ''Exists'' varargs) (\<lambda>rets.
         andThen (at_index rets 0) (\<lambda>ret0.
         andThen (at_index rets 1) (\<lambda>ret1.
         ret (as_bool ret0, as_error ret1)))) w)"

definition Recorder_Exists ::
  "('w, 'mt, 'call) mock_recorder \<Rightarrow> iface \<Rightarrow> iface \<Rightarrow> iface list \<Rightarrow> 'w \<Rightarrow> 'call \<times> 'w" where
  "Recorder_Exists mr table chain rule w =
     (let ctrl = mi_ctrl (mr_mock mr);
          w = gm_Helper ctrl w;
          varargs = [table, chain] @ rule
      in gm_RecordCallWithMethodType ctrl ''Exists'' (gm_TypeOf ctrl ''Exists'') varargs w)"

section \<open>A mock in place of iptables\<close>

text \<open>
  The mock as the interface that \<^verbatim>\<open>appendChains\<close> takes: an error that is not nil is
  the failure of the operation.
\<close>

definition raising :: "('w \<Rightarrow> go_error option result \<times> 'w) \<Rightarrow> ('w, unit) io" where
  "raising m = andThen m (\<lambda>err. case err of None \<Rightarrow> ret () | Some e \<Rightarrow> fail e)"

definition as_iptables :: "('w, 'mt, 'call) mock_iptables \<Rightarrow> 'w iptables" where
  "as_iptables m =
     \<lparr>ipt_New = ret (),
      ipt_ClearChain = (\<lambda>t c. raising (Mock_ClearChain m t c)),
      ipt_AppendUnique = (\<lambda>t c r. raising (Mock_AppendUnique m t c r)),
      ipt_Exists = (\<lambda>t c r. andThen (Mock_Exists m t c r) (\<lambda>(b, err). case err of None \<Rightarrow> ret b | Some e \<Rightarrow> fail e))\<rparr>"

text \<open>
  \<open>exps w\<close> are the calls that are expected and have not come yet, each with its method, its
  arguments and what it returns. Recording a call expects it once, to return zero values; a
  call that is expected is answered and no longer expected, any other ends the test.
\<close>

type_synonym expected_call = "string \<times> iface list \<times> iface list"

definition gomock_laws :: "('w, 'mt, 'call) gomock \<Rightarrow> ('w \<Rightarrow> expected_call multiset) \<Rightarrow> bool" where
  "gomock_laws M exps \<longleftrightarrow>
     (\<forall>w. exps (gm_Helper M w) = exps w) \<and>
     (\<forall>n args w. exps (snd (gm_RecordCallWithMethodType M n (gm_TypeOf M n) args w)) =
        add_mset (n, args, if n = ''Exists'' then [IBool False, INil] else [INil]) (exps w)) \<and>
     (\<forall>n args w. case gm_Call M n args w of
        (Inl e, w') \<Rightarrow> \<forall>rets. (n, args, rets) \<notin># exps w
      | (Inr rets, w') \<Rightarrow> (n, args, rets) \<in># exps w \<and> exps w' = exps w - {#(n, args, rets)#})"

lemma gomock_lawsD:
  assumes "gomock_laws M exps"
  shows "exps (gm_Helper M w) = exps w"
    and "n \<noteq> ''Exists'' \<Longrightarrow> exps (snd (gm_RecordCallWithMethodType M n (gm_TypeOf M n) args w)) =
      add_mset (n, args, [INil]) (exps w)"
    and "gm_Call M n args w = (Inl e, w') \<Longrightarrow> (n, args, rets) \<notin># exps w"
    and "gm_Call M n args w = (Inr rets, w') \<Longrightarrow> (n, args, rets) \<in># exps w \<and> exps w' = exps w - {#(n, args, rets)#}"
proof -
  show "exps (gm_Helper M w) = exps w"
    and "n \<noteq> ''Exists'' \<Longrightarrow> exps (snd (gm_RecordCallWithMethodType M n (gm_TypeOf M n) args w)) =
      add_mset (n, args, [INil]) (exps w)" using assms by (simp_all add: gomock_laws_def)
  have "case gm_Call M n args w of (Inl e, w') \<Rightarrow> \<forall>rets. (n, args, rets) \<notin># exps w
      | (Inr rets, w') \<Rightarrow> (n, args, rets) \<in># exps w \<and> exps w' = exps w - {#(n, args, rets)#}"
    using assms unfolding gomock_laws_def by (elim conjE) simp
  then show "gm_Call M n args w = (Inl e, w') \<Longrightarrow> (n, args, rets) \<notin># exps w"
    and "gm_Call M n args w = (Inr rets, w') \<Longrightarrow> (n, args, rets) \<in># exps w \<and> exps w' = exps w - {#(n, args, rets)#}"
    by simp_all
qed

section \<open>The calls of a run\<close>

datatype ipt_call = ClearCall string | AppendCall string "string list"

text \<open>A call on an iptables, the expectation of it on a recorder, and what gomock sees of it.\<close>

fun do_call :: "'w iptables \<Rightarrow> string \<Rightarrow> ipt_call \<Rightarrow> ('w, unit) io" where
  "do_call ipt table (ClearCall c) = ipt_ClearChain ipt table c"
| "do_call ipt table (AppendCall c r) = ipt_AppendUnique ipt table c r"

fun expect_call :: "('w, 'mt, 'call) mock_recorder \<Rightarrow> string \<Rightarrow> ipt_call \<Rightarrow> 'w \<Rightarrow> 'w" where
  "expect_call mr table (ClearCall c) w = snd (Recorder_ClearChain mr (IString table) (IString c) w)"
| "expect_call mr table (AppendCall c r) w =
     snd (Recorder_AppendUnique mr (IString table) (IString c) (map IString r) w)"

fun seen :: "string \<Rightarrow> ipt_call \<Rightarrow> expected_call" where
  "seen table (ClearCall c) = (''ClearChain'', [IString table, IString c], [INil])"
| "seen table (AppendCall c r) = (''AppendUnique'', [IString table, IString c] @ map IString r, [INil])"

text \<open>The calls that \<^verbatim>\<open>appendChains\<close> should make.\<close>

definition chain_calls :: "chains \<Rightarrow> bool \<Rightarrow> ipt_call list" where
  "chain_calls expected flash =
     (if flash then map ClearCall (gkeys expected) else []) @
     concat (map (\<lambda>(chain, rules). map (AppendCall chain) rules) expected)"

lemma inj_seen: "inj (seen table)"
proof (rule injI)
  fix x y assume "seen table x = seen table y"
  then show "x = y" by (cases x; cases y) (auto simp: inj_map_eq_map inj_def)
qed

lemma varargs_eq: "fold (\<lambda>a varargs. varargs @ [IString a]) rule xs = xs @ map IString rule"
  by (induction rule arbitrary: xs) simp_all

lemma expected_calls:
  assumes "gomock_laws M exps"
  shows "exps (fold (expect_call (EXPECT (NewMockIptables M)) table) cs w) = image_mset (seen table) (mset cs) + exps w"
proof (induction cs arbitrary: w)
  case (Cons c cs)
  have "exps (expect_call (EXPECT (NewMockIptables M)) table c w) = add_mset (seen table c) (exps w)"
    by (cases c) (simp_all add: Recorder_ClearChain_def Recorder_AppendUnique_def EXPECT_def NewMockIptables_def
        gomock_lawsD(1,2) [OF assms] Let_def)
  with Cons show ?case by simp
qed simp

text \<open>One call: it succeeds if it is expected, and takes its expectation away.\<close>

lemma raising_call:
  assumes laws: "gomock_laws M exps" and exps: "exps w = image_mset (seen table) E"
    and c: "seen table c = (n, args, [INil])"
  shows "case raising (andThen (gm_Call M n args) (\<lambda>rets. andThen (at_index rets 0) (\<lambda>ret0. ret (as_error ret0)))) w of
      (Inl e, w') \<Rightarrow> c \<notin># E
    | (Inr u, w') \<Rightarrow> c \<in># E \<and> exps w' = image_mset (seen table) (E - {#c#})"
proof -
  have one: "(n, args, rets) \<in># exps w \<Longrightarrow> rets = [INil] \<and> c \<in># E" for rets
  proof -
    assume "(n, args, rets) \<in># exps w"
    then obtain d where d: "d \<in># E" "seen table d = (n, args, rets)" by (auto simp: exps)
    then have "rets = [INil]" by (cases d) auto
    with d c injD [OF inj_seen] show ?thesis by metis
  qed
  obtain r w' where call: "gm_Call M n args w = (r, w')" by fastforce
  show ?thesis
  proof (cases r)
    case (Inl e)
    have "c \<notin># E"
    proof
      assume "c \<in># E"
      then have "(n, args, [INil]) \<in># exps w" using c by (auto simp: exps intro: image_eqI [of _ _ c])
      with gomock_lawsD(3) [OF laws call [unfolded Inl]] show False by blast
    qed
    with call Inl show ?thesis by (simp add: raising_def io_eval)
  next
    case (Inr rets)
    from gomock_lawsD(4) [OF laws call [unfolded Inr]] one [of rets]
    have "rets = [INil]" "c \<in># E" "exps w' = exps w - {#(n, args, rets)#}" by auto
    moreover from this have "exps w' = image_mset (seen table) (E - {#c#})"
      by (simp add: exps c [symmetric] image_mset_Diff)
    ultimately show ?thesis using call Inr by (simp add: raising_def io_eval at_index_def)
  qed
qed

lemma do_call_mock:
  assumes laws: "gomock_laws M exps" and exps: "exps w = image_mset (seen table) E"
  shows "case do_call (as_iptables (NewMockIptables M)) table c w of
      (Inl e, w') \<Rightarrow> c \<notin># E
    | (Inr u, w') \<Rightarrow> c \<in># E \<and> exps w' = image_mset (seen table) (E - {#c#})"
proof -
  have h: "exps (gm_Helper M w) = image_mset (seen table) E" using gomock_lawsD(1) [OF laws] exps by simp
  show ?thesis
  proof (cases c)
    case (ClearCall chain)
    have "do_call (as_iptables (NewMockIptables M)) table c w =
        raising (andThen (gm_Call M ''ClearChain'' [IString table, IString chain])
          (\<lambda>rets. andThen (at_index rets 0) (\<lambda>ret0. ret (as_error ret0)))) (gm_Helper M w)"
      by (simp add: ClearCall as_iptables_def raising_def andThen_def Mock_ClearChain_def NewMockIptables_def Let_def)
    with raising_call [OF laws h, of c] ClearCall show ?thesis by simp
  next
    case (AppendCall chain rule)
    have "do_call (as_iptables (NewMockIptables M)) table c w =
        raising (andThen (gm_Call M ''AppendUnique'' ([IString table, IString chain] @ map IString rule))
          (\<lambda>rets. andThen (at_index rets 0) (\<lambda>ret0. ret (as_error ret0)))) (gm_Helper M w)"
      by (simp add: AppendCall as_iptables_def raising_def andThen_def Mock_AppendUnique_def NewMockIptables_def
          Let_def varargs_eq)
    with raising_call [OF laws h, of c] AppendCall show ?thesis by simp
  qed
qed

text \<open>A list of calls succeeds if all of them are expected.\<close>

lemma do_calls_mock:
  assumes laws: "gomock_laws M exps" and "exps w = image_mset (seen table) E"
  shows "case foldE (\<lambda>c _. do_call (as_iptables (NewMockIptables M)) table c) cs () w of
      (Inl e, w') \<Rightarrow> \<not> mset cs \<subseteq># E
    | (Inr u, w') \<Rightarrow> mset cs \<subseteq># E \<and> exps w' = image_mset (seen table) (E - mset cs)"
  using assms(2)
proof (induction cs arbitrary: w E)
  case (Cons c cs)
  obtain r w1 where one: "do_call (as_iptables (NewMockIptables M)) table c w = (r, w1)" by fastforce
  note c = do_call_mock [OF laws Cons.prems, of c]
  show ?case
  proof (cases r)
    case (Inl e)
    with c one show ?thesis by (auto simp: io_eval dest: mset_subset_eqD)
  next
    case (Inr u)
    with c one have "c \<in># E" and "exps w1 = image_mset (seen table) (E - {#c#})" by auto
    with Cons.IH [OF this(2)] show ?thesis
      using one Inr by (auto simp: io_eval insert_subset_eq_iff split: prod.splits sum.splits)
  qed
qed (simp add: ret_def)

lemma exact_calls:
  assumes "gomock_laws M exps" and "exps w = image_mset (seen table) (mset calls)"
  shows "(\<exists>w'. foldE (\<lambda>c _. do_call (as_iptables (NewMockIptables M)) table c) cs () w = (Inr (), w') \<and> exps w' = {#}) \<longleftrightarrow>
    mset calls = mset cs"
proof (cases "foldE (\<lambda>c _. do_call (as_iptables (NewMockIptables M)) table c) cs () w")
  case (Pair r w')
  with do_calls_mock [OF assms, of cs] show ?thesis
    by (cases r) (auto simp: Diff_eq_empty_iff_mset intro: subset_mset.antisym)
qed

section \<open>What a test with the mock decides\<close>

lemma foldE_append: "foldE f (xs @ ys) u = andThen (foldE f xs u) (foldE f ys)"
proof (induction xs arbitrary: u)
  case (Cons x xs)
  have "foldE f (xs @ ys) = (\<lambda>u. andThen (foldE f xs u) (foldE f ys))" by (rule ext) (rule Cons.IH)
  then show ?case by (simp add: fun_eq_iff andThen_def split: prod.split sum.split)
qed (simp add: fun_eq_iff andThen_def ret_def)

lemma foldE_map: "foldE f (map g xs) u = foldE (\<lambda>x. f (g x)) xs u"
proof (induction xs arbitrary: u)
  case (Cons x xs)
  have "foldE f (map g xs) = foldE (\<lambda>x. f (g x)) xs" by (rule ext) (rule Cons.IH)
  then show ?case by simp
qed simp

lemma foldE_map_fun: "foldE f (map g xs) = foldE (\<lambda>x. f (g x)) xs"
  by (rule ext) (rule foldE_map)

lemma mset_concat_map: "mset (concat (map f xs)) = sum_mset (image_mset (\<lambda>x. mset (f x)) (mset xs))"
  by (induction xs) simp_all

lemma foldE_concat: "foldE (\<lambda>x. foldE f (g x)) xs u = foldE f (concat (map g xs)) u"
proof (induction xs arbitrary: u)
  case (Cons x xs)
  have "foldE (\<lambda>x. foldE f (g x)) xs = foldE f (concat (map g xs))" by (rule ext) (rule Cons.IH)
  then show ?case by (simp add: foldE_append)
qed simp

text \<open>The accumulator of the two loops says nothing.\<close>

lemma unit_fun: "(\<lambda>_ :: unit. f ()) = f"
  by (simp add: fun_eq_iff)

lemma appendChains_calls:
  "appendChains ord1 ord2 ipt table expected flash =
     foldE (\<lambda>c _. do_call ipt table c)
       ((if flash then map (\<lambda>x. ClearCall (fst x)) (grange ord1 expected) else []) @
        concat (map (\<lambda>x. map (AppendCall (fst x)) (snd x)) (grange ord2 expected))) ()"
proof -
  let ?loop = "\<lambda>cs. foldE (\<lambda>c _. do_call ipt table c) cs"
  have one: "?loop (map (\<lambda>x. ClearCall (fst x)) (grange ord1 expected)) () =
      foldE (\<lambda>(chain, _) _. ipt_ClearChain ipt table chain) (grange ord1 expected) ()"
    by (simp add: foldE_map split_def)
  have two: "?loop (concat (map (\<lambda>x. map (AppendCall (fst x)) (snd x)) (grange ord2 expected))) () =
      foldE (\<lambda>(chain, rules) _. foldE (\<lambda>rule _. ipt_AppendUnique ipt table chain rule) rules ()) (grange ord2 expected) ()"
    using unit_fun [of "\<lambda>u. foldE (\<lambda>rule _. ipt_AppendUnique ipt table (fst x) rule) (snd x) u" for x]
    by (simp add: foldE_concat [symmetric] foldE_map_fun split_def)
  have "?loop [] = ret" by (simp add: fun_eq_iff)
  then show ?thesis
    unfolding appendChains_def foldE_append [of _ _ _ "()"]
    by (subst unit_fun [of "?loop (concat (map (\<lambda>x. map (AppendCall (fst x)) (snd x)) (grange ord2 expected)))", symmetric])
       (simp only: one [symmetric] two [symmetric] if_distrib [of ?loop] split: if_split, simp)
qed

lemma mset_grange: "range_order ord \<Longrightarrow> gomap_ok m \<Longrightarrow> mset (grange ord m) = mset m"
proof -
  assume o: "range_order ord" and m: "gomap_ok m"
  then have "distinct (grange ord m)" "distinct m"
    using distinct_grange by (auto simp: distinct_map gomap_ok_def gkeys_def)
  moreover have "set (grange ord m) = set m"
    using o m by (auto simp: set_grange gomap_ok_def gkeys_def map_of_eq_Some_iff)
  ultimately show ?thesis by (simp add: set_eq_iff_mset_eq_distinct)
qed

text \<open>
  C40: A unit test with the mock pins down the calls. Let a test expect a list of calls on a new
  mock and then run \<^verbatim>\<open>appendChains\<close>. The run succeeds and leaves no expectation open if
  and only if the list has exactly the calls for the chains it was given, each as often as it
  comes there: one \<^verbatim>\<open>ClearChain\<close> for each chain when it has to be cleared and one
  \<^verbatim>\<open>AppendUnique\<close> for each rule; the order of Go's maps does not matter.
\<close>

theorem mock_accepts_exactly:
  assumes "gomock_laws M exps" and "range_order ord1" and "range_order ord2" and "gomap_ok expected"
    and "exps w = {#}"
  shows "(\<exists>w'. appendChains ord1 ord2 (as_iptables (NewMockIptables M)) table expected flash
        (fold (expect_call (EXPECT (NewMockIptables M)) table) calls w) = (Inr (), w') \<and> exps w' = {#}) \<longleftrightarrow>
     mset calls = mset (chain_calls expected flash)"
proof -
  let ?cs = "(if flash then map (\<lambda>x. ClearCall (fst x)) (grange ord1 expected) else []) @
    concat (map (\<lambda>x. map (AppendCall (fst x)) (snd x)) (grange ord2 expected))"
  let ?w = "fold (expect_call (EXPECT (NewMockIptables M)) table) calls w"
  have "mset (map f (grange ord1 expected)) = mset (map f expected)" for f :: "_ \<Rightarrow> ipt_call"
    using mset_grange [OF assms(2,4)] by simp
  moreover have "mset (concat (map f (grange ord2 expected))) = mset (concat (map f expected))" for f :: "_ \<Rightarrow> ipt_call list"
    using mset_grange [OF assms(3,4)] by (simp add: mset_concat_map)
  ultimately have cs: "mset ?cs = mset (chain_calls expected flash)"
    by (simp add: chain_calls_def gkeys_def split_def comp_def)
  have "exps ?w = image_mset (seen table) (mset calls)" using expected_calls [OF assms(1)] assms(5) by simp
  from exact_calls [OF assms(1) this, of ?cs] show ?thesis unfolding appendChains_calls cs [symmetric] .
qed

text \<open>A check that is expected is answered, by default with false and no error.\<close>

lemma mock_exists:
  assumes laws: "gomock_laws M exps" and none: "exps w = {#}"
  shows "\<exists>w'. Mock_Exists (NewMockIptables M) table chain rule
      (snd (Recorder_Exists (EXPECT (NewMockIptables M)) (IString table) (IString chain) (map IString rule) w)) =
      (Inr (False, None), w') \<and> exps w' = {#}"
proof -
  let ?args = "[IString table, IString chain] @ map IString rule"
  let ?w = "snd (Recorder_Exists (EXPECT (NewMockIptables M)) (IString table) (IString chain) (map IString rule) w)"
  have "exps (snd (gm_RecordCallWithMethodType M ''Exists'' (gm_TypeOf M ''Exists'') ?args (gm_Helper M w))) =
      add_mset (''Exists'', ?args, [IBool False, INil]) (exps (gm_Helper M w))"
    using laws unfolding gomock_laws_def by (elim conjE) simp
  then have w: "exps (gm_Helper M ?w) = {#(''Exists'', ?args, [IBool False, INil])#}"
    using none by (simp add: gomock_lawsD(1) [OF laws] Recorder_Exists_def EXPECT_def NewMockIptables_def Let_def)
  obtain r w' where call: "gm_Call M ''Exists'' ?args (gm_Helper M ?w) = (r, w')" by fastforce
  then have "r = Inr [IBool False, INil] \<and> exps w' = {#}"
    using gomock_lawsD(3,4) [OF laws, of "''Exists''" ?args "gm_Helper M ?w"] w by (cases r) auto
  with call show ?thesis
    by (simp add: Mock_Exists_def NewMockIptables_def Let_def varargs_eq io_eval at_index_def)
qed

section \<open>A run\<close>

text \<open>A controller whose world is the list of the calls it still expects.\<close>

definition list_gomock :: "(expected_call list, unit, unit) gomock" where
  "list_gomock =
     \<lparr>gm_Helper = (\<lambda>w. w),
      gm_Call = (\<lambda>n args w. case find (\<lambda>(m, as, rets). m = n \<and> as = args) w of
          None \<Rightarrow> (Inl GoPanic, w)
        | Some e \<Rightarrow> (Inr (snd (snd e)), remove1 e w)),
      gm_TypeOf = (\<lambda>_. ()),
      gm_RecordCallWithMethodType = (\<lambda>n _ args w.
        ((), w @ [(n, args, if n = ''Exists'' then [IBool False, INil] else [INil])]))\<rparr>"

lemma list_gomock_laws: "gomock_laws list_gomock mset"
proof -
  have "case gm_Call list_gomock n args w of (Inl e, w') \<Rightarrow> \<forall>rets. (n, args, rets) \<notin># mset w
      | (Inr rets, w') \<Rightarrow> (n, args, rets) \<in># mset w \<and> mset w' = mset w - {#(n, args, rets)#}" for n args w
  proof (cases "find (\<lambda>(m, as, rets). m = n \<and> as = args) w")
    case None
    then have "\<forall>rets. (n, args, rets) \<notin> set w" by (auto simp: find_None_iff)
    moreover have "gm_Call list_gomock n args w = (Inl GoPanic, w)" using None by (simp add: list_gomock_def)
    ultimately show ?thesis by simp
  next
    case (Some e)
    then have "e \<in> set w" "fst e = n" "fst (snd e) = args" by (auto simp: find_Some_iff) (metis nth_mem)
    moreover have "gm_Call list_gomock n args w = (Inr (snd (snd e)), remove1 e w)" using Some by (simp add: list_gomock_def)
    moreover have "e = (n, args, snd (snd e))" using calculation by (simp add: prod_eq_iff)
    ultimately show ?thesis by simp
  qed
  then show ?thesis by (simp add: gomock_laws_def list_gomock_def)
qed

theorem mock_accepts_exactly_witness:
  "\<exists>w'. appendChains rev rev (as_iptables (NewMockIptables list_gomock)) TableNAT test_chains True
     (fold (expect_call (EXPECT (NewMockIptables list_gomock)) TableNAT)
       [AppendCall ChainPrerouting [''-j'', ''a''], AppendCall ChainPrerouting [''-j'', ''a''],
        AppendCall ChainPrerouting [''-j'', ''b''], ClearCall ChainPrerouting] []) = (Inr (), w') \<and> mset w' = {#}"
proof -
  have "mset [AppendCall ChainPrerouting [''-j'', ''a''], AppendCall ChainPrerouting [''-j'', ''a''],
        AppendCall ChainPrerouting [''-j'', ''b''], ClearCall ChainPrerouting] = mset (chain_calls test_chains True)"
    by (simp add: chain_calls_def test_chains_def gkeys_def)
  then show ?thesis
    by (subst mock_accepts_exactly [OF list_gomock_laws range_order_rev range_order_rev test_chains_ok]) simp_all
qed

end
