(* ===== verification/Spec2Isabelle.thy ===== *)
theory Spec2Isabelle
  imports ClientRuns EntryRuns TrafficRuns ConnCopy DeepCopyRuns FakeSet Unrepaired MockIptables
begin

text \<open>
  \<^bold>\<open>k8s-ext-connector\<close> connects the services of a Kubernetes cluster with services
  outside of it, with a fixed source address for each direction. An \<^verbatim>\<open>ExternalService\<close>
  names a target outside and the services inside that may talk to it, each with the address of
  the gateway it goes through. This development models the program's three processes and proves
  what makes them correct, one by one and together.

  \<^bold>\<open>The parts.\<close>

  \<^item> The \<^emph>\<open>operator\<close> (\<^verbatim>\<open>pkg/controller/externalservice\<close>) creates a forwarder
    pod and its service for an ExternalService, generates the rules of its Forwarder, and the
    rules of the Gateways from those of all Forwarders. A rule needs a relay port that no other
    rule of the same pod or gateway uses.
  \<^item> The \<^emph>\<open>forwarder's agent\<close> (\<^verbatim>\<open>pkg/forwarder\<close>) runs in the forwarder pod. It
    keeps one ssh tunnel for each rule of its Forwarder and iptables rules that send the traffic
    of the pod into the tunnels.
  \<^item> The \<^emph>\<open>gateway's agent\<close> (\<^verbatim>\<open>pkg/gateway\<close>) runs on the gateway hosts. It runs
    an ssh server for each gateway address and keeps iptables chains that send the traffic of
    external clients into the remote tunnels.
  \<^item> Both agents run under the controller of \<^verbatim>\<open>pkg/util/controller.go\<close>, which takes
    events from an informer through a work queue to \<^verbatim>\<open>Reconcile\<close>, and talk to the API
    server through the generated clients of \<^verbatim>\<open>pkg/client\<close>. Each process wires its parts
    together at its start: \<^verbatim>\<open>forwarder/forwarder.go\<close>,
    \<^verbatim>\<open>gateway/gateway.go\<close>, \<^verbatim>\<open>cmd/manager/main.go\<close>.

  The processes share nothing but the API server. The operator publishes rules by writing the
  spec of a Forwarder or Gateway between two updates of its status: \<open>RuleUpdating\<close> is set,
  the spec is stored, then \<open>RuleUpdating\<close> is cleared, \<open>RuleSyncing\<close> becomes unknown and the
  rule generation is counted up. An agent applies the rules of an object whose generations
  differ, with \<open>RuleSyncing\<close> set meanwhile, and then records the generation as synced.

  \<^bold>\<open>The theories.\<close>

  \<^item> \<^verbatim>\<open>Prelude\<close>: errors as sums, Go maps with their order of ranging as an argument,
    computations on a world with errors (\<open>io\<close>), loops, weakest preconditions.
    \<^verbatim>\<open>GoStd\<close>, \<^verbatim>\<open>GoNet\<close>: what the code uses of Go's library (\<^verbatim>\<open>strconv\<close>,
    \<^verbatim>\<open>net.ParseIP\<close>, \<^verbatim>\<open>net.SplitHostPort\<close>, printing in hexadecimal).
  \<^item> \<^verbatim>\<open>Types\<close>: the custom resources (\<^verbatim>\<open>pkg/apis\<close>), the Kubernetes objects and
    the API client as a record of operations. \<^verbatim>\<open>ApiLaws\<close>: what is assumed of the API
    server, and an in-memory server that satisfies it. \<^verbatim>\<open>Samples\<close>: the objects of the
    repository's unit test.
  \<^item> \<^verbatim>\<open>Util\<close> (\<^verbatim>\<open>util.go\<close>): names of Gateways from addresses, the two conditions.
    \<^verbatim>\<open>Iptables\<close> (\<^verbatim>\<open>iptables.go\<close>): replacing, adding and checking chains;
    \<^verbatim>\<open>MockIptables\<close> (\<^verbatim>\<open>mock_util.go\<close>): the double of iptables that the unit
    tests put in its place.
    \<^verbatim>\<open>Tunnels\<close> (\<^verbatim>\<open>ssh.go\<close>): endpoints, the accept loops of both kinds of tunnel,
    the ssh server's handler. \<^verbatim>\<open>ConnCopy\<close>: the copying of bytes between the two
    connections of a pair, as a step relation of goroutines, peers and the cancellation.
  \<^item> The operator (\<^verbatim>\<open>reconciler.go\<close>, \<^verbatim>\<open>resource.go\<close>,
    \<^verbatim>\<open>externalservice_controller.go\<close>): \<^verbatim>\<open>RelayPorts\<close> (the two allocators of relay
    ports, one contract), \<^verbatim>\<open>OperatorRules\<close> (the rules of Forwarders),
    \<^verbatim>\<open>GatewayRules\<close> (the rules of Gateways), \<^verbatim>\<open>OperatorSpecs\<close> (the created objects
    and the watches), \<^verbatim>\<open>Operator\<close> (\<^verbatim>\<open>Reconcile\<close> and the updates),
    \<^verbatim>\<open>OperatorPublish\<close> (what the updates publish, one contract for both kinds).
  \<^item> The agents: \<^verbatim>\<open>SyncStatus\<close> (both \<^verbatim>\<open>status.go\<close>, one contract),
    \<^verbatim>\<open>TunnelTable\<close> (the tables of tunnels of \<^verbatim>\<open>pkg/forwarder/reconciler.go\<close>,
    one contract for both directions), \<^verbatim>\<open>AgentLoop\<close> (the contract of an agent and what
    follows from it: safety of a pass, the refused first pass, convergence),
    \<^verbatim>\<open>ForwarderAgent\<close> and \<^verbatim>\<open>GatewayAgent\<close> (the code of both).
  \<^item> \<^verbatim>\<open>Controller\<close> (\<^verbatim>\<open>pkg/util/controller.go\<close>): queue, loop and events, the steps
    in which they interleave, the contract of a reconciler. \<^verbatim>\<open>AgentControllers\<close>: both
    agents under the controller, and the way from the operator's update to the agent's tables.
  \<^item> \<^verbatim>\<open>TrafficPath\<close>: the way of a connection in each direction, through the rules and
    tunnels of both agents.
  \<^item> The generated code of \<^verbatim>\<open>pkg/client\<close>: \<^verbatim>\<open>TypedClients\<close> (the
    clients as the requests they build), \<^verbatim>\<open>Informers\<close> (the informer factory),
    \<^verbatim>\<open>Listers\<close> (the readers of an informer's cache, \<^verbatim>\<open>ForResource\<close>),
    \<^verbatim>\<open>Clientset\<close> (how clients are made from a configuration),
    \<^verbatim>\<open>FakeClients\<close> (the clients of unit tests, and an agent on them),
    \<^verbatim>\<open>FakeSet\<close> (the clientset of unit tests, with its tracker and reactions).
    \<^verbatim>\<open>SchemeReg\<close>: how the types of \<^verbatim>\<open>pkg/apis\<close> get into the scheme of a
    process or of a clientset, and which kinds a scheme knows then.
  \<^item> The generated copies (\<^verbatim>\<open>zz_generated.deepcopy.go\<close>), on memory instead of values:
    \<^verbatim>\<open>GoHeap\<close> (a heap of arrays and maps, slices and pointers into it),
    \<^verbatim>\<open>HeapViews\<close> (what a reference stands for and which cells it reaches; the contract of a
    deep copy), \<^verbatim>\<open>CopyLoops\<close> (the loops over slices, maps and pointers, one contract each),
    \<^verbatim>\<open>DeepCopy\<close> (the code), \<^verbatim>\<open>DeepCopyLaws\<close> (every function follows the contract),
    \<^verbatim>\<open>DeepCopyRuns\<close> (type safety, isolation, a sample heap).
  \<^item> The processes: \<^verbatim>\<open>EntryPoints\<close> (\<^verbatim>\<open>NewController\<close> and the starts of both
    agents), \<^verbatim>\<open>ManagerMain\<close> (the operator's start, its metrics, and the registration of
    types, controllers and watches).
  \<^item> \<^verbatim>\<open>OperatorRuns\<close>, \<^verbatim>\<open>AgentRuns\<close>, \<^verbatim>\<open>ControllerRuns\<close>,
    \<^verbatim>\<open>ClientRuns\<close>, \<^verbatim>\<open>TrafficRuns\<close>, \<^verbatim>\<open>EntryRuns\<close>: runs on concrete objects and
    servers, which show that the hypotheses of the properties can hold together.
    \<^verbatim>\<open>Unrepaired\<close>: what the passes of the agents do not repair, a tunnel or ssh server
    that is lost after its start.

  \<^bold>\<open>How code becomes definitions.\<close> A struct is a record, with a prefix for its field
  names. A function that talks to the outside is a function of a world \<open>'w\<close>, about which
  nothing is assumed, that returns a result or an error and the next world; every early return
  is a branch. A pointer receiver is a record that is returned updated; the agents carry their
  record and the environment together (\<open>agent\<close>), with the goroutines they have started. A Go map
  is an association list, and a function that ranges over maps has their orders as arguments
  (\<open>ords\<close>), over which every property is quantified. Generations are 64 bit words and wrap
  around. Where sharing of memory is the point (the deep copies), a slice, a pointer and a map
  are references into a heap. Libraries and servers are records of functions (\<open>libs\<close>, \<open>client\<close>,
  \<open>iptables\<close>, \<open>tunnel_net\<close>, \<open>workqueue\<close>, \<open>rest\<close>, \<open>rest_lib\<close>, \<open>cache_lib\<close>, \<open>indexer\<close>, \<open>copylib\<close>,
  \<open>sdk\<close>, \<open>fake\<close>, \<open>scheme_lib\<close>, \<open>testing_lib\<close>, \<open>gomock\<close>); what is documented of them are named hypotheses
  (\<open>conditions_laws\<close>, \<open>payload_laws\<close>, \<open>api_laws\<close>, \<open>resource_laws\<close>, \<open>versioned\<close>, \<open>available\<close>,
  \<open>iptables_laws\<close>, \<open>wq_laws\<close>, \<open>key_laws\<close>, \<open>rest_serves\<close>, \<open>indexer_laws\<close>, \<open>copylib_laws\<close>,
  \<open>sdk_laws\<close>, \<open>tracks\<close>, \<open>scheme_laws\<close>, \<open>tracker_laws\<close>, \<open>reactor_laws\<close>, \<open>gomock_laws\<close>,
  \<open>answers\<close>, \<open>lists_stored\<close>, \<open>deletes\<close>), each with an instance on
  which it holds.

  \<^bold>\<open>What the lemmas show.\<close> Rules that are generated together never share a relay
  port for different sources, nor take one that the listed rules use for other requests only;
  the generated rules are those of a specification that is written out field by field, and they
  are partitioned among the gateways (\<^verbatim>\<open>OperatorRules\<close>,
  \<^verbatim>\<open>GatewayRules\<close>). A successful update leaves the generated rules on the API server as
  a request to sync, deletion cleans the gateways, and the finalizer outlives every failure
  of the cleanup (\<^verbatim>\<open>OperatorPublish\<close>). A successful pass of an agent leaves exactly the rules of its
  object in force, other gateways are untouched, in every reachable state the tunnel tables
  tell the truth, and three passes always suffice when the servers work (\<^verbatim>\<open>AgentLoop\<close>,
  \<^verbatim>\<open>ForwarderAgent\<close>, \<^verbatim>\<open>GatewayAgent\<close>). The controller loses no key, never stops,
  and brings what the operator has published into force (\<^verbatim>\<open>Controller\<close>,
  \<^verbatim>\<open>AgentControllers\<close>). Once applied, the rules of both sides fit together: outgoing
  connections reach the target from the gateway's address, incoming ones reach the service
  (\<^verbatim>\<open>TrafficPath\<close>), and the bytes of a connection arrive in order, none lost or invented
  (\<^verbatim>\<open>ConnCopy\<close>). The pod that the operator creates starts an agent for exactly its
  Forwarder, in the state from which the agent's properties are proved
  (\<^verbatim>\<open>EntryPoints\<close>), and the operator does not start without its watches and
  without the types of its resources in the scheme (\<^verbatim>\<open>ManagerMain\<close>,
  \<^verbatim>\<open>SchemeReg\<close>). The fake clientset gives back the objects it was made with, and
  the double of iptables accepts exactly the calls that were expected
  (\<^verbatim>\<open>FakeSet\<close>, \<^verbatim>\<open>MockIptables\<close>). A deep copy is well typed, means the same and shares no cell with the
  original (\<^verbatim>\<open>DeepCopyRuns\<close>). Several properties state where the code does not do what it
  means to: the last relay port is no TCP port, egress rules do not keep their relay ports, ExternalServices whose
  rules have not yet reached a Gateway get the same relay port on it, a
  cancelled tunnel's loop never returns and its connections go on, the first pass of an agent is always refused, deleted
  gateways are retried for ever, a tunnel that gave up is never started again while its rule
  stays, the status of a gateway flaps when its server is gone, and the fake clients do not
  show the refusal.

  \<^bold>\<open>Termination.\<close> There is no fuel. The search for a free port ends by its measure; loops
  over slices and maps are folds; the loops that may run for ever (the accept loops and the
  controller's) are \<open>forever\<close>, a partial function with the value \<open>None\<close> when it does not
  return, and returning is a property of its own.

  \<^bold>\<open>Not modelled.\<close> Flags, logging and the printing of versions; the schedule of the
  retries with exponential backoff, which is library code in goroutines: the model records
  what was started, and of the retries only that they end (\<open>gives_up\<close>). The steps of a
  controller interleave with events, but a pass over one resource is one step: only the API
  server's laws speak of what others do meanwhile.
\<close>

end
